(* ===== verification/Prelude.thy ===== *)
theory Prelude
  imports Complex_Main "HOL-Library.Word" "HOL-Library.AList" "HOL-Library.Sublist"
begin

text \<open>
  Shared vocabulary of the development: the types that stand for Rust's strings, byte vectors,
  machine integers and clocks, the operations of Rust's \<open>str\<close> and \<open>HashMap\<close> the sources call, and
  the lemmas every component uses about them.

  A Rust \<open>String\<close> is its UTF-8 byte sequence, a \<open>Vec<u8>\<close> is its bytes, and both are
  \<^typ>\<open>string\<close> here (a \<^typ>\<open>char\<close> is one byte); \<open>len\<close> is \<^const>\<open>length\<close>, as in Rust.
  Splitting at an ASCII character, prefix tests and concatenation agree with Rust on every string.
  The case mappings and \<open>trim\<close> act on ASCII letters and ASCII white space, which is Rust's result
  on ASCII strings; other letters are outside the model.
\<close>

subsection \<open>Collections of facts\<close>

named_theorems str_simps \<open>evaluation and algebra of the string operations\<close>
named_theorems frame_simps \<open>fields an operation leaves alone\<close>
named_theorems kept \<open>operations that keep a component's invariant\<close>

subsection \<open>Types\<close>

type_synonym u8 = "8 word"
type_synonym u16 = "16 word"
type_synonym u32 = "32 word"
type_synonym u64 = "64 word"

text \<open>Instants and durations are nanoseconds; a Python exception is its message.\<close>

type_synonym instant = nat
type_synonym duration = nat
type_synonym params = "(string \<times> string) list"

abbreviation Ok :: "'a \<Rightarrow> 'e + 'a" where
  "Ok \<equiv> Inr"

abbreviation Err :: "'e \<Rightarrow> 'e + 'a" where
  "Err \<equiv> Inl"

definition secs :: "nat \<Rightarrow> duration" where
  "secs n = n * 1000000000"

definition as_secs :: "duration \<Rightarrow> nat" where
  "as_secs d = d div 1000000000"

definition as_secs_f64 :: "duration \<Rightarrow> real" where
  "as_secs_f64 d = real d / 1000000000"

lemma as_secs_secs [simp]: "as_secs (secs n) = n"
  by (simp add: secs_def as_secs_def)

subsection \<open>Case mapping\<close>

definition lower_char :: "char \<Rightarrow> char" where
  "lower_char c = (let n = of_char c :: nat in if 65 \<le> n \<and> n \<le> 90 then char_of (n + 32) else c)"

definition upper_char :: "char \<Rightarrow> char" where
  "upper_char c = (let n = of_char c :: nat in if 97 \<le> n \<and> n \<le> 122 then char_of (n - 32) else c)"

definition to_lower :: "string \<Rightarrow> string" where
  "to_lower s = map lower_char s"

definition to_upper :: "string \<Rightarrow> string" where
  "to_upper s = map upper_char s"

lemma of_char_char_of_small: "n < 256 \<Longrightarrow> of_char (char_of n) = (n :: nat)"
  by (simp add: of_char_of take_bit_eq_mod)

lemma of_char_lt_256 [simp]: "of_char c < (256 :: nat)"
  by (cases c) (simp add: of_char_def horner_sum_simps)

lemma lower_char_idem [simp]: "lower_char (lower_char c) = lower_char c"
  by (auto simp: lower_char_def Let_def of_char_char_of_small)

lemma upper_char_idem [simp]: "upper_char (upper_char c) = upper_char c"
  by (auto simp: upper_char_def Let_def of_char_char_of_small)

lemma upper_lower_char [simp]: "upper_char (lower_char c) = upper_char c"
  by (auto simp: upper_char_def lower_char_def Let_def of_char_char_of_small)

lemma lower_upper_char [simp]: "lower_char (upper_char c) = lower_char c"
  by (auto simp: upper_char_def lower_char_def Let_def of_char_char_of_small)

lemma to_lower_idem [simp]: "to_lower (to_lower s) = to_lower s"
  by (simp add: to_lower_def)

lemma to_upper_idem [simp]: "to_upper (to_upper s) = to_upper s"
  by (simp add: to_upper_def)

lemma to_upper_lower [simp]: "to_upper (to_lower s) = to_upper s"
  by (simp add: to_upper_def to_lower_def)

lemma to_lower_upper [simp]: "to_lower (to_upper s) = to_lower s"
  by (simp add: to_upper_def to_lower_def)

lemma to_lower_eq_iff: "to_lower a = to_lower b \<longleftrightarrow> to_upper a = to_upper b"
  by (metis to_lower_upper to_upper_lower)

lemma to_lower_simps [str_simps]:
  "to_lower [] = []" "to_lower (c # s) = lower_char c # to_lower s"
  by (simp_all add: to_lower_def)

lemma to_upper_simps [str_simps]:
  "to_upper [] = []" "to_upper (c # s) = upper_char c # to_upper s"
  by (simp_all add: to_upper_def)

lemmas [str_simps] = lower_char_def upper_char_def char_of_def bit_0

subsection \<open>Prefixes, substrings, trimming\<close>

definition starts_with :: "'a list \<Rightarrow> 'a list \<Rightarrow> bool" where
  "starts_with s p = (take (length p) s = p)"

definition ends_with :: "'a list \<Rightarrow> 'a list \<Rightarrow> bool" where
  "ends_with s p = (length p \<le> length s \<and> drop (length s - length p) s = p)"

definition strip_prefix :: "'a list \<Rightarrow> 'a list \<Rightarrow> 'a list option" where
  "strip_prefix s p = (if starts_with s p then Some (drop (length p) s) else None)"

lemma starts_with_iff_prefix: "starts_with s p \<longleftrightarrow> prefix p s"
  unfolding starts_with_def prefix_def by (metis append_eq_conv_conj append_take_drop_id)

lemma starts_with_append [simp]: "starts_with (p @ s) p"
  by (simp add: starts_with_def)

lemma starts_with_Nil [simp]: "starts_with s []"
  by (simp add: starts_with_def)

lemma starts_with_refl [simp]: "starts_with s s"
  by (simp add: starts_with_def)

lemma starts_with_Cons [str_simps]:
  "starts_with (x # s) (y # p) \<longleftrightarrow> x = y \<and> starts_with s p" "\<not> starts_with [] (y # p)"
  by (auto simp: starts_with_def)

lemma ends_with_iff_suffix: "ends_with s p \<longleftrightarrow> suffix p s"
proof
  assume "ends_with s p"
  then show "suffix p s"
    unfolding ends_with_def suffix_def by (metis append_take_drop_id)
next
  assume "suffix p s"
  then show "ends_with s p"
    by (auto simp: ends_with_def suffix_def)
qed

lemma ends_with_append [simp]: "ends_with (s @ p) p"
  by (simp add: ends_with_def)

lemma strip_prefix_append [simp]: "strip_prefix (p @ s) p = Some s"
  by (simp add: strip_prefix_def)

lemma strip_prefix_Some: "strip_prefix s p = Some t \<longleftrightarrow> s = p @ t"
  by (auto simp: strip_prefix_def starts_with_iff_prefix elim: prefixE)

fun contains_sub :: "'a list \<Rightarrow> 'a list \<Rightarrow> bool" where
  "contains_sub [] p = (p = [])"
| "contains_sub (x # s) p = (starts_with (x # s) p \<or> contains_sub s p)"

lemma contains_sub_starts_with: "starts_with s p \<Longrightarrow> contains_sub s p"
  by (cases s) (auto simp: starts_with_def)

lemma contains_sub_iff: "contains_sub s p \<longleftrightarrow> (\<exists>a b. s = a @ p @ b)"
proof
  show "contains_sub s p \<Longrightarrow> \<exists>a b. s = a @ p @ b"
  proof (induction s)
    case (Cons x s)
    show ?case
    proof (cases "starts_with (x # s) p")
      case True
      then show ?thesis by (auto simp: starts_with_iff_prefix prefix_def) (metis append_Nil)
    next
      case False
      with Cons show ?thesis by (auto) (metis append_Cons)
    qed
  qed simp
next
  assume "\<exists>a b. s = a @ p @ b"
  then obtain a b where "s = a @ p @ b" by blast
  then show "contains_sub s p"
  proof (induction a arbitrary: s)
    case Nil
    then show ?case by (simp add: contains_sub_starts_with)
  next
    case (Cons x a)
    then show ?case by simp
  qed
qed

definition is_ws :: "char \<Rightarrow> bool" where
  "is_ws c = (let n = of_char c :: nat in n = 32 \<or> (9 \<le> n \<and> n \<le> 13))"

lemmas [str_simps] = is_ws_def

definition trim_start_by :: "('a \<Rightarrow> bool) \<Rightarrow> 'a list \<Rightarrow> 'a list" where
  "trim_start_by p s = dropWhile p s"

definition trim_end_by :: "('a \<Rightarrow> bool) \<Rightarrow> 'a list \<Rightarrow> 'a list" where
  "trim_end_by p s = rev (dropWhile p (rev s))"

definition trim_by :: "('a \<Rightarrow> bool) \<Rightarrow> 'a list \<Rightarrow> 'a list" where
  "trim_by p s = trim_end_by p (trim_start_by p s)"

abbreviation trim :: "string \<Rightarrow> string" where
  "trim \<equiv> trim_by is_ws"

lemma trim_start_by_id: "s = [] \<or> \<not> p (hd s) \<Longrightarrow> trim_start_by p s = s"
  by (cases s) (auto simp: trim_start_by_def)

lemma trim_end_by_id: "s = [] \<or> \<not> p (last s) \<Longrightarrow> trim_end_by p s = s"
  by (cases s rule: rev_cases) (auto simp: trim_end_by_def)

lemma trim_by_id: "s = [] \<or> \<not> p (hd s) \<and> \<not> p (last s) \<Longrightarrow> trim_by p s = s"
  by (auto simp: trim_by_def trim_start_by_id trim_end_by_id)

lemma trim_end_by_idem [simp]: "trim_end_by p (trim_end_by p s) = trim_end_by p s"
  by (simp add: trim_end_by_def dropWhile_idem)

lemma trim_end_by_last: "trim_end_by p s \<noteq> [] \<Longrightarrow> \<not> p (last (trim_end_by p s))"
  by (simp add: trim_end_by_def last_rev hd_dropWhile)

lemma set_trim_end_by: "set (trim_end_by p s) \<subseteq> set s"
  by (auto simp: trim_end_by_def dest: set_dropWhileD)

subsection \<open>Splitting and joining\<close>

text \<open>\<open>str::split(c)\<close> always yields at least one piece.\<close>

fun split_on :: "'a \<Rightarrow> 'a list \<Rightarrow> 'a list list" where
  "split_on c [] = [[]]"
| "split_on c (x # s) =
     (if x = c then [] # split_on c s
      else (case split_on c s of [] \<Rightarrow> [[x]] | p # ps \<Rightarrow> (x # p) # ps))"

fun join_with :: "'a list \<Rightarrow> 'a list list \<Rightarrow> 'a list" where
  "join_with sep [] = []"
| "join_with sep [p] = p"
| "join_with sep (p # q # ps) = p @ sep @ join_with sep (q # ps)"

lemma split_on_not_Nil [simp]: "split_on c s \<noteq> []"
  by (cases s) (auto split: list.splits)

lemma split_on_no_sep: "p \<in> set (split_on c s) \<Longrightarrow> c \<notin> set p"
  by (induction c s arbitrary: p rule: split_on.induct) (auto split: if_splits list.splits)

lemma split_on_single: "c \<notin> set p \<Longrightarrow> split_on c p = [p]"
  by (induction p) auto

lemma split_on_append: "c \<notin> set p \<Longrightarrow> split_on c (p @ c # s) = p # split_on c s"
  by (induction p) auto

lemma join_with_Cons_Cons: "join_with sep ((x # p) # ps) = x # join_with sep (p # ps)"
  by (cases ps) auto

lemma join_split_on: "join_with [c] (split_on c s) = s"
proof (induction c s rule: split_on.induct)
  case (2 c x s)
  then show ?case
    by (cases "split_on c s") (auto simp: join_with_Cons_Cons)
qed simp

lemma split_join_with:
  "ps \<noteq> [] \<Longrightarrow> (\<And>p. p \<in> set ps \<Longrightarrow> c \<notin> set p) \<Longrightarrow> split_on c (join_with [c] ps) = ps"
proof (induction ps rule: list_nonempty_induct)
  case (single p)
  then show ?case by (simp add: split_on_single)
next
  case (cons p ps)
  then show ?case by (cases ps) (auto simp: split_on_append)
qed

text \<open>\<open>split_once(c)\<close> and \<open>splitn(2, c)\<close>: cut at the first occurrence of \<open>c\<close>.\<close>

fun split_once :: "'a \<Rightarrow> 'a list \<Rightarrow> ('a list \<times> 'a list) option" where
  "split_once c [] = None"
| "split_once c (x # s) =
     (if x = c then Some ([], s) else map_option (\<lambda>(a, b). (x # a, b)) (split_once c s))"

lemma split_once_Some: "split_once c s = Some (a, b) \<longleftrightarrow> s = a @ c # b \<and> c \<notin> set a"
proof (induction s arbitrary: a)
  case (Cons x s)
  then show ?case by (cases a) auto
qed simp

lemma split_once_None: "split_once c s = None \<longleftrightarrow> c \<notin> set s"
  by (induction s) auto

text \<open>Texts cut at a separator that does not occur before it.\<close>

lemma takeWhile_stop: "c \<notin> set xs \<Longrightarrow> takeWhile (\<lambda>x. x \<noteq> c) (xs @ c # ys) = xs"
  by (induction xs) auto

lemma append_sep_eq:
  assumes "c \<notin> set xs" "c \<notin> set ys"
  shows "xs @ c # us = ys @ c # vs \<longleftrightarrow> xs = ys \<and> us = vs"
proof
  assume eq: "xs @ c # us = ys @ c # vs"
  then have "xs = ys" using takeWhile_stop [OF assms(1)] takeWhile_stop [OF assms(2)] by metis
  with eq show "xs = ys \<and> us = vs" by simp
qed simp

subsection \<open>Printing numbers\<close>

definition digit_char :: "nat \<Rightarrow> char" where
  "digit_char n = (if n < 10 then char_of (48 + n) else char_of (87 + n))"

fun show_nat :: "nat \<Rightarrow> string" where
  "show_nat n = (if n < 10 then [digit_char n] else show_nat (n div 10) @ [digit_char (n mod 10)])"

declare show_nat.simps [simp del]

text \<open>\<open>{:016x}\<close> and \<open>{:02x}\<close>: hexadecimal digits, most significant first, zero-padded.\<close>

definition hex_digits :: "nat \<Rightarrow> nat \<Rightarrow> string" where
  "hex_digits w n = map (\<lambda>i. digit_char (n div 16 ^ (w - 1 - i) mod 16)) [0..<w]"

lemma length_hex_digits [simp]: "length (hex_digits w n) = w"
  by (simp add: hex_digits_def)

lemma digit_char_less_10: "n < 10 \<Longrightarrow> of_char (digit_char n) = 48 + n"
  by (simp add: digit_char_def of_char_char_of_small)

lemma show_nat_digits: "c \<in> set (show_nat n) \<Longrightarrow> 48 \<le> (of_char c :: nat) \<and> of_char c \<le> (57 :: nat)"
proof (induction n rule: show_nat.induct)
  case (1 n)
  then show ?case
    by (cases "n < 10") (auto simp: show_nat.simps [of n] digit_char_less_10)
qed

lemma show_nat_not_Nil [simp]: "show_nat n \<noteq> []"
  by (subst show_nat.simps) simp

text \<open>Reading a decimal back; used only to state that printing loses nothing.\<close>

definition read_dec :: "string \<Rightarrow> nat" where
  "read_dec s = foldl (\<lambda>n c. 10 * n + (of_char c - 48)) 0 s"

lemma read_show_nat [simp]: "read_dec (show_nat n) = n"
proof (induction n rule: show_nat.induct)
  case (1 n)
  then show ?case
    by (cases "n < 10") (auto simp: show_nat.simps [of n] read_dec_def digit_char_less_10)
qed

text \<open>
  A pair of a printer and a parser that reads back what was printed (for the values in \<open>ok\<close>). It is
  interpreted on every textual and binary encoding of the program that has a reader.
\<close>

locale codec =
  fixes encode :: "'a \<Rightarrow> 'b"
    and decode :: "'b \<Rightarrow> 'a option"
    and ok :: "'a \<Rightarrow> bool"
  assumes decode_encode: "ok x \<Longrightarrow> decode (encode x) = Some x"
begin

lemma encode_inject: "ok x \<Longrightarrow> ok y \<Longrightarrow> encode x = encode y \<longleftrightarrow> x = y"
  by (metis decode_encode option.inject)

lemma decode_list: "list_all ok xs \<Longrightarrow> map decode (map encode xs) = map Some xs"
  by (simp add: decode_encode list_all_iff)

end

interpretation decimal: codec show_nat "\<lambda>s. Some (read_dec s)" "\<lambda>_. True"
  by unfold_locales simp

lemmas show_nat_inject = decimal.encode_inject [OF TrueI TrueI]

subsection \<open>UTF-8\<close>

text \<open>
  \<open>String::from_utf8\<close> and \<open>str::from_utf8\<close> succeed on well-formed byte sequences only (the table of
  RFC 3629: no overlong forms, no surrogates, nothing above U+10FFFF).
\<close>

definition utf8_cont :: "char \<Rightarrow> bool" where
  "utf8_cont c = (128 \<le> (of_char c :: nat) \<and> of_char c \<le> (191 :: nat))"

fun utf8_valid :: "string \<Rightarrow> bool" where
  "utf8_valid [] = True"
| "utf8_valid (a # s) =
     (let n = of_char a :: nat in
      if n < 128 then utf8_valid s
      else case s of
        [] \<Rightarrow> False
      | b # s2 \<Rightarrow>
          if 194 \<le> n \<and> n \<le> 223 then utf8_cont b \<and> utf8_valid s2
          else case s2 of
            [] \<Rightarrow> False
          | c # s3 \<Rightarrow>
              if 224 \<le> n \<and> n \<le> 239 then
                utf8_cont b \<and> (n = 224 \<longrightarrow> 160 \<le> (of_char b :: nat)) \<and> (n = 237 \<longrightarrow> of_char b \<le> (159 :: nat)) \<and>
                utf8_cont c \<and> utf8_valid s3
              else case s3 of
                [] \<Rightarrow> False
              | d # s4 \<Rightarrow>
                  240 \<le> n \<and> n \<le> 244 \<and>
                  utf8_cont b \<and> (n = 240 \<longrightarrow> 144 \<le> (of_char b :: nat)) \<and> (n = 244 \<longrightarrow> of_char b \<le> (143 :: nat)) \<and>
                  utf8_cont c \<and> utf8_cont d \<and> utf8_valid s4)"

lemma utf8_valid_ascii: "\<forall>c \<in> set s. (of_char c :: nat) < 128 \<Longrightarrow> utf8_valid s"
  by (induction s) (auto simp: Let_def)

subsection \<open>Hash maps\<close>

text \<open>
  A \<open>HashMap\<close> or \<open>DashMap\<close> is an association list with distinct keys; the list order stands for
  the map's iteration order, on which no property below depends. Reading is \<^const>\<open>map_of\<close>,
  writing is \<^const>\<open>AList.update\<close>, removing is \<^const>\<open>AList.delete\<close>.
\<close>

definition keys :: "('k \<times> 'v) list \<Rightarrow> 'k set" where
  "keys m = fst ` set m"

definition contains_key :: "'k \<Rightarrow> ('k \<times> 'v) list \<Rightarrow> bool" where
  "contains_key k m = (map_of m k \<noteq> None)"

definition wf_map :: "('k \<times> 'v) list \<Rightarrow> bool" where
  "wf_map m = distinct (map fst m)"

lemma update_new: "k \<notin> fst ` set m \<Longrightarrow> AList.update k v m = m @ [(k, v)]"
  by (induction m) auto

lemma update_last: "k \<notin> fst ` set m \<Longrightarrow> AList.update k v (m @ [(k, w)]) = m @ [(k, v)]"
  by (induction m) auto

lemma contains_key_iff: "contains_key k m \<longleftrightarrow> k \<in> keys m"
  by (simp add: contains_key_def keys_def map_of_eq_None_iff)

lemma wf_map_Nil [simp, kept]: "wf_map []"
  by (simp add: wf_map_def)

lemma wf_map_update [simp, kept]: "wf_map m \<Longrightarrow> wf_map (AList.update k v m)"
  by (simp add: wf_map_def distinct_update)

lemma wf_map_delete [simp, kept]: "wf_map m \<Longrightarrow> wf_map (AList.delete k m)"
  by (simp add: wf_map_def distinct_delete)

lemma wf_map_filter [simp, kept]: "wf_map m \<Longrightarrow> wf_map (filter P m)"
  by (auto simp: wf_map_def distinct_map intro: inj_on_subset)

lemma keys_simps [simp]:
  "keys [] = {}" "keys (AList.update k v m) = insert k (keys m)"
  "keys (AList.delete k m) = keys m - {k}" "keys (p # m) = insert (fst p) (keys m)"
  by (force simp: keys_def dom_update AList.delete_eq)+

lemma map_of_update [simp]: "map_of (AList.update k v m) = (map_of m)(k \<mapsto> v)"
  by (rule update_conv')

lemma map_of_delete [simp]: "map_of (AList.delete k m) = (map_of m)(k := None)"
  by (rule delete_conv')

lemma length_update:
  "length (AList.update k v m) = (if contains_key k m then length m else Suc (length m))"
  by (induction m) (auto simp: contains_key_def)

lemma set_update_subset: "set (AList.update k v m) \<subseteq> insert (k, v) (set m)"
  by (induction m) auto

lemma length_delete_le: "length (AList.delete k m) \<le> length m"
  by (simp add: AList.delete_eq)

lemma length_delete_less: "contains_key k m \<Longrightarrow> length (AList.delete k m) < length m"
  unfolding contains_key_iff keys_def AList.delete_eq by (auto intro: length_filter_less)

lemma map_of_filter_wf:
  "wf_map m \<Longrightarrow> map_of (filter P m) k =
     (case map_of m k of None \<Rightarrow> None | Some v \<Rightarrow> if P (k, v) then Some v else None)"
proof (induction m)
  case (Cons p m)
  then show ?case
    by (cases p) (force simp: wf_map_def split: option.splits dest: map_of_SomeD)
qed simp

lemma map_of_map_values:
  "map_of (map (\<lambda>(k, v). (k, f k v)) m) k = map_option (f k) (map_of m k)"
  by (induction m) auto

lemma wf_map_map_values [simp, kept]: "wf_map m \<Longrightarrow> wf_map (map (\<lambda>(k, v). (k, f k v)) m)"
  by (simp add: wf_map_def comp_def case_prod_beta')

lemma wf_map_in_set: "wf_map m \<Longrightarrow> (k, v) \<in> set m \<longleftrightarrow> map_of m k = Some v"
  by (simp add: wf_map_def)

subsection \<open>Machine arithmetic\<close>

definition saturating_sub :: "'a::len word \<Rightarrow> 'a word \<Rightarrow> 'a word" where
  "saturating_sub a b = (if a < b then 0 else a - b)"

lemma unat_saturating_sub: "unat (saturating_sub a b) = unat a - unat b"
  by (auto simp: saturating_sub_def word_less_nat_alt unat_sub word_le_nat_alt)

lemma unat_Suc_no_wrap: "Suc (unat x) < 2 ^ LENGTH('a) \<Longrightarrow> unat (x + 1 :: 'a::len word) = Suc (unat x)"
  by (simp add: unat_word_ariths)

lemma unat_ucast_u32 [simp]: "unat (ucast (x :: u32) :: u64) = unat x"
  by (simp add: unsigned_ucast_eq take_bit_nat_eq_self unsigned_less [of x, THEN less_le_trans])

end
