(* ===== verification/Machines.thy ===== *)
theory Machines
  imports Prelude
begin

text \<open>
  Invariants and refinements of components as interfaces. A component whose state changes by calls is
  a \<open>machine\<close>: one function applies a call to the state, and an invariant is kept by it. A
  \<open>simulation\<close> adds an abstract state and what the calls mean on it. A component whose threads
  interleave is a step relation (\<open>transitions\<close>). The consequences for whole runs are proved here once;
  the components interpret the locales on their operations.
\<close>

locale transitions =
  fixes step :: "'s \<Rightarrow> 's \<Rightarrow> bool"
    and inv :: "'s \<Rightarrow> bool"
  assumes inv_step: "step s s' \<Longrightarrow> inv s \<Longrightarrow> inv s'"
begin

lemma inv_steps: "step\<^sup>*\<^sup>* s s' \<Longrightarrow> inv s \<Longrightarrow> inv s'"
  by (induction rule: rtranclp_induct) (auto intro: inv_step)

end

locale machine =
  fixes apply_op :: "'o \<Rightarrow> 's \<Rightarrow> 's"
    and inv :: "'s \<Rightarrow> bool"
  assumes inv_apply: "inv s \<Longrightarrow> inv (apply_op op s)"
begin

lemma inv_run: "inv s \<Longrightarrow> inv (fold apply_op ops s)"
  by (induction ops arbitrary: s) (simp_all add: inv_apply)

end

sublocale machine \<subseteq> calls: transitions "\<lambda>s s'. \<exists>op. s' = apply_op op s" inv
  by unfold_locales (auto intro: inv_apply)

locale simulation = machine apply_op inv
  for apply_op :: "'o \<Rightarrow> 's \<Rightarrow> 's" and inv +
  fixes spec :: "'o \<Rightarrow> 'a \<Rightarrow> 'a"
    and abs_of :: "'s \<Rightarrow> 'a"
  assumes abs_apply: "inv s \<Longrightarrow> abs_of (apply_op op s) = spec op (abs_of s)"
begin

lemma abs_run: "inv s \<Longrightarrow> abs_of (fold apply_op ops s) = fold spec ops (abs_of s)"
  by (induction ops arbitrary: s) (simp_all add: abs_apply inv_apply)

end

end
