(* ===== verification/Cache_Core.thy ===== *)
theory Cache_Core
  imports Prelude
begin

text \<open>
  What the two size-limited hash maps of the program share (\<open>RouteCache\<close> and
  \<open>JsonResponseCache\<close>): the eviction scan and the contract of a cache that never outgrows its
  capacity. The contract is the locale \<open>size_limited\<close>; it is interpreted on the two caches in
  their own theories.
\<close>

subsection \<open>The eviction scan\<close>

text \<open>
  The loop of both \<open>evict_lru\<close> functions: it keeps the smallest value of a counter seen so far,
  starting from \<open>u64::MAX\<close> with a strict comparison, and the key it belongs to.
\<close>

fun scan_min :: "('v \<Rightarrow> u64) \<Rightarrow> ('k \<times> 'v) list \<Rightarrow> u64 \<Rightarrow> 'k option \<Rightarrow> u64 \<times> 'k option" where
  "scan_min f [] best key = (best, key)"
| "scan_min f ((k, v) # m) best key =
     (if f v < best then scan_min f m (f v) (Some k) else scan_min f m best key)"

definition evict_min :: "('v \<Rightarrow> u64) \<Rightarrow> ('k \<times> 'v) list \<Rightarrow> ('k \<times> 'v) list" where
  "evict_min f m =
     (case snd (scan_min f m (- 1) None) of Some k \<Rightarrow> AList.delete k m | None \<Rightarrow> m)"

lemma scan_min_bound:
  "fst (scan_min f m b key) \<le> b \<and> (\<forall>(k, v) \<in> set m. fst (scan_min f m b key) \<le> f v)"
proof (induction f m b key rule: scan_min.induct)
  case (2 f k v m best key)
  then show ?case by (cases "f v < best") (auto intro: order.trans)
qed simp

lemma scan_min_key:
  "snd (scan_min f m b key) = Some k \<Longrightarrow>
     snd (scan_min f m b key) = key \<and> fst (scan_min f m b key) = b \<or>
     (\<exists>v. (k, v) \<in> set m \<and> f v = fst (scan_min f m b key))"
proof (induction f m b key rule: scan_min.induct)
  case (2 f k' v m best key)
  then show ?case by (cases "f v < best") auto
qed simp

lemma scan_min_found:
  "(k, v) \<in> set m \<Longrightarrow> f v < b \<Longrightarrow> \<exists>k'. snd (scan_min f m b key) = Some k'"
proof (induction f m b key rule: scan_min.induct)
  case (2 f k' v' m best key)
  have keep: "snd (scan_min f m b (Some x)) \<noteq> None" for x b
    by (induction f m b "Some x" arbitrary: x rule: scan_min.induct) auto
  show ?case
  proof (cases "f v' < best")
    case True
    with keep show ?thesis by auto
  next
    case False
    with 2 show ?thesis by auto
  qed
qed simp

text \<open>The evicted entry has the smallest counter; if some counter is below \<open>u64::MAX\<close> one goes.\<close>

lemma evict_min_cases:
  assumes "wf_map m"
  obtains "evict_min f m = m" "\<And>k v. map_of m k = Some v \<Longrightarrow> f v = - 1"
  | k v where "map_of m k = Some v" "evict_min f m = AList.delete k m"
      "\<And>k' v'. map_of m k' = Some v' \<Longrightarrow> f v \<le> f v'"
proof (cases "snd (scan_min f m (- 1) None)")
  case None
  have "f v = - 1" if "map_of m k = Some v" for k v
    using scan_min_found [of k v m f "- 1" None] None map_of_SomeD [OF that]
    by (metis option.distinct(1) word_order.not_eq_extremum)
  moreover have "evict_min f m = m" using None by (simp add: evict_min_def)
  ultimately show ?thesis using that(1) by blast
next
  case (Some k)
  then obtain v where v: "(k, v) \<in> set m" "f v = fst (scan_min f m (- 1) None)"
    using scan_min_key [OF Some] by auto
  have le: "f v \<le> f v'" if "map_of m k' = Some v'" for k' v'
    using scan_min_bound [of f m "- 1" None] map_of_SomeD [OF that] v(2) by fastforce
  have "evict_min f m = AList.delete k m" using Some by (simp add: evict_min_def)
  with v(1) le show ?thesis using that(2) assms wf_map_in_set by metis
qed

lemma wf_map_evict_min [simp, kept]: "wf_map m \<Longrightarrow> wf_map (evict_min f m)"
  by (simp add: evict_min_def split: option.split)

lemma set_evict_min: "set (evict_min f m) \<subseteq> set m"
  by (auto simp: evict_min_def AList.delete_eq split: option.split)

lemma length_evict_min_le: "length (evict_min f m) \<le> length m"
  by (simp add: evict_min_def length_delete_le split: option.split)

lemma length_evict_min:
  assumes "wf_map m" "m \<noteq> []" "\<And>k v. (k, v) \<in> set m \<Longrightarrow> f v < - 1"
  shows "length (evict_min f m) < length m"
proof (rule evict_min_cases [OF assms(1), of f])
  assume all: "\<And>k v. map_of m k = Some v \<Longrightarrow> f v = - 1"
  obtain k v where kv: "(k, v) \<in> set m" using assms(2) by (cases m) auto
  then have "f v = - 1" using all assms(1) wf_map_in_set by metis
  with assms(3) [OF kv] show ?thesis by simp
next
  fix k v assume "map_of m k = Some v" "evict_min f m = AList.delete k m"
  then show ?thesis using length_delete_less [of k m] by (simp add: contains_key_def)
qed

lemma less_max_word: "unat x \<le> n \<Longrightarrow> Suc n < 2 ^ LENGTH('a) \<Longrightarrow> (x :: 'a::len word) < - 1"
  by (auto simp: word_less_nat_alt unsigned_minus_1_eq_mask mask_eq_exp_minus_1)

subsection \<open>The contract of a size-limited cache\<close>

datatype ('p, 'f, 'd) cache_op = Put 'p | Fetch 'f | Drop 'd

fun cache_apply ::
  "('p \<Rightarrow> 's \<Rightarrow> 's) \<Rightarrow> ('f \<Rightarrow> 's \<Rightarrow> 's) \<Rightarrow> ('d \<Rightarrow> 's \<Rightarrow> 's) \<Rightarrow> ('p, 'f, 'd) cache_op \<Rightarrow> 's \<Rightarrow> 's"
where
  "cache_apply put fetch drop_op (Put p) s = put p s"
| "cache_apply put fetch drop_op (Fetch f) s = fetch f s"
| "cache_apply put fetch drop_op (Drop d) s = drop_op d s"

text \<open>
  \<open>ok n s\<close> is the invariant after \<open>n\<close> operations. The counters of the code are 64 bits wide, so
  the contract promises the size bound for fewer than \<open>2\<^sup>6\<^sup>4 - 1\<close> operations.
\<close>

locale size_limited =
  fixes empty :: 's
    and put :: "'p \<Rightarrow> 's \<Rightarrow> 's"
    and fetch :: "'f \<Rightarrow> 's \<Rightarrow> 's"
    and drop_op :: "'d \<Rightarrow> 's \<Rightarrow> 's"
    and size_of :: "'s \<Rightarrow> nat"
    and cap :: nat
    and ok :: "nat \<Rightarrow> 's \<Rightarrow> bool"
  assumes ok_empty: "ok 0 empty"
    and ok_put: "ok n s \<Longrightarrow> Suc n < 2 ^ 64 \<Longrightarrow> ok (Suc n) (put p s)"
    and ok_fetch: "ok n s \<Longrightarrow> Suc n < 2 ^ 64 \<Longrightarrow> ok (Suc n) (fetch f s)"
    and ok_drop: "ok n s \<Longrightarrow> Suc n < 2 ^ 64 \<Longrightarrow> ok (Suc n) (drop_op d s)"
    and ok_size: "ok n s \<Longrightarrow> size_of s \<le> cap"
begin

lemma ok_run:
  "ok n s \<Longrightarrow> n + length ops < 2 ^ 64 \<Longrightarrow> ok (n + length ops) (fold (cache_apply put fetch drop_op) ops s)"
proof (induction ops arbitrary: n s)
  case (Cons x ops)
  have "ok (Suc n) (cache_apply put fetch drop_op x s)"
    using Cons.prems by (cases x) (auto intro: ok_put ok_fetch ok_drop)
  from Cons.IH [OF this] Cons.prems show ?case by simp
qed simp

lemma run_size: "length ops < 2 ^ 64 \<Longrightarrow> size_of (fold (cache_apply put fetch drop_op) ops empty) \<le> cap"
  using ok_run [OF ok_empty, of ops] by (auto intro: ok_size)

end

end
