(* ===== verification/Http_Method.thy ===== *)
theory Http_Method
  imports Prelude
begin

text \<open>
  HTTP methods and request header maps (\<open>src/http/method.rs\<close>, \<open>src/http/headers.rs\<close>): the
  \<open>HttpMethod\<close> enum with its two parsers and its printer, and the case-insensitive \<open>HeaderMap\<close>.
  A header map is an association list whose keys are lower case.
\<close>

subsection \<open>HttpMethod\<close>

datatype http_method = GET | POST | PUT | DELETE | PATCH | HEAD | OPTIONS | CONNECT | TRACE

definition from_bytes :: "string \<Rightarrow> http_method option" where
  "from_bytes s =
     (if s = ''GET'' then Some GET
      else if s = ''POST'' then Some POST
      else if s = ''PUT'' then Some PUT
      else if s = ''DELETE'' then Some DELETE
      else if s = ''PATCH'' then Some PATCH
      else if s = ''HEAD'' then Some HEAD
      else if s = ''OPTIONS'' then Some OPTIONS
      else if s = ''CONNECT'' then Some CONNECT
      else if s = ''TRACE'' then Some TRACE
      else None)"

text \<open>
  \<open>HttpMethod::from_str\<close> writes the table of \<open>from_bytes\<close> out twice: once for the string as it
  is and, when that fails, once for its upper-case form.
\<close>

definition from_str :: "string \<Rightarrow> http_method option" where
  "from_str s = (case from_bytes s of Some m \<Rightarrow> Some m | None \<Rightarrow> from_bytes (to_upper s))"

fun as_str :: "http_method \<Rightarrow> string" where
  "as_str GET = ''GET''"
| "as_str POST = ''POST''"
| "as_str PUT = ''PUT''"
| "as_str DELETE = ''DELETE''"
| "as_str PATCH = ''PATCH''"
| "as_str HEAD = ''HEAD''"
| "as_str OPTIONS = ''OPTIONS''"
| "as_str CONNECT = ''CONNECT''"
| "as_str TRACE = ''TRACE''"

definition method_repr :: "http_method \<Rightarrow> string" where
  "method_repr m = ''HttpMethod.'' @ as_str m"

text \<open>
  \<open>HttpMethod::from_axum\<close> (and the identical \<open>From<&Method>\<close>) take a method of the \<open>http\<close> crate,
  seen here through its name: the nine standard names are matched case-sensitively and every
  extension method falls back to \<^const>\<open>GET\<close>.
\<close>

definition from_axum :: "string \<Rightarrow> http_method" where
  "from_axum s = (case from_bytes s of Some m \<Rightarrow> m | None \<Rightarrow> GET)"

lemma from_bytes_as_str [simp]: "from_bytes (as_str m) = Some m"
  by (cases m) (simp_all add: from_bytes_def)

lemma from_bytes_Some: "from_bytes s = Some m \<longleftrightarrow> s = as_str m"
proof
  assume "from_bytes s = Some m"
  then show "s = as_str m"
    unfolding from_bytes_def by (auto split: if_splits)
qed simp

lemma to_upper_as_str [simp]: "to_upper (as_str m) = as_str m"
  by (cases m) (simp_all add: str_simps)

interpretation method_name: codec as_str from_bytes "\<lambda>_. True"
  by unfold_locales simp

lemmas as_str_inject [simp] = method_name.encode_inject [OF TrueI TrueI]

lemma from_str_upper: "from_str s = from_bytes (to_upper s)"
  by (auto simp: from_str_def from_bytes_Some split: option.splits)

text \<open>
  Parsing a method name is total case folding: \<open>from_str\<close> answers \<open>m\<close> exactly for the
  strings whose upper-case form is the name of \<open>m\<close>, so the fast path never disagrees with the
  slow path, and printing then parsing is the identity for both parsers.
\<close>

theorem from_str_iff:
  "from_str s = Some m \<longleftrightarrow> to_upper s = as_str m"
  by (simp add: from_str_upper from_bytes_Some)

subsection \<open>HeaderMap\<close>

type_synonym header_map = "(string \<times> string) list"

definition header_get :: "header_map \<Rightarrow> string \<Rightarrow> string option" where
  "header_get h key = map_of h (to_lower key)"

definition header_insert :: "header_map \<Rightarrow> string \<Rightarrow> string \<Rightarrow> header_map" where
  "header_insert h key v = AList.update (to_lower key) v h"

definition header_get_all :: "header_map \<Rightarrow> string \<Rightarrow> string list" where
  "header_get_all h key = map snd (filter (\<lambda>(k, v). k = to_lower key) h)"

definition header_keys :: "header_map \<Rightarrow> string list" where
  "header_keys h = map fst h"

definition header_values :: "header_map \<Rightarrow> string list" where
  "header_values h = map snd h"

text \<open>
  \<open>HeaderMap::from_axum\<close>: the wire headers in order, each with the result of the \<open>http\<close> crate's
  \<open>HeaderValue::to_str\<close> (\<open>None\<close> when the value is not visible ASCII). A later header of the same
  name replaces an earlier one.
\<close>

definition header_from_axum :: "(string \<times> string option) list \<Rightarrow> header_map" where
  "header_from_axum hs =
     fold (\<lambda>(k, v) m. case v of Some s \<Rightarrow> AList.update (to_lower k) s m | None \<Rightarrow> m) hs []"

definition header_wf :: "header_map \<Rightarrow> bool" where
  "header_wf h = (wf_map h \<and> (\<forall>k \<in> keys h. to_lower k = k))"

lemma header_wf_insert [kept]: "header_wf h \<Longrightarrow> header_wf (header_insert h k v)"
  by (simp add: header_wf_def header_insert_def)

lemma header_wf_fold [kept]:
  "header_wf m \<Longrightarrow>
   header_wf (fold (\<lambda>(k, v) m. case v of Some s \<Rightarrow> AList.update (to_lower k) s m | None \<Rightarrow> m) hs m)"
proof (induction hs arbitrary: m)
  case (Cons p hs)
  have "header_wf (case snd p of Some s \<Rightarrow> AList.update (to_lower (fst p)) s m | None \<Rightarrow> m)"
    using Cons.prems by (auto simp: header_wf_def split: option.splits)
  with Cons.IH show ?case by (simp add: case_prod_beta)
qed simp

lemma header_wf_from_axum [kept]: "header_wf (header_from_axum hs)"
  unfolding header_from_axum_def by (rule header_wf_fold) (simp add: header_wf_def)

lemma header_get_insert:
  "header_get (header_insert h k v) k' = (if to_lower k' = to_lower k then Some v else header_get h k')"
  by (simp add: header_get_def header_insert_def)

lemma header_get_all_eq:
  assumes "header_wf h"
  shows "header_get_all h k = (case header_get h k of None \<Rightarrow> [] | Some v \<Rightarrow> [v])"
proof -
  have "wf_map h" using assms by (simp add: header_wf_def)
  then show ?thesis
  proof (induction h)
    case (Cons p h)
    obtain a b where p: "p = (a, b)" by (cases p)
    have "a = to_lower k \<Longrightarrow> filter (\<lambda>(k', v). k' = to_lower k) h = []"
      using Cons.prems p by (force simp: wf_map_def filter_empty_conv)
    with Cons p show ?case
      by (auto simp: header_get_all_def header_get_def wf_map_def)
  qed (simp add: header_get_all_def header_get_def)
qed

text \<open>
  On a map built from a wire request by \<open>from_axum\<close> and any further inserts, \<open>get_all\<close>
  never returns more than the one value \<open>get\<close> returns: repeated headers are not kept, whatever
  the spelling of the name.
\<close>

theorem get_all_at_most_one:
  "header_get_all (fold (\<lambda>(k, v) h. header_insert h k v) ins (header_from_axum hs)) key =
     (case header_get (fold (\<lambda>(k, v) h. header_insert h k v) ins (header_from_axum hs)) key of
        None \<Rightarrow> [] | Some v \<Rightarrow> [v])"
proof -
  have "header_wf h \<Longrightarrow> header_wf (fold (\<lambda>(k, v) h. header_insert h k v) ins h)" for h
    by (induction ins arbitrary: h) (auto intro: kept)
  then show ?thesis
    by (intro header_get_all_eq) (simp add: header_wf_from_axum)
qed

end
