(* ===== verification/Routing.thy ===== *)
theory Routing
  imports Http_Method
begin

unbundle bit_operations_syntax

text \<open>
  Routes and the router (\<open>src/routing/route.rs\<close>, \<open>src/routing/router.rs\<close>). A route's Python
  callable is a value of an arbitrary type \<open>'f\<close>. The radix-tree matcher \<open>matchit\<close> is a library:
  its three operations are the fields of a \<open>matchit\<close> record every definition that needs them takes
  as an argument. The hash \<open>xxh3_64\<close> is an argument too.
\<close>

subsection \<open>Route\<close>

record 'f route =
  rt_path :: string
  rt_function :: 'f
  rt_method :: string
  rt_doc :: "string option"

definition route_new :: "string \<Rightarrow> 'f \<Rightarrow> string \<Rightarrow> string option \<Rightarrow> 'f route" where
  "route_new p f m d = \<lparr>rt_path = p, rt_function = f, rt_method = m, rt_doc = d\<rparr>"

definition route_empty :: "'f \<Rightarrow> 'f route" where
  "route_empty py_none = \<lparr>rt_path = [], rt_function = py_none, rt_method = [], rt_doc = None\<rparr>"

definition route_str :: "'f route \<Rightarrow> string" where
  "route_str r = rt_method r @ '' '' @ rt_path r"

definition route_repr :: "'f route \<Rightarrow> string" where
  "route_repr r = ''Route(path='' @ [CHR 0x27] @ rt_path r @ [CHR 0x27] @ '', method='' @ [CHR 0x27] @
     rt_method r @ [CHR 0x27] @ '')''"

definition update_path :: "string \<Rightarrow> 'f route \<Rightarrow> 'f route" where
  "update_path p r = r\<lparr>rt_path := p\<rparr>"

definition update_method :: "string \<Rightarrow> 'f route \<Rightarrow> 'f route" where
  "update_method m r = r\<lparr>rt_method := to_upper m\<rparr>"

definition valid_methods :: "string list" where
  "valid_methods = [''GET'', ''POST'', ''PUT'', ''DELETE'', ''PATCH'', ''HEAD'', ''OPTIONS'']"

definition is_valid :: "'f route \<Rightarrow> bool" where
  "is_valid r =
     (if \<not> starts_with (rt_path r) ''/'' then False
      else if to_upper (rt_method r) \<notin> set valid_methods then False
      else True)"

definition get_path_params :: "'f route \<Rightarrow> string list" where
  "get_path_params r =
     map (drop 1) (filter (\<lambda>seg. starts_with seg '':'') (split_on (CHR ''/'') (rt_path r)))"

definition has_parameters :: "'f route \<Rightarrow> bool" where
  "has_parameters r = (CHR '':'' \<in> set (rt_path r))"

definition normalized_path :: "'f route \<Rightarrow> string" where
  "normalized_path r =
     (let path = trim_end_by (\<lambda>c. c = CHR ''/'') (rt_path r)
      in if \<not> starts_with path ''/'' then ''/'' @ path else path)"

definition get_method_priority :: "'f route \<Rightarrow> nat" where
  "get_method_priority r =
     (let m = to_upper (rt_method r) in
      if m = ''GET'' then 1 else if m = ''POST'' then 2 else if m = ''PUT'' then 3
      else if m = ''PATCH'' then 4 else if m = ''DELETE'' then 5 else if m = ''HEAD'' then 6
      else if m = ''OPTIONS'' then 7 else 99)"

definition path_parts :: "string \<Rightarrow> string list" where
  "path_parts p = filter (\<lambda>s. s \<noteq> []) (split_on (CHR ''/'') p)"

fun parts_match :: "string list \<Rightarrow> string list \<Rightarrow> bool" where
  "parts_match (rp # rps) (pp # pps) =
     (if \<not> starts_with rp '':'' \<and> rp \<noteq> pp then False else parts_match rps pps)"
| "parts_match _ _ = True"

definition matches :: "'f route \<Rightarrow> string \<Rightarrow> string \<Rightarrow> bool" where
  "matches r path meth =
     (if to_upper (rt_method r) \<noteq> to_upper meth then False
      else let route_parts = path_parts (rt_path r); parts = path_parts path in
        if length route_parts \<noteq> length parts then False
        else parts_match route_parts parts)"

definition handler_hash :: "(string \<Rightarrow> u64) \<Rightarrow> 'f route \<Rightarrow> u64" where
  "handler_hash xxh3_64 r = xxh3_64 (rt_path r) XOR xxh3_64 (rt_method r)"

subsection \<open>Path conversion\<close>

text \<open>
  \<open>convert_to_matchit_path\<close>: the loop over the characters; a colon takes the characters up to a
  slash, dash or dot, a star those up to a slash.
\<close>

function convert_to_matchit_path :: "string \<Rightarrow> string" where
  "convert_to_matchit_path [] = []"
| "convert_to_matchit_path (c # cs) =
     (if c = CHR '':'' then
        (let stop = (\<lambda>x. x = CHR ''/'' \<or> x = CHR ''-'' \<or> x = CHR ''.'') in
         ''{'' @ takeWhile (\<lambda>x. \<not> stop x) cs @ ''}'' @
           convert_to_matchit_path (dropWhile (\<lambda>x. \<not> stop x) cs))
      else if c = CHR ''*'' then
        ''{'' @ ''*'' @ takeWhile (\<lambda>x. x \<noteq> CHR ''/'') cs @ ''}'' @
          convert_to_matchit_path (dropWhile (\<lambda>x. x \<noteq> CHR ''/'') cs)
      else c # convert_to_matchit_path cs)"
  by pat_completeness auto
termination
  by (relation "measure length") (auto simp: le_imp_less_Suc length_dropWhile_le)

subsection \<open>MatchitRouter and Router\<close>

record ('m, 'r) matchit =
  m_new :: 'm
  m_insert :: "'m \<Rightarrow> string \<Rightarrow> 'r \<Rightarrow> string + 'm"
  m_at :: "'m \<Rightarrow> string \<Rightarrow> ('r \<times> params) option"

definition mr_insert :: "('m, 'f route) matchit \<Rightarrow> 'm \<Rightarrow> string \<Rightarrow> 'f route \<Rightarrow> string + 'm" where
  "mr_insert mt inner path r = m_insert mt inner (convert_to_matchit_path path) r"

definition mr_at :: "('m, 'f route) matchit \<Rightarrow> 'm \<Rightarrow> string \<Rightarrow> ('f route \<times> params) option" where
  "mr_at mt inner path =
     (case m_at mt inner path of
        Some (r, ps) \<Rightarrow> Some (r, fold (\<lambda>(k, v) m. AList.update k v m) ps [])
      | None \<Rightarrow> None)"

record ('m, 'f) router =
  ro_path :: string
  ro_routes :: "'f route list"
  get_router :: 'm
  post_router :: 'm
  put_router :: 'm
  delete_router :: 'm
  patch_router :: 'm
  head_router :: 'm
  options_router :: 'm

definition router_new :: "('m, 'f route) matchit \<Rightarrow> string \<Rightarrow> ('m, 'f) router" where
  "router_new mt path =
     \<lparr>ro_path = path, ro_routes = [], get_router = m_new mt, post_router = m_new mt,
      put_router = m_new mt, delete_router = m_new mt, patch_router = m_new mt,
      head_router = m_new mt, options_router = m_new mt\<rparr>"

text \<open>The \<open>match method\<close> that picks one of the seven matchers, and its mutable form.\<close>

definition router_for :: "string \<Rightarrow> ('m, 'f) router \<Rightarrow> 'm option" where
  "router_for meth ro =
     (if meth = ''GET'' then Some (get_router ro)
      else if meth = ''POST'' then Some (post_router ro)
      else if meth = ''PUT'' then Some (put_router ro)
      else if meth = ''DELETE'' then Some (delete_router ro)
      else if meth = ''PATCH'' then Some (patch_router ro)
      else if meth = ''HEAD'' then Some (head_router ro)
      else if meth = ''OPTIONS'' then Some (options_router ro)
      else None)"

definition set_router_for :: "string \<Rightarrow> 'm \<Rightarrow> ('m, 'f) router \<Rightarrow> ('m, 'f) router" where
  "set_router_for meth m ro =
     (if meth = ''GET'' then ro\<lparr>get_router := m\<rparr>
      else if meth = ''POST'' then ro\<lparr>post_router := m\<rparr>
      else if meth = ''PUT'' then ro\<lparr>put_router := m\<rparr>
      else if meth = ''DELETE'' then ro\<lparr>delete_router := m\<rparr>
      else if meth = ''PATCH'' then ro\<lparr>patch_router := m\<rparr>
      else if meth = ''HEAD'' then ro\<lparr>head_router := m\<rparr>
      else if meth = ''OPTIONS'' then ro\<lparr>options_router := m\<rparr>
      else ro)"

definition get_full_path :: "('m, 'f) router \<Rightarrow> string \<Rightarrow> string" where
  "get_full_path ro route_path =
     (let base = trim_end_by (\<lambda>c. c = CHR ''/'') (ro_path ro);
          rt = trim_start_by (\<lambda>c. c = CHR ''/'') route_path
      in if base = [] then ''/'' @ rt else if rt = [] then base else base @ ''/'' @ rt)"

definition add_route ::
  "('m, 'f route) matchit \<Rightarrow> 'f route \<Rightarrow> ('m, 'f) router \<Rightarrow> string + ('m, 'f) router" where
  "add_route mt r ro =
     (if \<not> is_valid r then Err ''Invalid route configuration''
      else
        let full_path = get_full_path ro (rt_path r); meth = to_upper (rt_method r) in
        case router_for meth ro of
          None \<Rightarrow> Err (''Unknown HTTP method: '' @ meth)
        | Some m \<Rightarrow>
            (case mr_insert mt m full_path r of
               Inl e \<Rightarrow> Err (''Failed to add route: '' @ e)
             | Inr m' \<Rightarrow> Ok ((set_router_for meth m' ro)\<lparr>ro_routes := ro_routes ro @ [r]\<rparr>)))"

fun extend_route ::
  "('m, 'f route) matchit \<Rightarrow> 'f route list \<Rightarrow> ('m, 'f) router \<Rightarrow> ('m, 'f) router" where
  "extend_route mt [] ro = ro"
| "extend_route mt (r # rs) ro =
     extend_route mt rs (case add_route mt r ro of Inl _ \<Rightarrow> ro | Inr ro' \<Rightarrow> ro')"

fun remove_first :: "('a \<Rightarrow> bool) \<Rightarrow> 'a list \<Rightarrow> 'a list" where
  "remove_first P [] = []"
| "remove_first P (x # xs) = (if P x then xs else x # remove_first P xs)"

definition remove_route :: "string \<Rightarrow> string \<Rightarrow> ('m, 'f) router \<Rightarrow> bool \<times> ('m, 'f) router" where
  "remove_route path meth ro =
     (let hit = (\<lambda>r. rt_path r = path \<and> to_upper (rt_method r) = to_upper meth) in
      if \<exists>r \<in> set (ro_routes ro). hit r
      then (True, ro\<lparr>ro_routes := remove_first hit (ro_routes ro)\<rparr>)
      else (False, ro))"

definition get_route :: "('m, 'f) router \<Rightarrow> string \<Rightarrow> string \<Rightarrow> 'f route option" where
  "get_route ro path meth = find (\<lambda>r. matches r path meth) (ro_routes ro)"

definition get_routes_by_path :: "('m, 'f) router \<Rightarrow> string \<Rightarrow> 'f route list" where
  "get_routes_by_path ro path = filter (\<lambda>r. rt_path r = path) (ro_routes ro)"

definition router_str :: "('m, 'f) router \<Rightarrow> string" where
  "router_str ro = ''Router(base_path='' @ [CHR 0x27] @ ro_path ro @ [CHR 0x27] @ '', routes='' @
     show_nat (length (ro_routes ro)) @ '')''"

definition router_repr :: "('m, 'f) router \<Rightarrow> string" where
  "router_repr ro =
     ''Router(base_path='' @ [CHR 0x27] @ ro_path ro @ [CHR 0x27] @ '', routes:['' @
     concat (map (\<lambda>r. [CHR 0x0A] @ ''  '' @ rt_method r @ '' '' @ rt_path r) (ro_routes ro)) @ '']'' @
     [CHR 0x0A] @ ''])''"

definition routes_count :: "('m, 'f) router \<Rightarrow> nat" where
  "routes_count ro = length (ro_routes ro)"

text \<open>\<open>py_name\<close> is Python's \<open>__name__\<close> of the handler, \<open>None\<close> when it has none.\<close>

definition get_routes_info :: "('f \<Rightarrow> string option) \<Rightarrow> ('m, 'f) router \<Rightarrow> params list" where
  "get_routes_info py_name ro =
     map (\<lambda>r.
       (let info = AList.update ''method'' (rt_method r) [];
            info = AList.update ''path'' (get_full_path ro (rt_path r)) info;
            info = AList.update ''handler''
              (case py_name (rt_function r) of Some n \<Rightarrow> n | None \<Rightarrow> ''unknown'') info
        in case rt_doc r of Some d \<Rightarrow> AList.update ''doc'' d info | None \<Rightarrow> info))
       (ro_routes ro)"

definition find_matching_route ::
  "('m, 'f route) matchit \<Rightarrow> ('m, 'f) router \<Rightarrow> string \<Rightarrow> string \<Rightarrow> ('f route \<times> params) option" where
  "find_matching_route mt ro path meth =
     (case router_for meth ro of
        Some m \<Rightarrow> mr_at mt m path
      | None \<Rightarrow>
          (case router_for (to_upper meth) ro of
             Some m \<Rightarrow> mr_at mt m path
           | None \<Rightarrow> None))"

subsection \<open>Facts about the conversion\<close>

lemma takeWhile_append_stop: "\<not> P x \<Longrightarrow> takeWhile P (xs @ x # ys) = takeWhile P xs"
  by (induction xs) auto

lemma dropWhile_append_stop: "\<not> P x \<Longrightarrow> dropWhile P (xs @ x # ys) = dropWhile P xs @ x # ys"
  by (induction xs) auto

lemma convert_append_slash:
  "convert_to_matchit_path (p @ CHR ''/'' # q) =
     convert_to_matchit_path p @ CHR ''/'' # convert_to_matchit_path q"
  by (induction p rule: convert_to_matchit_path.induct)
    (simp_all add: takeWhile_append_stop dropWhile_append_stop Let_def)

lemma convert_join:
  "convert_to_matchit_path (join_with ''/'' segs) = join_with ''/'' (map convert_to_matchit_path segs)"
  by (induction "''/''" segs rule: join_with.induct) (simp_all add: convert_append_slash)

lemma convert_plain:
  "CHR '':'' \<notin> set p \<Longrightarrow> CHR ''*'' \<notin> set p \<Longrightarrow> convert_to_matchit_path p = p"
  by (induction p) auto

lemma takeWhile_all: "(\<And>x. x \<in> set xs \<Longrightarrow> P x) \<Longrightarrow> takeWhile P xs = xs \<and> dropWhile P xs = []"
  by (simp add: takeWhile_eq_all_conv)

lemma convert_param:
  assumes "CHR ''/'' \<notin> set n" "CHR ''-'' \<notin> set n" "CHR ''.'' \<notin> set n"
  shows "convert_to_matchit_path (CHR '':'' # n) = ''{'' @ n @ ''}''"
proof -
  have "takeWhile (\<lambda>x. \<not> (x = CHR ''/'' \<or> x = CHR ''-'' \<or> x = CHR ''.'')) n = n \<and>
        dropWhile (\<lambda>x. \<not> (x = CHR ''/'' \<or> x = CHR ''-'' \<or> x = CHR ''.'')) n = []"
    using assms by (intro takeWhile_all) auto
  note n = this [THEN conjunct1] this [THEN conjunct2]
  show ?thesis by (simp add: Let_def n del: de_Morgan_disj)
qed

lemma convert_wildcard:
  assumes "CHR ''/'' \<notin> set n"
  shows "convert_to_matchit_path (CHR ''*'' # n) = ''{*'' @ n @ ''}''"
proof -
  have "takeWhile (\<lambda>x. x \<noteq> CHR ''/'') n = n \<and> dropWhile (\<lambda>x. x \<noteq> CHR ''/'') n = []"
    using assms by (intro takeWhile_all) auto
  note n = this [THEN conjunct1] this [THEN conjunct2]
  show ?thesis by (simp add: n)
qed

datatype segment = Static string | Param string | Wildcard string

fun seg_src :: "segment \<Rightarrow> string" where
  "seg_src (Static s) = s"
| "seg_src (Param n) = CHR '':'' # n"
| "seg_src (Wildcard n) = CHR ''*'' # n"

fun seg_matchit :: "segment \<Rightarrow> string" where
  "seg_matchit (Static s) = s"
| "seg_matchit (Param n) = ''{'' @ n @ ''}''"
| "seg_matchit (Wildcard n) = ''{*'' @ n @ ''}''"

fun seg_ok :: "segment \<Rightarrow> bool" where
  "seg_ok (Static s) = (CHR '':'' \<notin> set s \<and> CHR ''*'' \<notin> set s)"
| "seg_ok (Param n) = (CHR ''/'' \<notin> set n \<and> CHR ''-'' \<notin> set n \<and> CHR ''.'' \<notin> set n)"
| "seg_ok (Wildcard n) = (CHR ''/'' \<notin> set n)"

lemma convert_seg: "seg_ok s \<Longrightarrow> convert_to_matchit_path (seg_src s) = seg_matchit s"
  by (cases s) (auto simp: convert_plain convert_param convert_wildcard simp del: convert_to_matchit_path.simps)

text \<open>
  The path conversion implements the documented rewriting segment by segment: a path
  written as static, \<open>:param\<close> and \<open>*wildcard\<close> segments becomes the same path with \<open>{param}\<close> and
  \<open>{*wildcard}\<close> segments, static segments unchanged, in the same order.
\<close>

lemma convert_refines_segments:
  assumes "list_all seg_ok segs"
  shows "convert_to_matchit_path (join_with ''/'' (map seg_src segs)) =
         join_with ''/'' (map seg_matchit segs)"
proof -
  have "map (convert_to_matchit_path \<circ> seg_src) segs = map seg_matchit segs"
    using assms by (auto simp: list_all_iff convert_seg)
  then show ?thesis by (simp only: convert_join map_map)
qed

lemma convert_refines_segments_witness:
  "list_all seg_ok [Static [], Static ''users'', Param ''id'', Wildcard ''rest''] \<and>
   convert_to_matchit_path ''/users/:id/*rest'' = ''/users/{id}/{*rest}''"
proof -
  let ?segs = "[Static [], Static ''users'', Param ''id'', Wildcard ''rest'']"
  have ok: "list_all seg_ok ?segs" by simp
  from convert_refines_segments [OF ok] show ?thesis by simp
qed

subsection \<open>Facts about the router\<close>

lemma is_valid_iff: "is_valid r \<longleftrightarrow> starts_with (rt_path r) ''/'' \<and> to_upper (rt_method r) \<in> set valid_methods"
  by (simp add: is_valid_def)

lemma router_for_valid: "m \<in> set valid_methods \<longleftrightarrow> (\<exists>x. router_for m ro = Some x)"
  by (auto simp: valid_methods_def router_for_def)

lemma router_for_set:
  "m \<in> set valid_methods \<Longrightarrow> router_for m' (set_router_for m x ro) = (if m' = m then Some x else router_for m' ro)"
  by (auto simp: valid_methods_def router_for_def set_router_for_def)

lemma set_router_for_frame [frame_simps]:
  "ro_path (set_router_for m x ro) = ro_path ro" "ro_routes (set_router_for m x ro) = ro_routes ro"
  by (simp_all add: set_router_for_def)

lemma router_for_routes [frame_simps]: "router_for m (ro\<lparr>ro_routes := rs\<rparr>) = router_for m ro"
  by (simp add: router_for_def)

lemma add_route_Ok:
  "add_route mt r ro = Ok ro' \<longleftrightarrow>
     is_valid r \<and>
     (\<exists>m m'. router_for (to_upper (rt_method r)) ro = Some m \<and>
             mr_insert mt m (get_full_path ro (rt_path r)) r = Ok m' \<and>
             ro' = (set_router_for (to_upper (rt_method r)) m' ro)\<lparr>ro_routes := ro_routes ro @ [r]\<rparr>)"
  by (auto simp: add_route_def Let_def split: option.splits sum.splits)

lemma find_upper: "find_matching_route mt ro p m = (case router_for (to_upper m) ro of Some x \<Rightarrow> mr_at mt x p | None \<Rightarrow> None)"
proof (cases "router_for m ro")
  case (Some x)
  then have "m \<in> set valid_methods" by (auto simp: router_for_valid [of m ro])
  then have "to_upper m = m" by (auto simp: valid_methods_def str_simps)
  with Some show ?thesis by (simp add: find_matching_route_def)
qed (simp add: find_matching_route_def)

lemma find_after_add:
  assumes "add_route mt r ro = Ok ro'"
  shows "find_matching_route mt ro' p m =
    (if to_upper m = to_upper (rt_method r)
     then (case mr_insert mt (the (router_for (to_upper m) ro)) (get_full_path ro (rt_path r)) r of
             Inr x \<Rightarrow> mr_at mt x p | Inl _ \<Rightarrow> None)
     else find_matching_route mt ro p m)"
proof -
  obtain x x' where *: "is_valid r" "router_for (to_upper (rt_method r)) ro = Some x"
    "mr_insert mt x (get_full_path ro (rt_path r)) r = Ok x'"
    "ro' = (set_router_for (to_upper (rt_method r)) x' ro)\<lparr>ro_routes := ro_routes ro @ [r]\<rparr>"
    using assms by (auto simp: add_route_Ok)
  then show ?thesis
    by (auto simp: find_upper frame_simps router_for_set is_valid_iff)
qed

text \<open>
  What the router relies on of \<open>matchit\<close>: after a successful insertion of a path without
  placeholders, looking that path up yields the inserted value with no parameters.
\<close>

definition matchit_static_law :: "('m, 'r) matchit \<Rightarrow> bool" where
  "matchit_static_law mt =
     (\<forall>m p r m'. m_insert mt m p r = Ok m' \<longrightarrow> CHR ''{'' \<notin> set p \<longrightarrow> CHR ''}'' \<notin> set p \<longrightarrow>
        m_at mt m' p = Some (r, []))"

text \<open>
  \<^bold>\<open>C14\<close> A route that \<open>add_route\<close> accepted is found again: for a path without placeholders, looking
  up the route's full path with its method in any letter case returns the route itself with no
  parameters, and the lookups of every other method are unchanged.
\<close>

theorem add_route_find:
  assumes law: "matchit_static_law mt"
    and add: "add_route mt r ro = Ok ro'"
    and plain: "set (get_full_path ro (rt_path r)) \<inter> {CHR '':'', CHR ''*'', CHR ''{'', CHR ''}''} = {}"
  shows "(to_upper m = to_upper (rt_method r) \<longrightarrow>
            find_matching_route mt ro' (get_full_path ro (rt_path r)) m = Some (r, [])) \<and>
         (to_upper m \<noteq> to_upper (rt_method r) \<longrightarrow>
            find_matching_route mt ro' p m = find_matching_route mt ro p m)"
proof -
  let ?p = "get_full_path ro (rt_path r)"
  have conv: "convert_to_matchit_path ?p = ?p"
    using plain by (intro convert_plain) auto
  have "mr_insert mt x ?p r = Ok x' \<Longrightarrow> mr_at mt x' ?p = Some (r, [])" for x x'
    using law plain by (auto simp: matchit_static_law_def mr_insert_def mr_at_def conv)
  with add show ?thesis
    by (auto simp: find_after_add [OF add] add_route_Ok)
qed

text \<open>A matcher for closed examples: exact paths only, insertion fails on a path it has.\<close>

definition exact_matchit :: "((string \<times> 'r) list, 'r) matchit" where
  "exact_matchit =
     \<lparr>m_new = [],
      m_insert = (\<lambda>m p r. if contains_key p m then Err ''conflict'' else Ok (AList.update p r m)),
      m_at = (\<lambda>m p. map_option (\<lambda>r. (r, [])) (map_of m p))\<rparr>"

lemma exact_matchit_law: "matchit_static_law exact_matchit"
  by (auto simp: matchit_static_law_def exact_matchit_def split: if_splits)

theorem add_route_find_witness:
  "\<exists>ro'. add_route exact_matchit (route_new ''/x'' (1::nat) ''get'' None) (router_new exact_matchit ''/api/'') = Ok ro' \<and>
     find_matching_route exact_matchit ro' ''/api/x'' ''Get'' = Some (route_new ''/x'' 1 ''get'' None, [])"
proof -
  let ?r = "route_new ''/x'' (1::nat) ''get'' None" and ?ro = "router_new exact_matchit ''/api/'' :: ((string \<times> nat route) list, nat) router"
  have full: "get_full_path ?ro (rt_path ?r) = ''/api/x''"
    by (simp add: get_full_path_def router_new_def route_new_def trim_end_by_def trim_start_by_def)
  have "\<exists>ro'. add_route exact_matchit ?r ?ro = Ok ro'"
    by (simp add: add_route_Ok is_valid_def route_new_def valid_methods_def str_simps router_for_def
        mr_insert_def exact_matchit_def router_new_def contains_key_def)
  then obtain ro' where add: "add_route exact_matchit ?r ?ro = Ok ro'" ..
  have up: "to_upper ''Get'' = to_upper (rt_method ?r)" by (simp add: route_new_def str_simps)
  have plain: "set (get_full_path ?ro (rt_path ?r)) \<inter> {CHR '':'', CHR ''*'', CHR ''{'', CHR ''}''} = {}"
    unfolding full by simp
  have "find_matching_route exact_matchit ro' (get_full_path ?ro (rt_path ?r)) ''Get'' = Some (?r, [])"
    using add_route_find [OF exact_matchit_law add plain, of "''Get''"] up by blast
  with add show ?thesis unfolding full by blast
qed

text \<open>
  \<open>remove_route\<close> only edits the list used for introspection: whatever it returns, request
  dispatch through \<open>find_matching_route\<close> is unchanged for every path and method, so a removed
  route is still served.
\<close>

theorem remove_route_keeps_dispatch:
  "find_matching_route mt (snd (remove_route path meth ro)) p m = find_matching_route mt ro p m"
  by (simp add: remove_route_def Let_def find_upper frame_simps)

definition router_wf :: "('m, 'f) router \<Rightarrow> bool" where
  "router_wf ro = list_all is_valid (ro_routes ro)"

lemma set_remove_first: "set (remove_first P xs) \<subseteq> set xs"
  by (induction xs) auto

lemma router_wf_add [kept]: "router_wf ro \<Longrightarrow> add_route mt r ro = Ok ro' \<Longrightarrow> router_wf ro'"
  by (auto simp: add_route_Ok router_wf_def)

lemma router_wf_extend [kept]: "router_wf ro \<Longrightarrow> router_wf (extend_route mt rs ro)"
  by (induction rs arbitrary: ro) (auto split: sum.splits intro: kept)

lemma router_wf_remove [kept]: "router_wf ro \<Longrightarrow> router_wf (snd (remove_route p m ro))"
  using set_remove_first by (fastforce simp: router_wf_def remove_route_def Let_def list_all_iff)

text \<open>Extending with a list is all-or-some: rejected routes are skipped and the rest are kept.\<close>

lemma extend_route_routes:
  "\<exists>rs'. ro_routes (extend_route mt rs ro) = ro_routes ro @ rs' \<and> set rs' \<subseteq> {r \<in> set rs. is_valid r}"
proof (induction rs arbitrary: ro)
  case (Cons r rs)
  let ?ro = "case add_route mt r ro of Inl _ \<Rightarrow> ro | Inr ro' \<Rightarrow> ro'"
  obtain rs' where "ro_routes (extend_route mt rs ?ro) = ro_routes ?ro @ rs'" "set rs' \<subseteq> {r \<in> set rs. is_valid r}"
    using Cons.IH by blast
  moreover have "ro_routes ?ro = ro_routes ro \<or> is_valid r \<and> ro_routes ?ro = ro_routes ro @ [r]"
    by (auto simp: add_route_Ok split: sum.splits)
  ultimately show ?case by auto
qed simp

subsection \<open>Facts about route matching\<close>

lemma parts_match_iff:
  "length rps = length pps \<Longrightarrow>
   parts_match rps pps \<longleftrightarrow> list_all2 (\<lambda>rp pp. starts_with rp '':'' \<or> rp = pp) rps pps"
  by (induction rps pps rule: parts_match.induct) auto

text \<open>
  \<open>Route::matches\<close> is the segment-wise relation: the methods agree up to letter case and the
  non-empty segments pair up one to one, each route segment being a parameter or equal to the
  request's segment; repeated and trailing slashes never matter.
\<close>

theorem matches_iff:
  "matches r path meth \<longleftrightarrow>
     to_upper (rt_method r) = to_upper meth \<and>
     list_all2 (\<lambda>rp pp. starts_with rp '':'' \<or> rp = pp) (path_parts (rt_path r)) (path_parts path)"
  by (auto simp: matches_def Let_def parts_match_iff list_all2_lengthD)

lemma matches_self: "matches r (rt_path r) (rt_method r)"
  by (simp add: matches_def parts_match_iff list_all2_refl)

end
