(* ===== verification/Route_Cache.thy ===== *)
theory Route_Cache
  imports Cache_Core Routing
begin

text \<open>
  The route cache (\<open>src/routing/cache.rs\<close>): \<open>RouteCache\<close>, a size-limited map from path hashes to
  routes with an access counter, and \<open>RouteMatcher\<close>, which computes the hashes. Counters are
  64-bit words; each operation is one step here, and \<open>Cache_Races\<close> treats threads that interleave
  within one. \<open>xxh3_64\<close> is an argument.
\<close>

record 'f cached_route =
  cr_route :: "'f route"
  cr_params :: params
  cr_hits :: u64
  cr_last_access :: u64

definition cached_route_new :: "'f route \<Rightarrow> params \<Rightarrow> 'f cached_route" where
  "cached_route_new r ps = \<lparr>cr_route = r, cr_params = ps, cr_hits = 1, cr_last_access = 0\<rparr>"

record 'f route_cache =
  rc_cache :: "(u64 \<times> 'f cached_route) list"
  rc_max_size :: nat
  rc_counter :: u64

definition rc_new :: "nat \<Rightarrow> 'f route_cache" where
  "rc_new n = \<lparr>rc_cache = [], rc_max_size = n, rc_counter = 0\<rparr>"

definition rc_default :: "'f route_cache" where
  "rc_default = rc_new 10000"

definition rc_get :: "u64 \<Rightarrow> 'f route_cache \<Rightarrow> 'f cached_route option \<times> 'f route_cache" where
  "rc_get h rc =
     (case map_of (rc_cache rc) h of
        Some e \<Rightarrow>
          (let t = rc_counter rc;
               e' = e\<lparr>cr_hits := cr_hits e + 1, cr_last_access := t\<rparr>
           in (Some e', rc\<lparr>rc_cache := AList.update h e' (rc_cache rc), rc_counter := t + 1\<rparr>))
      | None \<Rightarrow> (None, rc))"

definition rc_evict_lru :: "'f route_cache \<Rightarrow> 'f route_cache" where
  "rc_evict_lru rc = rc\<lparr>rc_cache := evict_min cr_last_access (rc_cache rc)\<rparr>"

definition rc_insert :: "u64 \<Rightarrow> 'f route \<Rightarrow> params \<Rightarrow> 'f route_cache \<Rightarrow> 'f route_cache" where
  "rc_insert h r ps rc =
     (let rc = (if length (rc_cache rc) \<ge> rc_max_size rc then rc_evict_lru rc else rc)
      in rc\<lparr>rc_cache := AList.update h (cached_route_new r ps) (rc_cache rc)\<rparr>)"

definition rc_clear :: "'f route_cache \<Rightarrow> 'f route_cache" where
  "rc_clear rc = rc\<lparr>rc_cache := []\<rparr>"

definition rc_len :: "'f route_cache \<Rightarrow> nat" where
  "rc_len rc = length (rc_cache rc)"

definition rc_is_empty :: "'f route_cache \<Rightarrow> bool" where
  "rc_is_empty rc = (rc_cache rc = [])"

subsection \<open>RouteMatcher\<close>

definition compute_hash :: "(string \<Rightarrow> u64) \<Rightarrow> string \<Rightarrow> string \<Rightarrow> u64" where
  "compute_hash xxh3_64 path meth = xxh3_64 (meth @ '':'' @ path)"

definition get_cached ::
  "(string \<Rightarrow> u64) \<Rightarrow> string \<Rightarrow> string \<Rightarrow> 'f route_cache \<Rightarrow> 'f cached_route option \<times> 'f route_cache" where
  "get_cached xxh3_64 path meth rc = rc_get (compute_hash xxh3_64 path meth) rc"

definition cache_route ::
  "(string \<Rightarrow> u64) \<Rightarrow> string \<Rightarrow> string \<Rightarrow> 'f route \<Rightarrow> params \<Rightarrow> 'f route_cache \<Rightarrow> 'f route_cache" where
  "cache_route xxh3_64 path meth r ps rc = rc_insert (compute_hash xxh3_64 path meth) r ps rc"

subsection \<open>Invariant and size bound\<close>

definition rc_ok :: "nat \<Rightarrow> nat \<Rightarrow> 'f route_cache \<Rightarrow> bool" where
  "rc_ok cap n rc =
     (rc_max_size rc = cap \<and> wf_map (rc_cache rc) \<and> length (rc_cache rc) \<le> cap \<and> unat (rc_counter rc) \<le> n \<and>
      (\<forall>(k, e) \<in> set (rc_cache rc). unat (cr_last_access e) \<le> n))"

lemma rc_evict_room:
  assumes "rc_ok cap n rc" "Suc n < 2 ^ 64" "0 < cap" "cap \<le> length (rc_cache rc)"
  shows "length (evict_min cr_last_access (rc_cache rc)) < cap"
proof -
  have "cr_last_access v < - 1" if "(k, v) \<in> set (rc_cache rc)" for k v
    using assms(1,2) that less_max_word [of "cr_last_access v" n] by (auto simp: rc_ok_def)
  then have "length (evict_min cr_last_access (rc_cache rc)) < length (rc_cache rc)"
    using assms by (intro length_evict_min) (auto simp: rc_ok_def)
  then show ?thesis using assms(1) by (simp add: rc_ok_def)
qed

lemma rc_ok_insert:
  assumes "rc_ok cap n rc" "Suc n < 2 ^ 64" "0 < cap"
  shows "rc_ok cap (Suc n) (rc_insert h r ps rc)"
proof -
  let ?m = "if length (rc_cache rc) \<ge> rc_max_size rc then evict_min cr_last_access (rc_cache rc) else rc_cache rc"
  have sub: "set ?m \<subseteq> set (rc_cache rc)" using set_evict_min by auto
  have "length ?m < cap"
    using assms rc_evict_room [OF assms] by (auto simp: rc_ok_def)
  then have "length (AList.update h (cached_route_new r ps) ?m) \<le> cap"
    by (simp add: length_update del: if_image_distrib)
  moreover have "unat (cr_last_access e) \<le> Suc n"
    if "(k, e) \<in> set (AList.update h (cached_route_new r ps) ?m)" for k e
    using that set_update_subset [of h "cached_route_new r ps" ?m] sub assms(1)
    by (fastforce simp: rc_ok_def cached_route_new_def)
  moreover have "rc_insert h r ps rc = rc\<lparr>rc_cache := AList.update h (cached_route_new r ps) ?m\<rparr>"
    by (simp add: rc_insert_def rc_evict_lru_def)
  ultimately show ?thesis
    using assms(1) by (auto simp: rc_ok_def)
qed

lemma rc_ok_get:
  assumes "rc_ok cap n rc" "Suc n < 2 ^ 64"
  shows "rc_ok cap (Suc n) (snd (rc_get h rc))"
proof (cases "map_of (rc_cache rc) h")
  case None
  then show ?thesis using assms(1) by (auto simp: rc_get_def rc_ok_def)
next
  case (Some e)
  let ?e = "e\<lparr>cr_hits := cr_hits e + 1, cr_last_access := rc_counter rc\<rparr>"
  have "length (AList.update h ?e (rc_cache rc)) = length (rc_cache rc)"
    using Some by (simp add: length_update contains_key_def)
  moreover have "unat (rc_counter rc + 1) \<le> Suc n"
    using assms unat_Suc_no_wrap [of "rc_counter rc"] by (simp add: rc_ok_def)
  ultimately show ?thesis
    using assms(1) Some set_update_subset [of h ?e "rc_cache rc"]
    by (fastforce simp: rc_get_def Let_def rc_ok_def)
qed

lemma rc_ok_clear: "rc_ok cap n rc \<Longrightarrow> rc_ok cap (Suc n) (rc_clear rc)"
  by (simp add: rc_ok_def rc_clear_def)

lemma rc_ok_new: "rc_ok cap 0 (rc_new cap)"
  by (simp add: rc_ok_def rc_new_def)

interpretation rc1: size_limited "rc_new (Suc c)" "\<lambda>(h, r, ps). rc_insert h r ps" "\<lambda>h rc. snd (rc_get h rc)"
  "\<lambda>_ :: unit. rc_clear" rc_len "Suc c" "rc_ok (Suc c)" for c
proof (unfold_locales, goal_cases)
  case (5 n s)
  then show ?case by (simp add: rc_ok_def rc_len_def)
qed (auto intro: rc_ok_new rc_ok_insert rc_ok_get rc_ok_clear)

lemmas rc_defs = rc_get_def rc_insert_def rc_evict_lru_def cached_route_new_def

text \<open>
  The route cache never outgrows its capacity: after any sequence of inserts, lookups and
  clears on a cache created with a positive \<open>max_size\<close>, as long as there were fewer than \<open>2\<^sup>6\<^sup>4\<close>
  operations, the number of entries is at most \<open>max_size\<close>.
\<close>

theorem route_cache_bounded:
  assumes "0 < cap" "length ops < 2 ^ 64"
  shows "rc_len (fold (cache_apply (\<lambda>(h, r, ps). rc_insert h r ps) (\<lambda>h rc. snd (rc_get h rc)) (\<lambda>_ :: unit. rc_clear))
           ops (rc_new cap)) \<le> cap"
  using rc1.run_size [of ops "cap - 1"] assms by (simp)

theorem route_cache_bounded_witness:
  "rc_len (fold (cache_apply (\<lambda>(h, r, ps). rc_insert h r ps) (\<lambda>h rc. snd (rc_get h rc)) (\<lambda>_ :: unit. rc_clear))
     [Put (1, route_new ''/a'' () ''GET'' None, []), Fetch 1, Put (2, route_new ''/b'' () ''GET'' None, [])]
     (rc_new 1)) \<le> 1"
  by (rule route_cache_bounded) simp_all

text \<open>
  An insertion is found by the next lookup of the same hash, and an insertion that has to
  make room removes exactly one entry, one whose last access is minimal among all entries; every
  other entry is kept.
\<close>

theorem rc_insert_evicts_minimal:
  assumes wf: "wf_map (rc_cache rc)"
    and full: "rc_max_size rc \<le> length (rc_cache rc)"
    and e: "map_of (rc_cache rc) k0 = Some e0" "cr_last_access e0 \<noteq> - 1"
  shows "map_option cr_route (fst (rc_get h (rc_insert h r ps rc))) = Some r \<and>
    (\<exists>k v. map_of (rc_cache rc) k = Some v \<and>
       (\<forall>k' v'. map_of (rc_cache rc) k' = Some v' \<longrightarrow> cr_last_access v \<le> cr_last_access v') \<and>
       (\<forall>k'. k' \<noteq> h \<longrightarrow> map_of (rc_cache (rc_insert h r ps rc)) k' =
          (if k' = k then None else map_of (rc_cache rc) k')))"
proof (rule evict_min_cases [OF wf, of cr_last_access])
  assume "\<And>k v. map_of (rc_cache rc) k = Some v \<Longrightarrow> cr_last_access v = - 1"
  with e show ?thesis by blast
next
  fix k v
  assume kv: "map_of (rc_cache rc) k = Some v"
    "evict_min cr_last_access (rc_cache rc) = AList.delete k (rc_cache rc)"
    "\<And>k' v'. map_of (rc_cache rc) k' = Some v' \<Longrightarrow> cr_last_access v \<le> cr_last_access v'"
  have "map_option cr_route (fst (rc_get h (rc_insert h r ps rc))) = Some r"
    by (simp add: rc_defs Let_def)
  moreover have "map_of (rc_cache (rc_insert h r ps rc)) k' = (if k' = k then None else map_of (rc_cache rc) k')"
    if "k' \<noteq> h" for k'
    using that full kv(2) by (simp add: rc_defs Let_def)
  ultimately show ?thesis using kv(1,3) by blast
qed

theorem rc_insert_evicts_minimal_witness:
  "\<exists>rc :: unit route_cache. rc_max_size rc \<le> length (rc_cache rc) \<and>
     map_option cr_route (fst (rc_get 2 (rc_insert 2 (route_new ''/b'' () ''GET'' None) [] rc))) =
       Some (route_new ''/b'' () ''GET'' None)"
proof -
  let ?rc = "rc_insert 1 (route_new ''/a'' () ''GET'' None) [] (rc_new 1)"
  have "wf_map (rc_cache ?rc)" "rc_max_size ?rc \<le> length (rc_cache ?rc)"
    "map_of (rc_cache ?rc) 1 = Some (cached_route_new (route_new ''/a'' () ''GET'' None) [])"
    "cr_last_access (cached_route_new (route_new ''/a'' () ''GET'' None) []) \<noteq> - 1"
    by (simp_all add: rc_defs rc_new_def wf_map_def)
  from rc_insert_evicts_minimal [OF this, of 2 "route_new ''/b'' () ''GET'' None" "[]"] this(2)
  show ?thesis by blast
qed

text \<open>
  The eviction order is not least-recently-used: a fresh entry starts with \<open>last_access\<close> 0, so
  when the cache is full and every other entry has been read with a positive access time, the
  entry inserted last is the one that is evicted.
\<close>

lemma rc_fresh_entry_evicted:
  assumes wf: "wf_map (rc_cache rc)"
    and full: "rc_max_size rc \<le> Suc (length (rc_cache rc))" "\<not> rc_max_size rc \<le> length (rc_cache rc)"
    and fresh: "h \<notin> keys (rc_cache rc)"
    and read: "\<And>k v. map_of (rc_cache rc) k = Some v \<Longrightarrow> 0 < cr_last_access v"
    and neq: "h' \<noteq> h"
  shows "map_of (rc_cache (rc_insert h' r' ps' (rc_insert h r ps rc))) h = None"
proof -
  let ?rc = "rc_insert h r ps rc"
  have m: "map_of (rc_cache ?rc) = (map_of (rc_cache rc))(h \<mapsto> cached_route_new r ps)"
    using full(2) by (simp add: rc_insert_def)
  have wf': "wf_map (rc_cache ?rc)" using wf full(2) by (simp add: rc_insert_def)
  have cap: "rc_max_size ?rc \<le> length (rc_cache ?rc)"
    using full fresh by (simp add: rc_insert_def length_update contains_key_iff)
  show ?thesis
  proof (rule evict_min_cases [OF wf', of cr_last_access])
    assume "\<And>k v. map_of (rc_cache ?rc) k = Some v \<Longrightarrow> cr_last_access v = - 1"
    from this [of h "cached_route_new r ps"] show ?thesis by (simp add: m cached_route_new_def)
  next
    fix k v assume kv: "map_of (rc_cache ?rc) k = Some v"
      "evict_min cr_last_access (rc_cache ?rc) = AList.delete k (rc_cache ?rc)"
      "\<And>k' v'. map_of (rc_cache ?rc) k' = Some v' \<Longrightarrow> cr_last_access v \<le> cr_last_access v'"
    have "cr_last_access v \<le> 0" using kv(3) [of h "cached_route_new r ps"] by (simp add: m cached_route_new_def)
    then have "k = h" using kv(1) read [of k v] by (auto simp: m split: if_splits)
    then show ?thesis using kv(2) cap neq by (simp add: rc_insert_def [of h'] rc_evict_lru_def)
  qed
qed

end
