(* ===== verification/Utf8.thy ===== *)
theory Utf8
  imports Prelude
begin

text \<open>
  Lossy UTF-8 decoding (\<open>String::from_utf8_lossy\<close>), which the request parser and the multipart
  parser apply to bytes from the wire: every maximal ill-formed subpart becomes one replacement
  character U+FFFD, everything else is kept.
\<close>

definition utf8_width :: "char \<Rightarrow> nat" where
  "utf8_width a =
     (let n = of_char a :: nat in
      if n < 128 then 1 else if 194 \<le> n \<and> n \<le> 223 then 2
      else if 224 \<le> n \<and> n \<le> 239 then 3 else if 240 \<le> n \<and> n \<le> 244 then 4 else 0)"

text \<open>The bytes that may follow a lead byte; four lead bytes restrict the range.\<close>

definition utf8_second :: "char \<Rightarrow> char \<Rightarrow> bool" where
  "utf8_second a b =
     (let n = of_char a :: nat; m = of_char b :: nat in
      utf8_cont b \<and> (n = 224 \<longrightarrow> 160 \<le> m) \<and> (n = 237 \<longrightarrow> m \<le> 159) \<and>
      (n = 240 \<longrightarrow> 144 \<le> m) \<and> (n = 244 \<longrightarrow> m \<le> 143))"

text \<open>How many bytes at the front belong to the sequence the lead byte announces.\<close>

fun utf8_good :: "string \<Rightarrow> nat" where
  "utf8_good (a # b # s) =
     (if 1 < utf8_width a \<and> utf8_second a b
      then 2 + length (takeWhile utf8_cont (take (utf8_width a - 2) s)) else 1)"
| "utf8_good s = 1"

lemma utf8_good_pos [simp]: "0 < utf8_good s"
  by (cases s rule: utf8_good.cases) auto

function utf8_lossy :: "string \<Rightarrow> string" where
  "utf8_lossy [] = []"
| "utf8_lossy (a # s) =
     (if utf8_good (a # s) = utf8_width a
      then take (utf8_width a) (a # s) @ utf8_lossy (drop (utf8_width a) (a # s))
      else [CHR 0xEF, CHR 0xBF, CHR 0xBD] @ utf8_lossy (drop (utf8_good (a # s)) (a # s)))"
  by pat_completeness auto
termination
proof (relation "measure length", goal_cases)
  case (2 a s)
  then have "0 < utf8_width a" by (metis utf8_good_pos)
  then show ?case by (simp add: drop_Cons')
next
  case (3 a s)
  then show ?case by (simp add: drop_Cons' del: utf8_good.simps)
qed simp

text \<open>A well-formed string starts with a complete sequence of one to four bytes and goes on well-formed.\<close>

lemma utf8_valid_cases:
  assumes "utf8_valid (a # s)"
  obtains
    "utf8_width a = 1" "of_char a < (128 :: nat)" "utf8_valid s"
  | b t where "s = b # t" "utf8_width a = 2" "194 \<le> (of_char a :: nat)" "of_char a \<le> (223 :: nat)"
      "utf8_second a b" "utf8_valid t"
  | b c t where "s = b # c # t" "utf8_width a = 3" "224 \<le> (of_char a :: nat)" "of_char a \<le> (239 :: nat)"
      "utf8_second a b" "utf8_cont c" "utf8_valid t"
  | b c d t where "s = b # c # d # t" "utf8_width a = 4" "240 \<le> (of_char a :: nat)" "of_char a \<le> (244 :: nat)"
      "utf8_second a b" "utf8_cont c" "utf8_cont d" "utf8_valid t"
proof (cases "of_char a < (128 :: nat)")
  case True
  with assms that(1) show ?thesis by (simp add: utf8_width_def)
next
  case f1: False
  then obtain b s2 where s: "s = b # s2" using assms by (cases s) auto
  show ?thesis
  proof (cases "194 \<le> (of_char a :: nat) \<and> of_char a \<le> (223 :: nat)")
    case True
    with assms f1 s show ?thesis by (intro that(2) [of b s2]) (auto simp: utf8_width_def utf8_second_def Let_def)
  next
    case f2: False
    then obtain c s3 where s2: "s2 = c # s3" using assms f1 s by (cases s2) auto
    show ?thesis
    proof (cases "224 \<le> (of_char a :: nat) \<and> of_char a \<le> (239 :: nat)")
      case True
      with assms f1 f2 s s2 show ?thesis
        by (intro that(3) [of b c s3]) (auto simp: utf8_width_def utf8_second_def Let_def)
    next
      case f3: False
      then obtain d s4 where s3: "s3 = d # s4" using assms f1 f2 s s2 by (cases s3) auto
      from assms f1 f2 f3 s s2 s3 show ?thesis
        by (intro that(4) [of b c d s4]) (simp_all add: utf8_width_def utf8_second_def Let_def)
    qed
  qed
qed

lemma utf8_good_valid:
  assumes "utf8_valid (a # s)"
  shows "utf8_good (a # s) = utf8_width a \<and> utf8_valid (drop (utf8_width a) (a # s))"
  using assms by (rule utf8_valid_cases) (cases s; auto)+

lemma utf8_valid_append: "utf8_valid s \<Longrightarrow> utf8_valid (s @ t) = utf8_valid t"
proof (induction s rule: utf8_lossy.induct)
  case (2 a s)
  note IH = 2(1) [OF conjunct1 conjunct2, OF utf8_good_valid [OF 2(3)] utf8_good_valid [OF 2(3)]]
  from 2(3) show ?case
  proof (rule utf8_valid_cases)
    assume "utf8_width a = 1" "of_char a < (128 :: nat)"
    with IH show ?thesis by simp
  next
    fix b u
    assume "s = b # u" "utf8_width a = 2" "194 \<le> (of_char a :: nat)" "of_char a \<le> (223 :: nat)" "utf8_second a b"
    with IH show ?thesis by (simp add: utf8_second_def Let_def)
  next
    fix b c u
    assume "s = b # c # u" "utf8_width a = 3" "224 \<le> (of_char a :: nat)" "of_char a \<le> (239 :: nat)"
      "utf8_second a b" "utf8_cont c"
    with IH show ?thesis by (simp add: utf8_second_def Let_def)
  next
    fix b c d u
    assume "s = b # c # d # u" "utf8_width a = 4" "240 \<le> (of_char a :: nat)" "of_char a \<le> (244 :: nat)"
      "utf8_second a b" "utf8_cont c" "utf8_cont d"
    with IH show ?thesis by (simp add: utf8_second_def Let_def)
  qed
qed simp

lemma utf8_lossy_valid: "utf8_valid s \<Longrightarrow> utf8_lossy s = s"
proof (induction s rule: utf8_lossy.induct)
  case (2 a s)
  with utf8_good_valid [OF 2(3)] show ?case by (simp del: utf8_good.simps utf8_valid.simps)
qed simp

end
