(* ===== verification/Multipart.thy ===== *)
theory Multipart
  imports Utf8
begin

text \<open>
  Multipart form data (\<open>src/http/multipart.rs\<close>): uploaded files, the parsed form, and the parser
  with its byte search, its loop over the boundary and its two header parsers. The loop keeps the
  rest of the body from \<open>start\<close> on instead of the index \<open>start\<close>.
\<close>

abbreviation crlf :: string where
  "crlf \<equiv> [CHR 0x0D, CHR 0x0A]"

subsection \<open>Uploaded files\<close>

record uploaded_file =
  uf_filename :: string
  uf_name :: string
  uf_content_type :: string
  uf_size :: nat
  uf_content :: string

definition uploaded_file_new :: "string \<Rightarrow> string \<Rightarrow> string \<Rightarrow> string \<Rightarrow> uploaded_file" where
  "uploaded_file_new name filename ctype content =
     \<lparr>uf_filename = filename, uf_name = name, uf_content_type = ctype, uf_size = length content,
      uf_content = content\<rparr>"

definition read_text :: "uploaded_file \<Rightarrow> string option" where
  "read_text u = (if utf8_valid (uf_content u) then Some (uf_content u) else None)"

definition is_image :: "uploaded_file \<Rightarrow> bool" where
  "is_image u = starts_with (uf_content_type u) ''image/''"

definition is_video :: "uploaded_file \<Rightarrow> bool" where
  "is_video u = starts_with (uf_content_type u) ''video/''"

definition is_audio :: "uploaded_file \<Rightarrow> bool" where
  "is_audio u = starts_with (uf_content_type u) ''audio/''"

definition is_pdf :: "uploaded_file \<Rightarrow> bool" where
  "is_pdf u = (uf_content_type u = ''application/pdf'')"

text \<open>
  \<open>Path::file_name\<close> (the last component, none for \<open>..\<close>) and \<open>Path::extension\<close> (what follows the
  last dot, none when that dot starts the name).
\<close>

definition path_file_name :: "string \<Rightarrow> string option" where
  "path_file_name p =
     (case rev (filter (\<lambda>c. c \<noteq> [] \<and> c \<noteq> ''.'') (split_on (CHR ''/'') p)) of
        [] \<Rightarrow> None
      | c # _ \<Rightarrow> if c = ''..'' then None else Some c)"

definition path_extension :: "string \<Rightarrow> string option" where
  "path_extension p =
     (case path_file_name p of
        None \<Rightarrow> None
      | Some name \<Rightarrow>
          (case split_once (CHR ''.'') (rev name) of
             None \<Rightarrow> None
           | Some (after, before) \<Rightarrow> if before = [] then None else Some (rev after)))"

definition extension :: "uploaded_file \<Rightarrow> string option" where
  "extension u = path_extension (uf_filename u)"

text \<open>\<open>dir.join(filename)\<close>, the path \<open>save_to\<close> writes to: an absolute file name replaces the directory.\<close>

definition path_join :: "string \<Rightarrow> string \<Rightarrow> string" where
  "path_join dir name =
     (if starts_with name ''/'' then name
      else if dir = [] \<or> ends_with dir ''/'' then dir @ name
      else dir @ ''/'' @ name)"

definition save_to_path :: "uploaded_file \<Rightarrow> string \<Rightarrow> string" where
  "save_to_path u directory = path_join directory (uf_filename u)"

subsection \<open>FormData\<close>

record form_data =
  fd_fields :: params
  fd_files :: "(string \<times> uploaded_file list) list"

definition form_new :: form_data where
  "form_new = \<lparr>fd_fields = [], fd_files = []\<rparr>"

definition add_field :: "string \<Rightarrow> string \<Rightarrow> form_data \<Rightarrow> form_data" where
  "add_field name v fd = fd\<lparr>fd_fields := AList.update name v (fd_fields fd)\<rparr>"

definition add_file :: "string \<Rightarrow> uploaded_file \<Rightarrow> form_data \<Rightarrow> form_data" where
  "add_file name u fd =
     fd\<lparr>fd_files := AList.update name
          ((case map_of (fd_files fd) name of Some us \<Rightarrow> us | None \<Rightarrow> []) @ [u]) (fd_files fd)\<rparr>"

definition form_get :: "form_data \<Rightarrow> string \<Rightarrow> string option" where
  "form_get fd key = map_of (fd_fields fd) key"

definition get_or :: "form_data \<Rightarrow> string \<Rightarrow> string option \<Rightarrow> string option" where
  "get_or fd key dflt = (case map_of (fd_fields fd) key of Some v \<Rightarrow> Some v | None \<Rightarrow> dflt)"

definition form_file :: "form_data \<Rightarrow> string \<Rightarrow> uploaded_file option" where
  "form_file fd key = (case map_of (fd_files fd) key of Some (u # _) \<Rightarrow> Some u | _ \<Rightarrow> None)"

definition files_list :: "form_data \<Rightarrow> string \<Rightarrow> uploaded_file list" where
  "files_list fd key = (case map_of (fd_files fd) key of Some us \<Rightarrow> us | None \<Rightarrow> [])"

definition all_files :: "form_data \<Rightarrow> uploaded_file list" where
  "all_files fd = concat (map snd (fd_files fd))"

definition field_names :: "form_data \<Rightarrow> string list" where
  "field_names fd = map fst (fd_fields fd)"

definition file_names :: "form_data \<Rightarrow> string list" where
  "file_names fd = map fst (fd_files fd)"

definition form_has :: "form_data \<Rightarrow> string \<Rightarrow> bool" where
  "form_has fd key = contains_key key (fd_fields fd)"

definition has_file :: "form_data \<Rightarrow> string \<Rightarrow> bool" where
  "has_file fd key = contains_key key (fd_files fd)"

definition file_count :: "form_data \<Rightarrow> nat" where
  "file_count fd = sum_list (map (length \<circ> snd) (fd_files fd))"

definition form_len :: "form_data \<Rightarrow> nat" where
  "form_len fd = length (fd_fields fd) + file_count fd"

subsection \<open>The parser\<close>

definition find_bytes :: "string \<Rightarrow> string \<Rightarrow> nat option" where
  "find_bytes haystack needle =
     find (\<lambda>i. take (length needle) (drop i haystack) = needle) [0..<length haystack + 1 - length needle]"

definition find_double_crlf :: "string \<Rightarrow> nat option" where
  "find_double_crlf data = find (\<lambda>i. take 4 (drop i data) = crlf @ crlf) [0..<length data - 3]"

definition skip_crlf :: "string \<Rightarrow> string" where
  "skip_crlf rest = (if length rest > 2 \<and> take 2 rest = crlf then drop 2 rest else rest)"

lemma find_bytes_Some:
  assumes "find_bytes s m = Some i"
  shows "i + length m \<le> length s \<and> starts_with (drop i s) m"
proof -
  from assms have "i < length s + 1 - length m" "take (length m) (drop i s) = m"
    by (auto simp: find_bytes_def find_Some_iff)
  then show ?thesis by (auto simp: starts_with_def)
qed

function split_loop :: "string \<Rightarrow> string \<Rightarrow> string list" where
  "split_loop boundary rest =
     (case find_bytes rest (''--'' @ boundary) of
        Some e \<Rightarrow>
          (let after = drop (e + length (''--'' @ boundary)) rest in
           take e rest # (if starts_with after ''--'' then [] else split_loop boundary (skip_crlf after)))
      | None \<Rightarrow> if rest \<noteq> [] then [rest] else [])"
  by pat_completeness auto
termination
proof (relation "measure (\<lambda>(b, rest). length rest)", goal_cases)
  case (2 boundary rest e after)
  then show ?case using find_bytes_Some [OF 2(1)] by (auto simp: skip_crlf_def)
qed simp

declare split_loop.simps [simp del]

definition split_multipart :: "string \<Rightarrow> string \<Rightarrow> string list" where
  "split_multipart body boundary =
     (case find_bytes body (''--'' @ boundary) of
        Some pos \<Rightarrow> split_loop boundary (skip_crlf (drop (pos + length (''--'' @ boundary)) body))
      | None \<Rightarrow> split_loop boundary body)"

text \<open>\<open>str::split\<close> at CRLF.\<close>

fun split_crlf :: "string \<Rightarrow> string list" where
  "split_crlf [] = [[]]"
| "split_crlf (x # s) =
     (if starts_with (x # s) crlf then [] # split_crlf (drop 1 s)
      else case split_crlf s of [] \<Rightarrow> [[x]] | p # ps \<Rightarrow> (x # p) # ps)"

definition parse_part_headers :: "string \<Rightarrow> params" where
  "parse_part_headers header_bytes =
     fold (\<lambda>line m.
       case split_once (CHR '':'') line of
         Some (name, v) \<Rightarrow> AList.update (to_lower (trim name)) (trim v) m
       | None \<Rightarrow> m)
     (split_crlf (utf8_lossy header_bytes)) []"

abbreviation trim_quotes :: "string \<Rightarrow> string" where
  "trim_quotes \<equiv> trim_by (\<lambda>c. c = CHR 0x22)"

definition disposition_part :: "string \<Rightarrow> string option \<times> string option \<Rightarrow> string option \<times> string option" where
  "disposition_part p =
     (\<lambda>(name, filename).
        let p = trim p in
        if starts_with p ''name='' then (Some (trim_quotes (drop 5 p)), filename)
        else if starts_with p ''filename='' then (name, Some (trim_quotes (drop 9 p)))
        else (name, filename))"

definition parse_content_disposition :: "string \<Rightarrow> string option \<times> string option" where
  "parse_content_disposition v = fold disposition_part (split_on (CHR '';'') v) (None, None)"

definition extract_boundary :: "string \<Rightarrow> string option" where
  "extract_boundary ctype =
     (case find (\<lambda>p. starts_with (trim p) ''boundary='') (split_on (CHR '';'') ctype) of
        Some p \<Rightarrow> Some (trim_quotes (drop 9 (trim p)))
      | None \<Rightarrow> None)"

text \<open>\<open>trim_end_matches\<close> of CRLF, which removes it as often as it is there.\<close>

function trim_end_crlf :: "string \<Rightarrow> string" where
  "trim_end_crlf s = (if ends_with s crlf then trim_end_crlf (take (length s - 2) s) else s)"
  by pat_completeness auto
termination
  by (relation "measure length") (auto simp: ends_with_def)

declare trim_end_crlf.simps [simp del]

definition parse_part :: "string \<Rightarrow> form_data \<Rightarrow> form_data" where
  "parse_part p fd =
     (if p = [] then fd
      else case find_double_crlf p of
        None \<Rightarrow> fd
      | Some sep_pos \<Rightarrow>
          (let body = drop (sep_pos + 4) p; headers = parse_part_headers (take sep_pos p) in
           case map_of headers ''content-disposition'' of
             None \<Rightarrow> fd
           | Some disposition \<Rightarrow>
               (case parse_content_disposition disposition of
                  (Some name, Some filename) \<Rightarrow>
                    (let ctype = (case map_of headers ''content-type'' of
                                    Some t \<Rightarrow> t | None \<Rightarrow> ''application/octet-stream'');
                         body = (if ends_with body crlf then take (length body - 2) body else body)
                     in add_file name (uploaded_file_new name filename ctype body) fd)
                | (Some name, None) \<Rightarrow> add_field name (trim_end_crlf (utf8_lossy body)) fd
                | (None, _) \<Rightarrow> fd)))"

definition parse_multipart :: "string \<Rightarrow> string \<Rightarrow> form_data" where
  "parse_multipart body boundary = fold parse_part (split_multipart body boundary) form_new"

subsection \<open>Byte search\<close>

lemma find_map_Suc: "find P (map Suc xs) = map_option Suc (find (P \<circ> Suc) xs)"
  by (induction xs) auto

lemma find_bytes_Nil [simp]: "m \<noteq> [] \<Longrightarrow> find_bytes [] m = None"
  by (cases m) (auto simp: find_bytes_def)

lemma find_bytes_Cons:
  assumes "m \<noteq> []"
  shows "find_bytes (x # s) m = (if starts_with (x # s) m then Some 0 else map_option Suc (find_bytes s m))"
proof (cases "length m \<le> Suc (length s)")
  case True
  have "[0..<length (x # s) + 1 - length m] = 0 # map Suc [0..<length s + 1 - length m]"
    using True assms by (simp add: upt_conv_Cons map_Suc_upt Suc_diff_le)
  then show ?thesis by (simp add: find_bytes_def find_map_Suc comp_def starts_with_def)
next
  case False
  then have "\<not> starts_with (x # s) m" by (metis starts_with_def length_Cons length_take min.cobounded1)
  with False show ?thesis by (simp add: find_bytes_def)
qed

lemma find_double_crlf_eq: "find_double_crlf s = find_bytes s (crlf @ crlf)"
  by (simp add: find_double_crlf_def find_bytes_def numeral_eq_Suc)

lemma find_bytes_skip:
  assumes "c \<notin> set a"
  shows "find_bytes (a @ s) (c # q) = map_option (\<lambda>i. length a + i) (find_bytes s (c # q))"
  using assms by (induction a; cases "find_bytes s (c # q)") (auto simp: find_bytes_Cons starts_with_Cons)

lemma find_bytes_here: "m \<noteq> [] \<Longrightarrow> find_bytes (m @ rest) m = Some 0"
  by (cases m) (auto simp: find_bytes_Cons starts_with_def)

text \<open>A marker without line feeds is first found after a part that ends with one and does not contain it.\<close>

lemma find_marker:
  assumes "CHR 0x0A \<notin> set m" "m \<noteq> []" "p = [] \<or> last p = CHR 0x0A" "\<not> contains_sub p m"
  shows "find_bytes (p @ m @ rest) m = Some (length p)"
  using assms(3,4)
proof (induction p)
  case Nil
  then show ?case using assms(2) by (simp add: find_bytes_here)
next
  case (Cons x p)
  have "\<not> starts_with ((x # p) @ m @ rest) m"
  proof
    assume st: "starts_with ((x # p) @ m @ rest) m"
    show False
    proof (cases "length m \<le> length (x # p)")
      case True
      then have "starts_with (x # p) m" using st unfolding starts_with_def take_append by simp
      then show False using Cons.prems(2) by (simp add: contains_sub_starts_with)
    next
      case False
      then have "take (length (x # p)) m = x # p"
        using st by (metis append_eq_conv_conj nat_le_linear starts_with_def take_all_iff take_take min.absorb1)
      then have "last (x # p) \<in> set m" by (metis last_in_set list.distinct(1) set_take_subset subsetD)
      then show False using Cons.prems(1) assms(1) by auto
    qed
  qed
  moreover have "find_bytes (p @ m @ rest) m = Some (length p)"
    using Cons by (auto split: if_splits)
  ultimately show ?case using assms(2) by (simp add: find_bytes_Cons)
qed

lemma split_crlf_line: "CHR 0x0D \<notin> set a \<Longrightarrow> split_crlf (a @ crlf @ s) = a # split_crlf s"
  by (induction a) (auto simp: starts_with_Cons)

lemma split_crlf_single: "CHR 0x0D \<notin> set a \<Longrightarrow> split_crlf a = [a]"
  by (induction a) (auto simp: starts_with_Cons)

lemma trim_end_crlf_append: "trim_end_crlf (s @ crlf) = trim_end_crlf s"
  by (subst trim_end_crlf.simps) (simp add: ends_with_def)

subsection \<open>Round trip\<close>

text \<open>
  The encoder of RFC 7578 as browsers write it, and the parts it can be used on: names without
  quotes, semicolons and line breaks, trimmed content types, text that is UTF-8 and does not end
  with a line break, and a boundary that occurs in no part.
\<close>

datatype form_part = FieldPart string string | FilePart string string string string

definition quoted :: "string \<Rightarrow> string" where
  "quoted s = CHR 0x22 # s @ [CHR 0x22]"

fun part_disposition :: "form_part \<Rightarrow> string" where
  "part_disposition (FieldPart n v) = ''form-data; name='' @ quoted n"
| "part_disposition (FilePart n f t c) = ''form-data; name='' @ quoted n @ ''; filename='' @ quoted f"

fun part_type :: "form_part \<Rightarrow> string" where
  "part_type (FieldPart n v) = []"
| "part_type (FilePart n f t c) = crlf @ ''Content-Type: '' @ t"

fun part_content :: "form_part \<Rightarrow> string" where
  "part_content (FieldPart n v) = v"
| "part_content (FilePart n f t c) = c"

definition part_head :: "form_part \<Rightarrow> string" where
  "part_head p = ''Content-Disposition: '' @ part_disposition p @ part_type p"

definition part_text :: "form_part \<Rightarrow> string" where
  "part_text p = part_head p @ crlf @ crlf @ part_content p @ crlf"

fun encode_rest :: "string \<Rightarrow> form_part list \<Rightarrow> string" where
  "encode_rest b [] = ''--'' @ b @ ''--'' @ crlf"
| "encode_rest b (p # ps) = ''--'' @ b @ crlf @ part_text p @ encode_rest b ps"

definition clean_name :: "string \<Rightarrow> bool" where
  "clean_name n = (CHR 0x22 \<notin> set n \<and> CHR '';'' \<notin> set n \<and> CHR 0x0D \<notin> set n \<and> utf8_valid n)"

fun clean_content :: "form_part \<Rightarrow> bool" where
  "clean_content (FieldPart n v) = (clean_name n \<and> utf8_valid v \<and> \<not> ends_with v crlf)"
| "clean_content (FilePart n f t c) = (clean_name n \<and> clean_name f \<and> clean_name t \<and> trim t = t)"

definition clean_part :: "string \<Rightarrow> form_part \<Rightarrow> bool" where
  "clean_part b p = (clean_content p \<and> \<not> contains_sub (part_text p) (''--'' @ b))"

fun add_part :: "form_part \<Rightarrow> form_data \<Rightarrow> form_data" where
  "add_part (FieldPart n v) fd = add_field n v fd"
| "add_part (FilePart n f t c) fd = add_file n (uploaded_file_new n f t c) fd"

lemma trim_quoted: "CHR 0x22 \<notin> set n \<Longrightarrow> trim_quotes (quoted n) = n"
proof (cases "n = []")
  case False
  let ?q = "\<lambda>c. c = CHR 0x22"
  assume q: "CHR 0x22 \<notin> set n"
  have "dropWhile ?q (n @ [CHR 0x22]) = n @ [CHR 0x22]"
    using False q by (cases n) auto
  moreover have "dropWhile ?q (rev n) = rev n"
    using False q by (metis dropWhile_eq_self_iff hd_rev last_in_set)
  ultimately show ?thesis by (simp add: quoted_def trim_by_def trim_start_by_def trim_end_by_def)
qed (simp add: quoted_def trim_by_def trim_start_by_def trim_end_by_def)

lemma quoted_simps [simp]: "quoted n \<noteq> []" "last (quoted n) = CHR 0x22"
  by (simp_all add: quoted_def)

lemma last_part_text: "last (part_text p) = CHR 0x0A" "part_text p \<noteq> []"
  by (simp_all add: part_text_def)

lemma skip_crlf_line: "s \<noteq> [] \<Longrightarrow> skip_crlf (crlf @ s) = s"
  by (cases s) (auto simp: skip_crlf_def)

lemma split_loop_parts:
  assumes "CHR 0x0A \<notin> set b"
  shows "clean_part b p \<Longrightarrow> list_all (clean_part b) ps \<Longrightarrow>
    split_loop b (part_text p @ encode_rest b ps) = part_text p # map part_text ps"
proof (induction ps arbitrary: p)
  case Nil
  have "find_bytes (part_text p @ encode_rest b []) (''--'' @ b) = Some (length (part_text p))"
    using find_marker [of "''--'' @ b" "part_text p" "''--'' @ crlf"] assms Nil.prems
    by (simp add: clean_part_def last_part_text)
  then show ?case by (subst split_loop.simps) (simp add: starts_with_Cons)
next
  case (Cons q ps)
  have "find_bytes (part_text p @ encode_rest b (q # ps)) (''--'' @ b) = Some (length (part_text p))"
    using find_marker [of "''--'' @ b" "part_text p" "crlf @ part_text q @ encode_rest b ps"] assms Cons.prems
    by (simp add: clean_part_def last_part_text)
  moreover have "skip_crlf (crlf @ part_text q @ encode_rest b ps) = part_text q @ encode_rest b ps"
    by (rule skip_crlf_line) (simp add: last_part_text)
  ultimately show ?case using Cons
    by (subst split_loop.simps) (simp add: starts_with_Cons)
qed

lemma split_multipart_encode:
  assumes "CHR 0x0A \<notin> set b" "ps \<noteq> []" "list_all (clean_part b) ps"
  shows "split_multipart (encode_rest b ps) b = map part_text ps"
proof -
  obtain p qs where ps: "ps = p # qs" using assms(2) by (cases ps) auto
  have "find_bytes (encode_rest b ps) (''--'' @ b) = Some 0"
    using find_bytes_here [of "''--'' @ b" "crlf @ part_text p @ encode_rest b qs"] by (simp add: ps)
  moreover have "skip_crlf (crlf @ part_text p @ encode_rest b qs) = part_text p @ encode_rest b qs"
    by (rule skip_crlf_line) (simp add: last_part_text)
  ultimately show ?thesis
    using assms split_loop_parts [of b p qs] by (simp add: split_multipart_def ps)
qed

lemma trim_space: "s \<noteq> [] \<Longrightarrow> \<not> is_ws (hd s) \<Longrightarrow> \<not> is_ws (last s) \<Longrightarrow> trim (CHR '' '' # s) = s"
  using trim_by_id [of s is_ws] by (simp add: trim_by_def trim_start_by_def is_ws_def)

lemma no_ws [simp]: "\<not> is_ws (CHR ''f'')" "\<not> is_ws (CHR ''n'')" "\<not> is_ws (CHR 0x22)" "\<not> is_ws (CHR ''a'')"
  by (simp_all add: is_ws_def)

lemma disposition_parts:
  assumes "clean_content p"
  shows "parse_content_disposition (part_disposition p) =
    (case p of FieldPart n v \<Rightarrow> (Some n, None) | FilePart n f t c \<Rightarrow> (Some n, Some f))"
proof -
  have n: "disposition_part (CHR '' '' # ''name='' @ quoted n) st = (Some n, snd st)"
    if "clean_name n" for n and st :: "string option \<times> string option"
    using that trim_space [of "''name='' @ quoted n"]
    by (simp add: disposition_part_def starts_with_Cons trim_quoted clean_name_def split_beta)
  have f: "disposition_part (CHR '' '' # ''filename='' @ quoted n) st = (fst st, Some n)"
    if "clean_name n" for n and st :: "string option \<times> string option"
    using that trim_space [of "''filename='' @ quoted n"]
    by (simp add: disposition_part_def starts_with_Cons trim_quoted clean_name_def split_beta)
  have d: "disposition_part ''form-data'' st = st" for st
    by (simp add: disposition_part_def trim_by_id starts_with_Cons split_beta)
  have q: "CHR '';'' \<notin> set (quoted n)" if "clean_name n" for n
    using that by (simp add: quoted_def clean_name_def)
  show ?thesis
  proof (cases p)
    case (FieldPart m v)
    then have "split_on (CHR '';'') (part_disposition p) = [''form-data'', CHR '' '' # ''name='' @ quoted m]"
      using assms q [of m] by (simp add: split_on_single)
    then show ?thesis using assms FieldPart
      by (simp only: parse_content_disposition_def fold.simps comp_apply id_apply d) (simp add: n [simplified])
  next
    case (FilePart m fl t c)
    have "split_on (CHR '';'') (part_disposition p) =
        [''form-data'', CHR '' '' # ''name='' @ quoted m, CHR '' '' # ''filename='' @ quoted fl]"
      using assms FilePart q [of m] q [of fl]
        split_on_append [of "CHR '';''" "CHR '' '' # ''name='' @ quoted m" "CHR '' '' # ''filename='' @ quoted fl"]
      by (simp add: split_on_single)
    then show ?thesis using assms FilePart
      by (simp only: parse_content_disposition_def fold.simps comp_apply id_apply d) (simp add: n [simplified] f [simplified])
  qed
qed

lemma clean_no_cr:
  assumes "clean_content p"
  shows "CHR 0x0D \<notin> set (part_disposition p)"
  using assms by (cases p) (auto simp: clean_name_def quoted_def)

lemma utf8_valid_quoted: "utf8_valid n \<Longrightarrow> utf8_valid (quoted n @ s) = utf8_valid s"
  by (simp add: quoted_def utf8_valid_append)

lemma part_head_valid: "clean_content p \<Longrightarrow> utf8_valid (part_head p)"
proof (cases p)
  case (FieldPart n v)
  assume "clean_content p"
  with FieldPart utf8_valid_quoted [of n "[]"] show ?thesis by (simp add: part_head_def clean_name_def)
next
  case (FilePart n f t c)
  assume "clean_content p"
  with FilePart show ?thesis by (simp add: part_head_def clean_name_def utf8_valid_quoted)
qed

lemma header_name_disposition [simp]: "to_lower (trim ''Content-Disposition'') = ''content-disposition''"
  by (simp add: trim_by_id is_ws_def to_lower_def lower_char_def char_of_def bit_0)

lemma header_name_type [simp]: "to_lower (trim ''Content-Type'') = ''content-type''"
  by (simp add: trim_by_id is_ws_def to_lower_def lower_char_def char_of_def bit_0)

lemma trim_type: "trim t = t \<Longrightarrow> trim (CHR '' '' # t) = t"
  by (simp add: trim_by_def trim_start_by_def is_ws_def)

lemma trim_disposition: "trim (CHR '' '' # part_disposition p) = part_disposition p"
  by (rule trim_space) (cases p; simp)+

lemma part_headers:
  assumes "clean_content p"
  shows "parse_part_headers (part_head p) =
    (''content-disposition'', part_disposition p) #
    (case p of FieldPart n v \<Rightarrow> [] | FilePart n f t c \<Rightarrow> [(''content-type'', t)])"
proof -
  let ?d = "''Content-Disposition'' @ CHR '':'' # CHR '' '' # part_disposition p"
  have d: "CHR 0x0D \<notin> set ?d" using clean_no_cr [OF assms] by simp
  have so: "split_once (CHR '':'') ?d = Some (''Content-Disposition'', CHR '' '' # part_disposition p)"
    by (simp add: split_once_Some)
  note parse = parse_part_headers_def utf8_lossy_valid [OF part_head_valid [OF assms]]
    fold.simps comp_apply id_apply so option.case prod.case header_name_disposition header_name_type trim_disposition
  show ?thesis
  proof (cases p)
    case (FieldPart n v)
    have "split_crlf (part_head p) = [?d]"
      using split_crlf_single [OF d] FieldPart by (simp add: part_head_def)
    then have "parse_part_headers (part_head p) = AList.update ''content-disposition'' (part_disposition p) []"
      by (simp only: parse)
    then show ?thesis by (simp add: FieldPart)
  next
    case (FilePart n f t c)
    let ?t = "''Content-Type'' @ CHR '':'' # CHR '' '' # t"
    have so2: "split_once (CHR '':'') ?t = Some (''Content-Type'', CHR '' '' # t)"
      by (simp add: split_once_Some)
    have tt: "trim (CHR '' '' # t) = t" using assms FilePart by (simp add: trim_type)
    have "split_crlf (part_head p) = [?d, ?t]"
      using split_crlf_line [OF d, of ?t] split_crlf_single [of ?t] assms FilePart
      by (simp add: part_head_def clean_name_def)
    then have "parse_part_headers (part_head p) =
        AList.update ''content-type'' t (AList.update ''content-disposition'' (part_disposition p) [])"
      by (simp only: parse so2 tt)
    then show ?thesis by (simp add: FilePart)
  qed
qed

lemma find_sep:
  assumes "clean_content p"
  shows "find_double_crlf (part_text p) = Some (length (part_head p))"
proof -
  have d: "CHR 0x0D \<notin> set (''Content-Disposition: '' @ part_disposition p)"
    using clean_no_cr [OF assms] by simp
  have h: "find_bytes (crlf @ crlf @ s) (crlf @ crlf) = Some 0" for s
    using find_bytes_here [of "crlf @ crlf" s] by simp
  show ?thesis
  proof (cases p)
    case (FieldPart n v)
    then show ?thesis
      using find_bytes_skip [OF d, of "crlf @ crlf @ part_content p @ crlf" "CHR 0x0A # crlf"] h [of "v @ crlf"]
      by (simp add: find_double_crlf_eq part_text_def part_head_def)
  next
    case (FilePart n f t c)
    have "CHR 0x0D \<notin> set (''Content-Type: '' @ t)" using assms FilePart by (simp add: clean_name_def)
    from find_bytes_skip [OF this, of "crlf @ crlf @ c @ crlf" "CHR 0x0A # crlf"]
    have "find_bytes (crlf @ ''Content-Type: '' @ t @ crlf @ crlf @ c @ crlf) (crlf @ crlf) = Some (16 + length t)"
      using h [of "c @ crlf"] by (simp add: find_bytes_Cons starts_with_Cons)
    then show ?thesis
      using find_bytes_skip [OF d, of "part_type p @ crlf @ crlf @ part_content p @ crlf" "CHR 0x0A # crlf"] FilePart
      by (simp add: find_double_crlf_eq part_text_def part_head_def)
  qed
qed

lemma parse_part_text:
  assumes "clean_content p"
  shows "parse_part (part_text p) fd = add_part p fd"
proof -
  have t: "take (length (part_head p)) (part_text p) = part_head p"
    "drop (length (part_head p) + 4) (part_text p) = part_content p @ crlf"
    by (simp_all add: part_text_def)
  have dp: "map_of (parse_part_headers (part_head p)) ''content-disposition'' = Some (part_disposition p)"
    by (simp add: part_headers [OF assms])
  note step = parse_part_def find_sep [OF assms] last_part_text if_False option.case t dp Let_def
    disposition_parts [OF assms]
  show ?thesis
  proof (cases p)
    case (FieldPart n v)
    then have "utf8_valid (v @ crlf)" using assms by (simp add: utf8_valid_append)
    then have "trim_end_crlf (utf8_lossy (v @ crlf)) = v"
      using assms FieldPart by (simp add: utf8_lossy_valid trim_end_crlf_append) (simp add: trim_end_crlf.simps)
    then show ?thesis by (simp only: step) (simp add: FieldPart)
  next
    case (FilePart n f ty c)
    have "map_of (parse_part_headers (part_head p)) ''content-type'' = Some ty"
      by (simp add: part_headers [OF assms]) (simp add: FilePart)
    then show ?thesis by (simp only: step option.case) (simp add: FilePart)
  qed
qed

text \<open>
  \<^bold>\<open>C9\<close> Parsing inverts encoding: for every non-empty list of clean parts, text fields and files,
  and every boundary that occurs in none of them, the multipart parser finds exactly those parts, in
  order, with the field values and the file contents byte for byte.
\<close>

theorem multipart_roundtrip:
  assumes "CHR 0x0A \<notin> set b" "ps \<noteq> []" "list_all (clean_part b) ps"
  shows "parse_multipart (encode_rest b ps) b = fold add_part ps form_new"
proof -
  have "fold parse_part (map part_text ps) fd = fold add_part ps fd" for fd
    using assms(3) by (induction ps arbitrary: fd) (auto simp: clean_part_def parse_part_text)
  then show ?thesis
    by (simp add: parse_multipart_def split_multipart_encode [OF assms])
qed

theorem multipart_roundtrip_witness:
  "let ps = [FieldPart ''a'' ''1'', FilePart ''f'' ''x.txt'' ''text/plain'' (''hi'' @ crlf)] in
   parse_multipart (encode_rest ''XyZ'' ps) ''XyZ'' = fold add_part ps form_new"
  unfolding Let_def
  by (rule multipart_roundtrip)
    (simp_all add: clean_part_def clean_name_def part_text_def part_head_def quoted_def starts_with_Cons
       ends_with_def trim_by_id is_ws_def)

text \<open>A text field loses every line break at its end, not only the one before the boundary.\<close>

lemma multipart_field_loses_line_breaks:
  "form_get (parse_part (part_text (FieldPart ''a'' (''x'' @ crlf))) form_new) ''a'' = Some ''x''"
proof -
  have "find_double_crlf (part_text (FieldPart ''a'' (''x'' @ crlf))) = Some (length (part_head (FieldPart ''a'' [])))"
    by code_simp
  moreover have "parse_part_headers (part_head (FieldPart ''a'' [])) = [(''content-disposition'', part_disposition (FieldPart ''a'' []))]"
    by code_simp
  ultimately show ?thesis by code_simp
qed

text \<open>An absolute file name chosen by the client leaves the directory of \<open>save_to\<close>.\<close>

lemma save_to_leaves_directory:
  "uf_filename u = CHR ''/'' # p \<Longrightarrow> save_to_path u dir = CHR ''/'' # p"
  by (simp add: save_to_path_def path_join_def starts_with_Cons)

text \<open>The boundary a client announces is found again.\<close>

lemma extract_boundary_found:
  assumes "clean_name b" "b \<noteq> [] \<longrightarrow> \<not> is_ws (last b)"
  shows "extract_boundary (''multipart/form-data; boundary='' @ b) = Some b"
proof -
  have "CHR '';'' \<notin> set b" using assms(1) by (simp add: clean_name_def)
  then have sp: "split_on (CHR '';'') (''multipart/form-data; boundary='' @ b) =
      [''multipart/form-data'', CHR '' '' # ''boundary='' @ b]"
    by (simp add: split_on_single)
  have find: "find (\<lambda>p. starts_with (trim p) ''boundary='') [''multipart/form-data'', CHR '' '' # ''boundary='' @ b] =
      Some (CHR '' '' # ''boundary='' @ b)"
    if "trim (CHR '' '' # ''boundary='' @ b) = ''boundary='' @ b" "trim ''multipart/form-data'' = ''multipart/form-data''"
    using that by (simp add: starts_with_Cons)
  have t: "trim (CHR '' '' # ''boundary='' @ b) = ''boundary='' @ b"
    using assms(2) by (intro trim_space) (auto simp: is_ws_def)
  have m: "trim ''multipart/form-data'' = ''multipart/form-data''"
    by (simp add: trim_by_id is_ws_def)
  have "trim_quotes b = b"
    using assms(1) by (cases "b = []") (metis clean_name_def hd_in_set last_in_set trim_by_id)+
  then show ?thesis
    by (simp only: extract_boundary_def sp find [OF t m] option.case t) simp
qed

subsection \<open>Saving uploads\<close>

text \<open>
  The file system is a parameter: whether a path exists, creating the directories of a path, and
  creating (or truncating) a file and writing to it, each of which may fail.
\<close>

record 'd disk_ops =
  dk_exists :: "string \<Rightarrow> 'd \<Rightarrow> bool"
  dk_create_dir_all :: "string \<Rightarrow> 'd \<Rightarrow> (string + unit) \<times> 'd"
  dk_create :: "string \<Rightarrow> 'd \<Rightarrow> (string + unit) \<times> 'd"
  dk_write_all :: "string \<Rightarrow> string \<Rightarrow> 'd \<Rightarrow> (string + unit) \<times> 'd"

datatype save_error = FileExists string | IoError string

text \<open>\<open>Path::parent\<close> of a path without \<open>.\<close> components: nothing above the root, the empty path above a bare name.\<close>

definition rdrop :: "(char \<Rightarrow> bool) \<Rightarrow> string \<Rightarrow> string" where
  "rdrop P s = rev (dropWhile P (rev s))"

definition path_parent :: "string \<Rightarrow> string option" where
  "path_parent p =
     (let q = rdrop (\<lambda>c. c = CHR ''/'') p in
      if q = [] then None
      else let dir = rdrop (\<lambda>c. c \<noteq> CHR ''/'') q in
           if dir = [] then Some []
           else let d = rdrop (\<lambda>c. c = CHR ''/'') dir in Some (if d = [] then ''/'' else d))"

definition save_check :: "'d disk_ops \<Rightarrow> string \<Rightarrow> bool \<Rightarrow> 'd \<Rightarrow> bool" where
  "save_check dk path overwrite d = (\<not> (dk_exists dk path d \<and> \<not> overwrite))"

definition save_write :: "'d disk_ops \<Rightarrow> uploaded_file \<Rightarrow> string \<Rightarrow> 'd \<Rightarrow> (save_error + string) \<times> 'd" where
  "save_write dk u path d =
     (case (case path_parent path of
              Some parent \<Rightarrow> if \<not> dk_exists dk parent d then dk_create_dir_all dk parent d else (Ok (), d)
            | None \<Rightarrow> (Ok (), d)) of
        (Err e, d) \<Rightarrow> (Err (IoError e), d)
      | (Ok _, d) \<Rightarrow>
          (case dk_create dk path d of
             (Err e, d) \<Rightarrow> (Err (IoError e), d)
           | (Ok _, d) \<Rightarrow>
               (case dk_write_all dk path (uf_content u) d of
                  (Err e, d) \<Rightarrow> (Err (IoError e), d)
                | (Ok _, d) \<Rightarrow> (Ok path, d))))"

definition save :: "'d disk_ops \<Rightarrow> uploaded_file \<Rightarrow> string \<Rightarrow> bool \<Rightarrow> 'd \<Rightarrow> (save_error + string) \<times> 'd" where
  "save dk u path overwrite d =
     (if save_check dk path overwrite d then save_write dk u path d
      else (Err (FileExists (''File already exists: '' @ path)), d))"

definition save_to :: "'d disk_ops \<Rightarrow> uploaded_file \<Rightarrow> string \<Rightarrow> 'd \<Rightarrow> (save_error + string) \<times> 'd" where
  "save_to dk u directory d = save dk u (save_to_path u directory) False d"

text \<open>Without \<open>overwrite\<close> an existing path is refused and the disk stays as it is.\<close>

lemma save_refuses_existing:
  "dk_exists dk path d \<Longrightarrow> save dk u path False d = (Err (FileExists (''File already exists: '' @ path)), d)"
  by (simp add: save_def save_check_def)

text \<open>A disk as a table of files, on which everything succeeds.\<close>

definition table_disk :: "(string \<times> string) list disk_ops" where
  "table_disk =
     \<lparr>dk_exists = (\<lambda>p d. contains_key p d), dk_create_dir_all = (\<lambda>p d. (Ok (), d)),
      dk_create = (\<lambda>p d. (Ok (), AList.update p [] d)),
      dk_write_all = (\<lambda>p c d. (Ok (), AList.update p ((case map_of d p of Some x \<Rightarrow> x | None \<Rightarrow> []) @ c) d))\<rparr>"

lemma table_disk_save: "path_parent p = Some [] \<Longrightarrow> map_of (snd (save_write table_disk u p d)) p = Some (uf_content u)"
  by (simp add: save_write_def table_disk_def)

text \<open>
  The check and the creation are separate steps and creating truncates: when two requests save different
  files under one name and both check before either writes, both succeed and only the later content
  remains.
\<close>

lemma concurrent_saves_overwrite:
  "let u1 = uploaded_file_new ''f'' ''a.txt'' ''text/plain'' ''one''; u2 = uploaded_file_new ''f'' ''a.txt'' ''text/plain'' ''two'';
       d1 = snd (save_write table_disk u1 ''a.txt'' []); d2 = snd (save_write table_disk u2 ''a.txt'' d1)
   in save_check table_disk ''a.txt'' False [] \<and> fst (save_write table_disk u1 ''a.txt'' []) = Ok ''a.txt'' \<and>
      fst (save_write table_disk u2 ''a.txt'' d1) = Ok ''a.txt'' \<and> map_of d2 ''a.txt'' = Some ''two''"
proof -
  have "path_parent ''a.txt'' = Some []" by (simp add: path_parent_def rdrop_def Let_def)
  then show ?thesis
    by (simp add: Let_def save_check_def save_write_def table_disk_def uploaded_file_new_def contains_key_def)
qed

end
