(* ===== verification/Hex.thy ===== *)
theory Hex
  imports Prelude
begin

text \<open>
  Hexadecimal printing (\<open>format!("{:x}")\<close> with a minimum width) and reading, shared by the
  components that print ids and digests.
\<close>

fun show_hex :: "nat \<Rightarrow> string" where
  "show_hex n = (if n < 16 then [digit_char n] else show_hex (n div 16) @ [digit_char (n mod 16)])"

declare show_hex.simps [simp del]

definition pad_left :: "nat \<Rightarrow> string \<Rightarrow> string" where
  "pad_left w s = replicate (w - length s) (CHR ''0'') @ s"

definition digit_value :: "char \<Rightarrow> nat" where
  "digit_value c = (let n = of_char c in if n < 58 then n - 48 else n - 87)"

definition read_hex :: "string \<Rightarrow> nat" where
  "read_hex s = foldl (\<lambda>n c. 16 * n + digit_value c) 0 s"

lemma digit_value_char [simp]: "n < 16 \<Longrightarrow> digit_value (digit_char n) = n"
  by (simp add: digit_value_def digit_char_def of_char_char_of_small)

lemma read_show_hex: "read_hex (show_hex n) = n"
proof (induction n rule: show_hex.induct)
  case (1 n)
  then show ?case
    by (subst show_hex.simps) (auto simp: read_hex_def)
qed

lemma read_pad: "read_hex (pad_left w s) = read_hex s"
proof -
  have "foldl (\<lambda>n c. 16 * n + digit_value c) 0 (replicate k (CHR ''0'') @ s) = foldl (\<lambda>n c. 16 * n + digit_value c) 0 s" for k
    by (induction k) (simp_all add: digit_value_def)
  then show ?thesis by (simp add: read_hex_def pad_left_def)
qed

interpretation padded_hex: codec "\<lambda>n. pad_left w (show_hex n)" "\<lambda>s. Some (read_hex s)" "\<lambda>_. True" for w
  by unfold_locales (simp add: read_pad read_show_hex)

lemma digit_char_no_underscore: "n < 16 \<Longrightarrow> digit_char n \<noteq> CHR ''_''"
proof
  assume n: "n < 16" and eq: "digit_char n = CHR ''_''"
  have "digit_value (CHR ''_'') = 8" by (simp add: digit_value_def)
  with n eq have "n = 8" by (metis digit_value_char)
  with eq show False by (simp add: digit_char_def char_of_def bit_0)
qed

lemma show_hex_no_underscore: "CHR ''_'' \<notin> set (show_hex n)"
proof (induction n rule: show_hex.induct)
  case (1 n)
  then show ?case
    using digit_char_no_underscore [of n] digit_char_no_underscore [of "n mod 16"]
    by (subst show_hex.simps) auto
qed

end
