(* ===== verification/Static_Files.thy ===== *)
theory Static_Files
  imports Cache_Core Multipart Hex
begin

text \<open>
  Static files (\<open>src/fast_path/static_files.rs\<close>): the handler with its cache of mapped files, path
  normalization, loading, content types and entity tags, and \<open>serve_file\<close> with conditional requests
  and the single-page fallback. The file system is a parameter that answers by the text of a path; a mapped
  file is its bytes. The code opens paths without resolving them, so what a path below the root
  answers may come from a symbolic link there, which the operating system follows.
\<close>

subsection \<open>The file system and the handler\<close>

text \<open>
  An opened file: its metadata (size and modification time in nanoseconds since the epoch, absent
  where the platform fails to give it) and its mapping. \<open>None\<close> is an I/O error.
\<close>

record opened_file =
  op_metadata :: "(u64 \<times> int option) option"
  op_mmap :: "string option"

record file_system =
  fs_exists :: "string \<Rightarrow> bool"
  fs_is_file :: "string \<Rightarrow> bool"
  fs_is_dir :: "string \<Rightarrow> bool"
  fs_open :: "string \<Rightarrow> opened_file option"

datatype static_error = NotFound | InvalidPath | IoError | TooLarge

fun static_error_str :: "static_error \<Rightarrow> string" where
  "static_error_str NotFound = ''File not found''"
| "static_error_str InvalidPath = ''Invalid path''"
| "static_error_str IoError = ''I/O error''"
| "static_error_str TooLarge = ''File too large''"

record cached_file =
  cf_data :: string
  cf_content_type :: string
  cf_size :: u64
  cf_etag :: string

record static_handler =
  sh_root_path :: string
  sh_cache :: "(string \<times> cached_file) list"
  sh_max_cache_size :: nat
  sh_max_file_size :: nat
  sh_prefix :: string
  sh_index_file :: string
  sh_spa_mode :: bool
  sh_cache_max_age :: "u32 option"

definition static_new :: "string \<Rightarrow> static_handler" where
  "static_new dir =
     \<lparr>sh_root_path = dir, sh_cache = [], sh_max_cache_size = 1000, sh_max_file_size = 50 * 1024 * 1024,
      sh_prefix = ''/static'', sh_index_file = ''index.html'', sh_spa_mode = False, sh_cache_max_age = None\<rparr>"

definition with_limits :: "nat \<Rightarrow> nat \<Rightarrow> static_handler \<Rightarrow> static_handler" where
  "with_limits max_cache_size max_file_size h =
     h\<lparr>sh_max_cache_size := max_cache_size, sh_max_file_size := max_file_size\<rparr>"

definition with_prefix :: "string \<Rightarrow> static_handler \<Rightarrow> static_handler" where
  "with_prefix p h = h\<lparr>sh_prefix := p\<rparr>"

definition with_spa :: "bool \<Rightarrow> static_handler \<Rightarrow> static_handler" where
  "with_spa spa h = h\<lparr>sh_spa_mode := spa\<rparr>"

definition with_cache_max_age :: "u32 \<Rightarrow> static_handler \<Rightarrow> static_handler" where
  "with_cache_max_age seconds h = h\<lparr>sh_cache_max_age := Some seconds\<rparr>"

definition static_py_new ::
  "file_system \<Rightarrow> string \<Rightarrow> string \<Rightarrow> string \<Rightarrow> bool \<Rightarrow> u32 option \<Rightarrow> string + static_handler" where
  "static_py_new fs directory p index spa max_age =
     (if \<not> fs_exists fs directory \<or> \<not> fs_is_dir fs directory then Err (''Directory does not exist: '' @ directory)
      else Ok \<lparr>sh_root_path = directory, sh_cache = [], sh_max_cache_size = 1000, sh_max_file_size = 50 * 1024 * 1024,
               sh_prefix = p, sh_index_file = index, sh_spa_mode = spa, sh_cache_max_age = max_age\<rparr>)"

subsection \<open>Loading\<close>

definition trim_slashes :: "string \<Rightarrow> string" where
  "trim_slashes s = trim_start_by (\<lambda>c. c = CHR ''/'') s"

definition normalize_path :: "string \<Rightarrow> static_error + string" where
  "normalize_path path =
     (let path = trim_slashes path in
      if contains_sub path ''..'' then Err InvalidPath else Ok path)"

definition guess_content_type :: "string \<Rightarrow> string" where
  "guess_content_type path =
     (let ext = to_lower (case path_extension path of None \<Rightarrow> [] | Some e \<Rightarrow> e) in
      if ext \<in> {''html'', ''htm''} then ''text/html; charset=utf-8''
      else if ext = ''css'' then ''text/css; charset=utf-8''
      else if ext \<in> {''js'', ''mjs''} then ''application/javascript; charset=utf-8''
      else if ext = ''json'' then ''application/json; charset=utf-8''
      else if ext = ''png'' then ''image/png''
      else if ext \<in> {''jpg'', ''jpeg''} then ''image/jpeg''
      else if ext = ''gif'' then ''image/gif''
      else if ext = ''svg'' then ''image/svg+xml''
      else if ext = ''ico'' then ''image/x-icon''
      else if ext = ''woff'' then ''font/woff''
      else if ext = ''woff2'' then ''font/woff2''
      else if ext = ''ttf'' then ''font/ttf''
      else if ext = ''eot'' then ''application/vnd.ms-fontobject''
      else if ext = ''pdf'' then ''application/pdf''
      else if ext = ''txt'' then ''text/plain; charset=utf-8''
      else if ext = ''xml'' then ''application/xml; charset=utf-8''
      else if ext = ''mp4'' then ''video/mp4''
      else if ext = ''webm'' then ''video/webm''
      else if ext = ''mp3'' then ''audio/mpeg''
      else if ext = ''wav'' then ''audio/wav''
      else if ext = ''zip'' then ''application/zip''
      else ''application/octet-stream'')"

definition file_etag :: "u64 \<Rightarrow> int option \<Rightarrow> string" where
  "file_etag len modified =
     [CHR 0x22] @ show_hex (unat len) @ ''-'' @
     show_hex (case modified of None \<Rightarrow> 0 | Some t \<Rightarrow> as_secs (nat t)) @ [CHR 0x22]"

definition load_file :: "file_system \<Rightarrow> static_handler \<Rightarrow> string \<Rightarrow> static_error + cached_file" where
  "load_file fs h path =
     (let full_path = path_join (sh_root_path h) path in
      if \<not> fs_exists fs full_path \<or> \<not> fs_is_file fs full_path then Err NotFound
      else case fs_open fs full_path of
        None \<Rightarrow> Err IoError
      | Some file \<Rightarrow>
          (case op_metadata file of
             None \<Rightarrow> Err IoError
           | Some (len, modified) \<Rightarrow>
               if unat len > sh_max_file_size h then Err TooLarge
               else case op_mmap file of
                      None \<Rightarrow> Err IoError
                    | Some mmap \<Rightarrow>
                        Ok \<lparr>cf_data = mmap, cf_content_type = guess_content_type full_path, cf_size = len,
                            cf_etag = file_etag len modified\<rparr>))"

definition serve :: "file_system \<Rightarrow> string \<Rightarrow> static_handler \<Rightarrow> (static_error + cached_file) \<times> static_handler" where
  "serve fs path h =
     (case normalize_path path of
        Err e \<Rightarrow> (Err e, h)
      | Ok clean_path \<Rightarrow>
          (case map_of (sh_cache h) clean_path of
             Some cached \<Rightarrow> (Ok cached, h)
           | None \<Rightarrow>
               (case load_file fs h clean_path of
                  Err e \<Rightarrow> (Err e, h)
                | Ok file \<Rightarrow>
                    (Ok file,
                     if length (sh_cache h) < sh_max_cache_size h
                     then h\<lparr>sh_cache := AList.update clean_path file (sh_cache h)\<rparr> else h))))"

definition clear_cache :: "static_handler \<Rightarrow> static_handler" where
  "clear_cache h = h\<lparr>sh_cache := []\<rparr>"

definition requested_file :: "static_handler \<Rightarrow> string \<Rightarrow> string" where
  "requested_file h path =
     (let file_path = trim_slashes (case strip_prefix path (sh_prefix h) of None \<Rightarrow> path | Some p \<Rightarrow> p)
      in if file_path = [] then sh_index_file h else file_path)"

definition serve_file ::
  "file_system \<Rightarrow> string \<Rightarrow> string option \<Rightarrow> static_handler \<Rightarrow>
   (string + string \<times> string \<times> string \<times> u16) \<times> static_handler" where
  "serve_file fs path if_none_match h =
     (case serve fs (requested_file h path) h of
        (Ok cached, h') \<Rightarrow>
          (if if_none_match = Some (cf_etag cached)
           then (Ok ([], cf_content_type cached, cf_etag cached, 304), h')
           else (Ok (cf_data cached, cf_content_type cached, cf_etag cached, 200), h'))
      | (Err e, h') \<Rightarrow>
          (if e = NotFound \<and> sh_spa_mode h
           then (case serve fs (sh_index_file h) h' of
                   (Ok cached, h'') \<Rightarrow> (Ok (cf_data cached, cf_content_type cached, cf_etag cached, 200), h'')
                 | (Err _, h'') \<Rightarrow> (Err ''index.html not found'', h''))
           else (Err (static_error_str e), h')))"

subsection \<open>Confinement\<close>

text \<open>The paths below a root: joined from a relative path none of whose components is \<open>..\<close>.\<close>

definition below :: "string \<Rightarrow> string \<Rightarrow> bool" where
  "below dir p = (\<exists>rel. p = path_join dir rel \<and> \<not> starts_with rel ''/'' \<and> ''..'' \<notin> set (split_on (CHR ''/'') rel))"

definition same_file :: "file_system \<Rightarrow> file_system \<Rightarrow> string \<Rightarrow> bool" where
  "same_file fs fs' p =
     (fs_exists fs p = fs_exists fs' p \<and> fs_is_file fs p = fs_is_file fs' p \<and> fs_open fs p = fs_open fs' p)"

lemma split_on_part_sub: "p \<in> set (split_on c s) \<Longrightarrow> contains_sub s p"
proof (induction c s arbitrary: p rule: split_on.induct)
  case (2 c x s)
  obtain q qs where q: "split_on c s = q # qs" by (cases "split_on c s") auto
  have "s = q @ (if qs = [] then [] else [c] @ join_with [c] qs)"
    using join_split_on [of c s] q by (cases qs) (simp_all add: join_with_Cons_Cons)
  then have "starts_with s q" by (metis starts_with_append)
  then have sub: "contains_sub (x # s) (x # q)"
    by (intro contains_sub_starts_with) (simp add: starts_with_Cons)
  show ?case
  proof (cases "x = c")
    case True
    with 2 show ?thesis by auto
  next
    case False
    with 2(3) q have "p = x # q \<or> p \<in> set (split_on c s)" by auto
    with sub 2(2) [OF False] show ?thesis by auto
  qed
qed simp

lemma normalize_path_below:
  assumes "normalize_path path = Ok p"
  shows "below dir (path_join dir p)"
proof -
  have p: "p = trim_slashes path" "\<not> contains_sub p ''..''"
    using assms by (auto simp: normalize_path_def Let_def split: if_splits)
  have "\<not> starts_with (dropWhile (\<lambda>c. c = CHR ''/'') path) ''/''"
    by (induction path) (simp_all add: starts_with_Cons)
  then have "\<not> starts_with p ''/''" unfolding p(1) trim_slashes_def trim_start_by_def .
  moreover have "''..'' \<notin> set (split_on (CHR ''/'') p)" using p(2) split_on_part_sub by metis
  ultimately show ?thesis by (auto simp: below_def)
qed

lemma load_file_cong: "same_file fs fs' (path_join (sh_root_path h) p) \<Longrightarrow> load_file fs h p = load_file fs' h p"
  by (simp add: load_file_def same_file_def Let_def)

lemma serve_frame [frame_simps]:
  "sh_root_path (snd (serve fs p h)) = sh_root_path h" "sh_index_file (snd (serve fs p h)) = sh_index_file h"
  "sh_spa_mode (snd (serve fs p h)) = sh_spa_mode h" "sh_max_cache_size (snd (serve fs p h)) = sh_max_cache_size h"
  "sh_prefix (snd (serve fs p h)) = sh_prefix h"
  by (auto simp: serve_def split: sum.split option.split)

lemma serve_cong:
  assumes "\<And>p. below (sh_root_path h) p \<Longrightarrow> same_file fs fs' p"
  shows "serve fs path h = serve fs' path h"
proof (cases "normalize_path path")
  case (Inr p)
  with assms normalize_path_below have "load_file fs h p = load_file fs' h p" by (blast intro: load_file_cong)
  with Inr show ?thesis unfolding serve_def by (simp cong: option.case_cong)
qed (simp add: serve_def)

text \<open>
  \<^bold>\<open>C13\<close> The handler never leaves its directory: two file systems that agree on the paths below the
  root, reached without any \<open>..\<close> component, give the same answer and the same cache for every
  request path, whatever it contains: no other path is asked for. A symbolic link below the root is a path
  below the root here and is followed, wherever it leads.
\<close>

theorem serve_file_confined:
  assumes "\<And>p. below (sh_root_path h) p \<Longrightarrow> same_file fs fs' p"
  shows "serve_file fs path inm h = serve_file fs' path inm h"
proof -
  have eq: "serve fs q h = serve fs' q h" for q using assms by (rule serve_cong)
  have eq': "serve fs q (snd (serve fs' q' h)) = serve fs' q (snd (serve fs' q' h))" for q q'
    by (rule serve_cong) (simp add: frame_simps assms)
  show ?thesis
    unfolding serve_file_def eq using eq' [of "sh_index_file h" "requested_file h path"]
    by (auto split: prod.splits sum.splits)
qed

text \<open>A file system with one page below the root, and the same with a secret elsewhere.\<close>

definition demo_fs :: "string list \<Rightarrow> file_system" where
  "demo_fs ps =
     \<lparr>fs_exists = (\<lambda>p. p \<in> set ps), fs_is_file = (\<lambda>p. p \<in> set ps), fs_is_dir = (\<lambda>p. p = ''/srv''),
      fs_open = (\<lambda>p. if p \<in> set ps then Some \<lparr>op_metadata = Some (2, Some 255000000000), op_mmap = Some ''hi''\<rparr> else None)\<rparr>"

lemma etc_not_below: "\<not> below ''/srv'' ''/etc/passwd''"
  by (auto simp: below_def path_join_def starts_with_Cons ends_with_def)

theorem serve_file_confined_witness:
  "serve_file (demo_fs [''/srv/a.css'', ''/etc/passwd'']) ''/static/a.css'' None (static_new ''/srv'') =
   serve_file (demo_fs [''/srv/a.css'']) ''/static/a.css'' None (static_new ''/srv'')"
  by (rule serve_file_confined, rule same_file_def [THEN iffD2])
    (use etc_not_below in \<open>auto simp: demo_fs_def static_new_def\<close>)

subsection \<open>Conditional requests\<close>

lemma serve_again: "serve fs p h = (Ok c, h') \<Longrightarrow> serve fs p h' = (Ok c, h')"
  by (auto simp: serve_def load_file_def Let_def update_conv' split: sum.splits option.splits if_splits)

lemma requested_file_cong: "requested_file (snd (serve fs p h)) path = requested_file h path"
  by (simp add: requested_file_def frame_simps Let_def)

text \<open>
  Revalidation works: without the single-page fallback, when a file was sent with status 200,
  asking again with its entity tag in \<open>If-None-Match\<close> gives 304 with an empty body, the same content
  type and tag, and leaves the handler as it was, also when the cache is full and the file had to be
  loaded again.
\<close>

theorem serve_file_revalidates:
  assumes "\<not> sh_spa_mode h" "serve_file fs path inm h = (Ok (body, ct, etag, 200), h')"
  shows "serve_file fs path (Some etag) h' = (Ok ([], ct, etag, 304), h')"
proof -
  obtain c where c: "serve fs (requested_file h path) h = (Ok c, h')" "ct = cf_content_type c" "etag = cf_etag c"
    using assms by (auto simp: serve_file_def split: prod.splits sum.splits if_splits)
  have "requested_file h' path = requested_file h path"
    using requested_file_cong [of fs "requested_file h path" h path] c(1) by simp
  with c serve_again [OF c(1)] show ?thesis by (simp add: serve_file_def)
qed

lemmas requested_eval =
  requested_file_def static_new_def strip_prefix_def starts_with_def trim_slashes_def trim_start_by_def

theorem serve_file_revalidates_witness:
  "\<exists>h' etag. serve_file (demo_fs [''/srv/a.css'']) ''/static/a.css'' None (static_new ''/srv'') =
       (Ok (''hi'', ''text/css; charset=utf-8'', etag, 200), h') \<and>
     serve_file (demo_fs [''/srv/a.css'']) ''/static/a.css'' (Some etag) h' =
       (Ok ([], ''text/css; charset=utf-8'', etag, 304), h')"
proof -
  have n: "normalize_path ''a.css'' = Ok ''a.css''" by code_simp
  have rq: "requested_file (static_new ''/srv'') ''/static/a.css'' = ''a.css''" by (simp add: requested_eval)
  have g: "guess_content_type ''/srv/a.css'' = ''text/css; charset=utf-8''" by code_simp
  have pj: "path_join ''/srv'' ''a.css'' = ''/srv/a.css''" by code_simp
  obtain h' etag where a: "serve_file (demo_fs [''/srv/a.css'']) ''/static/a.css'' None (static_new ''/srv'') =
       (Ok (''hi'', ''text/css; charset=utf-8'', etag, 200), h')"
    unfolding serve_file_def rq serve_def n load_file_def
    by (simp add: static_new_def demo_fs_def pj g)
  have "\<not> sh_spa_mode (static_new ''/srv'')" by (simp add: static_new_def)
  from serve_file_revalidates [OF this a] a show ?thesis by blast
qed

text \<open>A cached file is answered from the cache for good: its tag does not follow the file.\<close>

lemma cached_file_never_refreshed:
  assumes "serve fs p h = (Ok c, h')" "length (sh_cache h) < sh_max_cache_size h"
  shows "serve fs' p h' = (Ok c, h')"
  using assms by (auto simp: serve_def update_conv' split: sum.splits option.splits if_splits)

text \<open>The prefix is cut off as text, not as path segments.\<close>

lemma prefix_ignores_segments:
  "requested_file (static_new ''/srv'') ''/staticsecret.txt'' = ''secret.txt''"
  by (simp add: requested_eval)

subsection \<open>The cache stays bounded\<close>

definition sh_ok :: "nat \<Rightarrow> nat \<Rightarrow> static_handler \<Rightarrow> bool" where
  "sh_ok cap n h = (sh_max_cache_size h = cap \<and> length (sh_cache h) \<le> cap)"

lemma sh_ok_serve [kept]: "sh_ok cap n h \<Longrightarrow> sh_ok cap m (snd (serve fs p h))"
  by (auto simp: sh_ok_def serve_def length_update split: sum.splits option.splits)

lemma sh_ok_serve_file [kept]: "sh_ok cap n h \<Longrightarrow> sh_ok cap m (snd (serve_file fs p inm h))"
  using sh_ok_serve [of cap n h m fs "requested_file h p"]
    sh_ok_serve [of cap m "snd (serve fs (requested_file h p) h)" m fs "sh_index_file h"]
  by (auto simp: serve_file_def split: prod.splits sum.splits)

interpretation static_cache: size_limited "(static_new dir)\<lparr>sh_max_cache_size := cap\<rparr>"
  "\<lambda>(fs, p, inm) h. snd (serve_file fs p inm h)" "\<lambda>(fs, p) h. snd (serve fs p h)" "\<lambda>_ :: unit. clear_cache"
  "\<lambda>h. length (sh_cache h)" cap "sh_ok cap" for cap dir
  by unfold_locales (auto simp: kept, auto simp: sh_ok_def clear_cache_def static_new_def)

text \<open>
  The file cache never outgrows its limit: after any sequence of requests and clears, over
  file systems that may change between the requests, a handler that started with an empty cache
  holds at most \<open>max_cache_size\<close> files.
\<close>

theorem static_cache_bounded:
  assumes "length ops < 2 ^ 64"
  shows "length (sh_cache (fold (cache_apply (\<lambda>(fs, p, inm) h. snd (serve_file fs p inm h))
           (\<lambda>(fs, p) h. snd (serve fs p h)) (\<lambda>_ :: unit. clear_cache)) ops
           ((static_new dir)\<lparr>sh_max_cache_size := cap\<rparr>))) \<le> cap"
  using assms by (rule static_cache.run_size)

theorem static_cache_bounded_witness:
  "length (sh_cache (fold (cache_apply (\<lambda>(fs, p, inm) h. snd (serve_file fs p inm h))
     (\<lambda>(fs, p) h. snd (serve fs p h)) (\<lambda>_ :: unit. clear_cache))
     [Put (demo_fs [''/srv/a'', ''/srv/b''], ''/static/a'', None), Fetch (demo_fs [''/srv/b''], ''b''), Drop ()]
     ((static_new ''/srv'')\<lparr>sh_max_cache_size := 1\<rparr>))) \<le> 1"
  by (rule static_cache_bounded) simp

end
