(* ===== verification/Cache_Races.thy ===== *)
theory Cache_Races
  imports Machines Route_Cache Static_Files
begin

text \<open>
  The caches that several threads use at once without one lock around an operation: the cache of
  \<open>StaticFileHandler::serve\<close> (\<open>src/fast_path/static_files.rs\<close>), which reads the length and inserts
  under two locks, and \<open>RouteCache::insert\<close> (\<open>src/routing/cache.rs\<close>), which reads the length, looks for
  the oldest entry, removes it and inserts in separate steps on a concurrent map. Threads interleave
  between these steps: those of Rust callers, and those of a Python without a global lock, which the
  module supports (\<open>gil_used = false\<close> in \<open>src/lib.rs\<close>); with the lock, calls from Python exclude each
  other. (The JSON cache holds its own lock throughout.)
\<close>

subsection \<open>Static files\<close>

text \<open>What a thread in \<open>serve\<close> does next, after the path was normalized.\<close>

datatype serve_phase = ServeIdle | ServeLoading string | ServeInserting string cached_file

record serving =
  sg_handler :: static_handler
  sg_phases :: "serve_phase list"

definition serve_lookup :: "string \<Rightarrow> static_handler \<Rightarrow> serve_phase" where
  "serve_lookup path h =
     (case normalize_path path of
        Err e \<Rightarrow> ServeIdle
      | Ok clean_path \<Rightarrow> (case map_of (sh_cache h) clean_path of Some cached \<Rightarrow> ServeIdle | None \<Rightarrow> ServeLoading clean_path))"

definition serve_load :: "file_system \<Rightarrow> string \<Rightarrow> static_handler \<Rightarrow> serve_phase" where
  "serve_load fs clean_path h =
     (case load_file fs h clean_path of
        Err e \<Rightarrow> ServeIdle
      | Ok file \<Rightarrow> if length (sh_cache h) < sh_max_cache_size h then ServeInserting clean_path file else ServeIdle)"

definition serve_insert :: "string \<Rightarrow> cached_file \<Rightarrow> static_handler \<Rightarrow> static_handler" where
  "serve_insert clean_path file h = h\<lparr>sh_cache := AList.update clean_path file (sh_cache h)\<rparr>"

text \<open>
  The steps of the threads, numbered from 0, over file systems that may change; the cache may be
  cleared at any time. Loading reads only the fields of the handler that never change. A step that
  does not fit what the thread is doing has no effect.
\<close>

datatype serve_event = LookUp nat string | Load nat file_system | Insert nat | ClearFiles

definition phase_of :: "nat \<Rightarrow> serving \<Rightarrow> serve_phase option" where
  "phase_of i s = (if i < length (sg_phases s) then Some (sg_phases s ! i) else None)"

fun serving_apply :: "serve_event \<Rightarrow> serving \<Rightarrow> serving" where
  "serving_apply (LookUp i path) s =
     (case phase_of i s of
        Some ServeIdle \<Rightarrow> s\<lparr>sg_phases := (sg_phases s)[i := serve_lookup path (sg_handler s)]\<rparr> | _ \<Rightarrow> s)"
| "serving_apply (Load i fs) s =
     (case phase_of i s of
        Some (ServeLoading q) \<Rightarrow> s\<lparr>sg_phases := (sg_phases s)[i := serve_load fs q (sg_handler s)]\<rparr> | _ \<Rightarrow> s)"
| "serving_apply (Insert i) s =
     (case phase_of i s of
        Some (ServeInserting q f) \<Rightarrow> s\<lparr>sg_handler := serve_insert q f (sg_handler s), sg_phases := (sg_phases s)[i := ServeIdle]\<rparr>
      | _ \<Rightarrow> s)"
| "serving_apply ClearFiles s = s\<lparr>sg_handler := clear_cache (sg_handler s)\<rparr>"

text \<open>A thread that is alone does what \<open>serve\<close> does.\<close>

lemma serve_alone:
  "snd (serve fs path h) =
     (case serve_lookup path h of
        ServeLoading q \<Rightarrow> (case serve_load fs q h of ServeInserting q f \<Rightarrow> serve_insert q f h | _ \<Rightarrow> h)
      | _ \<Rightarrow> h)"
  by (simp add: serve_def serve_lookup_def serve_load_def serve_insert_def split: sum.split option.split)

fun is_inserting :: "serve_phase \<Rightarrow> bool" where
  "is_inserting (ServeInserting q f) = True"
| "is_inserting p = False"

definition inserting :: "serve_phase list \<Rightarrow> nat" where
  "inserting ps = length (filter is_inserting ps)"

lemma inserting_le: "inserting ps \<le> length ps"
  by (simp add: inserting_def)

lemma inserting_update:
  "i < length ps \<Longrightarrow>
   inserting (ps[i := x]) + (if is_inserting (ps ! i) then 1 else 0) = inserting ps + (if is_inserting x then 1 else 0)"
proof (induction ps arbitrary: i)
  case (Cons p ps)
  then show ?case by (cases i) (auto simp: inserting_def)
qed simp

text \<open>The files that are in the cache or on their way into it.\<close>

definition serving_inv :: "nat \<Rightarrow> nat \<Rightarrow> serving \<Rightarrow> bool" where
  "serving_inv threads cap s =
     (length (sg_phases s) = threads \<and> sh_max_cache_size (sg_handler s) = cap \<and>
      (if cap = 0 then length (sh_cache (sg_handler s)) + inserting (sg_phases s) = 0
       else length (sh_cache (sg_handler s)) + inserting (sg_phases s) < cap + threads))"

lemma serving_inv_phase:
  assumes inv: "serving_inv threads cap s" and i: "phase_of i s = Some p"
    and x: "is_inserting x \<Longrightarrow> length (sh_cache (sg_handler s)) < cap" and p: "\<not> is_inserting p"
  shows "serving_inv threads cap (s\<lparr>sg_phases := (sg_phases s)[i := x]\<rparr>)"
proof -
  have "i < length (sg_phases s)" "sg_phases s ! i = p" using i by (auto simp: phase_of_def split: if_splits)
  with inserting_update [of i "sg_phases s" x] p
  have "inserting ((sg_phases s)[i := x]) = inserting (sg_phases s) + (if is_inserting x then 1 else 0)" by simp
  moreover have "inserting ((sg_phases s)[i := x]) \<le> length (sg_phases s)"
    using inserting_le [of "(sg_phases s)[i := x]"] by simp
  ultimately show ?thesis using inv x by (auto simp: serving_inv_def split: if_splits)
qed

lemma serving_inv_insert:
  assumes inv: "serving_inv threads cap s" and i: "phase_of i s = Some (ServeInserting q f)"
  shows "serving_inv threads cap (s\<lparr>sg_handler := serve_insert q f (sg_handler s), sg_phases := (sg_phases s)[i := ServeIdle]\<rparr>)"
proof -
  have "i < length (sg_phases s)" "sg_phases s ! i = ServeInserting q f" using i by (auto simp: phase_of_def split: if_splits)
  with inserting_update [of i "sg_phases s" ServeIdle] have "Suc (inserting ((sg_phases s)[i := ServeIdle])) = inserting (sg_phases s)"
    by simp
  moreover have "length (AList.update q f (sh_cache (sg_handler s))) \<le> Suc (length (sh_cache (sg_handler s)))"
    by (simp add: length_update)
  ultimately show ?thesis using inv by (auto simp: serving_inv_def serve_insert_def split: if_splits)
qed

lemma serving_inv_apply: "serving_inv threads cap s \<Longrightarrow> serving_inv threads cap (serving_apply ev s)"
proof (cases ev)
  case (LookUp i path)
  assume inv: "serving_inv threads cap s"
  have "\<not> is_inserting (serve_lookup path (sg_handler s))" by (simp add: serve_lookup_def split: sum.split option.split)
  with inv LookUp show ?thesis
    by (auto intro!: serving_inv_phase [OF inv] split: option.split serve_phase.split)
next
  case (Load i fs)
  assume inv: "serving_inv threads cap s"
  have "is_inserting (serve_load fs q (sg_handler s)) \<Longrightarrow> length (sh_cache (sg_handler s)) < cap" for q
    using inv by (auto simp: serve_load_def serving_inv_def split: sum.splits if_splits)
  with inv Load show ?thesis
    by (auto intro!: serving_inv_phase [OF inv] split: option.split serve_phase.split)
next
  case (Insert i)
  assume inv: "serving_inv threads cap s"
  with Insert show ?thesis by (auto intro!: serving_inv_insert split: option.split serve_phase.split)
next
  case ClearFiles
  assume "serving_inv threads cap s"
  with ClearFiles show ?thesis by (auto simp: serving_inv_def clear_cache_def split: if_splits)
qed

interpretation servings: machine serving_apply "serving_inv threads cap" for threads cap
  by unfold_locales (rule serving_inv_apply)

definition serving_init :: "nat \<Rightarrow> string \<Rightarrow> nat \<Rightarrow> serving" where
  "serving_init threads dir cap =
     \<lparr>sg_handler = (static_new dir)\<lparr>sh_max_cache_size := cap\<rparr>, sg_phases = replicate threads ServeIdle\<rparr>"

text \<open>
  With any number of threads in \<open>serve\<close> at once the cache of static files holds fewer than
  \<open>max_cache_size + threads\<close> files, and none if \<open>max_cache_size\<close> is 0.
\<close>

theorem static_cache_under_threads:
  "let files = length (sh_cache (sg_handler (fold serving_apply evs (serving_init (Suc n) dir cap))))
   in if cap = 0 then files = 0 else files \<le> cap + n"
proof -
  have "serving_inv (Suc n) cap (serving_init (Suc n) dir cap)"
    by (simp add: serving_inv_def serving_init_def static_new_def inserting_def)
  from servings.inv_run [OF this, of evs] show ?thesis by (auto simp: serving_inv_def Let_def split: if_splits)
qed

text \<open>The limit itself is not kept: two threads that miss different files fill the last place twice.\<close>

lemma static_cache_exceeds:
  assumes "normalize_path a = Ok q" "normalize_path b = Ok r" "q \<noteq> r"
    and "map_of (sh_cache h) q = None" "map_of (sh_cache h) r = None"
    and "load_file fs h q = Ok f" "load_file fs h r = Ok g" "Suc (length (sh_cache h)) = sh_max_cache_size h"
  shows "length (sh_cache (sg_handler (fold serving_apply [LookUp 0 a, LookUp 1 b, Load 0 fs, Load 1 fs, Insert 0, Insert 1]
           \<lparr>sg_handler = h, sg_phases = [ServeIdle, ServeIdle]\<rparr>))) = Suc (sh_max_cache_size h)"
  using assms by (simp add: phase_of_def serve_lookup_def serve_load_def serve_insert_def length_update contains_key_def)

subsection \<open>The route cache\<close>

text \<open>
  The steps of \<open>RouteCache::insert\<close>: reading the length and, at capacity, finding the entry to evict;
  removing it; inserting. Finding the entry is one step here, although the map is read shard by shard.
\<close>

datatype 'f caching_phase =
  CachingIdle | Evicting "u64 option" u64 "'f route" params | Caching u64 "'f route" params

record 'f caching =
  cg_cache :: "'f route_cache"
  cg_phases :: "'f caching_phase list"

definition insert_begin :: "u64 \<Rightarrow> 'f route \<Rightarrow> params \<Rightarrow> 'f route_cache \<Rightarrow> 'f caching_phase" where
  "insert_begin h r ps rc =
     (if length (rc_cache rc) \<ge> rc_max_size rc
      then Evicting (snd (scan_min cr_last_access (rc_cache rc) (- 1) None)) h r ps
      else Caching h r ps)"

definition insert_evict :: "u64 option \<Rightarrow> 'f route_cache \<Rightarrow> 'f route_cache" where
  "insert_evict oldest_key rc =
     (case oldest_key of Some k \<Rightarrow> rc\<lparr>rc_cache := AList.delete k (rc_cache rc)\<rparr> | None \<Rightarrow> rc)"

definition insert_end :: "u64 \<Rightarrow> 'f route \<Rightarrow> params \<Rightarrow> 'f route_cache \<Rightarrow> 'f route_cache" where
  "insert_end h r ps rc = rc\<lparr>rc_cache := AList.update h (cached_route_new r ps) (rc_cache rc)\<rparr>"

datatype 'f caching_event = InsertBegin nat u64 "'f route" params | InsertEvict nat | InsertEnd nat

definition caching_phase_of :: "nat \<Rightarrow> 'f caching \<Rightarrow> 'f caching_phase option" where
  "caching_phase_of i s = (if i < length (cg_phases s) then Some (cg_phases s ! i) else None)"

fun caching_apply :: "'f caching_event \<Rightarrow> 'f caching \<Rightarrow> 'f caching" where
  "caching_apply (InsertBegin i h r ps) s =
     (case caching_phase_of i s of
        Some CachingIdle \<Rightarrow> s\<lparr>cg_phases := (cg_phases s)[i := insert_begin h r ps (cg_cache s)]\<rparr> | _ \<Rightarrow> s)"
| "caching_apply (InsertEvict i) s =
     (case caching_phase_of i s of
        Some (Evicting k h r ps) \<Rightarrow> s\<lparr>cg_cache := insert_evict k (cg_cache s), cg_phases := (cg_phases s)[i := Caching h r ps]\<rparr>
      | _ \<Rightarrow> s)"
| "caching_apply (InsertEnd i) s =
     (case caching_phase_of i s of
        Some (Caching h r ps) \<Rightarrow> s\<lparr>cg_cache := insert_end h r ps (cg_cache s), cg_phases := (cg_phases s)[i := CachingIdle]\<rparr>
      | _ \<Rightarrow> s)"

text \<open>A thread that is alone does what \<open>rc_insert\<close> does.\<close>

lemma caching_alone:
  "cg_cache (fold caching_apply [InsertBegin 0 h r ps, InsertEvict 0, InsertEnd 0] \<lparr>cg_cache = rc, cg_phases = [CachingIdle]\<rparr>) =
     rc_insert h r ps rc"
  by (simp add: caching_phase_of_def insert_begin_def insert_evict_def insert_end_def rc_insert_def rc_evict_lru_def
      evict_min_def split: option.split)

text \<open>A cache of entries that were inserted and never looked up, between two idle threads.\<close>

definition unread :: "nat \<Rightarrow> nat \<Rightarrow> 'f caching \<Rightarrow> bool" where
  "unread cap n s =
     (rc_max_size (cg_cache s) = cap \<and> wf_map (rc_cache (cg_cache s)) \<and> length (rc_cache (cg_cache s)) = n \<and>
      (\<forall>(k, e) \<in> set (rc_cache (cg_cache s)). cr_last_access e = 0) \<and> cg_phases s = [CachingIdle, CachingIdle])"

lemma fresh_key: "length (m :: (u64 \<times> 'v) list) < 2 ^ 64 \<Longrightarrow> \<exists>h. h \<notin> keys m"
proof (rule ccontr)
  assume short: "length m < 2 ^ 64" and "\<not> (\<exists>h. h \<notin> keys m)"
  then have "keys m = UNIV" by auto
  then have "card (keys m) = 2 ^ 64" by (simp add: card_word)
  moreover have "card (keys m) \<le> length m"
    unfolding keys_def by (rule le_trans [OF card_image_le [OF finite_set] card_length])
  ultimately show False using short by simp
qed

lemma unread_update:
  assumes "wf_map m" "\<forall>(k, e) \<in> set m. cr_last_access e = 0" "h \<notin> keys m"
  shows "wf_map (AList.update h (cached_route_new r ps) m) \<and>
    length (AList.update h (cached_route_new r ps) m) = Suc (length m) \<and>
    (\<forall>(k, e) \<in> set (AList.update h (cached_route_new r ps) m). cr_last_access e = 0)"
  using assms set_update_subset [of h "cached_route_new r ps" m]
  by (force simp: length_update contains_key_iff cached_route_new_def)

lemma length_delete_present:
  assumes "wf_map m" "k \<in> keys m"
  shows "Suc (length (AList.delete k m)) = length m"
  using assms
proof (induction m)
  case (Cons x m)
  show ?case
  proof (cases "fst x = k")
    case True
    with Cons.prems have "k \<notin> keys m" by (auto simp: wf_map_def keys_def)
    then have "AList.delete k m = m" by (force simp: AList.delete_eq keys_def filter_id_conv)
    with True show ?thesis by (cases x) simp
  next
    case False
    with Cons show ?thesis by (auto simp: AList.delete_eq wf_map_def)
  qed
qed simp

lemma unread_victim:
  assumes "m \<noteq> []" "\<forall>(k, e) \<in> set m. cr_last_access e = 0"
  obtains k where "snd (scan_min cr_last_access m (- 1) None) = Some k" "k \<in> keys m"
proof -
  obtain k0 e0 where "(k0, e0) \<in> set m" using assms(1) by (cases m) auto
  moreover from this assms(2) have "cr_last_access e0 = 0" by blast
  then have "cr_last_access e0 < - 1" using less_max_word [of "cr_last_access e0" 0] by simp
  ultimately obtain k where k: "snd (scan_min cr_last_access m (- 1) None) = Some k"
    using scan_min_found [of k0 e0 m cr_last_access "- 1" None] by blast
  from scan_min_key [OF k] have "k \<in> keys m" using k by (force simp: keys_def)
  with k that show ?thesis by blast
qed

text \<open>Below capacity one thread inserts; at capacity two threads evict the same entry and insert two.\<close>

lemma unread_grows:
  assumes s: "unread cap n s" and n: "Suc n < 2 ^ 64" "0 < cap"
  shows "\<exists>evs. unread cap (Suc n) (fold caching_apply evs s)"
proof -
  let ?m = "rc_cache (cg_cache s)" and ?r = "route_new [] undefined [] None"
  have m: "wf_map ?m" "\<forall>(k, e) \<in> set ?m. cr_last_access e = 0" "length ?m = n" "rc_max_size (cg_cache s) = cap"
    "cg_phases s = [CachingIdle, CachingIdle]" using s by (auto simp: unread_def)
  obtain h where h: "h \<notin> keys ?m" using fresh_key [of ?m] n m(3) by auto
  show ?thesis
  proof (cases "cap \<le> n")
    case False
    then show ?thesis
      using m unread_update [OF m(1,2) h, of ?r "[]"]
      by (intro exI [of _ "[InsertBegin 0 h ?r [], InsertEnd 0]"])
        (simp add: unread_def caching_phase_of_def insert_begin_def insert_end_def)
  next
    case True
    then have "?m \<noteq> []" using n(2) m(3) by auto
    then obtain k where k: "snd (scan_min cr_last_access ?m (- 1) None) = Some k" "k \<in> keys ?m"
      using m(2) by (rule unread_victim)
    obtain h' where h': "h' \<notin> keys ?m" "h' \<noteq> h" using fresh_key [of "(h, undefined) # ?m"] n m(3) by auto
    let ?m1 = "AList.delete k ?m"
    have "set ?m1 \<subseteq> set ?m" by (auto simp: AList.delete_eq)
    then have m1: "wf_map ?m1" "\<forall>(k, e) \<in> set ?m1. cr_last_access e = 0" "h \<notin> keys ?m1"
      using m(1,2) h by auto
    note m2 = unread_update [OF m1, of ?r "[]"]
    have "h' \<notin> keys (AList.update h (cached_route_new ?r []) ?m1)" using h' by simp
    with m2 unread_update [of "AList.update h (cached_route_new ?r []) ?m1" h' ?r "[]"] length_delete_present [OF m(1) k(2)]
    show ?thesis
      using m True k(1)
      by (intro exI [of _ "[InsertBegin 0 h ?r [], InsertBegin 1 h' ?r [], InsertEvict 0, InsertEvict 1, InsertEnd 0, InsertEnd 1]"])
        (simp add: unread_def caching_phase_of_def insert_begin_def insert_evict_def insert_end_def delete_idem)
  qed
qed

text \<open>
  Used by two threads the route cache has no bound of its own: every size up to the number of hashes
  can be reached, whatever \<open>max_size\<close> is, because two evictions can choose the same entry.
\<close>

theorem route_cache_unbounded_under_threads:
  assumes "0 < cap" "n < 2 ^ 64"
  shows "\<exists>evs. rc_len (cg_cache (fold caching_apply evs
           (\<lparr>cg_cache = rc_new cap, cg_phases = [CachingIdle, CachingIdle]\<rparr> :: 'f caching))) = n"
proof -
  let ?init = "\<lparr>cg_cache = rc_new cap, cg_phases = [CachingIdle, CachingIdle]\<rparr> :: 'f caching"
  have "\<exists>evs. unread cap n (fold caching_apply evs ?init)"
    using assms(2)
  proof (induction n)
    case 0
    show ?case by (rule exI [of _ "[]"]) (simp add: unread_def rc_new_def)
  next
    case (Suc n)
    then obtain evs where "unread cap n (fold caching_apply evs ?init)" by auto
    from unread_grows [OF this Suc.prems assms(1)] obtain evs' where "unread cap (Suc n) (fold caching_apply (evs @ evs') ?init)"
      by auto
    then show ?case by blast
  qed
  then show ?thesis by (auto simp: unread_def rc_len_def)
qed

end
