(* ===== verification/Json_Cache.thy ===== *)
theory Json_Cache
  imports Cache_Core
begin

text \<open>
  The JSON response cache (\<open>src/fast_path/json_cache.rs\<close>): a size-limited map with a time to
  live per entry and eviction of expired, then of least-hit entries. \<open>now\<close> is the reading of the
  monotonic clock at the call.
\<close>

record cached_json =
  cj_data :: string
  cj_content_type :: string
  cj_created_at :: instant
  cj_ttl :: duration
  cj_hits :: u64

definition cached_json_new :: "instant \<Rightarrow> string \<Rightarrow> duration \<Rightarrow> cached_json" where
  "cached_json_new now data ttl =
     \<lparr>cj_data = data, cj_content_type = ''application/json; charset=utf-8'',
      cj_created_at = now, cj_ttl = ttl, cj_hits = 0\<rparr>"

definition is_expired :: "instant \<Rightarrow> cached_json \<Rightarrow> bool" where
  "is_expired now e = (now - cj_created_at e > cj_ttl e)"

definition cached_json_as_bytes :: "cached_json \<Rightarrow> string" where
  "cached_json_as_bytes e = cj_data e"

record json_cache =
  jc_cache :: "(u64 \<times> cached_json) list"
  jc_max_size :: nat
  jc_default_ttl :: duration

definition jc_new :: "nat \<Rightarrow> duration \<Rightarrow> json_cache" where
  "jc_new n ttl = \<lparr>jc_cache = [], jc_max_size = n, jc_default_ttl = ttl\<rparr>"

definition jc_default :: json_cache where
  "jc_default = jc_new 10000 (secs 60)"

definition jc_get :: "instant \<Rightarrow> u64 \<Rightarrow> json_cache \<Rightarrow> string option \<times> json_cache" where
  "jc_get now k jc =
     (case map_of (jc_cache jc) k of
        Some e \<Rightarrow>
          if is_expired now e then (None, jc\<lparr>jc_cache := AList.delete k (jc_cache jc)\<rparr>)
          else (Some (cj_data e), jc\<lparr>jc_cache := AList.update k (e\<lparr>cj_hits := cj_hits e + 1\<rparr>) (jc_cache jc)\<rparr>)
      | None \<Rightarrow> (None, jc))"

definition jc_evict_expired :: "instant \<Rightarrow> (u64 \<times> cached_json) list \<Rightarrow> (u64 \<times> cached_json) list" where
  "jc_evict_expired now m = filter (\<lambda>(_, v). \<not> is_expired now v) m"

definition jc_evict_lru :: "(u64 \<times> cached_json) list \<Rightarrow> (u64 \<times> cached_json) list" where
  "jc_evict_lru m = evict_min cj_hits m"

definition jc_insert_with_ttl :: "instant \<Rightarrow> u64 \<Rightarrow> string \<Rightarrow> duration \<Rightarrow> json_cache \<Rightarrow> json_cache" where
  "jc_insert_with_ttl now k data ttl jc =
     (let m = jc_cache jc;
          m = (if length m \<ge> jc_max_size jc then jc_evict_expired now m else m);
          m = (if length m \<ge> jc_max_size jc then jc_evict_lru m else m)
      in jc\<lparr>jc_cache := AList.update k (cached_json_new now data ttl) m\<rparr>)"

definition jc_insert :: "instant \<Rightarrow> u64 \<Rightarrow> string \<Rightarrow> json_cache \<Rightarrow> json_cache" where
  "jc_insert now k data jc = jc_insert_with_ttl now k data (jc_default_ttl jc) jc"

definition jc_invalidate :: "u64 \<Rightarrow> json_cache \<Rightarrow> json_cache" where
  "jc_invalidate k jc = jc\<lparr>jc_cache := AList.delete k (jc_cache jc)\<rparr>"

definition jc_clear :: "json_cache \<Rightarrow> json_cache" where
  "jc_clear jc = jc\<lparr>jc_cache := []\<rparr>"

definition compute_key_hash :: "(string \<Rightarrow> u64) \<Rightarrow> string \<Rightarrow> string \<Rightarrow> u64" where
  "compute_key_hash xxh3_64 route ps = xxh3_64 (route @ '':'' @ ps)"

subsection \<open>Invariant and size bound\<close>

definition jc_ok :: "nat \<Rightarrow> nat \<Rightarrow> json_cache \<Rightarrow> bool" where
  "jc_ok cap n jc =
     (jc_max_size jc = cap \<and> wf_map (jc_cache jc) \<and> length (jc_cache jc) \<le> cap \<and>
      (\<forall>(k, e) \<in> set (jc_cache jc). unat (cj_hits e) \<le> n))"

lemma jc_ok_submap:
  "jc_ok cap n jc \<Longrightarrow> set m \<subseteq> set (jc_cache jc) \<Longrightarrow> wf_map m \<Longrightarrow> length m \<le> length (jc_cache jc) \<Longrightarrow>
   jc_ok cap (Suc n) (jc\<lparr>jc_cache := m\<rparr>)"
  by (fastforce simp: jc_ok_def)

lemma jc_ok_delete: "jc_ok cap n jc \<Longrightarrow> jc_ok cap (Suc n) (jc\<lparr>jc_cache := AList.delete k (jc_cache jc)\<rparr>)"
  by (rule jc_ok_submap) (auto simp: AList.delete_eq jc_ok_def)

text \<open>The entries an insertion keeps: a sublist of the old ones with room for one more.\<close>

definition jc_room :: "instant \<Rightarrow> json_cache \<Rightarrow> (u64 \<times> cached_json) list" where
  "jc_room now jc =
     (let m = jc_cache jc;
          m = (if length m \<ge> jc_max_size jc then jc_evict_expired now m else m)
      in if length m \<ge> jc_max_size jc then jc_evict_lru m else m)"

lemma jc_insert_room:
  "jc_insert_with_ttl now k data ttl jc =
     jc\<lparr>jc_cache := AList.update k (cached_json_new now data ttl) (jc_room now jc)\<rparr>"
  by (simp add: jc_insert_with_ttl_def jc_room_def Let_def)

lemma set_jc_room: "set (jc_room now jc) \<subseteq> set (jc_cache jc)"
  using set_evict_min [of cj_hits "jc_cache jc"] set_evict_min [of cj_hits "jc_evict_expired now (jc_cache jc)"]
  by (auto simp: jc_room_def Let_def jc_evict_expired_def jc_evict_lru_def)

lemma wf_jc_room [kept]: "wf_map (jc_cache jc) \<Longrightarrow> wf_map (jc_room now jc)"
  by (simp add: jc_room_def Let_def jc_evict_expired_def jc_evict_lru_def)

lemma length_jc_room:
  assumes ok: "jc_ok cap n jc" and n: "Suc n < 2 ^ 64" and cap: "0 < cap"
  shows "length (jc_room now jc) < cap"
proof -
  let ?m = "if length (jc_cache jc) \<ge> jc_max_size jc then jc_evict_expired now (jc_cache jc) else jc_cache jc"
  have sub: "set ?m \<subseteq> set (jc_cache jc)" by (auto simp: jc_evict_expired_def)
  have wf: "wf_map ?m" using ok by (simp add: jc_ok_def jc_evict_expired_def)
  have "length ?m \<le> length (jc_cache jc)" by (simp add: jc_evict_expired_def)
  also have "\<dots> \<le> cap" using ok by (simp add: jc_ok_def)
  finally have le: "length ?m \<le> cap" .
  have "cj_hits v < - 1" if "(k, v) \<in> set ?m" for k v
    using subsetD [OF sub that] ok n less_max_word [of "cj_hits v" n] by (auto simp: jc_ok_def)
  then have "length (evict_min cj_hits ?m) < length ?m" if "cap \<le> length ?m"
    using wf that cap by (intro length_evict_min) auto
  then have "(if length ?m \<ge> cap then length (evict_min cj_hits ?m) else length ?m) < cap"
    using le by (cases "length ?m \<ge> cap") simp_all
  then show ?thesis using ok by (simp add: jc_room_def jc_evict_lru_def Let_def jc_ok_def split: if_splits)
qed

lemma jc_ok_insert:
  assumes "jc_ok cap n jc" "Suc n < 2 ^ 64" "0 < cap"
  shows "jc_ok cap (Suc n) (jc_insert_with_ttl now k data ttl jc)"
proof -
  have "length (AList.update k (cached_json_new now data ttl) (jc_room now jc)) \<le> cap"
    using length_jc_room [OF assms, of now] by (simp add: length_update)
  moreover have "unat (cj_hits e) \<le> Suc n"
    if "(k', e) \<in> set (AList.update k (cached_json_new now data ttl) (jc_room now jc))" for k' e
    using that set_update_subset [of k "cached_json_new now data ttl" "jc_room now jc"]
      set_jc_room [of now jc] assms(1)
    by (fastforce simp: jc_ok_def cached_json_new_def)
  ultimately show ?thesis
    using assms(1) by (auto simp: jc_ok_def jc_insert_room wf_jc_room)
qed

lemma jc_ok_get:
  assumes "jc_ok cap n jc" "Suc n < 2 ^ 64"
  shows "jc_ok cap (Suc n) (snd (jc_get now k jc))"
proof (cases "map_of (jc_cache jc) k")
  case None
  then show ?thesis using assms(1) by (auto simp: jc_get_def jc_ok_def)
next
  case (Some e)
  let ?e = "e\<lparr>cj_hits := cj_hits e + 1\<rparr>"
  have "length (AList.update k ?e (jc_cache jc)) = length (jc_cache jc)"
    using Some by (simp add: length_update contains_key_def)
  moreover have "unat (cj_hits e) \<le> n"
    using assms(1) map_of_SomeD [OF Some] by (auto simp: jc_ok_def)
  then have "unat (cj_hits e + 1) \<le> Suc n"
    using assms(2) unat_Suc_no_wrap [of "cj_hits e"] by simp
  ultimately have "jc_ok cap (Suc n) (jc\<lparr>jc_cache := AList.update k ?e (jc_cache jc)\<rparr>)"
    using assms(1) set_update_subset [of k ?e "jc_cache jc"] by (fastforce simp: jc_ok_def)
  with Some show ?thesis using jc_ok_delete [OF assms(1)] by (simp add: jc_get_def)
qed

definition jc_drop :: "u64 option \<Rightarrow> json_cache \<Rightarrow> json_cache" where
  "jc_drop d jc = (case d of Some k \<Rightarrow> jc_invalidate k jc | None \<Rightarrow> jc_clear jc)"

lemma jc_ok_drop: "jc_ok cap n jc \<Longrightarrow> jc_ok cap (Suc n) (jc_drop d jc)"
  by (auto simp: jc_drop_def jc_invalidate_def jc_clear_def split: option.split
      intro!: jc_ok_delete jc_ok_submap)

interpretation jc1: size_limited "jc_new (Suc c) ttl"
  "\<lambda>(now, k, data, t). jc_insert_with_ttl now k data t" "\<lambda>(now, k) jc. snd (jc_get now k jc)"
  jc_drop "\<lambda>jc. length (jc_cache jc)" "Suc c" "jc_ok (Suc c)" for c ttl
proof (unfold_locales, goal_cases)
  case 1
  then show ?case by (simp add: jc_ok_def jc_new_def)
next
  case (5 n s)
  then show ?case by (simp add: jc_ok_def)
qed (auto intro: jc_ok_insert jc_ok_get jc_ok_drop)

text \<open>
  The JSON cache never outgrows its capacity: after any sequence of insertions with any
  times to live, lookups, invalidations and clears at any clock readings (fewer than \<open>2\<^sup>6\<^sup>4\<close> of
  them) it holds at most \<open>max_size\<close> entries, when \<open>max_size\<close> is positive.
\<close>

theorem json_cache_bounded:
  assumes "0 < cap" "length ops < 2 ^ 64"
  shows "length (jc_cache (fold (cache_apply (\<lambda>(now, k, data, t). jc_insert_with_ttl now k data t)
           (\<lambda>(now, k) jc. snd (jc_get now k jc)) jc_drop) ops (jc_new cap ttl))) \<le> cap"
  using jc1.run_size [of ops "cap - 1"] assms by simp

theorem json_cache_bounded_witness:
  "length (jc_cache (fold (cache_apply (\<lambda>(now, k, data, t). jc_insert_with_ttl now k data t)
     (\<lambda>(now, k) jc. snd (jc_get now k jc)) jc_drop)
     [Put (0, 1, ''{}'', 5), Fetch (2, 1), Put (3, 2, ''[]'', 9), Drop (Some 1)] (jc_new 1 7))) \<le> 1"
  by (rule json_cache_bounded) simp_all

text \<open>
  Freshness of the JSON cache: right after an insertion the data is served exactly until its
  age exceeds the time to live, whatever the eviction did, and later it is not only withheld but
  removed from the map.
\<close>

theorem jc_get_after_insert:
  "jc_get (now + age) k (jc_insert_with_ttl now k data ttl jc) =
     (let jc' = jc_insert_with_ttl now k data ttl jc in
      if age \<le> ttl
      then (Some data, jc'\<lparr>jc_cache :=
              AList.update k ((cached_json_new now data ttl)\<lparr>cj_hits := 1\<rparr>) (jc_cache jc')\<rparr>)
      else (None, jc'\<lparr>jc_cache := AList.delete k (jc_cache jc')\<rparr>))"
  by (simp add: jc_get_def jc_insert_room is_expired_def cached_json_new_def Let_def)

text \<open>An entry that has not expired is only ever evicted for an entry that was hit as often.\<close>

lemma jc_room_keeps_expired_first:
  "jc_evict_expired now (jc_cache jc) \<noteq> jc_cache jc \<Longrightarrow> wf_map (jc_cache jc) \<Longrightarrow>
   length (jc_cache jc) = jc_max_size jc \<Longrightarrow> jc_room now jc = jc_evict_expired now (jc_cache jc)"
proof -
  assume "jc_evict_expired now (jc_cache jc) \<noteq> jc_cache jc" and len: "length (jc_cache jc) = jc_max_size jc"
  then have "length (jc_evict_expired now (jc_cache jc)) < length (jc_cache jc)"
    unfolding jc_evict_expired_def by (metis filter_id_conv length_filter_less)
  with len show ?thesis by (simp add: jc_room_def)
qed

text \<open>The key of a response is not injective in the pair of route and parameters.\<close>

lemma compute_key_hash_collides:
  "compute_key_hash xxh3_64 ''/a'' ''b:c'' = compute_key_hash xxh3_64 ''/a:b'' ''c''"
  by (simp add: compute_key_hash_def)

end
