(* ===== verification/Registry.thy ===== *)
theory Registry
  imports Machines
begin

text \<open>
  Interfaces of keyed containers. A \<open>store\<close> returns what was last put under a key; it is interpreted on
  the contexts and singletons of dependency injection, the state of a middleware context and the table
  of handlers. A \<open>registry\<close> (channels and broadcast channels) creates a name unless it is there,
  removes it and tells whether it is there.
\<close>

lemma map_of_distinct_rev: "distinct (map fst m) \<Longrightarrow> map_of (rev m) = map_of m"
  by (rule map_of_eqI) (auto simp: rev_map [symmetric] map_of_eq_Some_iff)

locale store =
  fixes put :: "'k \<Rightarrow> 'v \<Rightarrow> 's \<Rightarrow> 's"
    and get :: "'k \<Rightarrow> 's \<Rightarrow> 'v option"
  assumes get_put: "get k' (put k v s) = (if k' = k then Some v else get k' s)"
begin

lemma get_puts: "get k (fold (\<lambda>(k, v). put k v) kvs s) = (case map_of (rev kvs) k of Some v \<Rightarrow> Some v | None \<Rightarrow> get k s)"
  by (induction kvs arbitrary: s) (auto simp: get_put map_add_def split: option.split)

lemma get_puts_wf: "wf_map kvs \<Longrightarrow> get k (fold (\<lambda>(k, v). put k v) kvs s) = (case map_of kvs k of Some v \<Rightarrow> Some v | None \<Rightarrow> get k s)"
  using map_of_distinct_rev [of kvs] by (simp add: get_puts wf_map_def)

end

locale registry =
  fixes create :: "'k \<Rightarrow> 'a \<Rightarrow> 's \<Rightarrow> bool \<times> 's"
    and remove :: "'k \<Rightarrow> 's \<Rightarrow> bool \<times> 's"
    and has :: "'k \<Rightarrow> 's \<Rightarrow> bool"
  assumes create_result: "fst (create k a s) = (\<not> has k s)"
    and create_has: "has k' (snd (create k a s)) = (k' = k \<or> has k' s)"
    and remove_result: "fst (remove k s) = has k s"
    and remove_has: "has k' (snd (remove k s)) = (k' \<noteq> k \<and> has k' s)"
begin

lemma create_twice: "fst (create k b (snd (create k a s))) = False"
  by (simp add: create_result create_has)

lemma remove_after_create:
  "fst (remove k (snd (create k a s))) = True"
  "has k' (snd (remove k (snd (create k a s)))) = (k' \<noteq> k \<and> has k' s)"
  by (auto simp: create_has remove_result remove_has)

lemma create_after_remove: "fst (create k a (snd (remove k s))) = True"
  by (simp add: create_result remove_has)

end

text \<open>
  Sets kept as lists without repetition: \<open>HashSet::insert\<close> is \<^const>\<open>List.insert\<close> and
  \<open>HashSet::remove\<close> is \<^const>\<open>removeAll\<close>.
\<close>

declare distinct_removeAll [simp]

lemma removeAll_Nil_iff: "removeAll x xs = [] \<longleftrightarrow> set xs \<subseteq> {x}"
  by (induction xs) auto

text \<open>Invariants on every entry of a map.\<close>

definition all_values :: "('v \<Rightarrow> bool) \<Rightarrow> ('k \<times> 'v) list \<Rightarrow> bool" where
  "all_values P m = (\<forall>(k, v) \<in> set m. P v)"

lemma all_values_Nil [simp]: "all_values P []"
  by (simp add: all_values_def)

lemma all_values_update [simp]: "all_values P m \<Longrightarrow> P v \<Longrightarrow> all_values P (AList.update k v m)"
  using set_update_subset [of k v m] by (auto simp: all_values_def)

lemma all_values_delete [simp]: "all_values P m \<Longrightarrow> all_values P (AList.delete k m)"
  by (auto simp: all_values_def AList.delete_eq)

lemma all_values_filter: "all_values P m \<Longrightarrow> all_values P (filter Q m)"
  by (auto simp: all_values_def)

lemma all_values_get: "all_values P m \<Longrightarrow> map_of m k = Some v \<Longrightarrow> P v"
  using map_of_SomeD by (fastforce simp: all_values_def)

text \<open>Updating or deleting every value of a map in place, as \<open>iter_mut\<close> and \<open>retain\<close> do.\<close>

definition map_values :: "('v \<Rightarrow> 'v) \<Rightarrow> ('k \<times> 'v) list \<Rightarrow> ('k \<times> 'v) list" where
  "map_values f m = map (\<lambda>(k, v). (k, f v)) m"

lemma map_of_map_values' [simp]: "map_of (map_values f m) k = map_option f (map_of m k)"
  by (simp add: map_values_def map_of_map_values)

lemma wf_map_map_values' [simp, kept]: "wf_map m \<Longrightarrow> wf_map (map_values f m)"
  unfolding map_values_def by (rule wf_map_map_values)

end
