(* ===== verification/Middleware_Chain.thy ===== *)
theory Middleware_Chain
  imports Http_Method Registry
begin

text \<open>
  The middleware chain (\<open>src/middleware/chain.rs\<close>): responses and errors, the per-request context
  with its lazily parsed query and lazily created state, and the chain that runs middleware in
  order. The context is a value that every operation returns updated: its locks are held within
  one call only. A trait object \<open>dyn RustMiddleware\<close> is a record of its four methods; \<open>'w\<close> is
  the state a middleware keeps outside the context (counters, caches, the clock, a log).
\<close>

subsection \<open>Responses and errors\<close>

record mw_response =
  mr_status :: nat
  mr_headers :: "(string \<times> string) list"
  mr_body :: string

definition mresp_new :: "nat \<Rightarrow> mw_response" where
  "mresp_new s = \<lparr>mr_status = s, mr_headers = [], mr_body = []\<rparr>"

definition with_status :: "nat \<Rightarrow> mw_response \<Rightarrow> mw_response" where
  "with_status s r = r\<lparr>mr_status := s\<rparr>"

definition with_header :: "string \<Rightarrow> string \<Rightarrow> mw_response \<Rightarrow> mw_response" where
  "with_header k v r = r\<lparr>mr_headers := mr_headers r @ [(k, v)]\<rparr>"

definition with_body :: "string \<Rightarrow> mw_response \<Rightarrow> mw_response" where
  "with_body b r = r\<lparr>mr_body := b\<rparr>"

definition with_json_body :: "string \<Rightarrow> mw_response \<Rightarrow> mw_response" where
  "with_json_body b r =
     r\<lparr>mr_headers := mr_headers r @ [(''content-type'', ''application/json'')], mr_body := b\<rparr>"

definition with_text_body :: "string \<Rightarrow> mw_response \<Rightarrow> mw_response" where
  "with_text_body b r =
     r\<lparr>mr_headers := mr_headers r @ [(''content-type'', ''text/plain'')], mr_body := b\<rparr>"

definition bad_request :: "string \<Rightarrow> mw_response" where
  "bad_request m = with_text_body m (mresp_new 400)"

definition unauthorized :: "string \<Rightarrow> mw_response" where
  "unauthorized m = with_text_body m (mresp_new 401)"

definition forbidden :: "string \<Rightarrow> mw_response" where
  "forbidden m = with_text_body m (mresp_new 403)"

definition not_found :: "string \<Rightarrow> mw_response" where
  "not_found m = with_text_body m (mresp_new 404)"

definition too_many_requests :: "string \<Rightarrow> mw_response" where
  "too_many_requests m = with_text_body m (mresp_new 429)"

definition internal_error :: "string \<Rightarrow> mw_response" where
  "internal_error m = with_text_body m (mresp_new 500)"

definition service_unavailable :: "string \<Rightarrow> mw_response" where
  "service_unavailable m = with_text_body m (mresp_new 503)"

lemmas mresp_defs = mresp_new_def with_status_def with_header_def with_body_def with_json_body_def
  with_text_body_def bad_request_def unauthorized_def forbidden_def not_found_def
  too_many_requests_def internal_error_def service_unavailable_def

record mw_error =
  me_code :: string
  me_message :: string
  me_status :: nat

definition to_response :: "mw_error \<Rightarrow> mw_response" where
  "to_response e =
     with_json_body
       (''{'' @ [CHR 0x22] @ ''error'' @ [CHR 0x22] @ '':'' @ [CHR 0x22] @ me_code e @ [CHR 0x22] @ '','' @
        [CHR 0x22] @ ''message'' @ [CHR 0x22] @ '':'' @ [CHR 0x22] @ me_message e @ [CHR 0x22] @ ''}'')
       (mresp_new (me_status e))"

datatype mw_result = Continue | Response mw_response | Error mw_error

subsection \<open>Context\<close>

text \<open>An \<open>i64\<close> is an \<open>int\<close> in range, an \<open>f64\<close> a real; \<open>as i64\<close> keeps the low 64 bits.\<close>

definition as_i64 :: "nat \<Rightarrow> int" where
  "as_i64 n = sint (of_nat n :: 64 word)"

datatype state_value = SString string | SInt int | SFloat real | SBool bool | SBytes string

fun as_string :: "state_value \<Rightarrow> string option" where
  "as_string (SString s) = Some s"
| "as_string _ = None"

fun as_int :: "state_value \<Rightarrow> int option" where
  "as_int (SInt i) = Some i"
| "as_int _ = None"

fun as_bool :: "state_value \<Rightarrow> bool option" where
  "as_bool (SBool b) = Some b"
| "as_bool _ = None"

record mw_state =
  ms_values :: "(string \<times> state_value) list"
  ms_user_id :: "string option"
  ms_is_authenticated :: bool
  ms_roles :: "string list"
  ms_trace_id :: "string option"

definition mw_state_default :: mw_state where
  "mw_state_default =
     \<lparr>ms_values = [], ms_user_id = None, ms_is_authenticated = False, ms_roles = [], ms_trace_id = None\<rparr>"

record mw_context =
  mc_path :: string
  mc_method :: http_method
  mc_headers :: params
  mc_query_string :: string
  mc_query_params :: "params option"
  mc_path_params :: params
  mc_body :: "string option"
  mc_state :: "mw_state option"
  mc_response_headers :: "(string \<times> string) list"
  mc_start_time :: instant
  mc_request_id :: string

text \<open>\<open>dbg\<close> is the \<open>Debug\<close> rendering of an \<open>Instant\<close>, which the standard library leaves open.\<close>

definition context_new ::
  "(string \<Rightarrow> u64) \<Rightarrow> (instant \<Rightarrow> string) \<Rightarrow> instant \<Rightarrow> string \<Rightarrow> http_method \<Rightarrow> params \<Rightarrow> string \<Rightarrow>
   string option \<Rightarrow> mw_context" where
  "context_new xxh3_64 dbg now path meth headers query_string body =
     (let id_seed = path @ query_string @ dbg now;
          request_id = hex_digits 16 (unat (xxh3_64 id_seed))
      in \<lparr>mc_path = path, mc_method = meth, mc_headers = headers, mc_query_string = query_string,
          mc_query_params = None, mc_path_params = [], mc_body = body, mc_state = None,
          mc_response_headers = [], mc_start_time = now, mc_request_id = request_id\<rparr>)"

text \<open>\<open>form_parse\<close> is \<open>form_urlencoded::parse\<close>: the decoded pairs in order.\<close>

definition ensure_query_params :: "(string \<Rightarrow> params) \<Rightarrow> mw_context \<Rightarrow> mw_context" where
  "ensure_query_params form_parse c =
     (case mc_query_params c of
        None \<Rightarrow>
          c\<lparr>mc_query_params := Some
              (if mc_query_string c = [] then []
               else fold (\<lambda>(k, v) m. AList.update k v m) (form_parse (mc_query_string c)) [])\<rparr>
      | Some _ \<Rightarrow> c)"

definition ensure_state :: "mw_context \<Rightarrow> mw_context" where
  "ensure_state c =
     (case mc_state c of None \<Rightarrow> c\<lparr>mc_state := Some mw_state_default\<rparr> | Some _ \<Rightarrow> c)"

definition get_header :: "mw_context \<Rightarrow> string \<Rightarrow> string option" where
  "get_header c n = map_of (mc_headers c) (to_lower n)"

definition set_header :: "string \<Rightarrow> string \<Rightarrow> mw_context \<Rightarrow> mw_context" where
  "set_header n v c = c\<lparr>mc_headers := AList.update (to_lower n) v (mc_headers c)\<rparr>"

definition remove_header :: "string \<Rightarrow> mw_context \<Rightarrow> string option \<times> mw_context" where
  "remove_header n c =
     (map_of (mc_headers c) (to_lower n), c\<lparr>mc_headers := AList.delete (to_lower n) (mc_headers c)\<rparr>)"

definition get_query :: "(string \<Rightarrow> params) \<Rightarrow> string \<Rightarrow> mw_context \<Rightarrow> string option \<times> mw_context" where
  "get_query form_parse n c =
     (let c = ensure_query_params form_parse c
      in (case mc_query_params c of Some qp \<Rightarrow> map_of qp n | None \<Rightarrow> None, c))"

definition set_query :: "(string \<Rightarrow> params) \<Rightarrow> string \<Rightarrow> string \<Rightarrow> mw_context \<Rightarrow> mw_context" where
  "set_query form_parse n v c =
     (let c = ensure_query_params form_parse c
      in c\<lparr>mc_query_params := map_option (AList.update n v) (mc_query_params c)\<rparr>)"

definition remove_query :: "(string \<Rightarrow> params) \<Rightarrow> string \<Rightarrow> mw_context \<Rightarrow> string option \<times> mw_context" where
  "remove_query form_parse n c =
     (let c = ensure_query_params form_parse c
      in (case mc_query_params c of Some qp \<Rightarrow> map_of qp n | None \<Rightarrow> None,
          c\<lparr>mc_query_params := map_option (AList.delete n) (mc_query_params c)\<rparr>))"

definition get_param :: "mw_context \<Rightarrow> string \<Rightarrow> string option" where
  "get_param c n = map_of (mc_path_params c) n"

definition set_param :: "string \<Rightarrow> string \<Rightarrow> mw_context \<Rightarrow> mw_context" where
  "set_param n v c = c\<lparr>mc_path_params := AList.update n v (mc_path_params c)\<rparr>"

definition set_params :: "params \<Rightarrow> mw_context \<Rightarrow> mw_context" where
  "set_params ps c = c\<lparr>mc_path_params := ps\<rparr>"

definition set_body :: "string \<Rightarrow> mw_context \<Rightarrow> mw_context" where
  "set_body b c = c\<lparr>mc_body := Some b\<rparr>"

definition clear_body :: "mw_context \<Rightarrow> mw_context" where
  "clear_body c = c\<lparr>mc_body := None\<rparr>"

definition take_body :: "mw_context \<Rightarrow> string option \<times> mw_context" where
  "take_body c = (mc_body c, c\<lparr>mc_body := None\<rparr>)"

definition set_path :: "string \<Rightarrow> mw_context \<Rightarrow> mw_context" where
  "set_path p c = c\<lparr>mc_path := p\<rparr>"

definition set_query_string :: "string \<Rightarrow> mw_context \<Rightarrow> mw_context" where
  "set_query_string q c = c\<lparr>mc_query_string := q\<rparr>"

definition add_response_header :: "string \<Rightarrow> string \<Rightarrow> mw_context \<Rightarrow> mw_context" where
  "add_response_header n v c = c\<lparr>mc_response_headers := mc_response_headers c @ [(n, v)]\<rparr>"

definition set_state :: "string \<Rightarrow> state_value \<Rightarrow> mw_context \<Rightarrow> mw_context" where
  "set_state k v c =
     (let c = ensure_state c
      in c\<lparr>mc_state := map_option (\<lambda>s. s\<lparr>ms_values := AList.update k v (ms_values s)\<rparr>) (mc_state c)\<rparr>)"

definition get_state :: "mw_context \<Rightarrow> string \<Rightarrow> state_value option" where
  "get_state c k = (case mc_state c of Some s \<Rightarrow> map_of (ms_values s) k | None \<Rightarrow> None)"

definition set_authenticated :: "string \<Rightarrow> string list \<Rightarrow> mw_context \<Rightarrow> mw_context" where
  "set_authenticated user roles c =
     (let c = ensure_state c
      in c\<lparr>mc_state := map_option
             (\<lambda>s. s\<lparr>ms_is_authenticated := True, ms_user_id := Some user, ms_roles := roles\<rparr>) (mc_state c)\<rparr>)"

definition is_authenticated :: "mw_context \<Rightarrow> bool" where
  "is_authenticated c = (case mc_state c of Some s \<Rightarrow> ms_is_authenticated s | None \<Rightarrow> False)"

definition user_id :: "mw_context \<Rightarrow> string option" where
  "user_id c = (case mc_state c of Some s \<Rightarrow> ms_user_id s | None \<Rightarrow> None)"

definition has_role :: "mw_context \<Rightarrow> string \<Rightarrow> bool" where
  "has_role c role = (case mc_state c of Some s \<Rightarrow> role \<in> set (ms_roles s) | None \<Rightarrow> False)"

definition elapsed :: "instant \<Rightarrow> mw_context \<Rightarrow> duration" where
  "elapsed now c = now - mc_start_time c"

subsection \<open>Middleware and the chain\<close>

record 'w middleware =
  mw_name :: string
  mw_execute :: "mw_context \<Rightarrow> 'w \<Rightarrow> mw_result \<times> mw_context \<times> 'w"
  mw_applies_to :: "string \<Rightarrow> bool"
  mw_applies_to_method :: "http_method \<Rightarrow> bool"

text \<open>The trait's default methods apply a middleware to every path and method.\<close>

definition mw_default :: "string \<Rightarrow> (mw_context \<Rightarrow> 'w \<Rightarrow> mw_result \<times> mw_context \<times> 'w) \<Rightarrow> 'w middleware" where
  "mw_default n ex = \<lparr>mw_name = n, mw_execute = ex, mw_applies_to = (\<lambda>_. True), mw_applies_to_method = (\<lambda>_. True)\<rparr>"

record 'w chain =
  ch_before :: "'w middleware list"
  ch_after :: "'w middleware list"
  ch_error_handlers :: "'w middleware list"

definition chain_new :: "'w chain" where
  "chain_new = \<lparr>ch_before = [], ch_after = [], ch_error_handlers = []\<rparr>"

definition use_before :: "'w middleware \<Rightarrow> 'w chain \<Rightarrow> 'w chain" where
  "use_before m ch = ch\<lparr>ch_before := ch_before ch @ [m]\<rparr>"

definition use_after :: "'w middleware \<Rightarrow> 'w chain \<Rightarrow> 'w chain" where
  "use_after m ch = ch\<lparr>ch_after := ch_after ch @ [m]\<rparr>"

definition use_error :: "'w middleware \<Rightarrow> 'w chain \<Rightarrow> 'w chain" where
  "use_error m ch = ch\<lparr>ch_error_handlers := ch_error_handlers ch @ [m]\<rparr>"

definition applies :: "string \<Rightarrow> http_method \<Rightarrow> 'w middleware \<Rightarrow> bool" where
  "applies path meth m = (mw_applies_to m path \<and> mw_applies_to_method m meth)"

text \<open>The loop \<open>execute_before\<close> and \<open>execute_after\<close> share; the path is the one read at the start.\<close>

fun run_chain ::
  "string \<Rightarrow> http_method \<Rightarrow> 'w middleware list \<Rightarrow> mw_context \<Rightarrow> 'w \<Rightarrow> mw_result \<times> mw_context \<times> 'w" where
  "run_chain path meth [] c w = (Continue, c, w)"
| "run_chain path meth (m # ms) c w =
     (if \<not> mw_applies_to m path \<or> \<not> mw_applies_to_method m meth then run_chain path meth ms c w
      else case mw_execute m c w of
             (Continue, c', w') \<Rightarrow> run_chain path meth ms c' w'
           | result \<Rightarrow> result)"

definition execute_before :: "'w chain \<Rightarrow> mw_context \<Rightarrow> 'w \<Rightarrow> mw_result \<times> mw_context \<times> 'w" where
  "execute_before ch c w =
     (if ch_before ch = [] then (Continue, c, w)
      else run_chain (mc_path c) (mc_method c) (ch_before ch) c w)"

definition execute_after :: "'w chain \<Rightarrow> mw_context \<Rightarrow> 'w \<Rightarrow> mw_result \<times> mw_context \<times> 'w" where
  "execute_after ch c w =
     (if ch_after ch = [] then (Continue, c, w)
      else run_chain (mc_path c) (mc_method c) (ch_after ch) c w)"

fun run_handlers ::
  "string \<Rightarrow> 'w middleware list \<Rightarrow> mw_context \<Rightarrow> 'w \<Rightarrow> mw_response option \<times> mw_context \<times> 'w" where
  "run_handlers path [] c w = (None, c, w)"
| "run_handlers path (h # hs) c w =
     (if \<not> mw_applies_to h path then run_handlers path hs c w
      else case mw_execute h c w of
             (Response r, c', w') \<Rightarrow> (Some r, c', w')
           | (_, c', w') \<Rightarrow> run_handlers path hs c' w')"

definition store_error :: "mw_error \<Rightarrow> mw_context \<Rightarrow> mw_context" where
  "store_error e c =
     (let c = set_state ''error_code'' (SString (me_code e)) c;
          c = set_state ''error_message'' (SString (me_message e)) c
      in set_state ''error_status'' (SInt (int (me_status e))) c)"

definition execute_error ::
  "'w chain \<Rightarrow> mw_context \<Rightarrow> mw_error \<Rightarrow> 'w \<Rightarrow> mw_response option \<times> mw_context \<times> 'w" where
  "execute_error ch c e w =
     (let c = store_error e c in
      case run_handlers (mc_path c) (ch_error_handlers ch) c w of
        (Some r, c', w') \<Rightarrow> (Some r, c', w')
      | (None, c', w') \<Rightarrow> (Some (to_response e), c', w'))"

definition chain_stats :: "'w chain \<Rightarrow> nat \<times> nat \<times> nat" where
  "chain_stats ch = (length (ch_before ch), length (ch_after ch), length (ch_error_handlers ch))"

definition is_empty_before :: "'w chain \<Rightarrow> bool" where
  "is_empty_before ch = (ch_before ch = [])"

definition is_empty_after :: "'w chain \<Rightarrow> bool" where
  "is_empty_after ch = (ch_after ch = [])"

subsection \<open>Facts about the context\<close>

lemma get_state_set_state [simp]:
  "get_state (set_state k v c) k' = (if k' = k then Some v else get_state c k')"
  by (simp add: get_state_def set_state_def ensure_state_def mw_state_default_def Let_def split: option.split)

interpretation context_state: store set_state "\<lambda>k c. get_state c k"
  by unfold_locales (rule get_state_set_state)

lemma set_state_frame [frame_simps, simp]:
  "mc_path (set_state k v c) = mc_path c" "mc_method (set_state k v c) = mc_method c"
  "mc_headers (set_state k v c) = mc_headers c" "mc_body (set_state k v c) = mc_body c"
  "mc_response_headers (set_state k v c) = mc_response_headers c"
  "mc_start_time (set_state k v c) = mc_start_time c" "mc_request_id (set_state k v c) = mc_request_id c"
  "mc_query_string (set_state k v c) = mc_query_string c" "mc_path_params (set_state k v c) = mc_path_params c"
  "is_authenticated (set_state k v c) = is_authenticated c" "user_id (set_state k v c) = user_id c"
  by (auto simp: set_state_def ensure_state_def Let_def is_authenticated_def user_id_def mw_state_default_def
      split: option.split)

lemma set_authenticated_frame [frame_simps, simp]:
  "mc_path (set_authenticated u r c) = mc_path c" "mc_method (set_authenticated u r c) = mc_method c"
  "mc_headers (set_authenticated u r c) = mc_headers c" "mc_body (set_authenticated u r c) = mc_body c"
  "mc_response_headers (set_authenticated u r c) = mc_response_headers c"
  "mc_start_time (set_authenticated u r c) = mc_start_time c"
  "mc_request_id (set_authenticated u r c) = mc_request_id c"
  by (auto simp: set_authenticated_def ensure_state_def Let_def split: option.split)

lemma set_authenticated_user [simp]:
  "is_authenticated (set_authenticated u r c)" "user_id (set_authenticated u r c) = Some u"
  "get_state (set_authenticated u r c) k = get_state c k"
  by (auto simp: set_authenticated_def ensure_state_def Let_def is_authenticated_def user_id_def get_state_def
      mw_state_default_def split: option.split)

lemma add_response_header_frame [frame_simps, simp]:
  "mc_path (add_response_header n v c) = mc_path c" "mc_method (add_response_header n v c) = mc_method c"
  "mc_headers (add_response_header n v c) = mc_headers c" "mc_body (add_response_header n v c) = mc_body c"
  "mc_start_time (add_response_header n v c) = mc_start_time c"
  "mc_request_id (add_response_header n v c) = mc_request_id c" "mc_state (add_response_header n v c) = mc_state c"
  "mc_response_headers (add_response_header n v c) = mc_response_headers c @ [(n, v)]"
  by (simp_all add: add_response_header_def)

lemma get_header_frame [simp]:
  "get_header (set_state k v c) n = get_header c n" "get_header (add_response_header k' v' c) n = get_header c n"
  "get_header (set_authenticated u r c) n = get_header c n"
  by (simp_all add: get_header_def)

lemma get_header_set_header:
  "get_header (set_header n v c) n' = (if to_lower n' = to_lower n then Some v else get_header c n')"
  by (simp add: get_header_def set_header_def)

lemma get_query_set_query:
  "fst (get_query f n' (set_query f n v c)) = (if n' = n then Some v else fst (get_query f n' c))"
  by (simp add: get_query_def set_query_def ensure_query_params_def Let_def split: option.split)

text \<open>Once a query parameter has been read, replacing the query string has no effect on later reads.\<close>

lemma get_query_ignores_new_query_string:
  "fst (get_query f n' (set_query_string q (snd (get_query f n c)))) = fst (get_query f n' c)"
  by (simp add: get_query_def set_query_string_def ensure_query_params_def Let_def split: option.split)

subsection \<open>The contract of a middleware\<close>

text \<open>
  What the chain and the request handler rely on: executing a middleware keeps the request's
  identity (method, request id, start time) and only appends to the response headers.
\<close>

definition ctx_ext :: "mw_context \<Rightarrow> mw_context \<Rightarrow> bool" where
  "ctx_ext c c' =
     (mc_method c' = mc_method c \<and> mc_request_id c' = mc_request_id c \<and> mc_start_time c' = mc_start_time c \<and>
      prefix (mc_response_headers c) (mc_response_headers c'))"

lemma ctx_ext_refl [simp, intro]: "ctx_ext c c"
  by (simp add: ctx_ext_def)

lemma ctx_ext_trans: "ctx_ext a b \<Longrightarrow> ctx_ext b c \<Longrightarrow> ctx_ext a c"
  by (auto simp: ctx_ext_def intro: prefix_order.trans)

lemma ctx_ext_set_state [simp, intro]: "ctx_ext c c' \<Longrightarrow> ctx_ext c (set_state k v c')"
  by (simp add: ctx_ext_def)

lemma ctx_ext_set_authenticated [simp, intro]: "ctx_ext c c' \<Longrightarrow> ctx_ext c (set_authenticated u r c')"
  by (simp add: ctx_ext_def)

lemma ctx_ext_add_response_header [simp, intro]: "ctx_ext c c' \<Longrightarrow> ctx_ext c (add_response_header n v c')"
  by (auto simp: ctx_ext_def intro: prefix_order.trans)

locale well_behaved =
  fixes m :: "'w middleware"
  assumes frame: "mw_execute m c w = (r, c', w') \<Longrightarrow> ctx_ext c c'"

lemma run_chain_ctx_ext:
  assumes "\<And>m. m \<in> set ms \<Longrightarrow> well_behaved m"
  shows "run_chain p k ms c w = (r, c', w') \<Longrightarrow> ctx_ext c c'"
  using assms
proof (induction p k ms c w rule: run_chain.induct)
  case (2 path meth m ms c w)
  note wb = well_behaved.frame [OF 2(4) [of m, simplified]]
  show ?case
  proof (cases "applies path meth m")
    case False
    with 2 show ?thesis by (auto simp: applies_def)
  next
    case True
    obtain r1 c1 w1 where e: "mw_execute m c w = (r1, c1, w1)" by (cases "mw_execute m c w")
    from wb [OF e] have ext: "ctx_ext c c1" .
    show ?thesis
    proof (cases r1)
      case Continue
      with True e 2 have "ctx_ext c1 c'" by (auto simp: applies_def)
      with ext show ?thesis by (rule ctx_ext_trans)
    qed (use True e 2(3) ext in \<open>auto simp: applies_def\<close>)
  qed
qed simp

subsection \<open>Short-circuiting\<close>

text \<open>
  \<open>all_continue path meth ms c w\<close>: running every applicable middleware of \<open>ms\<close> in order, each one
  continues; the result is the context and state they leave.
\<close>

fun all_continue ::
  "string \<Rightarrow> http_method \<Rightarrow> 'w middleware list \<Rightarrow> mw_context \<Rightarrow> 'w \<Rightarrow> (mw_context \<times> 'w) option" where
  "all_continue path meth [] c w = Some (c, w)"
| "all_continue path meth (m # ms) c w =
     (if applies path meth m then
        (case mw_execute m c w of (Continue, c', w') \<Rightarrow> all_continue path meth ms c' w' | _ \<Rightarrow> None)
      else all_continue path meth ms c w)"

lemma run_chain_Continue:
  "run_chain p k ms c w = (Continue, c', w') \<longleftrightarrow> all_continue p k ms c w = Some (c', w')"
  by (induction p k ms c w rule: all_continue.induct)
    (auto simp: applies_def split: mw_result.splits prod.splits)

lemma run_chain_stop:
  assumes "r \<noteq> Continue"
  shows "run_chain p k ms c w = (r, c', w') \<longleftrightarrow>
    (\<exists>pre m post c1 w1. ms = pre @ m # post \<and> all_continue p k pre c w = Some (c1, w1) \<and>
       applies p k m \<and> mw_execute m c1 w1 = (r, c', w'))" (is "?run ms c w \<longleftrightarrow> ?stop ms c w")
proof
  show "?run ms c w \<Longrightarrow> ?stop ms c w"
  proof (induction ms arbitrary: c w)
    case (Cons m ms)
    show ?case
    proof (cases "applies p k m \<and> fst (mw_execute m c w) \<noteq> Continue")
      case True
      with Cons.prems have "mw_execute m c w = (r, c', w')"
        by (auto simp: applies_def split: prod.splits mw_result.splits)
      with True have "m # ms = [] @ m # ms \<and> all_continue p k [] c w = Some (c, w) \<and> applies p k m \<and>
        mw_execute m c w = (r, c', w')" by simp
      then show ?thesis by blast
    next
      case False
      obtain c2 w2 where step: "run_chain p k ms c2 w2 = (r, c', w')"
        "\<And>pre. all_continue p k (m # pre) c w = all_continue p k pre c2 w2"
        using False Cons.prems by (cases "applies p k m"; cases "mw_execute m c w") (auto simp: applies_def)
      from Cons.IH [OF step(1)] obtain pre m' post c1 w1 where "ms = pre @ m' # post"
        "all_continue p k pre c2 w2 = Some (c1, w1)" "applies p k m'" "mw_execute m' c1 w1 = (r, c', w')" by blast
      then have "m # ms = (m # pre) @ m' # post \<and> all_continue p k (m # pre) c w = Some (c1, w1) \<and>
        applies p k m' \<and> mw_execute m' c1 w1 = (r, c', w')" using step(2) by simp
      then show ?thesis by blast
    qed
  qed (use assms in simp)
next
  assume "?stop ms c w"
  then obtain pre m post c1 w1 where s: "ms = pre @ m # post" "all_continue p k pre c w = Some (c1, w1)"
    "applies p k m" "mw_execute m c1 w1 = (r, c', w')" by blast
  have "?run (pre @ m # post) c w" using s(2)
  proof (induction pre arbitrary: c w)
    case Nil
    with s(3,4) assms show ?case by (cases r) (auto simp: applies_def)
  next
    case (Cons x pre)
    then show ?case by (auto simp: applies_def split: prod.splits mw_result.splits if_splits)
  qed
  with s(1) show "?run ms c w" by simp
qed

text \<open>
  \<^bold>\<open>C7\<close> \<open>execute_before\<close> stops with a response or an error exactly when some applicable middleware
  produced it and every applicable middleware before it continued, each on the context its
  predecessor left; no later middleware runs. It continues exactly when all of them continued.
\<close>

theorem execute_before_short_circuit:
  "(\<forall>r c' w'. r = Continue \<or>
      (execute_before ch c w = (r, c', w')) =
      (\<exists>pre m post c1 w1. ch_before ch = pre @ m # post \<and>
         all_continue (mc_path c) (mc_method c) pre c w = Some (c1, w1) \<and>
         applies (mc_path c) (mc_method c) m \<and> mw_execute m c1 w1 = (r, c', w'))) \<and>
   (\<forall>c' w'. (execute_before ch c w = (Continue, c', w')) =
      (all_continue (mc_path c) (mc_method c) (ch_before ch) c w = Some (c', w')))"
proof -
  have eq: "execute_before ch c w = run_chain (mc_path c) (mc_method c) (ch_before ch) c w"
    by (simp add: execute_before_def)
  have "r = Continue \<or> (run_chain p k ms c w = (r, c', w')) =
    (\<exists>pre m post c1 w1. ms = pre @ m # post \<and> all_continue p k pre c w = Some (c1, w1) \<and>
       applies p k m \<and> mw_execute m c1 w1 = (r, c', w'))" for r p k ms c c' and w w' :: 'a
    using run_chain_stop [of r p k ms c w c' w'] by (cases "r = Continue") simp_all
  then show ?thesis unfolding eq run_chain_Continue by simp
qed

lemma run_handlers_Some:
  "run_handlers p hs c w = (Some r, c', w') \<Longrightarrow>
   \<exists>h \<in> set hs. \<exists>c1 w1. mw_applies_to h p \<and> mw_execute h c1 w1 = (Response r, c', w')"
proof (induction hs arbitrary: c w)
  case (Cons h hs)
  obtain r1 c1 w1 where e: "mw_execute h c w = (r1, c1, w1)" by (cases "mw_execute h c w")
  show ?case
  proof (cases "mw_applies_to h p \<and> r1 = Response r \<and> c1 = c' \<and> w1 = w'")
    case True
    with e show ?thesis by auto
  next
    case False
    with Cons.prems e have "\<exists>c w. run_handlers p hs c w = (Some r, c', w')"
      by (cases "mw_applies_to h p"; cases r1) auto
    with Cons.IH show ?thesis by force
  qed
qed simp

text \<open>
  Error handling is total: \<open>execute_error\<close> always produces a response. Either an applicable
  error handler produced it, the handlers having started from a context whose state carries the
  error's code, message and status, or it is the error's own JSON response with the error's status.
\<close>

lemma execute_error_total:
  "\<exists>r c' w'. execute_error ch c e w = (Some r, c', w') \<and>
     ((\<exists>h \<in> set (ch_error_handlers ch). \<exists>ch1 w1. mw_applies_to h (mc_path c) \<and> mw_execute h ch1 w1 = (Response r, c', w')) \<or>
      r = to_response e \<and> mr_status r = me_status e) \<and>
     get_state (store_error e c) ''error_code'' = Some (SString (me_code e)) \<and>
     get_state (store_error e c) ''error_message'' = Some (SString (me_message e)) \<and>
     get_state (store_error e c) ''error_status'' = Some (SInt (int (me_status e)))"
proof -
  obtain r c' w' where run: "run_handlers (mc_path c) (ch_error_handlers ch) (store_error e c) w = (r, c', w')"
    by (metis prod_cases3)
  have path: "mc_path (store_error e c) = mc_path c" by (simp add: store_error_def)
  have st: "mr_status (to_response e) = me_status e" by (simp add: to_response_def mresp_defs)
  have seen: "get_state (store_error e c) ''error_code'' = Some (SString (me_code e)) \<and>
     get_state (store_error e c) ''error_message'' = Some (SString (me_message e)) \<and>
     get_state (store_error e c) ''error_status'' = Some (SInt (int (me_status e)))"
    by (simp add: store_error_def)
  show ?thesis
  proof (cases r)
    case None
    with run path st seen show ?thesis by (simp add: execute_error_def)
  next
    case (Some x)
    with run path have "execute_error ch c e w = (Some x, c', w')" by (simp add: execute_error_def)
    with run_handlers_Some [OF run [unfolded Some]] seen show ?thesis by blast
  qed
qed

end
