(* ===== verification/Cors.thy ===== *)
theory Cors
  imports Middleware_Chain
begin

text \<open>
  CORS middleware (\<open>CorsConfig\<close> and \<open>CorsMiddleware\<close> in \<open>src/middleware/builtin.rs\<close>).
\<close>

record cors_config =
  co_allowed_origins :: "string list"
  co_allowed_methods :: "http_method list"
  co_allowed_headers :: "string list"
  co_expose_headers :: "string list"
  co_allow_credentials :: bool
  co_max_age :: nat

definition cors_default :: cors_config where
  "cors_default =
     \<lparr>co_allowed_origins = [''*''],
      co_allowed_methods = [GET, POST, PUT, DELETE, PATCH, OPTIONS],
      co_allowed_headers = [''Content-Type'', ''Authorization'', ''X-Requested-With''],
      co_expose_headers = [], co_allow_credentials = False, co_max_age = 86400\<rparr>"

definition allow_origin :: "string \<Rightarrow> cors_config \<Rightarrow> cors_config" where
  "allow_origin o1 cfg = cfg\<lparr>co_allowed_origins := co_allowed_origins cfg @ [o1]\<rparr>"

definition allow_any_origin :: "cors_config \<Rightarrow> cors_config" where
  "allow_any_origin cfg = cfg\<lparr>co_allowed_origins := [''*'']\<rparr>"

definition allow_method :: "http_method \<Rightarrow> cors_config \<Rightarrow> cors_config" where
  "allow_method m cfg =
     (if m \<notin> set (co_allowed_methods cfg)
      then cfg\<lparr>co_allowed_methods := co_allowed_methods cfg @ [m]\<rparr> else cfg)"

definition allow_header :: "string \<Rightarrow> cors_config \<Rightarrow> cors_config" where
  "allow_header h cfg = cfg\<lparr>co_allowed_headers := co_allowed_headers cfg @ [h]\<rparr>"

definition expose_header :: "string \<Rightarrow> cors_config \<Rightarrow> cors_config" where
  "expose_header h cfg = cfg\<lparr>co_expose_headers := co_expose_headers cfg @ [h]\<rparr>"

definition allow_credentials :: "bool \<Rightarrow> cors_config \<Rightarrow> cors_config" where
  "allow_credentials b cfg = cfg\<lparr>co_allow_credentials := b\<rparr>"

definition max_age :: "nat \<Rightarrow> cors_config \<Rightarrow> cors_config" where
  "max_age s cfg = cfg\<lparr>co_max_age := s\<rparr>"

definition is_origin_allowed :: "cors_config \<Rightarrow> string \<Rightarrow> bool" where
  "is_origin_allowed cfg o1 = (\<exists>allowed \<in> set (co_allowed_origins cfg). allowed = ''*'' \<or> allowed = o1)"

definition methods_string :: "cors_config \<Rightarrow> string" where
  "methods_string cfg = join_with '', '' (map as_str (co_allowed_methods cfg))"

definition headers_string :: "cors_config \<Rightarrow> string" where
  "headers_string cfg = join_with '', '' (co_allowed_headers cfg)"

definition preflight_response :: "cors_config \<Rightarrow> string \<Rightarrow> mw_response" where
  "preflight_response cfg origin =
     (let response = mresp_new 204;
          response = with_header ''Access-Control-Allow-Origin''
            (if ''*'' \<in> set (co_allowed_origins cfg) then ''*'' else origin) response;
          response = with_header ''Access-Control-Allow-Methods'' (methods_string cfg) response;
          response = with_header ''Access-Control-Allow-Headers'' (headers_string cfg) response;
          response = with_header ''Access-Control-Max-Age'' (show_nat (co_max_age cfg)) response
      in if co_allow_credentials cfg then with_header ''Access-Control-Allow-Credentials'' ''true'' response
         else response)"

definition cors_execute :: "cors_config \<Rightarrow> mw_context \<Rightarrow> mw_result \<times> mw_context" where
  "cors_execute cfg c =
     (let origin = (case get_header c ''origin'' of Some v \<Rightarrow> v | None \<Rightarrow> []) in
      if origin = [] then (Continue, c)
      else if \<not> is_origin_allowed cfg origin then (Response (forbidden ''Origin not allowed''), c)
      else
        let allowed_origin =
              (if ''*'' \<in> set (co_allowed_origins cfg) \<and> \<not> co_allow_credentials cfg then ''*'' else origin);
            c = add_response_header ''Access-Control-Allow-Origin'' allowed_origin c;
            c = (if co_allow_credentials cfg
                 then add_response_header ''Access-Control-Allow-Credentials'' ''true'' c else c);
            c = (if co_expose_headers cfg \<noteq> []
                 then add_response_header ''Access-Control-Expose-Headers''
                        (join_with '', '' (co_expose_headers cfg)) c else c)
        in if mc_method c = OPTIONS then (Response (preflight_response cfg origin), c)
           else (Continue, c))"

definition cors_middleware :: "cors_config \<Rightarrow> 'w middleware" where
  "cors_middleware cfg = mw_default ''cors'' (\<lambda>c w. let (r, c') = cors_execute cfg c in (r, c', w))"

interpretation cors: well_behaved "cors_middleware cfg :: 'w middleware" for cfg
  by unfold_locales (auto simp: cors_middleware_def mw_default_def cors_execute_def Let_def split: if_splits)

lemma is_origin_allowed_iff:
  "is_origin_allowed cfg x \<longleftrightarrow> ''*'' \<in> set (co_allowed_origins cfg) \<or> x \<in> set (co_allowed_origins cfg)"
  by (auto simp: is_origin_allowed_def)

definition header_values :: "string \<Rightarrow> (string \<times> string) list \<Rightarrow> string list" where
  "header_values n hs = map snd (filter (\<lambda>(k, v). k = n) hs)"

text \<open>
  \<^bold>\<open>C21\<close> The CORS decision: without an origin the request passes untouched; an origin that is
  neither listed nor covered by a wildcard is answered with 403 and gets no CORS header at all.
  For an allowed origin a preflight request is answered with a 204 that names, each once, the
  origin (or \<open>*\<close>), the configured methods, headers and age, and the credentials exactly when they are allowed. Any
  other request continues, and its response is to carry exactly one
  \<open>Access-Control-Allow-Origin\<close>, which is the origin itself whenever credentials are allowed, the
  credentials exactly when they are allowed and the exposed headers when there are some.
\<close>

theorem cors_decision:
  "case get_header c ''origin'' of
     None \<Rightarrow> cors_execute cfg c = (Continue, c)
   | Some x \<Rightarrow>
       if x = [] then cors_execute cfg c = (Continue, c)
       else if ''*'' \<notin> set (co_allowed_origins cfg) \<and> x \<notin> set (co_allowed_origins cfg)
       then cors_execute cfg c = (Response (forbidden ''Origin not allowed''), c)
       else if mc_method c = OPTIONS then
         (\<exists>r c'. cors_execute cfg c = (Response r, c') \<and> mr_status r = 204 \<and> mr_body r = [] \<and>
            header_values ''Access-Control-Allow-Origin'' (mr_headers r) =
              [if ''*'' \<in> set (co_allowed_origins cfg) then ''*'' else x] \<and>
            header_values ''Access-Control-Allow-Methods'' (mr_headers r) = [join_with '', '' (map as_str (co_allowed_methods cfg))] \<and>
            header_values ''Access-Control-Allow-Headers'' (mr_headers r) = [join_with '', '' (co_allowed_headers cfg)] \<and>
            header_values ''Access-Control-Max-Age'' (mr_headers r) = [show_nat (co_max_age cfg)] \<and>
            header_values ''Access-Control-Allow-Credentials'' (mr_headers r) = (if co_allow_credentials cfg then [''true''] else []))
       else
         (\<exists>hs c'. cors_execute cfg c = (Continue, c') \<and> mc_response_headers c' = mc_response_headers c @ hs \<and>
            header_values ''Access-Control-Allow-Origin'' hs =
              [if co_allow_credentials cfg then x else if ''*'' \<in> set (co_allowed_origins cfg) then ''*'' else x] \<and>
            header_values ''Access-Control-Allow-Credentials'' hs = (if co_allow_credentials cfg then [''true''] else []) \<and>
            header_values ''Access-Control-Expose-Headers'' hs =
              (if co_expose_headers cfg = [] then [] else [join_with '', '' (co_expose_headers cfg)]))"
  by (auto simp: cors_execute_def preflight_response_def methods_string_def headers_string_def header_values_def mresp_defs
      Let_def is_origin_allowed_iff split: option.split)

text \<open>
  The preflight response does not follow the credentials rule of the ordinary one: with a wildcard
  origin and credentials it answers \<open>*\<close> together with \<open>Access-Control-Allow-Credentials: true\<close>,
  which the CORS protocol forbids and browsers reject.
\<close>

lemma cors_preflight_wildcard_credentials:
  assumes "''*'' \<in> set (co_allowed_origins cfg)" "co_allow_credentials cfg"
  shows "(''Access-Control-Allow-Origin'', ''*'') \<in> set (mr_headers (preflight_response cfg x)) \<and>
         (''Access-Control-Allow-Credentials'', ''true'') \<in> set (mr_headers (preflight_response cfg x))"
  using assms by (simp add: preflight_response_def mresp_defs Let_def)

end
