(* ===== verification/Float64.thy ===== *)
theory Float64
  imports Prelude
begin

text \<open>
  Rounding of \<open>f64\<close> arithmetic: every operation of the code returns the nearest number with 53
  significant bits, ties to even (IEEE 754 binary64). Overflow to infinity and subnormal numbers are left out:
  the quantities this is used for are zero or between \<open>10^-300\<close> and \<open>10^300\<close>.
\<close>

definition round_even :: "real \<Rightarrow> int" where
  "round_even y =
     (let f = \<lfloor>y\<rfloor>; d = y - of_int f
      in if d < 1 / 2 then f else if 1 / 2 < d then f + 1 else if even f then f else f + 1)"

definition f64_ulp :: "real \<Rightarrow> real" where
  "f64_ulp x = 2 powr of_int (\<lfloor>log 2 \<bar>x\<bar>\<rfloor> - 52)"

definition f64_round :: "real \<Rightarrow> real" where
  "f64_round x = (if x = 0 then 0 else of_int (round_even (x / f64_ulp x)) * f64_ulp x)"

text \<open>The unit roundoff.\<close>

definition f64_eps :: real where
  "f64_eps = 1 / 2 ^ 53"

lemma f64_eps_pos: "0 < f64_eps"
  by (simp add: f64_eps_def)

lemma round_even_error: "\<bar>of_int (round_even y) - y\<bar> \<le> 1 / 2"
proof -
  have "of_int \<lfloor>y\<rfloor> \<le> y" "y < of_int \<lfloor>y\<rfloor> + 1" by linarith+
  then show ?thesis by (auto simp: round_even_def Let_def)
qed

lemma f64_ulp_pos: "0 < f64_ulp x"
  by (simp add: f64_ulp_def)

lemma f64_ulp_le: "x \<noteq> 0 \<Longrightarrow> f64_ulp x / 2 \<le> \<bar>x\<bar> * f64_eps"
proof -
  assume x: "x \<noteq> 0"
  have "2 powr of_int \<lfloor>log 2 \<bar>x\<bar>\<rfloor> \<le> 2 powr log 2 \<bar>x\<bar>" by (intro powr_mono) simp_all
  also have "\<dots> = \<bar>x\<bar>" using x by simp
  finally have "2 powr of_int \<lfloor>log 2 \<bar>x\<bar>\<rfloor> * f64_eps \<le> \<bar>x\<bar> * f64_eps"
    using f64_eps_pos by (intro mult_right_mono) simp_all
  moreover have "f64_ulp x / 2 = 2 powr of_int \<lfloor>log 2 \<bar>x\<bar>\<rfloor> * f64_eps"
    by (simp add: f64_ulp_def powr_diff f64_eps_def powr_numeral)
  ultimately show ?thesis by simp
qed

text \<open>Rounding is off by at most half a unit in the last place, so by a relative error of \<open>2^-53\<close>.\<close>

lemma f64_round_error: "\<bar>f64_round x - x\<bar> \<le> \<bar>x\<bar> * f64_eps"
proof (cases "x = 0")
  case False
  let ?u = "f64_ulp x"
  have "x = x / ?u * ?u" using f64_ulp_pos [of x] by simp
  then have "f64_round x - x = (of_int (round_even (x / ?u)) - x / ?u) * ?u"
    using False by (simp add: f64_round_def left_diff_distrib)
  then have "\<bar>f64_round x - x\<bar> = \<bar>of_int (round_even (x / ?u)) - x / ?u\<bar> * ?u"
    using f64_ulp_pos [of x] by (simp add: abs_mult)
  also have "\<dots> \<le> 1 / 2 * ?u" using round_even_error f64_ulp_pos [of x] by (intro mult_right_mono) simp_all
  also have "\<dots> \<le> \<bar>x\<bar> * f64_eps" using f64_ulp_le [OF False] by simp
  finally show ?thesis .
qed (simp add: f64_round_def)

lemma f64_round_bounds: "0 \<le> x \<Longrightarrow> 0 \<le> f64_round x" "0 \<le> x \<Longrightarrow> f64_round x \<le> x * (1 + f64_eps)"
proof -
  assume x: "0 \<le> x"
  have "x * f64_eps \<le> x * 1" using x by (intro mult_left_mono) (simp_all add: f64_eps_def)
  then show "0 \<le> f64_round x" "f64_round x \<le> x * (1 + f64_eps)"
    using f64_round_error [of x] x by (auto simp: distrib_left)
qed

lemma f64_round_lower: "0 \<le> x \<Longrightarrow> x * (1 - f64_eps) \<le> f64_round x"
  using f64_round_error [of x] by (auto simp: right_diff_distrib)

lemma f64_round_upper: "x \<le> y \<Longrightarrow> 0 \<le> y \<Longrightarrow> f64_round x \<le> y * (1 + f64_eps)"
proof (cases "0 \<le> x")
  case True
  assume "x \<le> y"
  then have "x * (1 + f64_eps) \<le> y * (1 + f64_eps)" using f64_eps_pos by (intro mult_right_mono) simp_all
  with f64_round_bounds(2) [OF True] show ?thesis by linarith
next
  case False
  assume y: "0 \<le> y"
  have "\<bar>x\<bar> * f64_eps \<le> \<bar>x\<bar> * 1" by (intro mult_left_mono) (simp_all add: f64_eps_def)
  with f64_round_error [of x] False have "f64_round x \<le> 0" by linarith
  also have "0 \<le> y * (1 + f64_eps)" using y f64_eps_pos by simp
  finally show ?thesis .
qed

text \<open>\<open>Duration::as_secs_f64\<close>: the seconds plus the nanoseconds divided by \<open>10^9\<close>.\<close>

definition duration_as_f64 :: "duration \<Rightarrow> real" where
  "duration_as_f64 d =
     f64_round (f64_round (real (d div 1000000000)) + f64_round (real (d mod 1000000000) / 1000000000))"

lemma duration_as_f64_bounds:
  "0 \<le> duration_as_f64 d" "duration_as_f64 d \<le> as_secs_f64 d * (1 + f64_eps) ^ 2"
  "as_secs_f64 d * (1 - f64_eps) ^ 2 \<le> duration_as_f64 d"
proof -
  let ?a = "real (d div 1000000000)" and ?b = "real (d mod 1000000000) / 1000000000"
  have ab: "0 \<le> f64_round ?a" "f64_round ?a \<le> ?a * (1 + f64_eps)" "0 \<le> f64_round ?b" "f64_round ?b \<le> ?b * (1 + f64_eps)"
    by (rule f64_round_bounds; simp)+
  have "d = d div 1000000000 * 1000000000 + d mod 1000000000" by simp
  then have "real d = ?a * 1000000000 + real (d mod 1000000000)" by (metis of_nat_add of_nat_mult of_nat_numeral)
  then have sum: "?a + ?b = as_secs_f64 d" by (simp add: as_secs_f64_def)
  show "0 \<le> duration_as_f64 d" using ab unfolding duration_as_f64_def by (intro f64_round_bounds(1)) linarith
  have "duration_as_f64 d \<le> (f64_round ?a + f64_round ?b) * (1 + f64_eps)"
    using ab unfolding duration_as_f64_def by (intro f64_round_bounds(2)) linarith
  also have "\<dots> \<le> ((?a + ?b) * (1 + f64_eps)) * (1 + f64_eps)"
    using ab f64_eps_pos by (intro mult_right_mono) (simp_all add: distrib_right)
  finally show "duration_as_f64 d \<le> as_secs_f64 d * (1 + f64_eps) ^ 2" by (simp add: sum power2_eq_square mult.assoc)
  have "?a * (1 - f64_eps) \<le> f64_round ?a" "?b * (1 - f64_eps) \<le> f64_round ?b" by (rule f64_round_lower; simp)+
  then have "(?a + ?b) * (1 - f64_eps) \<le> f64_round ?a + f64_round ?b" by (simp only: distrib_right)
  then have "((?a + ?b) * (1 - f64_eps)) * (1 - f64_eps) \<le> (f64_round ?a + f64_round ?b) * (1 - f64_eps)"
    by (rule mult_right_mono) (simp add: f64_eps_def)
  also have "\<dots> \<le> duration_as_f64 d" using ab unfolding duration_as_f64_def by (intro f64_round_lower) linarith
  finally show "as_secs_f64 d * (1 - f64_eps) ^ 2 \<le> duration_as_f64 d" by (simp add: sum power2_eq_square mult.assoc)
qed

end
