(* ===== verification/Rate_Limit.thy ===== *)
theory Rate_Limit
  imports Middleware_Chain Float64
begin

text \<open>
  Rate limiting (\<open>RateLimitConfig\<close>, \<open>RateLimitState\<close> and \<open>RateLimitMiddleware\<close> in
  \<open>src/middleware/builtin.rs\<close>) with its three algorithms. Each check runs under the client's
  \<open>window_start\<close> (or token) write lock, so it is one atomic step. Counters are 64-bit words,
  and every \<open>f64\<close> operation rounds as in theory \<open>Float64\<close>.
\<close>

subsection \<open>Configuration and client state\<close>

datatype rate_algorithm = FixedWindow | SlidingWindow | TokenBucket (bucket_size: u32) (refill_rate: real)

record rate_config =
  rl_max_requests :: u32
  rl_window :: duration
  rl_algorithm :: rate_algorithm
  rl_key_header :: "string option"
  rl_skip_paths :: "string list"

definition rate_default :: rate_config where
  "rate_default =
     \<lparr>rl_max_requests = 100, rl_window = secs 60, rl_algorithm = SlidingWindow, rl_key_header = None,
      rl_skip_paths = [''/health'', ''/metrics'']\<rparr>"

definition rate_new :: "u32 \<Rightarrow> nat \<Rightarrow> rate_config" where
  "rate_new n window_secs = rate_default\<lparr>rl_max_requests := n, rl_window := secs window_secs\<rparr>"

definition with_algorithm :: "rate_algorithm \<Rightarrow> rate_config \<Rightarrow> rate_config" where
  "with_algorithm a cfg = cfg\<lparr>rl_algorithm := a\<rparr>"

definition with_key_header :: "string \<Rightarrow> rate_config \<Rightarrow> rate_config" where
  "with_key_header h cfg = cfg\<lparr>rl_key_header := Some h\<rparr>"

definition rate_skip_path :: "string \<Rightarrow> rate_config \<Rightarrow> rate_config" where
  "rate_skip_path p cfg = cfg\<lparr>rl_skip_paths := rl_skip_paths cfg @ [p]\<rparr>"

record rate_state =
  rs_count :: u64
  rs_window_start :: instant
  rs_tokens :: real
  rs_last_refill :: instant

definition rate_state_new :: "instant \<Rightarrow> rate_state" where
  "rate_state_new now = \<lparr>rs_count = 0, rs_window_start = now, rs_tokens = 0, rs_last_refill = now\<rparr>"

definition get_client_key :: "rate_config \<Rightarrow> mw_context \<Rightarrow> string" where
  "get_client_key cfg c =
     (case (case rl_key_header cfg of Some h \<Rightarrow> get_header c h | None \<Rightarrow> None) of
        Some v \<Rightarrow> v
      | None \<Rightarrow>
          (case get_header c ''x-forwarded-for'' of
             Some xff \<Rightarrow> trim (hd (split_on (CHR '','') xff))
           | None \<Rightarrow> (case get_header c ''x-real-ip'' of Some ip \<Rightarrow> ip | None \<Rightarrow> ''unknown'')))"

subsection \<open>The three checks\<close>

text \<open>\<open>as u64\<close> on a float truncates and saturates.\<close>

definition f64_as_u64 :: "real \<Rightarrow> u64" where
  "f64_as_u64 x = of_nat (min (nat \<lfloor>x\<rfloor>) (2 ^ 64 - 1))"

lemma unat_f64_as_u64: "unat (f64_as_u64 x) = min (nat \<lfloor>x\<rfloor>) (2 ^ 64 - 1)"
proof -
  have "min (nat \<lfloor>x\<rfloor>) (2 ^ 64 - 1) < 2 ^ LENGTH(64)" by simp
  then show ?thesis unfolding f64_as_u64_def unat_of_nat by (rule mod_less)
qed

definition check_fixed_window :: "rate_config \<Rightarrow> instant \<Rightarrow> rate_state \<Rightarrow> (bool \<times> u64) \<times> rate_state" where
  "check_fixed_window cfg now s =
     (if now - rs_window_start s \<ge> rl_window cfg
      then ((True, ucast (rl_max_requests cfg) - 1), s\<lparr>rs_window_start := now, rs_count := 1\<rparr>)
      else
        let count = rs_count s + 1;
            remaining = saturating_sub (ucast (rl_max_requests cfg)) count
        in ((count \<le> ucast (rl_max_requests cfg), remaining), s\<lparr>rs_count := count\<rparr>))"

definition check_sliding_window :: "rate_config \<Rightarrow> instant \<Rightarrow> rate_state \<Rightarrow> (bool \<times> u64) \<times> rate_state" where
  "check_sliding_window cfg now s =
     (let elapsed = now - rs_window_start s in
      if elapsed \<ge> rl_window cfg
      then ((True, ucast (rl_max_requests cfg) - 1), s\<lparr>rs_window_start := now, rs_count := 1\<rparr>)
      else
        let window_ratio = f64_round (duration_as_f64 elapsed / duration_as_f64 (rl_window cfg));
            prev_count = rs_count s;
            weighted_count = f64_as_u64 (f64_round (f64_round (real (unat prev_count)) * f64_round (1 - window_ratio)));
            new_count = weighted_count + 1;
            remaining = saturating_sub (ucast (rl_max_requests cfg)) new_count
        in ((new_count \<le> ucast (rl_max_requests cfg), remaining), s\<lparr>rs_count := new_count\<rparr>))"

definition check_token_bucket :: "u32 \<Rightarrow> real \<Rightarrow> instant \<Rightarrow> rate_state \<Rightarrow> (bool \<times> u64) \<times> rate_state" where
  "check_token_bucket bsize rate now s =
     (let elapsed = duration_as_f64 (now - rs_last_refill s);
          tokens = min (f64_round (rs_tokens s + f64_round (elapsed * rate))) (real (unat bsize));
          s = s\<lparr>rs_last_refill := now\<rparr>
      in if tokens \<ge> 1
         then let tokens = f64_round (tokens - 1) in ((True, f64_as_u64 tokens), s\<lparr>rs_tokens := tokens\<rparr>)
         else ((False, 0), s\<lparr>rs_tokens := tokens\<rparr>))"

definition rate_check :: "rate_config \<Rightarrow> instant \<Rightarrow> rate_state \<Rightarrow> (bool \<times> u64) \<times> rate_state" where
  "rate_check cfg now s =
     (case rl_algorithm cfg of
        FixedWindow \<Rightarrow> check_fixed_window cfg now s
      | SlidingWindow \<Rightarrow> check_sliding_window cfg now s
      | TokenBucket bsize rate \<Rightarrow> check_token_bucket bsize rate now s)"

subsection \<open>The middleware\<close>

type_synonym rate_clients = "(string \<times> rate_state) list"

text \<open>\<open>now0\<close> is the clock reading in \<open>RateLimitState::new\<close>, \<open>now\<close> the one in the check.\<close>

definition rate_execute ::
  "rate_config \<Rightarrow> instant \<Rightarrow> instant \<Rightarrow> mw_context \<Rightarrow> rate_clients \<Rightarrow> mw_result \<times> mw_context \<times> rate_clients" where
  "rate_execute cfg now0 now c clients =
     (if \<exists>p \<in> set (rl_skip_paths cfg). starts_with (mc_path c) p then (Continue, c, clients)
      else
        let key = get_client_key cfg c;
            st = (case map_of clients key of Some s \<Rightarrow> s | None \<Rightarrow> rate_state_new now0);
            ((allowed, remaining), st') = rate_check cfg now st;
            clients = AList.update key st' clients;
            c = add_response_header ''X-RateLimit-Limit'' (show_nat (unat (rl_max_requests cfg))) c;
            c = add_response_header ''X-RateLimit-Remaining'' (show_nat (unat remaining)) c;
            c = add_response_header ''X-RateLimit-Reset'' (show_nat (as_secs (rl_window cfg))) c
        in if \<not> allowed then
             (Response (with_header ''Retry-After'' (show_nat (as_secs (rl_window cfg)))
                (too_many_requests ''Rate limit exceeded'')),
              add_response_header ''Retry-After'' (show_nat (as_secs (rl_window cfg))) c, clients)
           else (Continue, c, clients))"

definition rate_limit_middleware :: "rate_config \<Rightarrow> (instant \<times> rate_clients) middleware" where
  "rate_limit_middleware cfg =
     mw_default ''rate_limit'' (\<lambda>c (now, cl). let (r, c', cl') = rate_execute cfg now now c cl in (r, c', now, cl'))"

interpretation rate: well_behaved "rate_limit_middleware cfg" for cfg
  by unfold_locales
    (auto simp: rate_limit_middleware_def mw_default_def rate_execute_def Let_def split: if_splits prod.splits)

subsection \<open>The contract of a check\<close>

text \<open>
  What \<open>execute\<close> reports to the client rests on one contract of the three algorithms: a rejected
  request reports nothing remaining, an accepted one at most the quota.
\<close>

locale limiter =
  fixes check :: "instant \<Rightarrow> rate_state \<Rightarrow> (bool \<times> u64) \<times> rate_state"
    and quota :: nat
  assumes rejected: "check now s = ((False, r), s') \<Longrightarrow> r = 0"
    and accepted: "0 < quota \<Longrightarrow> check now s = ((True, r), s') \<Longrightarrow> unat r \<le> quota"
begin

lemma remaining_bound: "0 < quota \<Longrightarrow> check now s = ((a, r), s') \<Longrightarrow> unat r \<le> quota \<and> (a \<or> r = 0)"
  by (cases a) (auto dest: rejected accepted)

end

lemma saturating_sub_0: "saturating_sub a b = 0 \<longleftrightarrow> a \<le> b" for a b :: "'a::len word"
  by (auto simp: saturating_sub_def)

lemma max_minus_one:
  assumes "0 < unat (m :: u32)"
  shows "unat (ucast m - 1 :: u64) = unat m - 1"
proof -
  have "1 \<le> (ucast m :: u64)" using assms by (simp add: word_le_nat_alt)
  then show ?thesis by (simp add: unat_sub)
qed

interpretation fixed: limiter "check_fixed_window cfg" "unat (rl_max_requests cfg)" for cfg
  by unfold_locales
    (auto simp: check_fixed_window_def Let_def saturating_sub_0 unat_saturating_sub max_minus_one split: if_splits)

interpretation sliding: limiter "check_sliding_window cfg" "unat (rl_max_requests cfg)" for cfg
  by unfold_locales
    (auto simp: check_sliding_window_def Let_def saturating_sub_0 unat_saturating_sub max_minus_one split: if_splits)

lemma real_u32_less: "real (unat (b :: u32)) < 2 ^ 32"
proof -
  have "unat b < 2 ^ 32" using unsigned_less [of b] by simp
  then have "real (unat b) < real (2 ^ 32)" by (simp only: of_nat_less_iff)
  then show ?thesis by simp
qed

interpretation token: limiter "check_token_bucket b rate" "unat b" for b rate
proof (unfold_locales, goal_cases)
  case (2 now s r s')
  let ?t = "min (f64_round (rs_tokens s + f64_round (duration_as_f64 (now - rs_last_refill s) * rate))) (real (unat b))"
  note b = real_u32_less [of b]
  from 2 have t: "1 \<le> ?t" "r = f64_as_u64 (f64_round (?t - 1))" by (auto simp: check_token_bucket_def Let_def split: if_splits)
  have "f64_round (?t - 1) \<le> (?t - 1) * (1 + f64_eps)" using t(1) by (intro f64_round_bounds(2)) simp
  also have "\<dots> \<le> (?t - 1) + (2 ^ 32) * f64_eps"
    using t(1) b f64_eps_pos by (simp add: distrib_left)
  also have "\<dots> < real (unat b)" by (simp add: f64_eps_def)
  finally have "nat \<lfloor>f64_round (?t - 1)\<rfloor> \<le> unat b" by linarith
  then show ?case by (simp add: t(2) unat_f64_as_u64)
qed (auto simp: check_token_bucket_def Let_def split: if_splits)

definition quota_of :: "rate_config \<Rightarrow> nat" where
  "quota_of cfg =
     (case rl_algorithm cfg of TokenBucket b _ \<Rightarrow> unat b | _ \<Rightarrow> unat (rl_max_requests cfg))"

lemmas check_bounds = fixed.remaining_bound sliding.remaining_bound token.remaining_bound

lemma rate_check_bound:
  "0 < quota_of cfg \<Longrightarrow> rate_check cfg now s = ((a, r), s') \<Longrightarrow> unat r \<le> quota_of cfg \<and> (a \<or> r = 0)"
  by (cases "rl_algorithm cfg") (auto simp: rate_check_def quota_of_def dest: check_bounds)

text \<open>
  What a client is told is consistent for all three algorithms: on a path that is not skipped
  the middleware adds the three rate-limit headers; the reported remaining budget never exceeds
  the quota; and a request is rejected only with status 429, a \<open>Retry-After\<close> header and a
  remaining budget of zero.
\<close>

theorem rate_execute_reports:
  assumes skip: "\<forall>p \<in> set (rl_skip_paths cfg). \<not> starts_with (mc_path c) p"
    and quota: "0 < quota_of cfg"
    and run: "rate_execute cfg now0 now c cl = (res, c', cl')"
  shows "\<exists>n \<le> quota_of cfg.
     prefix (mc_response_headers c @
       [(''X-RateLimit-Limit'', show_nat (unat (rl_max_requests cfg))),
        (''X-RateLimit-Remaining'', show_nat n),
        (''X-RateLimit-Reset'', show_nat (as_secs (rl_window cfg)))]) (mc_response_headers c') \<and>
     (res = Continue \<or> n = 0 \<and> (\<exists>r. res = Response r \<and> mr_status r = 429 \<and>
        (''Retry-After'', show_nat (as_secs (rl_window cfg))) \<in> set (mr_headers r)))"
proof -
  let ?st = "case map_of cl (get_client_key cfg c) of Some s \<Rightarrow> s | None \<Rightarrow> rate_state_new now0"
  obtain a r s' where chk: "rate_check cfg now ?st = ((a, r), s')"
    by (metis prod.collapse)
  from rate_check_bound [OF quota chk] have b: "unat r \<le> quota_of cfg" "a \<or> r = 0" by auto
  show ?thesis
    by (rule exI [of _ "unat r"]) (use b run skip chk in \<open>auto simp: rate_execute_def Let_def mresp_defs split: if_splits\<close>)
qed

theorem rate_execute_reports_witness:
  "\<exists>n \<le> (2 :: nat). \<exists>res c' cl'.
     rate_execute (with_algorithm FixedWindow (rate_new 2 60)) 0 0
       (context_new (\<lambda>_. 0) (\<lambda>_. []) 0 ''/x'' GET [] [] None) [] = (res, c', cl') \<and>
     (''X-RateLimit-Remaining'', show_nat n) \<in> set (mc_response_headers c')"
proof -
  let ?cfg = "with_algorithm FixedWindow (rate_new 2 60)"
  let ?c = "context_new (\<lambda>_. 0) (\<lambda>_. []) 0 ''/x'' GET [] [] None"
  obtain res c' cl' where run: "rate_execute ?cfg 0 0 ?c [] = (res, c', cl')"
    by (metis prod.collapse)
  have skip: "\<forall>p \<in> set (rl_skip_paths ?cfg). \<not> starts_with (mc_path ?c) p"
    by (simp add: with_algorithm_def rate_new_def rate_default_def context_new_def str_simps)
  have q: "quota_of ?cfg = 2"
    by (simp add: quota_of_def with_algorithm_def rate_new_def rate_default_def)
  from rate_execute_reports [OF skip _ run] run show ?thesis
    unfolding q by (auto simp: prefix_def)
qed

subsection \<open>How many requests pass\<close>

text \<open>A client's requests at the given times, checked one after the other: how many are allowed.\<close>

fun allowed_count ::
  "(instant \<Rightarrow> rate_state \<Rightarrow> (bool \<times> u64) \<times> rate_state) \<Rightarrow> instant list \<Rightarrow> rate_state \<Rightarrow> nat" where
  "allowed_count check [] s = 0"
| "allowed_count check (t # ts) s =
     (let ((a, _), s') = check t s in (if a then 1 else 0) + allowed_count check ts s')"

lemma fixed_window_run:
  assumes "\<forall>t \<in> set ts. t - rs_window_start s < rl_window cfg" "unat (rs_count s) + length ts < 2 ^ 64"
  shows "allowed_count (check_fixed_window cfg) ts s = min (length ts) (unat (rl_max_requests cfg) - unat (rs_count s))"
  using assms
proof (induction ts arbitrary: s)
  case (Cons t ts)
  have suc: "unat (rs_count s + 1) = Suc (unat (rs_count s))"
    using Cons.prems(2) by (intro unat_Suc_no_wrap) simp
  let ?s = "s\<lparr>rs_count := rs_count s + 1\<rparr>"
  have "allowed_count (check_fixed_window cfg) ts ?s = min (length ts) (unat (rl_max_requests cfg) - Suc (unat (rs_count s)))"
    using Cons.IH [of ?s] Cons.prems by (simp add: suc)
  moreover have "check_fixed_window cfg t s =
    ((Suc (unat (rs_count s)) \<le> unat (rl_max_requests cfg), saturating_sub (ucast (rl_max_requests cfg)) (rs_count s + 1)), ?s)"
    using Cons.prems(1) by (simp add: check_fixed_window_def Let_def word_le_nat_alt suc)
  ultimately show ?case by (auto simp: min_def)
qed simp

text \<open>
  The fixed window admits exactly its quota: when a request opens a new window (the old one
  has expired), that request and the requests that follow within the window are allowed exactly
  \<open>max_requests\<close> times if there are that many, and every one of them otherwise.
\<close>

theorem fixed_window_quota:
  assumes "rl_window cfg \<le> t0 - rs_window_start s" "0 < rl_max_requests cfg"
    and "\<forall>t \<in> set ts. t - t0 < rl_window cfg" "Suc (length ts) < 2 ^ 64"
  shows "allowed_count (check_fixed_window cfg) (t0 # ts) s =
         min (length (t0 # ts)) (unat (rl_max_requests cfg))"
proof -
  let ?s = "s\<lparr>rs_window_start := t0, rs_count := 1\<rparr>"
  have "allowed_count (check_fixed_window cfg) ts ?s = min (length ts) (unat (rl_max_requests cfg) - 1)"
    using fixed_window_run [of ts ?s cfg] assms(3,4) by simp
  moreover have "0 < unat (rl_max_requests cfg)" using assms(2) by (simp add: word_less_nat_alt)
  ultimately show ?thesis using assms(1) by (auto simp: check_fixed_window_def min_def)
qed

theorem fixed_window_quota_witness:
  "allowed_count (check_fixed_window (rate_new 2 1)) [1500000000, 1600000000, 1700000000, 1800000000]
     (rate_state_new 0) = 2"
  using fixed_window_quota [of "rate_new 2 1" 1500000000 "rate_state_new 0" "[1600000000, 1700000000, 1800000000]"]
  by (simp add: rate_new_def rate_default_def rate_state_new_def secs_def)

text \<open>
  A request costs the bucket one token and gains it what flowed in since the last one; rounding adds
  at most \<open>2 * f64_eps\<close> of the bucket size.
\<close>

lemma token_refill_bound:
  assumes "0 \<le> rate" "0 \<le> w" "w \<le> B"
  shows "0 \<le> f64_round (w + f64_round (duration_as_f64 d * rate))"
    "f64_round (w + f64_round (duration_as_f64 d * rate)) \<le> w + rate * as_secs_f64 d * (1 + f64_eps) ^ 4 + B * f64_eps"
proof -
  let ?e = "1 + f64_eps" and ?g = "f64_round (duration_as_f64 d * rate)"
  have p: "0 \<le> duration_as_f64 d * rate" using duration_as_f64_bounds(1) assms(1) by simp
  have g: "0 \<le> ?g" "?g \<le> duration_as_f64 d * rate * ?e" using f64_round_bounds [OF p] by simp_all
  have "duration_as_f64 d * rate * ?e \<le> as_secs_f64 d * ?e ^ 2 * rate * ?e"
    using duration_as_f64_bounds(2) [of d] assms(1) f64_eps_pos by (intro mult_right_mono) simp_all
  also have "\<dots> = rate * as_secs_f64 d * ?e ^ 3" by (simp add: power3_eq_cube power2_eq_square)
  finally have "?g * ?e \<le> rate * as_secs_f64 d * ?e ^ 3 * ?e"
    using g(2) f64_eps_pos by (intro mult_right_mono) simp_all
  moreover have "rate * as_secs_f64 d * ?e ^ 3 * ?e = rate * as_secs_f64 d * ?e ^ 4" by (simp add: power_numeral_reduce)
  moreover have "w * ?e \<le> w + B * f64_eps" using assms(3) f64_eps_pos by (simp add: distrib_left)
  moreover have "f64_round (w + ?g) \<le> (w + ?g) * ?e" using g(1) assms(2) by (intro f64_round_bounds(2)) simp
  ultimately show "f64_round (w + ?g) \<le> w + rate * as_secs_f64 d * ?e ^ 4 + B * f64_eps"
    by (simp add: distrib_right)
  show "0 \<le> f64_round (w + ?g)" using g(1) assms(2) by (intro f64_round_bounds(1)) simp
qed

lemma token_bucket_step:
  fixes b :: u32
  defines "B \<equiv> real (unat b)"
  assumes "0 \<le> rate" "0 \<le> rs_tokens s" "rs_tokens s \<le> B" "check_token_bucket b rate t s = ((a, r), s')"
  shows "(if a then 1 else 0) + rs_tokens s' \<le>
      min (rs_tokens s + rate * as_secs_f64 (t - rs_last_refill s) * (1 + f64_eps) ^ 4) B + 2 * f64_eps * B"
    and "0 \<le> rs_tokens s'" "rs_tokens s' \<le> B" "rs_last_refill s' = t"
proof -
  let ?R = "f64_round (rs_tokens s + f64_round (duration_as_f64 (t - rs_last_refill s) * rate))"
  let ?T = "min ?R B"
  have B: "0 \<le> B" unfolding B_def by (rule of_nat_0_le_iff)
  note R = token_refill_bound [OF assms(2-4), of "t - rs_last_refill s"]
  have Be: "0 \<le> B * f64_eps" using B f64_eps_pos by simp
  have T: "0 \<le> ?T" "?T \<le> min (rs_tokens s + rate * as_secs_f64 (t - rs_last_refill s) * (1 + f64_eps) ^ 4) B + f64_eps * B"
    using R B Be by (auto simp: min_def mult.commute)
  have taken: "0 \<le> f64_round (?T - 1)" "f64_round (?T - 1) \<le> ?T - 1 + f64_eps * B" "f64_round (?T - 1) \<le> B" if t1: "1 \<le> ?T"
  proof -
    have le: "f64_round (?T - 1) \<le> (?T - 1) * (1 + f64_eps)" using t1 by (intro f64_round_bounds(2)) simp
    have "(?T - 1) * f64_eps \<le> B * f64_eps" using f64_eps_pos by (intro mult_right_mono) simp_all
    moreover have "(?T - 1) * (1 + f64_eps) = ?T - 1 + (?T - 1) * f64_eps" by (simp add: distrib_left)
    moreover have "B * f64_eps = f64_eps * B" by (rule mult.commute)
    ultimately show le2: "f64_round (?T - 1) \<le> ?T - 1 + f64_eps * B" using le by linarith
    have "B < 2 ^ 32" unfolding B_def by (rule real_u32_less)
    then have "f64_eps * B \<le> 1" by (simp add: f64_eps_def)
    with le2 show "f64_round (?T - 1) \<le> B" by linarith
    show "0 \<le> f64_round (?T - 1)" using t1 by (intro f64_round_bounds(1)) simp
  qed
  have "s' = (if 1 \<le> ?T then s\<lparr>rs_last_refill := t, rs_tokens := f64_round (?T - 1)\<rparr> else s\<lparr>rs_last_refill := t, rs_tokens := ?T\<rparr>)"
    "a = (1 \<le> ?T)"
    using assms(5) by (auto simp: check_token_bucket_def B_def Let_def split: if_splits)
  with T taken Be show "(if a then 1 else 0) + rs_tokens s' \<le>
      min (rs_tokens s + rate * as_secs_f64 (t - rs_last_refill s) * (1 + f64_eps) ^ 4) B + 2 * f64_eps * B"
    "0 \<le> rs_tokens s'" "rs_tokens s' \<le> B" "rs_last_refill s' = t"
    by (auto simp: mult.commute)
qed

lemma as_secs_f64_split:
  "r \<le> t \<Longrightarrow> t \<le> l \<Longrightarrow> as_secs_f64 (t - r) + as_secs_f64 (l - t) = as_secs_f64 (l - r)"
  by (simp add: as_secs_f64_def add_divide_distrib [symmetric])

lemma token_bucket_run:
  fixes b :: u32
  defines "B \<equiv> real (unat b)"
  assumes "0 \<le> rate" "0 \<le> rs_tokens s" "rs_tokens s \<le> B" "sorted (rs_last_refill s # ts)"
  shows "real (allowed_count (check_token_bucket b rate) ts s) \<le>
         rs_tokens s + rate * as_secs_f64 (last (rs_last_refill s # ts) - rs_last_refill s) * (1 + f64_eps) ^ 4 +
         2 * f64_eps * B * real (length ts)"
  using assms(3-5)
proof (induction ts arbitrary: s)
  case Nil
  then show ?case by (simp add: as_secs_f64_def)
next
  case (Cons t ts)
  let ?e = "(1 + f64_eps) ^ 4"
  obtain a r s' where chk: "check_token_bucket b rate t s = ((a, r), s')" by (metis prod.collapse)
  note st = token_bucket_step [OF assms(2) Cons.prems(1) Cons.prems(2) [unfolded B_def] chk, folded B_def]
  have IH: "real (allowed_count (check_token_bucket b rate) ts s') \<le>
      rs_tokens s' + rate * as_secs_f64 (last (t # ts) - t) * ?e + 2 * f64_eps * B * real (length ts)"
    using Cons.IH [of s'] st(2-4) Cons.prems(3) by simp
  have le: "rs_last_refill s \<le> t" "t \<le> last (t # ts)" using Cons.prems(3) by auto
  have "rate * as_secs_f64 (t - rs_last_refill s) * ?e + rate * as_secs_f64 (last (t # ts) - t) * ?e =
        rate * as_secs_f64 (last (t # ts) - rs_last_refill s) * ?e"
    unfolding as_secs_f64_split [OF le, symmetric] by (simp add: algebra_simps)
  moreover have "2 * f64_eps * B * real (length (t # ts)) = 2 * f64_eps * B + 2 * f64_eps * B * real (length ts)"
    by (simp add: algebra_simps)
  moreover have "real (allowed_count (check_token_bucket b rate) (t # ts) s) =
      (if a then 1 else 0) + real (allowed_count (check_token_bucket b rate) ts s')" by (simp add: chk)
  moreover have "(if a then 1 else 0) + rs_tokens s' \<le>
      rs_tokens s + rate * as_secs_f64 (t - rs_last_refill s) * ?e + 2 * f64_eps * B" using st(1) by linarith
  moreover have lst: "last (rs_last_refill s # t # ts) = last (t # ts)" by simp
  ultimately show ?case using IH unfolding lst by linarith
qed

text \<open>
  \<^bold>\<open>C28\<close> The token bucket limits rate and burst, with the rounding of \<open>f64\<close> accounted for. From a bucket in
  any state, a sequence of requests gets no more than its tokens and the rate times the time since the last
  refill, and no more than the bucket size and the rate times the time from its first to its last request, up
  to a relative error of about \<open>2^-51\<close> in the time and of \<open>2^-52\<close> of the bucket size per request. A new
  client starts with no tokens, so the documented burst of \<open>bucket_size\<close> is not available to it.
\<close>

theorem token_bucket_rate:
  fixes b :: u32
  assumes "0 \<le> rate" "0 \<le> rs_tokens s" "rs_tokens s \<le> real (unat b)" "sorted (rs_last_refill s # t # ts)"
  shows "real (allowed_count (check_token_bucket b rate) (t # ts) s) \<le>
     min (rs_tokens s + rate * as_secs_f64 (last (t # ts) - rs_last_refill s) * (1 + f64_eps) ^ 4)
         (real (unat b) + rate * as_secs_f64 (last (t # ts) - t) * (1 + f64_eps) ^ 4) +
     2 * f64_eps * real (unat b) * real (length (t # ts))"
proof -
  let ?B = "real (unat b)" and ?e = "(1 + f64_eps) ^ 4"
  obtain a r s' where chk: "check_token_bucket b rate t s = ((a, r), s')" by (metis prod.collapse)
  note st = token_bucket_step [OF assms(1-3) chk]
  have "real (allowed_count (check_token_bucket b rate) ts s') \<le>
      rs_tokens s' + rate * as_secs_f64 (last (t # ts) - t) * ?e + 2 * f64_eps * ?B * real (length ts)"
    using token_bucket_run [OF assms(1) st(2,3), of ts] st(4) assms(4) by simp
  moreover have "real (allowed_count (check_token_bucket b rate) (t # ts) s) =
      (if a then 1 else 0) + real (allowed_count (check_token_bucket b rate) ts s')" by (simp add: chk)
  moreover have "2 * f64_eps * ?B * real (length (t # ts)) = 2 * f64_eps * ?B + 2 * f64_eps * ?B * real (length ts)"
    by (simp add: algebra_simps)
  ultimately have "real (allowed_count (check_token_bucket b rate) (t # ts) s) \<le>
      ?B + rate * as_secs_f64 (last (t # ts) - t) * ?e + 2 * f64_eps * ?B * real (length (t # ts))"
    using st(1) by linarith
  moreover have "real (allowed_count (check_token_bucket b rate) (t # ts) s) \<le>
      rs_tokens s + rate * as_secs_f64 (last (t # ts) - rs_last_refill s) * ?e + 2 * f64_eps * ?B * real (length (t # ts))"
    using token_bucket_run [OF assms] by (simp only: last.simps list.simps if_False)
  ultimately show ?thesis by linarith
qed

text \<open>A new client, a bucket of ten and five tokens a second: within 390 ms at most one request passes.\<close>

theorem token_bucket_rate_witness:
  "allowed_count (check_token_bucket 10 5) [100000000, 250000000, 300000000, 390000000] (rate_state_new 0) \<le> 1"
proof -
  have "real (allowed_count (check_token_bucket 10 5) [100000000, 250000000, 300000000, 390000000] (rate_state_new 0)) < 2"
    using token_bucket_rate [of 5 "rate_state_new 0" 10 100000000 "[250000000, 300000000, 390000000]"]
    by (simp add: rate_state_new_def as_secs_f64_def f64_eps_def power_divide)
  then show ?thesis by linarith
qed

lemma sliding_ratio:
  assumes "e < w" "w \<le> 2 * e" "x \<le> m" "2 \<le> m"
  shows "nat \<lfloor>f64_round (f64_round (real x) * f64_round (1 - f64_round (duration_as_f64 e / duration_as_f64 w)))\<rfloor> + 1 \<le> m"
proof -
  let ?u = "f64_eps" and ?E = "duration_as_f64 e" and ?W = "duration_as_f64 w"
  have u: "0 < ?u" "?u \<le> 1 / 1000" by (simp_all add: f64_eps_def)
  have s: "0 < as_secs_f64 w" "as_secs_f64 w \<le> 2 * as_secs_f64 e" using assms(1,2) by (simp_all add: as_secs_f64_def)
  have "0 < as_secs_f64 w * (1 - ?u) ^ 2" using s u by simp
  then have W: "0 < ?W" using duration_as_f64_bounds(3) [of w] by linarith
  have "(1 + ?u) ^ 2 \<le> (1 + 1 / 1000) ^ 2" "(1 - 1 / 1000) ^ 2 \<le> (1 - ?u) ^ 2" using u by (intro power_mono; simp)+
  then have k: "(1 + ?u) ^ 2 \<le> 101 / 100" "99 / 100 \<le> (1 - ?u) ^ 2" by (simp_all add: power2_eq_square)
  have "?W \<le> as_secs_f64 w * (101 / 100)"
    using duration_as_f64_bounds(2) [of w] mult_left_mono [OF k(1), of "as_secs_f64 w"] s(1) by linarith
  moreover have "as_secs_f64 e * (99 / 100) \<le> ?E"
    using duration_as_f64_bounds(3) [of e] mult_left_mono [OF k(2), of "as_secs_f64 e"] s by linarith
  ultimately have "2 / 5 * ?W \<le> ?E" using s by linarith
  then have ratio: "2 / 5 \<le> ?E / ?W" using W by (simp add: le_divide_eq)
  have "2 / 5 * (1 - 1 / 1000) \<le> ?E / ?W * (1 - ?u)" using ratio u by (intro mult_mono) linarith+
  also have "\<dots> \<le> f64_round (?E / ?W)" using ratio by (intro f64_round_lower) linarith
  finally have "1 - f64_round (?E / ?W) \<le> 2 / 3" by simp
  then have q: "f64_round (1 - f64_round (?E / ?W)) \<le> 2 / 3 * (1 + ?u)" by (rule f64_round_upper) simp
  have x: "0 \<le> f64_round (real x)" "f64_round (real x) \<le> real m * (1 + ?u)"
    using assms(3) by (simp_all add: f64_round_bounds f64_round_upper)
  have "f64_round (real x) * f64_round (1 - f64_round (?E / ?W)) \<le> f64_round (real x) * (2 / 3 * (1 + ?u))"
    using q x(1) by (rule mult_left_mono)
  also have "\<dots> \<le> real m * (1 + ?u) * (2 / 3 * (1 + ?u))" using x(2) u by (intro mult_right_mono) simp_all
  finally have "f64_round (f64_round (real x) * f64_round (1 - f64_round (?E / ?W))) \<le>
      real m * (1 + ?u) * (2 / 3 * (1 + ?u)) * (1 + ?u)" using u by (intro f64_round_upper) simp_all
  also have "\<dots> = real m * (2 / 3) * (1 + ?u) ^ 3" by (simp add: power3_eq_cube)
  also have "\<dots> \<le> real m * (2 / 3) * (1 + 1 / 1000) ^ 3" using u by (intro mult_left_mono power_mono) simp_all
  also have "\<dots> < real m" using assms(4) by (simp add: power3_eq_cube)
  finally show ?thesis using assms(4) by linarith
qed

text \<open>
  The sliding window does not limit the second half of a window: it scales the stored count
  down on every request, so with a limit of at least two, once a client's count is within the
  limit, all its requests in the second half of the window are allowed, however many there are.
\<close>

theorem sliding_second_half_unlimited:
  assumes "2 \<le> rl_max_requests cfg" "rs_count s \<le> ucast (rl_max_requests cfg)"
    and "\<forall>t \<in> set ts. rl_window cfg \<le> 2 * (t - rs_window_start s) \<and> t - rs_window_start s < rl_window cfg"
  shows "allowed_count (check_sliding_window cfg) ts s = length ts"
  using assms(2,3)
proof (induction ts arbitrary: s)
  case (Cons t ts)
  let ?m = "unat (rl_max_requests cfg)" and ?e = "t - rs_window_start s"
  let ?x = "f64_round (f64_round (real (unat (rs_count s))) *
    f64_round (1 - f64_round (duration_as_f64 ?e / duration_as_f64 (rl_window cfg))))"
  let ?n = "f64_as_u64 ?x + 1"
  have m: "2 \<le> ?m" "?m < 2 ^ 32"
    using assms(1) unsigned_less [of "rl_max_requests cfg"] by (simp_all add: word_le_nat_alt)
  have "unat (rs_count s) \<le> ?m" using Cons.prems(1) by (simp add: word_le_nat_alt)
  then have le: "nat \<lfloor>?x\<rfloor> + 1 \<le> ?m"
    using Cons.prems(2) m(1) by (intro sliding_ratio) auto
  then have "Suc (unat (f64_as_u64 ?x)) \<le> ?m" by (simp add: unat_f64_as_u64)
  then have n: "?n \<le> ucast (rl_max_requests cfg)"
    using m(2) unat_Suc_no_wrap [of "f64_as_u64 ?x"] by (simp add: word_le_nat_alt)
  have "check_sliding_window cfg t s = ((True, saturating_sub (ucast (rl_max_requests cfg)) ?n), s\<lparr>rs_count := ?n\<rparr>)"
    using Cons.prems(2) n by (simp add: check_sliding_window_def Let_def)
  moreover have "allowed_count (check_sliding_window cfg) ts (s\<lparr>rs_count := ?n\<rparr>) = length ts"
    using Cons.IH [of "s\<lparr>rs_count := ?n\<rparr>"] Cons.prems(2) n by simp
  ultimately show ?case by simp
qed simp

theorem sliding_second_half_unlimited_witness:
  "allowed_count (check_sliding_window (rate_new 2 1)) (replicate 1000 500000000) (rate_state_new 0) = 1000"
  using sliding_second_half_unlimited [of "rate_new 2 1" "rate_state_new 0" "replicate 1000 500000000"]
  by (simp add: rate_new_def rate_default_def rate_state_new_def secs_def word_le_nat_alt)

text \<open>With a limit of zero the first request of a new window is still allowed, and \<open>max - 1\<close> wraps.\<close>

lemma fixed_window_zero_limit:
  "rl_max_requests cfg = 0 \<Longrightarrow> rl_window cfg \<le> now - rs_window_start s \<Longrightarrow>
   fst (check_fixed_window cfg now s) = (True, - 1)"
  by (simp add: check_fixed_window_def)

subsection \<open>Every client has its own limiter\<close>

text \<open>
  Requests \<open>(now, c)\<close> that go through the middleware one after the other: the client of each and whether
  it was let through.
\<close>

fun rate_run :: "rate_config \<Rightarrow> (instant \<times> mw_context) list \<Rightarrow> rate_clients \<Rightarrow> (string \<times> bool) list" where
  "rate_run cfg [] cl = []"
| "rate_run cfg ((now, c) # reqs) cl =
     (case rate_execute cfg now now c cl of (r, c', cl') \<Rightarrow> (get_client_key cfg c, r = Continue) # rate_run cfg reqs cl')"

definition limited :: "rate_config \<Rightarrow> mw_context \<Rightarrow> bool" where
  "limited cfg c = list_all (\<lambda>p. \<not> starts_with (mc_path c) p) (rl_skip_paths cfg)"

definition passed_of :: "string \<Rightarrow> (string \<times> bool) list \<Rightarrow> nat" where
  "passed_of k ds = length (filter (\<lambda>(k', ok). k' = k \<and> ok) ds)"

definition times_of :: "rate_config \<Rightarrow> string \<Rightarrow> (instant \<times> mw_context) list \<Rightarrow> instant list" where
  "times_of cfg k reqs = map fst (filter (\<lambda>(t, c). get_client_key cfg c = k) reqs)"

lemma passed_of_Cons: "passed_of k ((k', ok) # ds) = (if k' = k \<and> ok then Suc (passed_of k ds) else passed_of k ds)"
  by (simp add: passed_of_def)

text \<open>The step of the shared table is a step of the client's own check, and of no other client's.\<close>

lemma rate_execute_limited:
  assumes "limited cfg c" "rate_check cfg now (case map_of cl (get_client_key cfg c) of Some s \<Rightarrow> s | None \<Rightarrow> rate_state_new now) = ((ok, r), s')"
  shows "\<exists>res c'. rate_execute cfg now now c cl = (res, c', AList.update (get_client_key cfg c) s' cl) \<and> (res = Continue \<longleftrightarrow> ok)"
  using assms by (auto simp: limited_def list_all_iff rate_execute_def Let_def split: prod.split)

lemma rate_run_known:
  assumes "list_all (\<lambda>(t, c). limited cfg c) reqs" "map_of cl k = Some s"
  shows "passed_of k (rate_run cfg reqs cl) = allowed_count (rate_check cfg) (times_of cfg k reqs) s"
  using assms
proof (induction reqs arbitrary: cl s)
  case (Cons q reqs)
  obtain now c where q: "q = (now, c)" by (cases q)
  let ?s = "case map_of cl (get_client_key cfg c) of Some s \<Rightarrow> s | None \<Rightarrow> rate_state_new now"
  obtain ok r s' where chk: "rate_check cfg now ?s = ((ok, r), s')" by (metis prod.collapse)
  obtain res c' where ex: "rate_execute cfg now now c cl = (res, c', AList.update (get_client_key cfg c) s' cl)" "res = Continue \<longleftrightarrow> ok"
    using rate_execute_limited [OF _ chk] Cons.prems(1) q by auto
  have rest: "list_all (\<lambda>(t, c). limited cfg c) reqs" using Cons.prems(1) by simp
  show ?case
  proof (cases "get_client_key cfg c = k")
    case True
    with Cons.IH [OF rest, of "AList.update k s' cl" s'] ex chk Cons.prems(2) show ?thesis
      by (simp add: q passed_of_Cons times_of_def)
  next
    case False
    with Cons.IH [OF rest, of "AList.update (get_client_key cfg c) s' cl" s] ex Cons.prems(2) show ?thesis
      by (simp add: q passed_of_Cons times_of_def)
  qed
qed (simp add: passed_of_def times_of_def)

lemma rate_run_fresh:
  assumes "list_all (\<lambda>(t, c). limited cfg c) reqs" "map_of cl k = None" "times_of cfg k reqs = t0 # ts"
  shows "passed_of k (rate_run cfg reqs cl) = allowed_count (rate_check cfg) (t0 # ts) (rate_state_new t0)"
  using assms
proof (induction reqs arbitrary: cl)
  case (Cons q reqs)
  obtain now c where q: "q = (now, c)" by (cases q)
  let ?s = "case map_of cl (get_client_key cfg c) of Some s \<Rightarrow> s | None \<Rightarrow> rate_state_new now"
  obtain ok r s' where chk: "rate_check cfg now ?s = ((ok, r), s')" by (metis prod.collapse)
  obtain res c' where ex: "rate_execute cfg now now c cl = (res, c', AList.update (get_client_key cfg c) s' cl)" "res = Continue \<longleftrightarrow> ok"
    using rate_execute_limited [OF _ chk] Cons.prems(1) q by auto
  have rest: "list_all (\<lambda>(t, c). limited cfg c) reqs" using Cons.prems(1) by simp
  show ?case
  proof (cases "get_client_key cfg c = k")
    case True
    with Cons.prems have t: "now = t0" "times_of cfg k reqs = ts" by (simp_all add: q times_of_def)
    with rate_run_known [OF rest, of "AList.update k s' cl" k s'] ex chk Cons.prems(2) True show ?thesis
      by (simp add: q passed_of_Cons)
  next
    case False
    with Cons.IH [OF rest, of "AList.update (get_client_key cfg c) s' cl"] ex Cons.prems(2,3) show ?thesis
      by (simp add: q passed_of_Cons times_of_def)
  qed
qed (simp add: times_of_def)

text \<open>Within a window of its first request a client gets its quota.\<close>

lemma rate_run_quota:
  assumes "rl_algorithm cfg = FixedWindow" "list_all (\<lambda>(t, c). limited cfg c) reqs"
    and "times_of cfg k reqs = t0 # ts" "list_all (\<lambda>t. t - t0 < rl_window cfg) (t0 # ts)" "length (t0 # ts) < 2 ^ 64"
  shows "passed_of k (rate_run cfg reqs []) = min (length (t0 # ts)) (unat (rl_max_requests cfg))"
proof -
  have "passed_of k (rate_run cfg reqs []) = allowed_count (rate_check cfg) (t0 # ts) (rate_state_new t0)"
    using assms(2,3) by (intro rate_run_fresh) simp_all
  also have "\<dots> = allowed_count (check_fixed_window cfg) (t0 # ts) (rate_state_new t0)"
  proof -
    have "rate_check cfg = check_fixed_window cfg" by (intro ext) (simp add: rate_check_def assms(1))
    then show ?thesis by simp
  qed
  also have "\<dots> = min (length (t0 # ts)) (unat (rl_max_requests cfg))"
    using assms(4,5) fixed_window_run [of "t0 # ts" "rate_state_new t0" cfg] by (simp add: rate_state_new_def list_all_iff)
  finally show ?thesis .
qed

text \<open>
  \<^bold>\<open>C12\<close> Rate limiting counts per client: in any interleaving of requests of any clients on
  limited paths, the requests of one client that the fixed window lets through within a window of its
  first request are exactly \<open>max_requests\<close> if it sends that many, and all of them otherwise. Other clients
  neither use up nor extend its quota.
\<close>

theorem rate_limit_per_client:
  assumes "rl_algorithm cfg = FixedWindow" "list_all (\<lambda>(t, c). limited cfg c) reqs"
    and "times_of cfg k reqs = t0 # ts" "list_all (\<lambda>t. t - t0 < rl_window cfg) (t0 # ts)" "length (t0 # ts) < 2 ^ 64"
  shows "passed_of k (rate_run cfg reqs []) = min (length (t0 # ts)) (unat (rl_max_requests cfg))"
  using assms by (rule rate_run_quota)

theorem rate_limit_per_client_witness:
  "let cfg = with_algorithm FixedWindow (rate_new 2 60);
       c = (\<lambda>ip. context_new (\<lambda>_. 0) (\<lambda>_. []) 0 ''/x'' GET [(''x-real-ip'', ip)] [] None)
   in passed_of ''a'' (rate_run cfg [(0, c ''a''), (1, c ''b''), (2, c ''a''), (3, c ''a'')] []) = 2"
proof -
  let ?cfg = "with_algorithm FixedWindow (rate_new 2 60)"
  let ?c = "\<lambda>ip. context_new (\<lambda>_. 0) (\<lambda>_. []) 0 ''/x'' GET [(''x-real-ip'', ip)] [] None"
  let ?reqs = "[(0, ?c ''a''), (1, ?c ''b''), (2, ?c ''a''), (3, ?c ''a'')]"
  note cfg_defs = with_algorithm_def rate_new_def rate_default_def
  have key: "get_client_key ?cfg (?c ip) = ip" for ip
    by (simp add: get_client_key_def cfg_defs get_header_def context_new_def str_simps)
  have skip: "limited ?cfg (?c ip)" for ip by (simp add: limited_def cfg_defs context_new_def str_simps)
  have t: "times_of ?cfg ''a'' ?reqs = 0 # [2, 3]" by (simp add: times_of_def key)
  have "passed_of ''a'' (rate_run ?cfg ?reqs []) = min (length (0 # [2, 3 :: nat])) (unat (rl_max_requests ?cfg))"
    by (rule rate_limit_per_client [OF _ _ t]) (simp_all add: skip, simp_all add: cfg_defs secs_def)
  then show ?thesis by (simp add: cfg_defs Let_def)
qed

end
