(* ===== verification/Header_Middleware.thy ===== *)
theory Header_Middleware
  imports Middleware_Chain
begin

text \<open>
  The middleware of \<open>src/middleware/builtin.rs\<close> that only annotates a request: request id,
  security headers, timeout, compression, and the wrappers that restrict a middleware to paths or
  methods.
\<close>

subsection \<open>Request id\<close>

record request_id_mw =
  ri_header_name :: string
  ri_trust_incoming :: bool

definition request_id_new :: request_id_mw where
  "request_id_new = \<lparr>ri_header_name = ''X-Request-ID'', ri_trust_incoming = True\<rparr>"

definition ri_with_header :: "string \<Rightarrow> request_id_mw \<Rightarrow> request_id_mw" where
  "ri_with_header h m = m\<lparr>ri_header_name := h\<rparr>"

definition trust_incoming :: "bool \<Rightarrow> request_id_mw \<Rightarrow> request_id_mw" where
  "trust_incoming t m = m\<lparr>ri_trust_incoming := t\<rparr>"

definition request_id_execute :: "request_id_mw \<Rightarrow> mw_context \<Rightarrow> mw_result \<times> mw_context" where
  "request_id_execute m c =
     (let request_id =
            (if ri_trust_incoming m then
               (case get_header c (to_lower (ri_header_name m)) of Some v \<Rightarrow> v | None \<Rightarrow> mc_request_id c)
             else mc_request_id c);
          c = add_response_header (ri_header_name m) request_id c
      in (Continue, set_state ''request_id'' (SString request_id) c))"

subsection \<open>Security headers\<close>

record security_config =
  se_content_type_options :: bool
  se_frame_options :: "string option"
  se_xss_protection :: bool
  se_hsts :: "string option"
  se_csp :: "string option"
  se_referrer_policy :: "string option"
  se_permissions_policy :: "string option"

definition security_default :: security_config where
  "security_default =
     \<lparr>se_content_type_options = True, se_frame_options = Some ''DENY'', se_xss_protection = True,
      se_hsts = Some ''max-age=31536000; includeSubDomains'', se_csp = None,
      se_referrer_policy = Some ''strict-origin-when-cross-origin'', se_permissions_policy = None\<rparr>"

definition with_csp :: "string \<Rightarrow> security_config \<Rightarrow> security_config" where
  "with_csp p cfg = cfg\<lparr>se_csp := Some p\<rparr>"

definition with_frame_options :: "string \<Rightarrow> security_config \<Rightarrow> security_config" where
  "with_frame_options p cfg = cfg\<lparr>se_frame_options := Some p\<rparr>"

definition with_hsts :: "string \<Rightarrow> security_config \<Rightarrow> security_config" where
  "with_hsts p cfg = cfg\<lparr>se_hsts := Some p\<rparr>"

definition with_permissions_policy :: "string \<Rightarrow> security_config \<Rightarrow> security_config" where
  "with_permissions_policy p cfg = cfg\<lparr>se_permissions_policy := Some p\<rparr>"

definition add_if :: "bool \<Rightarrow> string \<Rightarrow> string \<Rightarrow> mw_context \<Rightarrow> mw_context" where
  "add_if b n v c = (if b then add_response_header n v c else c)"

definition add_some :: "string \<Rightarrow> string option \<Rightarrow> mw_context \<Rightarrow> mw_context" where
  "add_some n v c = (case v of Some x \<Rightarrow> add_response_header n x c | None \<Rightarrow> c)"

definition security_execute :: "security_config \<Rightarrow> mw_context \<Rightarrow> mw_result \<times> mw_context" where
  "security_execute cfg c =
     (let c = add_if (se_content_type_options cfg) ''X-Content-Type-Options'' ''nosniff'' c;
          c = add_some ''X-Frame-Options'' (se_frame_options cfg) c;
          c = add_if (se_xss_protection cfg) ''X-XSS-Protection'' ''1; mode=block'' c;
          c = add_some ''Strict-Transport-Security'' (se_hsts cfg) c;
          c = add_some ''Content-Security-Policy'' (se_csp cfg) c;
          c = add_some ''Referrer-Policy'' (se_referrer_policy cfg) c;
          c = add_some ''Permissions-Policy'' (se_permissions_policy cfg) c
      in (Continue, c))"

subsection \<open>Timeout\<close>

text \<open>\<open>Instant::elapsed\<close> of a future instant is zero (it saturates).\<close>

definition timeout_execute :: "duration \<Rightarrow> instant \<Rightarrow> mw_context \<Rightarrow> mw_result \<times> mw_context" where
  "timeout_execute timeout now c =
     (let deadline = mc_start_time c + timeout;
          c = set_state ''request_deadline'' (SInt (as_i64 (now - deadline))) c
      in (Continue, set_state ''request_timeout_ms'' (SInt (as_i64 (timeout div 1000000))) c))"

definition timeout_seconds :: "nat \<Rightarrow> duration" where
  "timeout_seconds s = secs s"

definition timeout_millis :: "nat \<Rightarrow> duration" where
  "timeout_millis ms = ms * 1000000"

subsection \<open>Compression\<close>

record compression_mw =
  cp_min_size :: nat
  cp_content_types :: "string list"

definition compression_new :: compression_mw where
  "compression_new =
     \<lparr>cp_min_size = 1024,
      cp_content_types = [''text/'', ''application/json'', ''application/javascript'', ''application/xml'']\<rparr>"

definition with_min_size :: "nat \<Rightarrow> compression_mw \<Rightarrow> compression_mw" where
  "with_min_size n m = m\<lparr>cp_min_size := n\<rparr>"

definition with_content_type :: "string \<Rightarrow> compression_mw \<Rightarrow> compression_mw" where
  "with_content_type t m = m\<lparr>cp_content_types := cp_content_types m @ [t]\<rparr>"

definition compression_execute :: "compression_mw \<Rightarrow> mw_context \<Rightarrow> mw_result \<times> mw_context" where
  "compression_execute m c =
     (let accept_encoding = (case get_header c ''accept-encoding'' of Some v \<Rightarrow> v | None \<Rightarrow> []);
          supports_gzip = contains_sub accept_encoding ''gzip'';
          supports_deflate = contains_sub accept_encoding ''deflate'';
          supports_br = contains_sub accept_encoding ''br'';
          c = (if supports_br then set_state ''compression'' (SString ''br'') c
               else if supports_gzip then set_state ''compression'' (SString ''gzip'') c
               else if supports_deflate then set_state ''compression'' (SString ''deflate'') c
               else c)
      in (Continue, set_state ''compression_min_size'' (SInt (as_i64 (cp_min_size m))) c))"

subsection \<open>Trait objects\<close>

definition stateless :: "string \<Rightarrow> (mw_context \<Rightarrow> mw_result \<times> mw_context) \<Rightarrow> 'w middleware" where
  "stateless n ex = mw_default n (\<lambda>c w. let (r, c') = ex c in (r, c', w))"

definition request_id_middleware :: "request_id_mw \<Rightarrow> 'w middleware" where
  "request_id_middleware m = stateless ''request_id'' (request_id_execute m)"

definition security_middleware :: "security_config \<Rightarrow> 'w middleware" where
  "security_middleware cfg = stateless ''security_headers'' (security_execute cfg)"

definition timeout_middleware :: "duration \<Rightarrow> instant middleware" where
  "timeout_middleware t = mw_default ''timeout'' (\<lambda>c now. let (r, c') = timeout_execute t now c in (r, c', now))"

definition compression_middleware :: "compression_mw \<Rightarrow> 'w middleware" where
  "compression_middleware m = stateless ''compression'' (compression_execute m)"

text \<open>
  \<open>PathMiddleware\<close> and \<open>MethodMiddleware\<close> delegate the name and the execution and replace one of the
  two filters; the other one is the trait's default, not the inner middleware's.
\<close>

definition path_middleware :: "'w middleware \<Rightarrow> string list \<Rightarrow> bool \<Rightarrow> 'w middleware" where
  "path_middleware inner paths exact =
     (mw_default (mw_name inner) (mw_execute inner))
       \<lparr>mw_applies_to := (\<lambda>path.
          if exact then \<exists>p \<in> set paths. p = path else \<exists>p \<in> set paths. starts_with path p)\<rparr>"

definition method_middleware :: "'w middleware \<Rightarrow> http_method list \<Rightarrow> 'w middleware" where
  "method_middleware inner methods =
     (mw_default (mw_name inner) (mw_execute inner))\<lparr>mw_applies_to_method := (\<lambda>m. m \<in> set methods)\<rparr>"

subsection \<open>They keep the contract\<close>

lemma ctx_ext_add_if [simp, intro]: "ctx_ext c c' \<Longrightarrow> ctx_ext c (add_if b n v c')"
  by (simp add: add_if_def)

lemma ctx_ext_add_some [simp, intro]: "ctx_ext c c' \<Longrightarrow> ctx_ext c (add_some n v c')"
  by (simp add: add_some_def split: option.split)

lemma stateless_well_behaved:
  assumes "\<And>c. ctx_ext c (snd (ex c))"
  shows "well_behaved (stateless n ex :: 'w middleware)"
  by unfold_locales (use assms in \<open>auto simp: stateless_def mw_default_def Let_def split: prod.splits\<close>, metis snd_conv)

interpretation request_id: well_behaved "request_id_middleware m :: 'w middleware" for m
  unfolding request_id_middleware_def
  by (rule stateless_well_behaved) (simp add: request_id_execute_def Let_def)

interpretation security: well_behaved "security_middleware cfg :: 'w middleware" for cfg
  unfolding security_middleware_def
  by (rule stateless_well_behaved) (simp add: security_execute_def Let_def)

interpretation compression: well_behaved "compression_middleware m :: 'w middleware" for m
  unfolding compression_middleware_def
  by (rule stateless_well_behaved) (simp add: compression_execute_def Let_def)

interpretation timeout: well_behaved "timeout_middleware t" for t
  by unfold_locales (auto simp: timeout_middleware_def mw_default_def timeout_execute_def Let_def)

lemma path_middleware_well_behaved: "well_behaved m \<Longrightarrow> well_behaved (path_middleware m ps e)"
  by (simp add: well_behaved_def path_middleware_def mw_default_def)

lemma method_middleware_well_behaved: "well_behaved m \<Longrightarrow> well_behaved (method_middleware m ms)"
  by (simp add: well_behaved_def method_middleware_def mw_default_def)

subsection \<open>What they do\<close>

lemma add_some_headers:
  "mc_response_headers (add_some n v c) = mc_response_headers c @ (case v of Some x \<Rightarrow> [(n, x)] | None \<Rightarrow> [])"
  by (simp add: add_some_def split: option.split)

lemma add_if_headers: "mc_response_headers (add_if b n v c) = mc_response_headers c @ (if b then [(n, v)] else [])"
  by (simp add: add_if_def)

text \<open>The default configuration adds exactly these five headers and nothing else.\<close>

lemma security_default_headers:
  "mc_response_headers (snd (security_execute security_default c)) =
     mc_response_headers c @
     [(''X-Content-Type-Options'', ''nosniff''), (''X-Frame-Options'', ''DENY''),
      (''X-XSS-Protection'', ''1; mode=block''),
      (''Strict-Transport-Security'', ''max-age=31536000; includeSubDomains''),
      (''Referrer-Policy'', ''strict-origin-when-cross-origin'')]"
  by (simp add: security_execute_def security_default_def Let_def add_some_headers add_if_headers)

lemma request_id_echoed:
  "ri_trust_incoming m \<Longrightarrow> get_header c (ri_header_name m) = Some v \<Longrightarrow>
   get_state (snd (request_id_execute m c)) ''request_id'' = Some (SString v) \<and>
   last (mc_response_headers (snd (request_id_execute m c))) = (ri_header_name m, v)"
  by (simp add: request_id_execute_def Let_def get_header_def)

text \<open>The stored deadline is zero as long as the deadline has not passed, whatever the timeout is.\<close>

lemma timeout_deadline_zero:
  "now \<le> mc_start_time c + t \<Longrightarrow>
   get_state (snd (timeout_execute t now c)) ''request_deadline'' = Some (SInt 0)"
  by (simp add: timeout_execute_def Let_def as_i64_def)

text \<open>
  Wrapping in \<open>PathMiddleware\<close> discards a method filter: a middleware restricted to some
  methods and then to some paths runs for every method on those paths, and the other way round a
  path filter is lost under \<open>MethodMiddleware\<close>.
\<close>

theorem wrappers_lose_inner_filter:
  "applies path meth (path_middleware (method_middleware m methods) paths exact) =
     (if exact then path \<in> set paths else \<exists>p \<in> set paths. starts_with path p) \<and>
   applies path meth (method_middleware (path_middleware m paths exact) methods) = (meth \<in> set methods)"
  by (simp add: applies_def path_middleware_def method_middleware_def mw_default_def)

end
