(* ===== verification/Basic_Auth.thy ===== *)
theory Basic_Auth
  imports Middleware_Chain
begin

unbundle bit_operations_syntax

text \<open>
  Basic authentication (\<open>BasicAuthMiddleware\<close> and \<open>base64_decode\<close> in
  \<open>src/middleware/builtin.rs\<close>). The decoder keeps its bit buffer in a 32-bit word, as the code
  does; its correctness is stated against the encoder of RFC 4648.
\<close>

subsection \<open>The base64 decoder\<close>

definition ALPHABET :: string where
  "ALPHABET = ''ABCDEFGHIJKLMNOPQRSTUVWXYZabcdefghijklmnopqrstuvwxyz0123456789+/''"

fun position :: "'a \<Rightarrow> 'a list \<Rightarrow> nat option" where
  "position x [] = None"
| "position x (y # ys) = (if y = x then Some 0 else map_option Suc (position x ys))"

text \<open>The loop over the input bytes: \<open>buffer\<close> holds the \<open>bits\<close> collected bits not yet written.\<close>

fun b64_loop :: "string \<Rightarrow> u32 \<Rightarrow> nat \<Rightarrow> string option" where
  "b64_loop [] buffer bits = Some []"
| "b64_loop (c # cs) buffer bits =
     (case position c ALPHABET of
        None \<Rightarrow> None
      | Some value \<Rightarrow>
          (let buffer = push_bit 6 buffer OR of_nat value;
               bits = bits + 6
           in if bits \<ge> 8 then
                let bits = bits - 8;
                    byte = char_of (unat (drop_bit bits buffer));
                    buffer = buffer AND (push_bit bits 1 - 1)
                in map_option (\<lambda>out. byte # out) (b64_loop cs buffer bits)
              else b64_loop cs buffer bits))"

definition base64_decode :: "string \<Rightarrow> string option" where
  "base64_decode input = b64_loop (trim_end_by (\<lambda>c. c = CHR ''='') input) 0 0"

subsection \<open>The middleware\<close>

record basic_auth =
  ba_credentials :: params
  ba_realm :: string

definition basic_auth_new :: "string \<Rightarrow> basic_auth" where
  "basic_auth_new realm = \<lparr>ba_credentials = [], ba_realm = realm\<rparr>"

definition add_user :: "string \<Rightarrow> string \<Rightarrow> basic_auth \<Rightarrow> basic_auth" where
  "add_user u p b = b\<lparr>ba_credentials := AList.update u p (ba_credentials b)\<rparr>"

definition decode_basic_auth :: "string \<Rightarrow> (string \<times> string) option" where
  "decode_basic_auth header =
     (case strip_prefix header ''Basic '' of
        None \<Rightarrow> None
      | Some encoded \<Rightarrow>
          (case base64_decode encoded of
             None \<Rightarrow> None
           | Some decoded \<Rightarrow>
               if \<not> utf8_valid decoded then None
               else split_once (CHR '':'') decoded))"

definition www_authenticate :: "basic_auth \<Rightarrow> string" where
  "www_authenticate b = ''Basic realm='' @ [CHR 0x22] @ ba_realm b @ [CHR 0x22]"

definition basic_auth_execute :: "basic_auth \<Rightarrow> mw_context \<Rightarrow> mw_result \<times> mw_context" where
  "basic_auth_execute b c =
     (case get_header c ''authorization'' of
        None \<Rightarrow>
          (Response (with_header ''WWW-Authenticate'' (www_authenticate b)
             (unauthorized ''Authentication required'')), c)
      | Some auth_header \<Rightarrow>
          (case decode_basic_auth auth_header of
             None \<Rightarrow> (Response (unauthorized ''Invalid authentication format''), c)
           | Some (username, password) \<Rightarrow>
               if map_of (ba_credentials b) username = Some password
               then (Continue, set_authenticated username [] c)
               else (Response (with_header ''WWW-Authenticate'' (www_authenticate b)
                       (unauthorized ''Invalid credentials'')), c)))"

definition basic_auth_middleware :: "basic_auth \<Rightarrow> 'w middleware" where
  "basic_auth_middleware b =
     mw_default ''basic_auth'' (\<lambda>c w. let (r, c') = basic_auth_execute b c in (r, c', w))"

interpretation basic: well_behaved "basic_auth_middleware b :: 'w middleware" for b
  by unfold_locales
    (auto simp: basic_auth_middleware_def mw_default_def basic_auth_execute_def Let_def
      split: if_splits option.splits prod.splits)

definition malformed :: "string option \<Rightarrow> bool" where
  "malformed h = (case h of None \<Rightarrow> False | Some a \<Rightarrow> decode_basic_auth a = None)"

lemma run_chain_basic_rejection:
  assumes "\<not> (\<exists>h u pw. get_header c ''authorization'' = Some h \<and> decode_basic_auth h = Some (u, pw) \<and>
              map_of (ba_credentials b) u = Some pw)"
  shows "\<exists>m. run_chain path meth (basic_auth_middleware b # ms) c w =
    (Response (if malformed (get_header c ''authorization'') then unauthorized m
               else with_header ''WWW-Authenticate'' (www_authenticate b) (unauthorized m)), c, w)"
proof -
  have "\<exists>m. basic_auth_execute b c =
    (Response (if malformed (get_header c ''authorization'') then unauthorized m
               else with_header ''WWW-Authenticate'' (www_authenticate b) (unauthorized m)), c)"
    using assms by (auto simp: basic_auth_execute_def malformed_def split: option.splits)
  then show ?thesis by (auto simp: basic_auth_middleware_def mw_default_def)
qed

lemma run_chain_basic_rejects:
  assumes "\<not> (\<exists>h u pw. get_header c ''authorization'' = Some h \<and> decode_basic_auth h = Some (u, pw) \<and>
              map_of (ba_credentials b) u = Some pw)"
  shows "\<exists>r. mr_status r = 401 \<and> run_chain path meth (basic_auth_middleware b # ms) c w = (Response r, c, w)"
proof -
  obtain m where "run_chain path meth (basic_auth_middleware b # ms) c w =
    (Response (if malformed (get_header c ''authorization'') then unauthorized m
               else with_header ''WWW-Authenticate'' (www_authenticate b) (unauthorized m)), c, w)"
    using run_chain_basic_rejection [OF assms, where path = path and meth = meth and ms = ms and w = w] by blast
  then show ?thesis by (simp add: mresp_defs)
qed

text \<open>
  Authentication is sound and complete: a request continues exactly when its \<open>Authorization\<close>
  header decodes to a user and password that are registered together; it is then marked as
  authenticated as that user. Every other request is answered with 401 and its context, in
  particular its authentication state, is unchanged.
\<close>

theorem basic_auth_iff:
  "(if \<exists>h u p. get_header c ''authorization'' = Some h \<and> decode_basic_auth h = Some (u, p) \<and>
               map_of (ba_credentials b) u = Some p
    then fst (basic_auth_execute b c) = Continue \<and> is_authenticated (snd (basic_auth_execute b c)) \<and>
         user_id (snd (basic_auth_execute b c)) =
           map_option fst (Option.bind (get_header c ''authorization'') decode_basic_auth)
    else (\<exists>r. fst (basic_auth_execute b c) = Response r \<and> mr_status r = 401) \<and>
         snd (basic_auth_execute b c) = c)"
  by (auto simp: basic_auth_execute_def mresp_defs split: option.split)

subsection \<open>Correctness of the decoder\<close>

text \<open>The loop on numbers: what the word operations compute while \<open>buffer < 2 ^ bits\<close>.\<close>

fun b64_nat :: "string \<Rightarrow> nat \<Rightarrow> nat \<Rightarrow> string option" where
  "b64_nat [] buffer bits = Some []"
| "b64_nat (c # cs) buffer bits =
     (case position c ALPHABET of
        None \<Rightarrow> None
      | Some v \<Rightarrow>
          if bits + 6 \<ge> 8 then
            map_option (\<lambda>out. char_of ((buffer * 64 + v) div 2 ^ (bits - 2)) # out)
              (b64_nat cs ((buffer * 64 + v) mod 2 ^ (bits - 2)) (bits - 2))
          else b64_nat cs (buffer * 64 + v) (bits + 6))"

lemma position_less: "position x ys = Some v \<Longrightarrow> v < length ys"
  by (induction ys arbitrary: v) (auto split: if_splits)

lemma length_ALPHABET: "length ALPHABET = 64"
  by (simp add: ALPHABET_def)

lemma push_or_unat:
  assumes "unat b < 2 ^ n" "n < 8" "v < 64"
  shows "unat (push_bit 6 b OR of_nat v :: u32) = unat b * 64 + v"
proof -
  have v: "unat (of_nat v :: u32) = v" using assms(3) by (simp add: unat_of_nat)
  have "unat b < 2 ^ 8" using assms(1,2) by (meson less_imp_le less_le_trans one_le_numeral power_increasing)
  then have p: "unat (push_bit 6 b) = unat b * 64"
    by (simp add: unsigned_push_bit_eq push_bit_nat_def take_bit_nat_eq_self)
  have "v = take_bit 6 v" using assms(3) by (simp add: take_bit_nat_eq_self)
  then have "push_bit 6 (unat b) AND v = push_bit 6 (unat b) AND take_bit 6 v" by simp
  also have "\<dots> = 0" by (auto simp: bit_eq_iff bit_simps)
  finally have "push_bit 6 (unat b) AND v = 0" .
  then have "push_bit 6 (unat b) OR v = push_bit 6 (unat b) + v"
    by (simp add: disjunctive_add_eq_or)
  then show ?thesis
    using p v by (simp add: unsigned_or_eq push_bit_nat_def)
qed

lemma and_mask_unat: "unat (b AND (push_bit n 1 - 1) :: u32) = unat b mod 2 ^ n" if "n < 32"
proof -
  have "push_bit n 1 - 1 = (mask n :: u32)" by (simp add: push_bit_eq_mult mask_eq_exp_minus_1)
  then have "b AND (push_bit n 1 - 1) = take_bit n b" by (simp add: take_bit_eq_mask)
  then show ?thesis using that by (simp add: unsigned_take_bit_eq take_bit_nat_def)
qed

lemma drop_bit_unat: "unat (drop_bit n b :: u32) = unat b div 2 ^ n"
  by (simp add: unsigned_drop_bit_eq drop_bit_nat_def take_bit_nat_eq_self
      less_le_trans [OF unsigned_less [of b]])

lemma b64_loop_nat: "unat b < 2 ^ n \<Longrightarrow> n < 8 \<Longrightarrow> b64_loop cs b n = b64_nat cs (unat b) n"
proof (induction cs b n rule: b64_loop.induct)
  case (2 c cs b n)
  show ?case
  proof (cases "position c ALPHABET")
    case (Some v)
    let ?b = "push_bit 6 b OR of_nat v :: u32"
    have v: "v < 64" using position_less [OF Some] by (simp add: length_ALPHABET)
    have ub: "unat ?b = unat b * 64 + v" using 2 v by (intro push_or_unat) auto
    show ?thesis
    proof (cases "n + 6 \<ge> 8")
      case True
      have n: "n + 6 - 8 = n - 2" by simp
      have m: "unat (?b AND (push_bit (n - 2) 1 - 1)) = (unat b * 64 + v) mod 2 ^ (n - 2)"
        using 2(4) by (subst and_mask_unat) (simp_all add: ub)
      have "b64_loop cs (?b AND (push_bit (n - 2) 1 - 1)) (n - 2) =
            b64_nat cs ((unat b * 64 + v) mod 2 ^ (n - 2)) (n - 2)"
        using 2(1) [OF Some refl refl True refl refl refl] 2(4) unfolding n m by simp
      then show ?thesis using True Some by (simp add: n Let_def drop_bit_unat ub)
    next
      case False
      have "unat b * 64 + v < 2 ^ n * 64" using 2(3) v by (simp add: less_le_trans [OF _ mult_le_mono1 [of "Suc (unat b)" "2 ^ n" 64]])
      then have "unat ?b < 2 ^ (n + 6)" by (simp add: ub power_add)
      with 2(2) [OF Some refl refl False] False Some show ?thesis by (simp add: Let_def ub)
    qed
  qed simp
qed simp

text \<open>The encoder of RFC 4648 with padding, on byte values.\<close>

definition b64_char :: "nat \<Rightarrow> char" where
  "b64_char v = ALPHABET ! v"

fun b64_encode :: "string \<Rightarrow> string" where
  "b64_encode [] = []"
| "b64_encode [a] =
     (let x = of_char a :: nat in [b64_char (x div 4), b64_char (x mod 4 * 16), CHR ''='', CHR ''=''])"
| "b64_encode [a, b] =
     (let x = of_char a :: nat; y = of_char b :: nat
      in [b64_char (x div 4), b64_char (x mod 4 * 16 + y div 16), b64_char (y mod 16 * 4), CHR ''=''])"
| "b64_encode (a # b # c # s) =
     (let x = of_char a :: nat; y = of_char b :: nat; z = of_char c :: nat
      in [b64_char (x div 4), b64_char (x mod 4 * 16 + y div 16), b64_char (y mod 16 * 4 + z div 64),
          b64_char (z mod 64)] @ b64_encode s)"

lemma position_nth: "distinct xs \<Longrightarrow> i < length xs \<Longrightarrow> position (xs ! i) xs = Some i"
proof (induction xs arbitrary: i)
  case (Cons x xs)
  then show ?case by (cases i) (auto simp: nth_eq_iff_index_eq)
qed simp

lemma distinct_ALPHABET: "distinct ALPHABET"
  by (simp add: ALPHABET_def)

lemma position_b64_char [simp]: "v < 64 \<Longrightarrow> position (b64_char v) ALPHABET = Some v"
  unfolding b64_char_def by (intro position_nth) (simp_all add: distinct_ALPHABET length_ALPHABET)

lemma b64_char_not_eq: "v < 64 \<Longrightarrow> b64_char v \<noteq> CHR ''=''"
proof -
  have "CHR ''='' \<notin> set ALPHABET" by (simp add: ALPHABET_def)
  moreover assume "v < 64"
  then have "b64_char v \<in> set ALPHABET" by (simp add: b64_char_def length_ALPHABET)
  ultimately show ?thesis by metis
qed

lemma trim_end_by_append: "xs \<noteq> [] \<Longrightarrow> \<not> p (last xs) \<Longrightarrow> trim_end_by p (xs @ ys) = xs @ trim_end_by p ys"
proof (induction ys rule: rev_induct)
  case Nil
  then show ?case by (simp add: trim_end_by_def) (metis hd_rev rev_is_Nil_conv dropWhile_eq_self_iff rev_rev_ident)
next
  case (snoc y ys)
  then show ?case by (simp add: trim_end_by_def del: append_assoc add: append_assoc [symmetric])
qed

lemma six_bits:
  fixes x y z :: nat
  shows "x < 256 \<Longrightarrow> x div 4 < 64" "x mod 4 * 16 < 64" "y < 256 \<Longrightarrow> x mod 4 * 16 + y div 16 < 64"
    "y mod 16 * 4 < 64" "z < 256 \<Longrightarrow> y mod 16 * 4 + z div 64 < 64"
  by linarith+

lemma regroup:
  fixes x y :: nat
  shows "x div 4 * 64 + (x mod 4 * 16 + k) = x * 16 + k" "y div 16 * 64 + (y mod 16 * 4 + k) = y * 4 + k"
    "x div 4 * 64 + x mod 4 * 16 = x * 16" "y div 16 * 64 + y mod 16 * 4 = y * 4"
  using div_mult_mod_eq [of x 4] div_mult_mod_eq [of y 16] by linarith+

lemma byte_split:
  fixes y z :: nat
  shows "y < 256 \<Longrightarrow> y div 16 div 16 = 0" "y < 256 \<Longrightarrow> y div 16 mod 16 = y div 16"
    "z < 256 \<Longrightarrow> z div 64 div 4 = 0" "z < 256 \<Longrightarrow> z div 64 mod 4 = z div 64"
  by (simp_all add: less_mult_imp_div_less)

lemmas byte_arith = six_bits regroup byte_split

lemma b64_nat_group:
  "b64_nat (b64_char (of_char a div 4) # b64_char (of_char a mod 4 * 16 + of_char b div 16) #
      b64_char (of_char b mod 16 * 4 + of_char c div 64) # b64_char (of_char c mod 64) # cs) 0 0 =
   map_option (\<lambda>out. a # b # c # out) (b64_nat cs 0 0)"
  by (simp add: byte_arith option.map_comp comp_def)

lemma b64_nat_encode: "b64_nat (trim_end_by (\<lambda>c. c = CHR ''='') (b64_encode s)) 0 0 = Some s"
proof (induction s rule: b64_encode.induct)
  case 1
  then show ?case by (simp add: trim_end_by_def)
next
  case (2 a)
  have "trim_end_by (\<lambda>c. c = CHR ''='') (b64_encode [a]) =
        [b64_char (of_char a div 4), b64_char (of_char a mod 4 * 16)]"
    by (simp add: trim_end_by_def Let_def b64_char_not_eq byte_arith)
  then show ?case by (simp add: byte_arith del: b64_encode.simps)
next
  case (3 a b)
  have "trim_end_by (\<lambda>c. c = CHR ''='') (b64_encode [a, b]) =
        [b64_char (of_char a div 4), b64_char (of_char a mod 4 * 16 + of_char b div 16), b64_char (of_char b mod 16 * 4)]"
    by (simp add: trim_end_by_def Let_def b64_char_not_eq byte_arith)
  then show ?case by (simp add: byte_arith del: b64_encode.simps)
next
  case (4 a b c s)
  let ?g = "[b64_char (of_char a div 4), b64_char (of_char a mod 4 * 16 + of_char b div 16),
     b64_char (of_char b mod 16 * 4 + of_char c div 64), b64_char (of_char c mod 64)]"
  have "trim_end_by (\<lambda>c. c = CHR ''='') (?g @ b64_encode s) = ?g @ trim_end_by (\<lambda>c. c = CHR ''='') (b64_encode s)"
    by (intro trim_end_by_append) (simp_all add: b64_char_not_eq byte_arith)
  with 4 show ?case by (simp add: Let_def b64_nat_group del: b64_nat.simps)
qed

lemma base64_decode_inverse: "base64_decode (b64_encode s) = Some s"
proof -
  have "base64_decode (b64_encode s) = b64_nat (trim_end_by (\<lambda>c. c = CHR ''='') (b64_encode s)) (unat (0 :: u32)) 0"
    unfolding base64_decode_def by (rule b64_loop_nat) simp_all
  then show ?thesis by (simp add: b64_nat_encode del: b64_nat.simps)
qed

text \<open>
  \<^bold>\<open>C8\<close> The decoder inverts the standard encoder on every byte string, with its 32-bit buffer and
  without looking at the padding.
\<close>

theorem base64_decode_encode: "base64_decode (b64_encode s) = Some s"
  by (rule base64_decode_inverse)

interpretation base64: codec b64_encode base64_decode "\<lambda>_. True"
  by unfold_locales (rule base64_decode_inverse)

text \<open>A client that encodes registered credentials as RFC 7617 says is let through.\<close>

lemma decode_basic_auth_encode:
  "CHR '':'' \<notin> set u \<Longrightarrow> utf8_valid (u @ '':'' @ p) \<Longrightarrow>
   decode_basic_auth (''Basic '' @ b64_encode (u @ '':'' @ p)) = Some (u, p)"
  using strip_prefix_append [of "''Basic ''"]
  by (simp add: decode_basic_auth_def base64_decode_inverse split_once_Some)

end
