(* ===== verification/Circuit_Breaker.thy ===== *)
theory Circuit_Breaker
  imports Middleware_Chain Machines
begin

text \<open>
  The circuit breaker (\<open>CircuitBreakerMiddleware\<close> in \<open>src/middleware/builtin.rs\<close>): one circuit
  per path, each operation atomic under the circuit's \<open>state\<close> write lock. The operations on one
  circuit come first, then the map of circuits and the middleware.
\<close>

datatype circuit_state = Closed | Open | HalfOpen

record breaker_config =
  cb_failure_threshold :: u32
  cb_success_threshold :: u32
  cb_timeout :: duration
  cb_paths :: "string list"

definition breaker_default :: breaker_config where
  "breaker_default =
     \<lparr>cb_failure_threshold = 5, cb_success_threshold = 2, cb_timeout = secs 30, cb_paths = []\<rparr>"

definition breaker_config_new :: "u32 \<Rightarrow> u32 \<Rightarrow> nat \<Rightarrow> breaker_config" where
  "breaker_config_new f s t =
     \<lparr>cb_failure_threshold = f, cb_success_threshold = s, cb_timeout = secs t, cb_paths = []\<rparr>"

record circuit =
  ci_state :: circuit_state
  ci_failure_count :: u64
  ci_success_count :: u64
  ci_last_failure_at :: "instant option"

definition circuit_new :: circuit where
  "circuit_new = \<lparr>ci_state = Closed, ci_failure_count = 0, ci_success_count = 0, ci_last_failure_at = None\<rparr>"

subsection \<open>One circuit\<close>

definition on_success :: "breaker_config \<Rightarrow> circuit \<Rightarrow> circuit" where
  "on_success cfg cb =
     (case ci_state cb of
        HalfOpen \<Rightarrow>
          (let sc = ci_success_count cb + 1 in
           if sc \<ge> ucast (cb_success_threshold cfg)
           then cb\<lparr>ci_state := Closed, ci_failure_count := 0, ci_success_count := 0\<rparr>
           else cb\<lparr>ci_success_count := sc\<rparr>)
      | Closed \<Rightarrow> cb\<lparr>ci_failure_count := 0\<rparr>
      | Open \<Rightarrow> cb)"

definition on_failure :: "breaker_config \<Rightarrow> instant \<Rightarrow> circuit \<Rightarrow> circuit" where
  "on_failure cfg now cb =
     (case ci_state cb of
        Closed \<Rightarrow>
          (let fc = ci_failure_count cb + 1; cb = cb\<lparr>ci_failure_count := fc\<rparr> in
           if fc \<ge> ucast (cb_failure_threshold cfg)
           then cb\<lparr>ci_state := Open, ci_last_failure_at := Some now\<rparr> else cb)
      | HalfOpen \<Rightarrow> cb\<lparr>ci_state := Open, ci_last_failure_at := Some now, ci_success_count := 0\<rparr>
      | Open \<Rightarrow> cb\<lparr>ci_last_failure_at := Some now\<rparr>)"

definition should_half_open :: "breaker_config \<Rightarrow> instant \<Rightarrow> circuit \<Rightarrow> bool" where
  "should_half_open cfg now cb =
     (case ci_last_failure_at cb of Some t \<Rightarrow> now - t \<ge> cb_timeout cfg | None \<Rightarrow> False)"

text \<open>The decision on a request: whether it passes, and the circuit afterwards.\<close>

definition on_request :: "breaker_config \<Rightarrow> instant \<Rightarrow> circuit \<Rightarrow> bool \<times> circuit" where
  "on_request cfg now cb =
     (case ci_state cb of
        Open \<Rightarrow>
          if should_half_open cfg now cb then (True, cb\<lparr>ci_state := HalfOpen, ci_success_count := 0\<rparr>)
          else (False, cb)
      | HalfOpen \<Rightarrow> (True, cb)
      | Closed \<Rightarrow> (True, cb))"

subsection \<open>The middleware\<close>

type_synonym circuits = "(string \<times> circuit) list"

definition get_circuit :: "string \<Rightarrow> circuits \<Rightarrow> circuit" where
  "get_circuit path cs = (case map_of cs path of Some cb \<Rightarrow> cb | None \<Rightarrow> circuit_new)"

definition record_success :: "breaker_config \<Rightarrow> string \<Rightarrow> circuits \<Rightarrow> circuits" where
  "record_success cfg path cs =
     (case map_of cs path of Some cb \<Rightarrow> AList.update path (on_success cfg cb) cs | None \<Rightarrow> cs)"

definition record_failure :: "breaker_config \<Rightarrow> instant \<Rightarrow> string \<Rightarrow> circuits \<Rightarrow> circuits" where
  "record_failure cfg now path cs = AList.update path (on_failure cfg now (get_circuit path cs)) cs"

definition breaker_get_state :: "string \<Rightarrow> circuits \<Rightarrow> circuit_state" where
  "breaker_get_state path cs = (case map_of cs path of Some cb \<Rightarrow> ci_state cb | None \<Rightarrow> Closed)"

definition get_failure_count :: "string \<Rightarrow> circuits \<Rightarrow> u64" where
  "get_failure_count path cs = (case map_of cs path of Some cb \<Rightarrow> ci_failure_count cb | None \<Rightarrow> 0)"

definition breaker_execute ::
  "breaker_config \<Rightarrow> instant \<Rightarrow> mw_context \<Rightarrow> circuits \<Rightarrow> mw_result \<times> mw_context \<times> circuits" where
  "breaker_execute cfg now c cs =
     (let path = mc_path c in
      if cb_paths cfg \<noteq> [] \<and> \<not> (\<exists>p \<in> set (cb_paths cfg). starts_with path p) then (Continue, c, cs)
      else
        let (pass, cb) = on_request cfg now (get_circuit path cs);
            cs = AList.update path cb cs
        in if pass then
             (Continue, set_state ''circuit_breaker_state''
                (SString (if ci_state cb = HalfOpen then ''half_open'' else ''closed'')) c, cs)
           else
             (Response (with_header ''Retry-After'' (show_nat (as_secs (cb_timeout cfg)))
                (service_unavailable ''Service temporarily unavailable (circuit open)'')), c, cs))"

definition breaker_middleware :: "breaker_config \<Rightarrow> (instant \<times> circuits) middleware" where
  "breaker_middleware cfg =
     mw_default ''circuit_breaker''
       (\<lambda>c (now, cs). let (r, c', cs') = breaker_execute cfg now c cs in (r, c', now, cs'))"

interpretation breaker: well_behaved "breaker_middleware cfg" for cfg
  by unfold_locales
    (auto simp: breaker_middleware_def mw_default_def breaker_execute_def Let_def split: if_splits prod.splits)

subsection \<open>The specification: one automaton per path\<close>

text \<open>
  What a circuit breaker promises, with natural numbers for its counters: the failures since the last
  success while closed, the time of the last failure while open, the successes while half open.
\<close>

datatype breaker_spec = SpecClosed nat | SpecOpen instant | SpecHalfOpen nat

datatype breaker_event = Request instant | Success | Failure instant

fun spec_event :: "breaker_config \<Rightarrow> breaker_event \<Rightarrow> breaker_spec \<Rightarrow> breaker_spec" where
  "spec_event cfg (Failure now) (SpecClosed n) =
     (if unat (cb_failure_threshold cfg) \<le> Suc n then SpecOpen now else SpecClosed (Suc n))"
| "spec_event cfg (Failure now) _ = SpecOpen now"
| "spec_event cfg Success (SpecClosed n) = SpecClosed 0"
| "spec_event cfg Success (SpecHalfOpen n) =
     (if unat (cb_success_threshold cfg) \<le> Suc n then SpecClosed 0 else SpecHalfOpen (Suc n))"
| "spec_event cfg Success (SpecOpen t) = SpecOpen t"
| "spec_event cfg (Request now) (SpecOpen t) = (if cb_timeout cfg \<le> now - t then SpecHalfOpen 0 else SpecOpen t)"
| "spec_event cfg (Request now) st = st"

definition spec_rejects :: "breaker_config \<Rightarrow> instant \<Rightarrow> breaker_spec \<Rightarrow> bool" where
  "spec_rejects cfg now st = (case st of SpecOpen t \<Rightarrow> now - t < cb_timeout cfg | _ \<Rightarrow> False)"

datatype breaker_call = Execute instant mw_context | RecordSuccess string | RecordFailure instant string

definition breaker_apply :: "breaker_config \<Rightarrow> breaker_call \<Rightarrow> circuits \<Rightarrow> circuits" where
  "breaker_apply cfg call cs =
     (case call of
        Execute now c \<Rightarrow> snd (snd (breaker_execute cfg now c cs))
      | RecordSuccess path \<Rightarrow> record_success cfg path cs
      | RecordFailure now path \<Rightarrow> record_failure cfg now path cs)"

definition guarded_path :: "breaker_config \<Rightarrow> string \<Rightarrow> bool" where
  "guarded_path cfg path = (cb_paths cfg = [] \<or> (\<exists>p \<in> set (cb_paths cfg). starts_with path p))"

definition breaker_spec_apply :: "breaker_config \<Rightarrow> breaker_call \<Rightarrow> (string \<Rightarrow> breaker_spec) \<Rightarrow> string \<Rightarrow> breaker_spec" where
  "breaker_spec_apply cfg call f =
     (case call of
        Execute now c \<Rightarrow>
          if guarded_path cfg (mc_path c) then f(mc_path c := spec_event cfg (Request now) (f (mc_path c))) else f
      | RecordSuccess path \<Rightarrow> f(path := spec_event cfg Success (f path))
      | RecordFailure now path \<Rightarrow> f(path := spec_event cfg (Failure now) (f path)))"

subsection \<open>The circuits refine it\<close>

lemmas circuit_ops = on_request_def on_success_def on_failure_def should_half_open_def

definition abs_circuit :: "circuit \<Rightarrow> breaker_spec" where
  "abs_circuit cb =
     (case ci_state cb of
        Closed \<Rightarrow> SpecClosed (unat (ci_failure_count cb))
      | Open \<Rightarrow> SpecOpen (the (ci_last_failure_at cb))
      | HalfOpen \<Rightarrow> SpecHalfOpen (unat (ci_success_count cb)))"

definition breaker_inv :: "breaker_config \<Rightarrow> circuit \<Rightarrow> bool" where
  "breaker_inv cfg cb =
     (case ci_state cb of
        Closed \<Rightarrow> ci_failure_count cb = 0 \<or> ci_failure_count cb < ucast (cb_failure_threshold cfg)
      | Open \<Rightarrow> ci_last_failure_at cb \<noteq> None
      | HalfOpen \<Rightarrow> ci_last_failure_at cb \<noteq> None \<and>
          (ci_success_count cb = 0 \<or> ci_success_count cb < ucast (cb_success_threshold cfg)))"

definition circuit_event :: "breaker_config \<Rightarrow> breaker_event \<Rightarrow> circuit \<Rightarrow> circuit" where
  "circuit_event cfg ev cb =
     (case ev of Request now \<Rightarrow> snd (on_request cfg now cb) | Success \<Rightarrow> on_success cfg cb | Failure now \<Rightarrow> on_failure cfg now cb)"

text \<open>A counter below a 32-bit threshold does not wrap around in 64 bits.\<close>

lemma count_below_threshold:
  fixes n :: u64 and th :: u32
  assumes "n = 0 \<or> n < ucast th"
  shows "unat (n + 1) = Suc (unat n)" "ucast th \<le> n + 1 \<longleftrightarrow> unat th \<le> Suc (unat n)"
proof -
  have "unat th < 2 ^ 32" using unsigned_less [of th] by simp
  with assms have "unat n < 2 ^ 32" by (auto simp: word_less_nat_alt)
  then show suc: "unat (n + 1) = Suc (unat n)" by (intro unat_Suc_no_wrap) simp
  show "ucast th \<le> n + 1 \<longleftrightarrow> unat th \<le> Suc (unat n)" by (simp add: word_le_nat_alt suc)
qed

lemma circuit_event_refines:
  assumes "breaker_inv cfg cb"
  shows "abs_circuit (circuit_event cfg ev cb) = spec_event cfg ev (abs_circuit cb)"
    "breaker_inv cfg (circuit_event cfg ev cb)"
proof -
  have fc: "ci_state cb = Closed \<Longrightarrow> ci_failure_count cb = 0 \<or> ci_failure_count cb < ucast (cb_failure_threshold cfg)"
    and sc: "ci_state cb = HalfOpen \<Longrightarrow> ci_success_count cb = 0 \<or> ci_success_count cb < ucast (cb_success_threshold cfg)"
    and last: "ci_state cb = Open \<Longrightarrow> ci_last_failure_at cb \<noteq> None"
    using assms by (auto simp: breaker_inv_def split: circuit_state.splits)
  show "abs_circuit (circuit_event cfg ev cb) = spec_event cfg ev (abs_circuit cb)"
    using last
    by (cases ev; cases "ci_state cb")
      (auto simp: circuit_event_def abs_circuit_def circuit_ops Let_def count_below_threshold [OF fc] count_below_threshold [OF sc])
  show "breaker_inv cfg (circuit_event cfg ev cb)"
    using assms by (cases ev; cases "ci_state cb") (auto simp: circuit_event_def breaker_inv_def circuit_ops Let_def)
qed

definition circuits_inv :: "breaker_config \<Rightarrow> circuits \<Rightarrow> bool" where
  "circuits_inv cfg cs = (\<forall>path. breaker_inv cfg (get_circuit path cs))"

lemma get_circuit_update: "get_circuit p (AList.update q cb cs) = (if p = q then cb else get_circuit p cs)"
  by (simp add: get_circuit_def)

lemma get_circuit_new: "get_circuit path [] = circuit_new"
  by (simp add: get_circuit_def)

lemma breaker_inv_new: "breaker_inv cfg circuit_new"
  by (simp add: breaker_inv_def circuit_new_def)

text \<open>Every call is an event at one path, or none.\<close>

lemma breaker_apply_event:
  "get_circuit p (breaker_apply cfg call cs) =
     (case call of
        Execute now c \<Rightarrow> if p = mc_path c \<and> guarded_path cfg p then circuit_event cfg (Request now) (get_circuit p cs) else get_circuit p cs
      | RecordSuccess q \<Rightarrow> if p = q then circuit_event cfg Success (get_circuit p cs) else get_circuit p cs
      | RecordFailure now q \<Rightarrow> if p = q then circuit_event cfg (Failure now) (get_circuit p cs) else get_circuit p cs)"
proof (cases call)
  case (RecordSuccess q)
  have "on_success cfg circuit_new = circuit_new" by (simp add: on_success_def circuit_new_def)
  with RecordSuccess show ?thesis
    by (auto simp: breaker_apply_def record_success_def circuit_event_def get_circuit_def split: option.splits)
qed (auto simp: breaker_apply_def breaker_execute_def record_failure_def circuit_event_def guarded_path_def get_circuit_update Let_def
      split: prod.splits)

interpretation breaker_sim: simulation "breaker_apply cfg" "circuits_inv cfg" "breaker_spec_apply cfg"
    "\<lambda>cs path. abs_circuit (get_circuit path cs)" for cfg
proof
  fix cs call
  assume inv: "circuits_inv cfg cs"
  then show "circuits_inv cfg (breaker_apply cfg call cs)"
    by (cases call) (auto simp: circuits_inv_def breaker_apply_event circuit_event_refines)
  show "(\<lambda>path. abs_circuit (get_circuit path (breaker_apply cfg call cs))) =
      breaker_spec_apply cfg call (\<lambda>path. abs_circuit (get_circuit path cs))"
    using inv by (cases call) (auto simp: circuits_inv_def breaker_apply_event breaker_spec_apply_def circuit_event_refines fun_eq_iff)
qed

lemma on_request_passes:
  "breaker_inv cfg cb \<Longrightarrow> fst (on_request cfg now cb) = (\<not> spec_rejects cfg now (abs_circuit cb))"
  by (auto simp: breaker_inv_def on_request_def should_half_open_def abs_circuit_def spec_rejects_def not_less
      split: circuit_state.splits option.splits)

lemma breaker_execute_cases:
  "if guarded_path cfg (mc_path c) \<and> \<not> fst (on_request cfg now (get_circuit (mc_path c) cs))
   then \<exists>r cs'. breaker_execute cfg now c cs = (Response r, c, cs') \<and> mr_status r = 503
   else \<exists>c' cs'. breaker_execute cfg now c cs = (Continue, c', cs')"
  by (cases "on_request cfg now (get_circuit (mc_path c) cs)")
    (auto simp: breaker_execute_def guarded_path_def Let_def mresp_defs)

text \<open>
  \<^bold>\<open>C10\<close> The circuit breaker is its specification: after any sequence of requests, recorded
  successes and recorded failures on any paths, the circuit of every path is in the state of an
  automaton of its own that saw the events of this path only, with the counters never wrapping
  around; and the next request is answered with 503, leaving the context alone, exactly when the
  path is guarded and its automaton is open with the timeout not over. In particular every request passes
  while a circuit is half open; the guide speaks of a limited number.
\<close>

theorem breaker_refines_automata:
  "let cs = fold (breaker_apply cfg) calls [];
       spec = fold (breaker_spec_apply cfg) calls (\<lambda>_. SpecClosed 0);
       rejected = (guarded_path cfg (mc_path c) \<and> spec_rejects cfg now (spec (mc_path c)))
   in (\<forall>path. abs_circuit (get_circuit path cs) = spec path) \<and>
      (case breaker_execute cfg now c cs of
         (Continue, c', cs') \<Rightarrow> \<not> rejected
       | (Response r, c', cs') \<Rightarrow> rejected \<and> mr_status r = 503 \<and> c' = c
       | (Error e, c', cs') \<Rightarrow> False)"
proof -
  let ?cs = "fold (breaker_apply cfg) calls []"
  have inv: "circuits_inv cfg []" by (simp add: circuits_inv_def get_circuit_new breaker_inv_new)
  from breaker_sim.abs_run [OF this, of calls]
  have abs: "abs_circuit (get_circuit path ?cs) = fold (breaker_spec_apply cfg) calls (\<lambda>_. SpecClosed 0) path" for path
    by (simp add: fun_eq_iff get_circuit_new) (simp add: abs_circuit_def circuit_new_def)
  have "breaker_inv cfg (get_circuit (mc_path c) ?cs)"
    using breaker_sim.inv_run [OF inv, of calls] by (simp add: circuits_inv_def)
  from on_request_passes [OF this, of now, unfolded abs] show ?thesis
    using breaker_execute_cases [of cfg c now ?cs] unfolding Let_def
    by (intro conjI allI abs) (auto split: if_splits)
qed

text \<open>Half open, a circuit lets any number of requests through before an outcome is recorded.\<close>

fun breaker_requests :: "breaker_config \<Rightarrow> (instant \<times> mw_context) list \<Rightarrow> circuits \<Rightarrow> mw_result list" where
  "breaker_requests cfg [] cs = []"
| "breaker_requests cfg ((now, c) # rs) cs =
     (case breaker_execute cfg now c cs of (r, c', cs') \<Rightarrow> r # breaker_requests cfg rs cs')"

lemma half_open_unlimited:
  "ci_state (get_circuit path cs) = HalfOpen \<Longrightarrow> list_all (\<lambda>(now, c). mc_path c = path) rs \<Longrightarrow>
   breaker_requests cfg rs cs = replicate (length rs) Continue"
proof (induction rs arbitrary: cs)
  case (Cons r rs)
  obtain now c where r: "r = (now, c)" by (cases r)
  with Cons.prems have path: "mc_path c = path" by simp
  have "on_request cfg now (get_circuit path cs) = (True, get_circuit path cs)"
    using Cons.prems(1) by (simp add: on_request_def)
  then have "\<exists>c' cs'. breaker_execute cfg now c cs = (Continue, c', cs') \<and> ci_state (get_circuit path cs') = HalfOpen"
    using Cons.prems(1) by (simp add: breaker_execute_def path Let_def, simp add: get_circuit_def)
  then obtain c' cs' where e: "breaker_execute cfg now c cs = (Continue, c', cs')" and h: "ci_state (get_circuit path cs') = HalfOpen"
    by blast
  with Cons.IH [OF h] Cons.prems(2) r show ?case by simp
qed simp

lemma failures_run:
  assumes "ci_state cb = Closed" "unat (ci_failure_count cb) < unat (cb_failure_threshold cfg)"
  shows "ci_state (fold (on_failure cfg) ts cb) =
    (if unat (cb_failure_threshold cfg) \<le> unat (ci_failure_count cb) + length ts then Open else Closed)"
  using assms
proof (induction ts arbitrary: cb)
  case (Cons t ts)
  have open_stays: "ci_state cb = Open \<Longrightarrow> ci_state (fold (on_failure cfg) ts cb) = Open" for cb
    by (induction ts arbitrary: cb) (auto simp: on_failure_def)
  have "unat (cb_failure_threshold cfg) < 2 ^ LENGTH(32)" by (rule unsigned_less)
  then have "unat (cb_failure_threshold cfg) < 2 ^ 64" by simp
  then have suc: "unat (ci_failure_count cb + 1) = Suc (unat (ci_failure_count cb))"
    using Cons.prems(2) by (intro unat_Suc_no_wrap) simp
  let ?cb = "cb\<lparr>ci_failure_count := ci_failure_count cb + 1\<rparr>"
  show ?case
  proof (cases "unat (cb_failure_threshold cfg) \<le> Suc (unat (ci_failure_count cb))")
    case True
    then have "ci_state (on_failure cfg t cb) = Open"
      using Cons.prems(1) by (simp add: on_failure_def Let_def word_le_nat_alt suc)
    with open_stays True show ?thesis by simp
  next
    case False
    then have "on_failure cfg t cb = ?cb"
      using Cons.prems(1) by (simp add: on_failure_def Let_def word_le_nat_alt suc)
    with Cons.IH [of ?cb] Cons.prems(1) False suc show ?thesis by simp
  qed
qed simp

text \<open>
  A new circuit trips at exactly its threshold: after any number of consecutive failures it is
  open if and only if there were at least \<open>failure_threshold\<close> of them (for a positive
  threshold); and an open circuit answers every request before its timeout with 503, a
  \<open>Retry-After\<close> header and no change of the circuit.
\<close>

theorem breaker_trips_and_rejects:
  assumes "0 < cb_failure_threshold cfg" and "cb_paths cfg = []"
  shows "ci_state (fold (on_failure cfg) ts circuit_new) =
           (if unat (cb_failure_threshold cfg) \<le> length ts then Open else Closed) \<and>
         (\<forall>c cs cb t now. map_of cs (mc_path c) = Some cb \<and> ci_state cb = Open \<and>
            ci_last_failure_at cb = Some t \<and> now - t < cb_timeout cfg \<longrightarrow>
            (\<exists>r cs'. breaker_execute cfg now c cs = (Response r, c, cs') \<and> mr_status r = 503 \<and>
               (''Retry-After'', show_nat (as_secs (cb_timeout cfg))) \<in> set (mr_headers r) \<and> map_of cs' = map_of cs))"
proof -
  have "0 < unat (cb_failure_threshold cfg)" using assms(1) by (simp add: word_less_nat_alt)
  then have "ci_state (fold (on_failure cfg) ts circuit_new) =
           (if unat (cb_failure_threshold cfg) \<le> length ts then Open else Closed)"
    using failures_run [of circuit_new cfg ts] by (simp add: circuit_new_def)
  then show ?thesis
    using assms(2) by (auto simp: breaker_execute_def get_circuit_def circuit_ops Let_def mresp_defs)
qed

theorem breaker_trips_and_rejects_witness:
  "ci_state (fold (on_failure (breaker_config_new 2 1 30)) [1, 2] circuit_new) = Open \<and>
   ci_state (fold (on_failure (breaker_config_new 2 1 30)) [1] circuit_new) = Closed"
  using breaker_trips_and_rejects [of "breaker_config_new 2 1 30" "[1, 2]"]
    breaker_trips_and_rejects [of "breaker_config_new 2 1 30" "[1]"]
  by (simp add: breaker_config_new_def)

end
