(* ===== verification/Cache_Middleware.thy ===== *)
theory Cache_Middleware
  imports Middleware_Chain Json_Cache Machines
begin

text \<open>
  The response caching middleware (\<open>CacheConfig\<close>, \<open>CacheMiddleware\<close> in
  \<open>src/middleware/builtin.rs\<close>) over the JSON response cache.
\<close>

record cache_config =
  cc_ttl_seconds :: nat
  cc_cache_control_respect :: bool
  cc_max_cache_size :: nat
  cc_paths :: "string list"

definition cache_config_new :: "nat \<Rightarrow> cache_config" where
  "cache_config_new ttl =
     \<lparr>cc_ttl_seconds = ttl, cc_cache_control_respect = True, cc_max_cache_size = 10000, cc_paths = []\<rparr>"

definition cache_mw_new :: "cache_config \<Rightarrow> json_cache" where
  "cache_mw_new cfg = jc_new (cc_max_cache_size cfg) (secs (cc_ttl_seconds cfg))"

definition cache_invalidate :: "(string \<Rightarrow> u64) \<Rightarrow> string \<Rightarrow> string \<Rightarrow> json_cache \<Rightarrow> json_cache" where
  "cache_invalidate xxh3_64 route ps jc = jc_invalidate (compute_key_hash xxh3_64 route ps) jc"

definition cache_clear :: "json_cache \<Rightarrow> json_cache" where
  "cache_clear jc = jc_clear jc"

definition cache_execute ::
  "(string \<Rightarrow> u64) \<Rightarrow> cache_config \<Rightarrow> instant \<Rightarrow> mw_context \<Rightarrow> json_cache \<Rightarrow> mw_result \<times> mw_context \<times> json_cache" where
  "cache_execute xxh3_64 cfg now c jc =
     (if mc_method c \<noteq> GET then (Continue, c, jc)
      else
        let path = mc_path c; query = mc_query_string c in
        if cc_paths cfg \<noteq> [] \<and> \<not> (\<exists>p \<in> set (cc_paths cfg). starts_with path p) then (Continue, c, jc)
        else
          let cache_control = to_lower (case get_header c ''cache-control'' of Some v \<Rightarrow> v | None \<Rightarrow> []) in
          if cc_cache_control_respect cfg \<and>
             (contains_sub cache_control ''no-store'' \<or> contains_sub cache_control ''no-cache'')
          then (Continue, set_state ''x-cache'' (SString ''BYPASS'') c, jc)
          else
            let key_hash = compute_key_hash xxh3_64 path query in
            case jc_get now key_hash jc of
              (Some bytes, jc') \<Rightarrow>
                (Response (with_header ''X-Cache'' ''HIT''
                   (with_header ''Content-Type'' ''application/json; charset=utf-8''
                     (with_body bytes (mresp_new 200)))), c, jc')
            | (None, jc') \<Rightarrow>
                (Continue, set_state ''cache_key_hash'' (SString (show_nat (unat key_hash)))
                   (set_state ''x-cache'' (SString ''MISS'') c), jc'))"

definition cache_middleware :: "(string \<Rightarrow> u64) \<Rightarrow> cache_config \<Rightarrow> (instant \<times> json_cache) middleware" where
  "cache_middleware xxh3_64 cfg =
     mw_default ''cache'' (\<lambda>c (now, jc). let (r, c', jc') = cache_execute xxh3_64 cfg now c jc in (r, c', now, jc'))"

interpretation cache: well_behaved "cache_middleware h cfg" for h cfg
  by unfold_locales
    (auto simp: cache_middleware_def mw_default_def cache_execute_def Let_def split: if_splits prod.splits option.splits)

text \<open>The operations the program can run on the middleware after its construction.\<close>

datatype cache_mw_op = Exec instant mw_context | Invalidate string string | ClearAll

fun cache_mw_apply :: "(string \<Rightarrow> u64) \<Rightarrow> cache_config \<Rightarrow> cache_mw_op \<Rightarrow> json_cache \<Rightarrow> json_cache" where
  "cache_mw_apply h cfg (Exec now c) jc = snd (snd (cache_execute h cfg now c jc))"
| "cache_mw_apply h cfg (Invalidate r q) jc = cache_invalidate h r q jc"
| "cache_mw_apply h cfg ClearAll jc = cache_clear jc"

interpretation cache_mw: machine "cache_mw_apply h cfg" "\<lambda>jc. jc_cache jc = []" for h cfg
proof
  show "jc_cache jc = [] \<Longrightarrow> jc_cache (cache_mw_apply h cfg op jc) = []" for jc op
    by (cases op)
      (auto simp: cache_execute_def Let_def jc_get_def cache_invalidate_def jc_invalidate_def cache_clear_def jc_clear_def)
qed

text \<open>
  The caching middleware never serves a cached response: none of its operations inserts into
  its private cache, so after any history of requests, invalidations and clears a request always
  continues to the handler.
\<close>

theorem cache_never_hits:
  "fst (cache_execute h cfg now c (fold (cache_mw_apply h cfg) ops (cache_mw_new cfg))) = Continue"
  using cache_mw.inv_run [of "cache_mw_new cfg" h cfg ops]
  by (simp add: cache_execute_def Let_def jc_get_def cache_mw_new_def jc_new_def)

text \<open>On a populated cache a hit is the stored body, and only for unexpired entries of GET requests.\<close>

lemma cache_hit_body:
  "cache_execute h cfg now c jc = (Response r, c', jc') \<Longrightarrow>
   mc_method c = GET \<and> (\<exists>e. map_of (jc_cache jc) (compute_key_hash h (mc_path c) (mc_query_string c)) = Some e \<and>
     \<not> is_expired now e \<and> mr_body r = cj_data e)"
  by (auto simp: cache_execute_def Let_def jc_get_def mresp_defs split: if_splits option.splits)

end
