(* ===== verification/Context_Api.thy ===== *)
theory Context_Api
  imports Middleware_Chain
begin

text \<open>
  The Python-facing side of \<open>src/middleware/chain.rs\<close>: the \<open>_py\<close> methods of the middleware
  response and of the request context, which repeat the bodies of the Rust methods, and the
  builder of chains. A Python program that holds a context is a sequence of calls; the lemmas
  relate it to the Rust methods and to the contract \<^const>\<open>ctx_ext\<close> of the chain.
\<close>

subsection \<open>Responses and errors\<close>

definition with_status_py :: "nat \<Rightarrow> mw_response \<Rightarrow> mw_response" where
  "with_status_py status r = r\<lparr>mr_status := status\<rparr>"

definition with_header_py :: "string \<Rightarrow> string \<Rightarrow> mw_response \<Rightarrow> mw_response" where
  "with_header_py key v r = r\<lparr>mr_headers := mr_headers r @ [(key, v)]\<rparr>"

definition with_body_py :: "string \<Rightarrow> mw_response \<Rightarrow> mw_response" where
  "with_body_py body r = r\<lparr>mr_body := body\<rparr>"

definition with_json_body_py :: "string \<Rightarrow> mw_response \<Rightarrow> mw_response" where
  "with_json_body_py body r =
     (let r = r\<lparr>mr_headers := mr_headers r @ [(''content-type'', ''application/json'')]\<rparr>
      in r\<lparr>mr_body := body\<rparr>)"

definition with_text_body_py :: "string \<Rightarrow> mw_response \<Rightarrow> mw_response" where
  "with_text_body_py body r =
     (let r = r\<lparr>mr_headers := mr_headers r @ [(''content-type'', ''text/plain'')]\<rparr>
      in r\<lparr>mr_body := body\<rparr>)"

definition merror_new :: "string \<Rightarrow> string \<Rightarrow> nat \<Rightarrow> mw_error" where
  "merror_new code message status = \<lparr>me_code = code, me_message = message, me_status = status\<rparr>"

subsection \<open>The request context\<close>

definition ctx_path :: "mw_context \<Rightarrow> string" where
  "ctx_path c = mc_path c"

definition ctx_method :: "mw_context \<Rightarrow> http_method" where
  "ctx_method c = mc_method c"

definition ctx_query_string :: "mw_context \<Rightarrow> string" where
  "ctx_query_string c = mc_query_string c"

definition ctx_request_id :: "mw_context \<Rightarrow> string" where
  "ctx_request_id c = mc_request_id c"

definition get_header_py :: "string \<Rightarrow> mw_context \<Rightarrow> string option" where
  "get_header_py name c = map_of (mc_headers c) (to_lower name)"

definition set_header_py :: "string \<Rightarrow> string \<Rightarrow> mw_context \<Rightarrow> mw_context" where
  "set_header_py name v c = c\<lparr>mc_headers := AList.update (to_lower name) v (mc_headers c)\<rparr>"

definition remove_header_py :: "string \<Rightarrow> mw_context \<Rightarrow> string option \<times> mw_context" where
  "remove_header_py name c =
     (map_of (mc_headers c) (to_lower name), c\<lparr>mc_headers := AList.delete (to_lower name) (mc_headers c)\<rparr>)"

definition get_query_py :: "(string \<Rightarrow> params) \<Rightarrow> string \<Rightarrow> mw_context \<Rightarrow> string option \<times> mw_context" where
  "get_query_py form_parse name c =
     (let c = ensure_query_params form_parse c
      in (Option.bind (mc_query_params c) (\<lambda>qp. map_of qp name), c))"

definition set_query_py :: "(string \<Rightarrow> params) \<Rightarrow> string \<Rightarrow> string \<Rightarrow> mw_context \<Rightarrow> mw_context" where
  "set_query_py form_parse name v c =
     (let c = ensure_query_params form_parse c
      in case mc_query_params c of
           Some qp \<Rightarrow> c\<lparr>mc_query_params := Some (AList.update name v qp)\<rparr>
         | None \<Rightarrow> c)"

definition remove_query_py :: "(string \<Rightarrow> params) \<Rightarrow> string \<Rightarrow> mw_context \<Rightarrow> string option \<times> mw_context" where
  "remove_query_py form_parse name c =
     (let c = ensure_query_params form_parse c
      in case mc_query_params c of
           Some qp \<Rightarrow> (map_of qp name, c\<lparr>mc_query_params := Some (AList.delete name qp)\<rparr>)
         | None \<Rightarrow> (None, c))"

definition set_param_py :: "string \<Rightarrow> string \<Rightarrow> mw_context \<Rightarrow> mw_context" where
  "set_param_py name v c = c\<lparr>mc_path_params := AList.update name v (mc_path_params c)\<rparr>"

definition set_body_py :: "string \<Rightarrow> mw_context \<Rightarrow> mw_context" where
  "set_body_py body c = c\<lparr>mc_body := Some body\<rparr>"

text \<open>A string is its UTF-8 bytes, so \<open>into_bytes\<close> is the identity.\<close>

definition set_body_str_py :: "string \<Rightarrow> mw_context \<Rightarrow> mw_context" where
  "set_body_str_py body c = c\<lparr>mc_body := Some body\<rparr>"

definition set_body_str :: "string \<Rightarrow> mw_context \<Rightarrow> mw_context" where
  "set_body_str body c = c\<lparr>mc_body := Some body\<rparr>"

definition clear_body_py :: "mw_context \<Rightarrow> mw_context" where
  "clear_body_py c = c\<lparr>mc_body := None\<rparr>"

definition set_path_py :: "string \<Rightarrow> mw_context \<Rightarrow> mw_context" where
  "set_path_py path c = c\<lparr>mc_path := path\<rparr>"

definition set_query_string_py :: "string \<Rightarrow> mw_context \<Rightarrow> mw_context" where
  "set_query_string_py query_string c = c\<lparr>mc_query_string := query_string\<rparr>"

definition add_response_header_py :: "string \<Rightarrow> string \<Rightarrow> mw_context \<Rightarrow> mw_context" where
  "add_response_header_py name v c = c\<lparr>mc_response_headers := mc_response_headers c @ [(name, v)]\<rparr>"

definition set_state_py :: "string \<Rightarrow> state_value \<Rightarrow> mw_context \<Rightarrow> mw_context" where
  "set_state_py key v c =
     (let c = ensure_state c
      in case mc_state c of
           Some s \<Rightarrow> c\<lparr>mc_state := Some (s\<lparr>ms_values := AList.update key v (ms_values s)\<rparr>)\<rparr>
         | None \<Rightarrow> c)"

definition set_authenticated_py :: "string \<Rightarrow> string list \<Rightarrow> mw_context \<Rightarrow> mw_context" where
  "set_authenticated_py user roles c =
     (let c = ensure_state c
      in case mc_state c of
           Some s \<Rightarrow> c\<lparr>mc_state := Some (s\<lparr>ms_is_authenticated := True, ms_user_id := Some user, ms_roles := roles\<rparr>)\<rparr>
         | None \<Rightarrow> c)"

definition elapsed_seconds :: "instant \<Rightarrow> mw_context \<Rightarrow> real" where
  "elapsed_seconds now c = as_secs_f64 (elapsed now c)"

definition ctx_body :: "mw_context \<Rightarrow> string option" where
  "ctx_body c = mc_body c"

definition get_path :: "mw_context \<Rightarrow> string" where
  "get_path c = mc_path c"

definition get_query_string :: "mw_context \<Rightarrow> string" where
  "get_query_string c = mc_query_string c"

definition get_response_headers :: "mw_context \<Rightarrow> (string \<times> string) list" where
  "get_response_headers c = mc_response_headers c"

definition body_bytes :: "mw_context \<Rightarrow> string option" where
  "body_bytes c = mc_body c"

subsection \<open>Programs over the context\<close>

text \<open>The calls of a Python program on a context, in the order the class declares them.\<close>

datatype ctx_call =
    SetHeader string string | RemoveHeader string | GetQuery string | SetQuery string string | RemoveQuery string
  | SetParam string string | SetBody string | SetBodyStr string | ClearBody | SetPath string | SetQueryString string
  | AddResponseHeader string string | SetState string state_value | SetAuthenticated string "string list"

fun py_call :: "(string \<Rightarrow> params) \<Rightarrow> ctx_call \<Rightarrow> mw_context \<Rightarrow> mw_context" where
  "py_call form_parse (SetHeader n v) c = set_header_py n v c"
| "py_call form_parse (RemoveHeader n) c = snd (remove_header_py n c)"
| "py_call form_parse (GetQuery n) c = snd (get_query_py form_parse n c)"
| "py_call form_parse (SetQuery n v) c = set_query_py form_parse n v c"
| "py_call form_parse (RemoveQuery n) c = snd (remove_query_py form_parse n c)"
| "py_call form_parse (SetParam n v) c = set_param_py n v c"
| "py_call form_parse (SetBody b) c = set_body_py b c"
| "py_call form_parse (SetBodyStr b) c = set_body_str_py b c"
| "py_call form_parse ClearBody c = clear_body_py c"
| "py_call form_parse (SetPath p) c = set_path_py p c"
| "py_call form_parse (SetQueryString q) c = set_query_string_py q c"
| "py_call form_parse (AddResponseHeader n v) c = add_response_header_py n v c"
| "py_call form_parse (SetState k v) c = set_state_py k v c"
| "py_call form_parse (SetAuthenticated u r) c = set_authenticated_py u r c"

text \<open>The same calls on the Rust methods.\<close>

fun rust_call :: "(string \<Rightarrow> params) \<Rightarrow> ctx_call \<Rightarrow> mw_context \<Rightarrow> mw_context" where
  "rust_call form_parse (SetHeader n v) c = set_header n v c"
| "rust_call form_parse (RemoveHeader n) c = snd (remove_header n c)"
| "rust_call form_parse (GetQuery n) c = snd (get_query form_parse n c)"
| "rust_call form_parse (SetQuery n v) c = set_query form_parse n v c"
| "rust_call form_parse (RemoveQuery n) c = snd (remove_query form_parse n c)"
| "rust_call form_parse (SetParam n v) c = set_param n v c"
| "rust_call form_parse (SetBody b) c = set_body b c"
| "rust_call form_parse (SetBodyStr b) c = set_body_str b c"
| "rust_call form_parse ClearBody c = clear_body c"
| "rust_call form_parse (SetPath p) c = set_path p c"
| "rust_call form_parse (SetQueryString q) c = set_query_string q c"
| "rust_call form_parse (AddResponseHeader n v) c = add_response_header n v c"
| "rust_call form_parse (SetState k v) c = set_state k v c"
| "rust_call form_parse (SetAuthenticated u r) c = set_authenticated u r c"

definition py_script :: "(string \<Rightarrow> params) \<Rightarrow> ctx_call list \<Rightarrow> mw_context \<Rightarrow> mw_context" where
  "py_script form_parse = fold (py_call form_parse)"

lemma query_py_agrees:
  "get_query_py f n c = get_query f n c" "set_query_py f n v c = set_query f n v c"
  "remove_query_py f n c = remove_query f n c"
  by (auto simp: get_query_py_def get_query_def set_query_py_def set_query_def remove_query_py_def remove_query_def
      Let_def ensure_query_params_def split: option.split)

lemma state_py_agrees:
  "set_state_py k v c = set_state k v c" "set_authenticated_py u r c = set_authenticated u r c"
  by (auto simp: set_state_py_def set_state_def set_authenticated_py_def set_authenticated_def
      Let_def ensure_state_def split: option.split)

lemmas header_py_defs = set_header_py_def set_header_def remove_header_py_def remove_header_def
  set_param_py_def set_param_def set_body_py_def set_body_def set_body_str_py_def set_body_str_def
  clear_body_py_def clear_body_def set_path_py_def set_path_def set_query_string_py_def set_query_string_def
  add_response_header_py_def add_response_header_def

lemma py_call_rust: "py_call f k c = rust_call f k c"
  by (cases k) (simp_all add: query_py_agrees state_py_agrees header_py_defs)

lemma ctx_ext_query [simp]:
  "ctx_ext c (ensure_query_params f c)" "ctx_ext c (snd (get_query f n c))" "ctx_ext c (set_query f n v c)"
  "ctx_ext c (snd (remove_query f n c))"
  by (auto simp: ctx_ext_def ensure_query_params_def get_query_def set_query_def remove_query_def Let_def
      split: option.split)

lemma rust_call_ctx_ext: "ctx_ext c (rust_call f k c)"
  by (cases k) (simp_all, simp_all add: header_py_defs ctx_ext_def)

text \<open>
  The methods Python sees are the Rust methods again, written a second time, and they agree
  call by call. Whatever a Python program does to a context through them, it cannot change the
  request's method, id or start time, and cannot take back a response header that was added
  before: a middleware written in Python meets the contract the chain relies on.
\<close>

theorem python_context_programs:
  "py_script f ks c = fold (rust_call f) ks c \<and>
   mc_method (py_script f ks c) = mc_method c \<and> mc_request_id (py_script f ks c) = mc_request_id c \<and>
   mc_start_time (py_script f ks c) = mc_start_time c \<and>
   prefix (mc_response_headers c) (mc_response_headers (py_script f ks c))"
proof -
  have "py_call f = rust_call f" by (intro ext) (rule py_call_rust)
  then have eq: "py_script f ks c = fold (rust_call f) ks c" by (simp add: py_script_def)
  have "ctx_ext c (fold (rust_call f) ks c)"
    by (induction ks arbitrary: c) (auto intro: ctx_ext_trans [OF rust_call_ctx_ext])
  then show ?thesis unfolding eq by (simp add: ctx_ext_def)
qed

text \<open>A value written by a program is what later readers see, under any spelling of a header name.\<close>

lemma py_reads_writes:
  "get_header_py n' (set_header_py n v c) = (if to_lower n' = to_lower n then Some v else get_header_py n' c)"
  "fst (get_query_py f q' (set_query_py f q v c)) = (if q' = q then Some v else fst (get_query_py f q' c))"
  "get_state (set_state_py k x c) k' = (if k' = k then Some x else get_state c k')"
  "body_bytes (set_body_py b c) = Some b" "body_bytes (set_body_str_py b c) = Some b" "body_bytes (clear_body_py c) = None"
  by (simp_all add: get_header_py_def set_header_py_def query_py_agrees state_py_agrees get_query_set_query body_bytes_def
      header_py_defs)

lemma response_py_agrees:
  "with_status_py s r = with_status s r" "with_header_py k v r = with_header k v r" "with_body_py b r = with_body b r"
  "with_json_body_py b r = with_json_body b r" "with_text_body_py b r = with_text_body b r"
  by (simp_all add: mresp_defs with_status_py_def with_header_py_def with_body_py_def with_json_body_py_def
      with_text_body_py_def)

subsection \<open>Boxed middleware and the builder\<close>

definition use_before_boxed :: "'w middleware \<Rightarrow> 'w chain \<Rightarrow> 'w chain" where
  "use_before_boxed m ch = ch\<lparr>ch_before := ch_before ch @ [m]\<rparr>"

definition use_after_boxed :: "'w middleware \<Rightarrow> 'w chain \<Rightarrow> 'w chain" where
  "use_after_boxed m ch = ch\<lparr>ch_after := ch_after ch @ [m]\<rparr>"

record 'w chain_builder =
  cbu_chain :: "'w chain"

definition builder_new :: "'w chain_builder" where
  "builder_new = \<lparr>cbu_chain = chain_new\<rparr>"

definition builder_before :: "'w middleware \<Rightarrow> 'w chain_builder \<Rightarrow> 'w chain_builder" where
  "builder_before m b = b\<lparr>cbu_chain := use_before m (cbu_chain b)\<rparr>"

definition builder_after :: "'w middleware \<Rightarrow> 'w chain_builder \<Rightarrow> 'w chain_builder" where
  "builder_after m b = b\<lparr>cbu_chain := use_after m (cbu_chain b)\<rparr>"

definition builder_error :: "'w middleware \<Rightarrow> 'w chain_builder \<Rightarrow> 'w chain_builder" where
  "builder_error m b = b\<lparr>cbu_chain := use_error m (cbu_chain b)\<rparr>"

definition build :: "'w chain_builder \<Rightarrow> 'w chain" where
  "build b = cbu_chain b"

text \<open>A builder expression, as its calls in order.\<close>

datatype 'w build_call = Before "'w middleware" | After "'w middleware" | OnError "'w middleware"

fun build_step :: "'w build_call \<Rightarrow> 'w chain_builder \<Rightarrow> 'w chain_builder" where
  "build_step (Before m) b = builder_before m b"
| "build_step (After m) b = builder_after m b"
| "build_step (OnError m) b = builder_error m b"

lemma fold_build_step:
  "cbu_chain (fold build_step ks b) =
   \<lparr>ch_before = ch_before (cbu_chain b) @ concat (map (\<lambda>k. case k of Before m \<Rightarrow> [m] | _ \<Rightarrow> []) ks),
    ch_after = ch_after (cbu_chain b) @ concat (map (\<lambda>k. case k of After m \<Rightarrow> [m] | _ \<Rightarrow> []) ks),
    ch_error_handlers = ch_error_handlers (cbu_chain b) @ concat (map (\<lambda>k. case k of OnError m \<Rightarrow> [m] | _ \<Rightarrow> []) ks)\<rparr>"
proof (induction ks arbitrary: b)
  case (Cons k ks)
  show ?case
    by (cases k) (simp_all add: Cons builder_before_def builder_after_def builder_error_def use_before_def use_after_def
        use_error_def)
qed simp

text \<open>
  A built chain holds exactly the middleware of the builder's calls, each phase in the order of
  its own calls, however the calls of different phases are interleaved.
\<close>

lemma build_phases:
  "build (fold build_step ks builder_new) =
   \<lparr>ch_before = concat (map (\<lambda>k. case k of Before m \<Rightarrow> [m] | _ \<Rightarrow> []) ks),
    ch_after = concat (map (\<lambda>k. case k of After m \<Rightarrow> [m] | _ \<Rightarrow> []) ks),
    ch_error_handlers = concat (map (\<lambda>k. case k of OnError m \<Rightarrow> [m] | _ \<Rightarrow> []) ks)\<rparr>"
  by (simp add: build_def fold_build_step builder_new_def chain_new_def)

end
