(* ===== verification/Http_Request.thy ===== *)
theory Http_Request
  imports Http_Method Multipart
begin

text \<open>
  Requests (\<open>src/http/request.rs\<close>): lazily parsed query parameters, the request with its content
  negotiation, proxy, cookie and form accessors, and the conversion from an axum request. The
  crates \<open>percent_encoding\<close>, \<open>form_urlencoded\<close>, \<open>xxhash\<close> and axum's \<open>to_bytes\<close> are parameters.
  The accessors behind locks return the request with its cache updated.
\<close>

unbundle bit_operations_syntax

subsection \<open>Query parameters\<close>

record query_params =
  qp_raw :: string
  qp_parsed :: "params option"

definition qp_new :: "string \<Rightarrow> query_params" where
  "qp_new raw = \<lparr>qp_raw = raw, qp_parsed = None\<rparr>"

definition qp_parse :: "(string \<Rightarrow> params) \<Rightarrow> query_params \<Rightarrow> params \<times> query_params" where
  "qp_parse form_parse qp =
     (case qp_parsed qp of
        Some m \<Rightarrow> (m, qp)
      | None \<Rightarrow>
          (let m = (if qp_raw qp = [] then []
                    else fold (\<lambda>(k, v) m. AList.update k v m) (form_parse (qp_raw qp)) [])
           in (m, qp\<lparr>qp_parsed := Some m\<rparr>)))"

definition qp_get :: "(string \<Rightarrow> params) \<Rightarrow> string \<Rightarrow> query_params \<Rightarrow> string option \<times> query_params" where
  "qp_get form_parse key qp = (case qp_parse form_parse qp of (m, qp') \<Rightarrow> (map_of m key, qp'))"

subsection \<open>The request\<close>

record request =
  rq_path :: string
  rq_method :: http_method
  rq_headers :: header_map
  rq_query_string :: string
  rq_query_params :: query_params
  rq_path_params :: params
  rq_body :: "string option"
  rq_route_hash :: u64

text \<open>\<open>method as u64\<close>: the discriminants of the enum, in order of declaration.\<close>

fun method_index :: "http_method \<Rightarrow> u64" where
  "method_index GET = 0"
| "method_index POST = 1"
| "method_index PUT = 2"
| "method_index DELETE = 3"
| "method_index PATCH = 4"
| "method_index HEAD = 5"
| "method_index OPTIONS = 6"
| "method_index CONNECT = 7"
| "method_index TRACE = 8"

definition request_new ::
  "(string \<Rightarrow> u64) \<Rightarrow> string \<Rightarrow> http_method \<Rightarrow> header_map \<Rightarrow> string \<Rightarrow> string option \<Rightarrow> request" where
  "request_new xxh3_64 path meth headers query_string body =
     \<lparr>rq_path = path, rq_method = meth, rq_headers = headers, rq_query_string = query_string,
      rq_query_params = qp_new query_string, rq_path_params = [], rq_body = body,
      rq_route_hash = xxh3_64 path XOR method_index meth\<rparr>"

definition set_path_params :: "params \<Rightarrow> request \<Rightarrow> request" where
  "set_path_params ps r = r\<lparr>rq_path_params := ps\<rparr>"

definition rq_take_body :: "request \<Rightarrow> string option \<times> request" where
  "rq_take_body r = (rq_body r, r\<lparr>rq_body := None\<rparr>)"

definition headers_map :: "request \<Rightarrow> params" where
  "headers_map r = rq_headers r"

definition py_query_params :: "(string \<Rightarrow> params) \<Rightarrow> request \<Rightarrow> params \<times> request" where
  "py_query_params form_parse r =
     (case qp_parse form_parse (rq_query_params r) of (m, qp) \<Rightarrow> (m, r\<lparr>rq_query_params := qp\<rparr>))"

definition query :: "(string \<Rightarrow> params) \<Rightarrow> string \<Rightarrow> request \<Rightarrow> string option \<times> request" where
  "query form_parse name r =
     (case qp_get form_parse name (rq_query_params r) of (v, qp) \<Rightarrow> (v, r\<lparr>rq_query_params := qp\<rparr>))"

definition rq_param :: "request \<Rightarrow> string \<Rightarrow> string option" where
  "rq_param r name = map_of (rq_path_params r) name"

definition rq_header :: "request \<Rightarrow> string \<Rightarrow> string option" where
  "rq_header r name = header_get (rq_headers r) name"

definition accept_type :: "string \<Rightarrow> string" where
  "accept_type t =
     (let l = to_lower t in
      if l = ''html'' then ''text/html'' else if l = ''json'' then ''application/json''
      else if l = ''xml'' then ''application/xml'' else if l = ''text'' then ''text/plain'' else t)"

definition accepts :: "request \<Rightarrow> string list \<Rightarrow> string option" where
  "accepts r types =
     (case rq_header r ''accept'' of
        None \<Rightarrow> None
      | Some accept \<Rightarrow>
          find (\<lambda>t. contains_sub accept (accept_type t) \<or> contains_sub accept ''*/*'') types)"

definition accepts_json :: "request \<Rightarrow> bool" where
  "accepts_json r = (accepts r [''json''] \<noteq> None)"

definition accepts_html :: "request \<Rightarrow> bool" where
  "accepts_html r = (accepts r [''html''] \<noteq> None)"

definition ips :: "request \<Rightarrow> string list" where
  "ips r = (case rq_header r ''x-forwarded-for'' of
              Some fwd \<Rightarrow> map trim (split_on (CHR '','') fwd) | None \<Rightarrow> [])"

definition ip :: "request \<Rightarrow> string option" where
  "ip r =
     (case rq_header r ''x-forwarded-for'' of
        Some fwd \<Rightarrow> Some (trim (hd (split_on (CHR '','') fwd)))
      | None \<Rightarrow> rq_header r ''x-real-ip'')"

definition xhr :: "request \<Rightarrow> bool" where
  "xhr r = (case rq_header r ''x-requested-with'' of
              Some v \<Rightarrow> to_lower v = ''xmlhttprequest'' | None \<Rightarrow> False)"

definition secure :: "request \<Rightarrow> bool" where
  "secure r = (case rq_header r ''x-forwarded-proto'' of
                 Some proto \<Rightarrow> to_lower proto = ''https'' | None \<Rightarrow> False)"

definition hostname :: "request \<Rightarrow> string option" where
  "hostname r = map_option (\<lambda>h. hd (split_on (CHR '':'') h)) (rq_header r ''host'')"

definition subdomains :: "request \<Rightarrow> string list" where
  "subdomains r =
     (case hostname r of
        None \<Rightarrow> []
      | Some h \<Rightarrow>
          (let parts = split_on (CHR ''.'') h in
           if length parts > 2 then take (length parts - 2) parts else []))"

definition url :: "request \<Rightarrow> string" where
  "url r = (if rq_query_string r = [] then rq_path r else rq_path r @ ''?'' @ rq_query_string r)"

definition protocol :: "request \<Rightarrow> string" where
  "protocol r = (if secure r then ''https'' else ''http'')"

definition fresh :: "request \<Rightarrow> string option \<Rightarrow> string option \<Rightarrow> bool" where
  "fresh r etag last_mod =
     ((case (rq_header r ''if-none-match'', etag) of
         (Some inm, Some e) \<Rightarrow> inm = e \<or> inm = ''*'' | _ \<Rightarrow> False) \<or>
      (case (rq_header r ''if-modified-since'', last_mod) of
         (Some ims, Some lm) \<Rightarrow> ims = lm | _ \<Rightarrow> False))"

definition stale :: "request \<Rightarrow> string option \<Rightarrow> string option \<Rightarrow> bool" where
  "stale r etag last_mod = (\<not> fresh r etag last_mod)"

fun find_cookie :: "string \<Rightarrow> string list \<Rightarrow> string option" where
  "find_cookie name [] = None"
| "find_cookie name (c # cs) =
     (case split_once (CHR ''='') (trim c) of
        Some (k, v) \<Rightarrow> if k = name then Some v else find_cookie name cs
      | None \<Rightarrow> find_cookie name cs)"

definition rq_cookie :: "request \<Rightarrow> string \<Rightarrow> string option" where
  "rq_cookie r name =
     (case rq_header r ''cookie'' of
        None \<Rightarrow> None | Some cs \<Rightarrow> find_cookie name (split_on (CHR '';'') cs))"

definition cookies :: "request \<Rightarrow> params" where
  "cookies r =
     (case rq_header r ''cookie'' of
        None \<Rightarrow> []
      | Some cs \<Rightarrow>
          fold (\<lambda>c m. case split_once (CHR ''='') (trim c) of
                        Some (k, v) \<Rightarrow> AList.update k v m | None \<Rightarrow> m)
            (split_on (CHR '';'') cs) [])"

definition body_bytes :: "request \<Rightarrow> string" where
  "body_bytes r = (case rq_body r of Some b \<Rightarrow> b | None \<Rightarrow> [])"

definition rq_content_type :: "request \<Rightarrow> string option" where
  "rq_content_type r = rq_header r ''content-type''"

definition is_content_type :: "request \<Rightarrow> string \<Rightarrow> bool" where
  "is_content_type r t =
     (case rq_content_type r of Some ct \<Rightarrow> contains_sub (to_lower ct) (to_lower t) | None \<Rightarrow> False)"

definition is_json :: "request \<Rightarrow> bool" where
  "is_json r = is_content_type r ''application/json''"

definition is_form :: "request \<Rightarrow> bool" where
  "is_form r = is_content_type r ''application/x-www-form-urlencoded''"

definition is_multipart :: "request \<Rightarrow> bool" where
  "is_multipart r = is_content_type r ''multipart/''"

definition rq_form :: "(string \<Rightarrow> params) \<Rightarrow> request \<Rightarrow> string + form_data" where
  "rq_form form_parse r =
     (case rq_body r of
        None \<Rightarrow> Err ''No body data available''
      | Some body \<Rightarrow>
          (let ct = (case rq_content_type r of Some t \<Rightarrow> t | None \<Rightarrow> []) in
           if contains_sub ct ''multipart/form-data'' then
             (case extract_boundary ct of
                Some boundary \<Rightarrow> Ok (parse_multipart body boundary)
              | None \<Rightarrow> Err ''Missing boundary in multipart content-type'')
           else if contains_sub ct ''application/x-www-form-urlencoded'' then
             Ok (fold (\<lambda>(k, v) fd. add_field k v fd) (form_parse (utf8_lossy body)) form_new)
           else Err ''Request content-type is not form data''))"

definition rq_file :: "(string \<Rightarrow> params) \<Rightarrow> request \<Rightarrow> string \<Rightarrow> string + uploaded_file option" where
  "rq_file form_parse r name = (case rq_form form_parse r of Err e \<Rightarrow> Err e | Ok fd \<Rightarrow> Ok (form_file fd name))"

definition rq_files :: "(string \<Rightarrow> params) \<Rightarrow> request \<Rightarrow> string + uploaded_file list" where
  "rq_files form_parse r = (case rq_form form_parse r of Err e \<Rightarrow> Err e | Ok fd \<Rightarrow> Ok (all_files fd))"

subsection \<open>From the wire\<close>

text \<open>
  An axum request as \<open>from_axum\<close> reads it: the method's name, path and query of the URI (absent for
  URIs in authority form), the headers with their \<open>to_str\<close> results, the body stream. \<open>to_bytes\<close>
  collects a body up to a limit and fails beyond it.
\<close>

record 'b axum_request =
  ar_method :: string
  ar_path_query :: "(string \<times> string option) option"
  ar_headers :: "(string \<times> string option) list"
  ar_body :: 'b

record 'b web_libs =
  percent_decode :: "string \<Rightarrow> string"
  form_parse :: "string \<Rightarrow> params"
  xxh3_64 :: "string \<Rightarrow> u64"
  to_bytes :: "'b \<Rightarrow> nat \<Rightarrow> string option"

text \<open>\<open>str::parse::<usize>\<close>: digits with an optional plus sign, below \<open>2^64\<close>.\<close>

definition parse_usize :: "string \<Rightarrow> nat option" where
  "parse_usize s =
     (let d = (case strip_prefix s ''+'' of Some t \<Rightarrow> t | None \<Rightarrow> s) in
      if d \<noteq> [] \<and> list_all (\<lambda>c. 48 \<le> (of_char c :: nat) \<and> of_char c \<le> (57 :: nat)) d \<and> read_dec d < 2 ^ 64
      then Some (read_dec d) else None)"

text \<open>\<open>http::HeaderMap::get\<close> returns the first value of a name; a value that is not text gives none.\<close>

definition content_length_positive :: "(string \<times> string option) list \<Rightarrow> bool" where
  "content_length_positive hs =
     (case find (\<lambda>(k, v). to_lower k = ''content-length'') hs of
        Some (_, Some v) \<Rightarrow> (case parse_usize v of Some n \<Rightarrow> n > 0 | None \<Rightarrow> False)
      | _ \<Rightarrow> False)"

definition max_body :: nat where
  "max_body = 10 * 1024 * 1024"

definition decode_path :: "'b web_libs \<Rightarrow> string \<Rightarrow> string" where
  "decode_path lib raw = (if CHR ''%'' \<in> set raw then utf8_lossy (percent_decode lib raw) else raw)"

definition request_from_axum :: "'b web_libs \<Rightarrow> 'b axum_request \<Rightarrow> request" where
  "request_from_axum lib req =
     (let (path, qs) =
            (case ar_path_query req of
               None \<Rightarrow> (''/'', [])
             | Some (raw, q) \<Rightarrow> (decode_path lib raw, case q of Some s \<Rightarrow> s | None \<Rightarrow> []));
          meth = from_axum (ar_method req);
          headers = header_from_axum (ar_headers req);
          body = (if meth \<in> {GET, HEAD, OPTIONS, DELETE} \<and> \<not> content_length_positive (ar_headers req)
                  then None else to_bytes lib (ar_body req) max_body)
      in request_new (xxh3_64 lib) path meth headers qs body)"

subsection \<open>Laws\<close>

lemma qp_parse_stable: "qp_parse fp (snd (qp_parse fp qp)) = (fst (qp_parse fp qp), snd (qp_parse fp qp))"
  by (simp add: qp_parse_def Let_def split: option.split)

text \<open>Reading a query parameter does not change what later reads return.\<close>

lemma query_stable: "fst (query fp n (snd (query fp m r))) = fst (query fp n r)"
  using qp_parse_stable [of fp "rq_query_params r"]
  by (simp add: query_def qp_get_def split_beta)

lemma ip_first: "ip r = (case ips r of x # _ \<Rightarrow> Some x | [] \<Rightarrow> rq_header r ''x-real-ip'')"
proof (cases "rq_header r ''x-forwarded-for''")
  case (Some fwd)
  then show ?thesis by (cases "split_on (CHR '','') fwd") (simp_all add: ip_def ips_def)
qed (simp add: ip_def ips_def)

text \<open>The cookie pairs of a request in the order of the header.\<close>

definition cookie_pairs :: "request \<Rightarrow> params" where
  "cookie_pairs r =
     (case rq_header r ''cookie'' of
        None \<Rightarrow> [] | Some cs \<Rightarrow> List.map_filter (\<lambda>c. split_once (CHR ''='') (trim c)) (split_on (CHR '';'') cs))"

lemma find_cookie_pairs:
  "find_cookie n cs = map_of (List.map_filter (\<lambda>c. split_once (CHR ''='') (trim c)) cs) n"
  by (induction cs) (auto simp: List.map_filter_simps split: option.split)

lemma fold_cookie_pairs:
  "map_of (fold (\<lambda>c m. case split_once (CHR ''='') (trim c) of Some (k, v) \<Rightarrow> AList.update k v m | None \<Rightarrow> m) cs m) n =
   (case map_of (rev (List.map_filter (\<lambda>c. split_once (CHR ''='') (trim c)) cs)) n of Some v \<Rightarrow> Some v | None \<Rightarrow> map_of m n)"
  by (induction cs arbitrary: m) (auto simp: List.map_filter_simps map_add_def split: option.split)

text \<open>
  The two cookie readers: \<open>cookie\<close> returns the first value sent under a name and
  \<open>cookies\<close> holds the last one, so they agree on every name exactly as long as no name is sent
  twice with different values; both know exactly the names sent.
\<close>

theorem cookie_first_cookies_last:
  "rq_cookie r n = map_of (cookie_pairs r) n \<and>
   map_of (cookies r) n = map_of (rev (cookie_pairs r)) n \<and>
   (rq_cookie r n = None \<longleftrightarrow> map_of (cookies r) n = None)"
proof -
  have "rq_cookie r n = map_of (cookie_pairs r) n"
    by (simp add: rq_cookie_def cookie_pairs_def find_cookie_pairs split: option.split)
  moreover have "map_of (cookies r) n = map_of (rev (cookie_pairs r)) n"
    by (simp add: cookies_def cookie_pairs_def fold_cookie_pairs split: option.split)
  ultimately show ?thesis by (simp add: map_of_eq_None_iff)
qed

lemma cookie_differs_from_cookies:
  "rq_header r ''cookie'' = Some ''a=1; a=2'' \<Longrightarrow> rq_cookie r ''a'' = Some ''1'' \<and> map_of (cookies r) ''a'' = Some ''2''"
  by (simp add: rq_cookie_def cookies_def trim_by_def trim_start_by_def trim_end_by_def is_ws_def)

text \<open>A method outside the nine standard ones reads as \<^const>\<open>GET\<close>.\<close>

lemma extension_method_is_get: "from_bytes (ar_method req) = None \<Longrightarrow> rq_method (request_from_axum lib req) = GET"
  by (simp add: request_from_axum_def from_axum_def request_new_def split_beta Let_def)

end
