(* ===== verification/Sse.thy ===== *)
theory Sse
  imports Prelude
begin

text \<open>
  Server-sent events and streaming bodies (\<open>src/http/streaming.rs\<close>). The bounded channel
  \<open>tokio::sync::mpsc\<close> is a library: its operations are the fields of a record. The wire format is
  checked against a parser that follows the event-stream rules of the HTML standard.
\<close>

subsection \<open>SSEEvent\<close>

record sse_event =
  ev_id :: "string option"
  ev_event :: "string option"
  ev_data :: string
  ev_retry :: "nat option"

definition sse_event_new :: "string \<Rightarrow> string option \<Rightarrow> string option \<Rightarrow> nat option \<Rightarrow> sse_event" where
  "sse_event_new d i e r = \<lparr>ev_id = i, ev_event = e, ev_data = d, ev_retry = r\<rparr>"

definition strip_cr :: "string \<Rightarrow> string" where
  "strip_cr l = (if l \<noteq> [] \<and> last l = CHR 0x0D then butlast l else l)"

text \<open>\<open>str::lines\<close>: split at newlines, drop a final empty line and one carriage return per line.\<close>

definition rust_lines :: "string \<Rightarrow> string list" where
  "rust_lines s =
     (let ps = split_on (CHR 0x0A) s
      in map strip_cr (if last ps = [] then butlast ps else ps))"

definition sse_format :: "sse_event \<Rightarrow> string" where
  "sse_format e =
     (case ev_id e of Some i \<Rightarrow> ''id: '' @ i @ [CHR 0x0A] | None \<Rightarrow> []) @
     (case ev_event e of Some n \<Rightarrow> ''event: '' @ n @ [CHR 0x0A] | None \<Rightarrow> []) @
     (case ev_retry e of Some r \<Rightarrow> ''retry: '' @ show_nat r @ [CHR 0x0A] | None \<Rightarrow> []) @
     concat (map (\<lambda>line. ''data: '' @ line @ [CHR 0x0A]) (rust_lines (ev_data e))) @
     [CHR 0x0A]"

definition sse_comment :: "string \<Rightarrow> string" where
  "sse_comment text = '': '' @ text @ [CHR 0x0A, CHR 0x0A]"

definition sse_data :: "string \<Rightarrow> sse_event" where
  "sse_data d = \<lparr>ev_id = None, ev_event = None, ev_data = d, ev_retry = None\<rparr>"

definition sse_named :: "string \<Rightarrow> string \<Rightarrow> sse_event" where
  "sse_named n d = \<lparr>ev_id = None, ev_event = Some n, ev_data = d, ev_retry = None\<rparr>"

definition sse_headers :: "(string \<times> string) list" where
  "sse_headers =
     [(''Content-Type'', ''text/event-stream''), (''Cache-Control'', ''no-cache''),
      (''Connection'', ''keep-alive''), (''X-Accel-Buffering'', ''no'')]"

subsection \<open>SSEStream and StreamingResponse\<close>

record 'q mpsc =
  mp_channel :: "nat \<Rightarrow> 'q"
  mp_drop_receiver :: "'q \<Rightarrow> 'q"
  mp_try_send :: "string \<Rightarrow> 'q \<Rightarrow> bool \<times> 'q"
  mp_poll_recv :: "'q \<Rightarrow> string option option \<times> 'q"

record 'q sse_stream =
  st_sender :: 'q
  st_closed :: bool
  st_event_count :: u64

text \<open>\<open>py_new\<close> binds the receiver to an unused name, so it is dropped before the call returns.\<close>

definition sse_stream_py_new :: "'q mpsc \<Rightarrow> nat \<Rightarrow> 'q sse_stream" where
  "sse_stream_py_new mp n =
     \<lparr>st_sender = mp_drop_receiver mp (mp_channel mp n), st_closed = False, st_event_count = 0\<rparr>"

definition sse_body_new :: "'q mpsc \<Rightarrow> nat \<Rightarrow> 'q sse_stream" where
  "sse_body_new mp n = \<lparr>st_sender = mp_channel mp n, st_closed = False, st_event_count = 0\<rparr>"

definition sse_send :: "'q mpsc \<Rightarrow> sse_event \<Rightarrow> 'q sse_stream \<Rightarrow> bool \<times> 'q sse_stream" where
  "sse_send mp e st =
     (if st_closed st then (False, st)
      else case mp_try_send mp (sse_format e) (st_sender st) of
             (True, q) \<Rightarrow> (True, st\<lparr>st_sender := q, st_event_count := st_event_count st + 1\<rparr>)
           | (False, q) \<Rightarrow> (False, st\<lparr>st_sender := q\<rparr>))"

definition sse_send_data :: "'q mpsc \<Rightarrow> string \<Rightarrow> 'q sse_stream \<Rightarrow> bool \<times> 'q sse_stream" where
  "sse_send_data mp d st = sse_send mp (sse_data d) st"

definition sse_send_event :: "'q mpsc \<Rightarrow> string \<Rightarrow> string \<Rightarrow> 'q sse_stream \<Rightarrow> bool \<times> 'q sse_stream" where
  "sse_send_event mp n d st = sse_send mp (sse_named n d) st"

definition keepalive :: "'q mpsc \<Rightarrow> 'q sse_stream \<Rightarrow> bool \<times> 'q sse_stream" where
  "keepalive mp st =
     (if st_closed st then (False, st)
      else let (ok, q) = mp_try_send mp (sse_comment ''keepalive'') (st_sender st)
           in (ok, st\<lparr>st_sender := q\<rparr>))"

definition sse_close :: "'q sse_stream \<Rightarrow> 'q sse_stream" where
  "sse_close st = st\<lparr>st_closed := True\<rparr>"

text \<open>\<open>poll_next\<close>: \<open>None\<close> is pending, \<open>Some None\<close> the end of the stream.\<close>

definition body_poll_next :: "'q mpsc \<Rightarrow> 'q sse_stream \<Rightarrow> string option option \<times> 'q sse_stream" where
  "body_poll_next mp st =
     (if st_closed st then (Some None, st)
      else let (r, q) = mp_poll_recv mp (st_sender st) in (r, st\<lparr>st_sender := q\<rparr>))"

record 'q streaming_response =
  sr_sender :: 'q
  sr_closed :: bool
  sr_content_type :: string

definition streaming_py_new :: "'q mpsc \<Rightarrow> string \<Rightarrow> nat \<Rightarrow> 'q streaming_response" where
  "streaming_py_new mp ct n =
     \<lparr>sr_sender = mp_drop_receiver mp (mp_channel mp n), sr_closed = False, sr_content_type = ct\<rparr>"

definition streaming_body_new :: "'q mpsc \<Rightarrow> nat \<Rightarrow> string \<Rightarrow> 'q streaming_response" where
  "streaming_body_new mp n ct = \<lparr>sr_sender = mp_channel mp n, sr_closed = False, sr_content_type = ct\<rparr>"

definition stream_write :: "'q mpsc \<Rightarrow> string \<Rightarrow> 'q streaming_response \<Rightarrow> bool \<times> 'q streaming_response" where
  "stream_write mp d sr =
     (if sr_closed sr then (False, sr)
      else let (ok, q) = mp_try_send mp d (sr_sender sr) in (ok, sr\<lparr>sr_sender := q\<rparr>))"

definition write_line :: "'q mpsc \<Rightarrow> string \<Rightarrow> 'q streaming_response \<Rightarrow> bool \<times> 'q streaming_response" where
  "write_line mp d sr = stream_write mp (d @ [CHR 0x0A]) sr"

definition write_str :: "'q mpsc \<Rightarrow> string \<Rightarrow> 'q streaming_response \<Rightarrow> bool \<times> 'q streaming_response" where
  "write_str mp d sr = stream_write mp d sr"

definition stream_close :: "'q streaming_response \<Rightarrow> 'q streaming_response" where
  "stream_close sr = sr\<lparr>sr_closed := True\<rparr>"

definition stream_poll_next :: "'q mpsc \<Rightarrow> 'q streaming_response \<Rightarrow> string option option \<times> 'q streaming_response" where
  "stream_poll_next mp sr =
     (if sr_closed sr then (Some None, sr)
      else let (r, q) = mp_poll_recv mp (sr_sender sr) in (r, sr\<lparr>sr_sender := q\<rparr>))"

definition sse_is_closed :: "'q sse_stream \<Rightarrow> bool" where
  "sse_is_closed st = st_closed st"

definition sse_event_count :: "'q sse_stream \<Rightarrow> u64" where
  "sse_event_count st = st_event_count st"

definition stream_is_closed :: "'q streaming_response \<Rightarrow> bool" where
  "stream_is_closed sr = sr_closed sr"

definition stream_content_type :: "'q streaming_response \<Rightarrow> string" where
  "stream_content_type sr = sr_content_type sr"

record sse_generator =
  sg_exhausted :: bool
  sg_event_count :: u64

definition sse_generator_new :: sse_generator where
  "sse_generator_new = \<lparr>sg_exhausted = False, sg_event_count = 0\<rparr>"

subsection \<open>A parser for the wire format\<close>

text \<open>
  The event-stream parser of the HTML standard. A leading byte order mark is dropped. Lines end at LF, CR or
  CRLF; an unterminated last line is pending data and is discarded.
\<close>

definition strip_bom :: "string \<Rightarrow> string" where
  "strip_bom s = (if take 3 s = [CHR 0xEF, CHR 0xBB, CHR 0xBF] then drop 3 s else s)"

fun es_lines :: "string \<Rightarrow> string \<Rightarrow> string list" where
  "es_lines cur [] = []"
| "es_lines cur (c # s) =
     (if c = CHR 0x0A then cur # es_lines [] s
      else if c = CHR 0x0D then
        (case s of
           [] \<Rightarrow> [cur]
         | d # s' \<Rightarrow> if d = CHR 0x0A then cur # es_lines [] s' else cur # es_lines [] s)
      else es_lines (cur @ [c]) s)"

text \<open>The buffers of the parser and what it has dispatched: type, data and last event id of each message.\<close>

type_synonym sse_message = "string \<times> string \<times> string"

record sse_state =
  ss_data :: string
  ss_type :: string
  ss_last_id :: string
  ss_retry :: "nat option"
  ss_messages :: "sse_message list"

definition sse_start :: sse_state where
  "sse_start = \<lparr>ss_data = [], ss_type = [], ss_last_id = [], ss_retry = None, ss_messages = []\<rparr>"

text \<open>A field: an id with a NUL and a retry time that is not all digits are ignored, as are unknown fields.\<close>

definition process_field :: "string \<Rightarrow> string \<Rightarrow> sse_state \<Rightarrow> sse_state" where
  "process_field n v st =
     (if n = ''event'' then st\<lparr>ss_type := v\<rparr>
      else if n = ''data'' then st\<lparr>ss_data := ss_data st @ v @ [CHR 0x0A]\<rparr>
      else if n = ''id'' then (if CHR 0x00 \<in> set v then st else st\<lparr>ss_last_id := v\<rparr>)
      else if n = ''retry''
      then (if v \<noteq> [] \<and> list_all (\<lambda>c. 48 \<le> (of_char c :: nat) \<and> of_char c \<le> (57 :: nat)) v
            then st\<lparr>ss_retry := Some (read_dec v)\<rparr> else st)
      else st)"

definition field_value :: "string \<Rightarrow> string" where
  "field_value v = (case v of c # r \<Rightarrow> if c = CHR '' '' then r else v | [] \<Rightarrow> [])"

text \<open>A blank line dispatches the message, unless there is no data; a line that begins with a colon is a comment.\<close>

definition dispatch :: "sse_state \<Rightarrow> sse_state" where
  "dispatch st =
     (if ss_data st = [] then st\<lparr>ss_type := []\<rparr>
      else st\<lparr>ss_data := [], ss_type := [],
              ss_messages := ss_messages st @
                [(if ss_type st = [] then ''message'' else ss_type st,
                  if last (ss_data st) = CHR 0x0A then butlast (ss_data st) else ss_data st, ss_last_id st)]\<rparr>)"

definition process_line :: "string \<Rightarrow> sse_state \<Rightarrow> sse_state" where
  "process_line line st =
     (if line = [] then dispatch st
      else if hd line = CHR '':'' then st
      else case split_once (CHR '':'') line of
             Some (n, v) \<Rightarrow> process_field n (field_value v) st
           | None \<Rightarrow> process_field line [] st)"

definition sse_parse :: "string \<Rightarrow> sse_state" where
  "sse_parse s = fold process_line (es_lines [] (strip_bom s)) sse_start"

subsection \<open>Round trip\<close>

text \<open>What a stream sends, event by event: an event, or a keepalive comment.\<close>

definition sse_item :: "sse_event option \<Rightarrow> string" where
  "sse_item i = (case i of Some e \<Rightarrow> sse_format e | None \<Rightarrow> sse_comment ''keepalive'')"

definition sse_lines :: "sse_event \<Rightarrow> string list" where
  "sse_lines e =
     (case ev_id e of Some i \<Rightarrow> [''id: '' @ i] | None \<Rightarrow> []) @
     (case ev_event e of Some n \<Rightarrow> [''event: '' @ n] | None \<Rightarrow> []) @
     (case ev_retry e of Some r \<Rightarrow> [''retry: '' @ show_nat r] | None \<Rightarrow> []) @
     map (\<lambda>l. ''data: '' @ l) (rust_lines (ev_data e))"

definition item_lines :: "sse_event option \<Rightarrow> string list" where
  "item_lines i = (case i of Some e \<Rightarrow> sse_lines e | None \<Rightarrow> ['': keepalive'']) @ [[]]"

lemma sse_item_lines: "sse_item i = concat (map (\<lambda>l. l @ [CHR 0x0A]) (item_lines i))"
  by (simp add: sse_item_def item_lines_def sse_format_def sse_comment_def sse_lines_def comp_def split: option.split)

text \<open>The text an event is made of: one line in the id and the name, no NUL in the id, plain lines in the data.\<close>

definition one_line :: "string \<Rightarrow> bool" where
  "one_line s = (CHR 0x0A \<notin> set s \<and> CHR 0x0D \<notin> set s)"

definition sse_clean :: "sse_event \<Rightarrow> bool" where
  "sse_clean e =
     ((case ev_id e of Some i \<Rightarrow> one_line i \<and> CHR 0x00 \<notin> set i | None \<Rightarrow> True) \<and>
      (case ev_event e of Some n \<Rightarrow> one_line n | None \<Rightarrow> True) \<and>
      ev_data e \<noteq> [] \<and> last (ev_data e) \<noteq> CHR 0x0A \<and> CHR 0x0D \<notin> set (ev_data e))"

text \<open>The messages a client is to see: the id of an event without one is that of the last event that had one.\<close>

fun messages_of :: "string \<Rightarrow> sse_event option list \<Rightarrow> sse_message list" where
  "messages_of last_id [] = []"
| "messages_of last_id (None # is) = messages_of last_id is"
| "messages_of last_id (Some e # is) =
     (let i = (case ev_id e of Some x \<Rightarrow> x | None \<Rightarrow> last_id)
      in (case ev_event e of Some n \<Rightarrow> if n = [] then ''message'' else n | None \<Rightarrow> ''message'', ev_data e, i) # messages_of i is)"

fun retry_of :: "nat option \<Rightarrow> sse_event option list \<Rightarrow> nat option" where
  "retry_of r [] = r"
| "retry_of r (i # is) = retry_of (case i of Some e \<Rightarrow> (case ev_retry e of Some n \<Rightarrow> Some n | None \<Rightarrow> r) | None \<Rightarrow> r) is"

lemma es_lines_line: "one_line l \<Longrightarrow> es_lines cur (l @ CHR 0x0A # s) = (cur @ l) # es_lines [] s"
  by (induction l arbitrary: cur) (auto simp: one_line_def)

lemma es_lines_all:
  "list_all one_line ls \<Longrightarrow> es_lines [] (concat (map (\<lambda>l. l @ [CHR 0x0A]) ls)) = ls"
  by (induction ls) (simp_all add: es_lines_line)

lemma show_nat_digits_only: "list_all (\<lambda>c. 48 \<le> (of_char c :: nat) \<and> of_char c \<le> (57 :: nat)) (show_nat n)"
  using show_nat_digits by (auto simp: list_all_iff)

lemma show_nat_one_line: "one_line (show_nat n)"
  using show_nat_digits [of "CHR 0x0A" n] show_nat_digits [of "CHR 0x0D" n] by (auto simp: one_line_def)

lemma process_field_lines:
  "CHR 0x00 \<notin> set v \<Longrightarrow> process_line (''id: '' @ v) st = st\<lparr>ss_last_id := v\<rparr>"
  "process_line (''event: '' @ v) st = st\<lparr>ss_type := v\<rparr>"
  "process_line (''retry: '' @ show_nat n) st = st\<lparr>ss_retry := Some n\<rparr>"
  "process_line (''data: '' @ v) st = st\<lparr>ss_data := ss_data st @ v @ [CHR 0x0A]\<rparr>"
  "process_line '': keepalive'' st = st" "process_line [] st = dispatch st"
  using show_nat_digits_only [of n] by (simp_all add: process_line_def process_field_def field_value_def)

lemma fold_data_lines:
  "fold process_line (map (\<lambda>l. ''data: '' @ l) ls) st = st\<lparr>ss_data := ss_data st @ concat (map (\<lambda>l. l @ [CHR 0x0A]) ls)\<rparr>"
  by (induction ls arbitrary: st) (simp_all add: process_field_lines del: append.simps)

lemma split_last_Nil: "s \<noteq> [] \<Longrightarrow> last s \<noteq> c \<Longrightarrow> last (split_on c s) \<noteq> []"
proof (induction c s rule: split_on.induct)
  case (2 c x s)
  show ?case
  proof (cases "s = []")
    case True
    with 2 show ?thesis by simp
  next
    case False
    with 2 have IH: "last (split_on c s) \<noteq> []" by (cases "x = c") auto
    show ?thesis
    proof (cases "x = c")
      case True
      with IH show ?thesis by simp
    next
      case x: False
      obtain p ps where "split_on c s = p # ps" by (cases "split_on c s") auto
      with IH x show ?thesis by auto
    qed
  qed
qed simp

lemma split_on_subset: "p \<in> set (split_on c s) \<Longrightarrow> set p \<subseteq> set s"
  by (induction c s arbitrary: p rule: split_on.induct) (fastforce split: if_splits list.splits)+

lemma rust_lines_clean:
  assumes "s \<noteq> []" "last s \<noteq> CHR 0x0A" "CHR 0x0D \<notin> set s"
  shows "rust_lines s = split_on (CHR 0x0A) s"
proof -
  have "strip_cr p = p" if "p \<in> set (split_on (CHR 0x0A) s)" for p
    using split_on_subset [OF that] assms(3) by (auto simp: strip_cr_def dest: last_in_set)
  then show ?thesis using split_last_Nil [OF assms(1,2)] by (simp add: rust_lines_def Let_def map_idI)
qed

lemma concat_split_on: "concat (map (\<lambda>l. l @ [c]) (split_on c s)) = s @ [c]"
proof (induction c s rule: split_on.induct)
  case (2 c x s)
  obtain p ps where "split_on c s = p # ps" by (cases "split_on c s") auto
  with 2 show ?case by (cases "x = c") auto
qed simp

lemma item_lines_clean: "(\<forall>e. i = Some e \<longrightarrow> sse_clean e) \<Longrightarrow> list_all one_line (item_lines i)"
proof (cases i)
  case (Some e)
  assume "\<forall>e. i = Some e \<longrightarrow> sse_clean e"
  with Some have e: "sse_clean e" by simp
  then have "rust_lines (ev_data e) = split_on (CHR 0x0A) (ev_data e)" by (intro rust_lines_clean) (auto simp: sse_clean_def)
  moreover have "one_line l" if "l \<in> set (split_on (CHR 0x0A) (ev_data e))" for l
    using split_on_no_sep [OF that] split_on_subset [OF that] e by (auto simp: one_line_def sse_clean_def)
  ultimately show ?thesis
    using e Some show_nat_one_line
    by (auto simp: item_lines_def sse_lines_def sse_clean_def list_all_iff one_line_def split: option.splits)
qed (simp add: item_lines_def one_line_def)

text \<open>One event, from empty buffers: it is dispatched as one message and the buffers are empty again.\<close>

lemma process_item:
  assumes "\<forall>e. i = Some e \<longrightarrow> sse_clean e" "ss_data st = []" "ss_type st = []"
  shows "fold process_line (item_lines i) st =
    st\<lparr>ss_last_id := (case i of Some e \<Rightarrow> (case ev_id e of Some x \<Rightarrow> x | None \<Rightarrow> ss_last_id st) | None \<Rightarrow> ss_last_id st),
       ss_retry := retry_of (ss_retry st) [i], ss_messages := ss_messages st @ messages_of (ss_last_id st) [i]\<rparr>"
proof (cases i)
  case None
  with assms show ?thesis by (simp add: item_lines_def process_field_lines dispatch_def)
next
  case (Some e)
  with assms have e: "sse_clean e" by simp
  then have d: "rust_lines (ev_data e) = split_on (CHR 0x0A) (ev_data e)" by (intro rust_lines_clean) (auto simp: sse_clean_def)
  have nul: "CHR 0x00 \<notin> set x" if "ev_id e = Some x" for x using e that by (simp add: sse_clean_def)
  let ?ids = "case ev_id e of Some i \<Rightarrow> [''id: '' @ i] | None \<Rightarrow> []"
  let ?evs = "case ev_event e of Some n \<Rightarrow> [''event: '' @ n] | None \<Rightarrow> []"
  let ?rts = "case ev_retry e of Some r \<Rightarrow> [''retry: '' @ show_nat r] | None \<Rightarrow> []"
  let ?i = "case ev_id e of Some x \<Rightarrow> x | None \<Rightarrow> ss_last_id st"
  have f1: "fold process_line ?ids st = st\<lparr>ss_last_id := ?i\<rparr>"
    using nul by (cases "ev_id e") (simp_all add: process_field_lines del: append.simps)
  have f2: "fold process_line ?evs t = t\<lparr>ss_type := (case ev_event e of Some n \<Rightarrow> n | None \<Rightarrow> ss_type t)\<rparr>" for t
    by (cases "ev_event e") (simp_all add: process_field_lines del: append.simps)
  have f3: "fold process_line ?rts t = t\<lparr>ss_retry := (case ev_retry e of Some n \<Rightarrow> Some n | None \<Rightarrow> ss_retry t)\<rparr>" for t
    by (cases "ev_retry e") (simp_all add: process_field_lines del: append.simps)
  have f4: "fold process_line (map (\<lambda>l. ''data: '' @ l) (rust_lines (ev_data e))) t =
      t\<lparr>ss_data := ss_data t @ ev_data e @ [CHR 0x0A]\<rparr>" for t
    unfolding d fold_data_lines concat_split_on by simp
  have "item_lines i = ?ids @ ?evs @ ?rts @ map (\<lambda>l. ''data: '' @ l) (rust_lines (ev_data e)) @ [[]]"
    by (simp add: Some item_lines_def sse_lines_def)
  then have "fold process_line (item_lines i) st = dispatch (st\<lparr>ss_last_id := ?i,
      ss_type := (case ev_event e of Some n \<Rightarrow> n | None \<Rightarrow> []), ss_retry := (case ev_retry e of Some n \<Rightarrow> Some n | None \<Rightarrow> ss_retry st),
      ss_data := ev_data e @ [CHR 0x0A]\<rparr>)"
    using assms(2,3) by (simp only: fold_append comp_apply f1 f2 f3 f4) (simp add: process_field_lines cong: option.case_cong)
  with assms(2,3) show ?thesis
    by (cases "ev_event e") (auto simp: Some dispatch_def Let_def)
qed

lemma process_items:
  "\<forall>e. Some e \<in> set is \<longrightarrow> sse_clean e \<Longrightarrow> ss_data st = [] \<Longrightarrow> ss_type st = [] \<Longrightarrow>
   ss_messages (fold process_line (concat (map item_lines is)) st) = ss_messages st @ messages_of (ss_last_id st) is \<and>
   ss_retry (fold process_line (concat (map item_lines is)) st) = retry_of (ss_retry st) is"
proof (induction "is" arbitrary: st)
  case (Cons i "is")
  let ?st = "fold process_line (item_lines i) st"
  have i: "\<forall>e. i = Some e \<longrightarrow> sse_clean e" using Cons.prems(1) by simp
  note st = process_item [OF i Cons.prems(2,3)]
  have "ss_data ?st = []" "ss_type ?st = []" by (simp_all add: st Cons.prems)
  from Cons.IH [OF _ this] Cons.prems(1) show ?case
    by (simp add: fold_append st) (cases i; simp add: Let_def)
qed simp

lemma no_bom: "strip_bom (concat (map sse_item is)) = concat (map sse_item is)"
proof (cases "is")
  case (Cons i "is'")
  have "sse_item i \<noteq> [] \<and> hd (sse_item i) \<noteq> CHR 0xEF"
  proof (cases i)
    case (Some e)
    then show ?thesis
      by (cases "ev_id e"; cases "ev_event e"; cases "ev_retry e"; cases "rust_lines (ev_data e)")
        (simp_all add: sse_item_def sse_format_def)
  qed (simp add: sse_item_def sse_comment_def)
  then show ?thesis using Cons by (cases "sse_item i") (auto simp: strip_bom_def)
qed (simp add: strip_bom_def)

text \<open>
  \<^bold>\<open>C31\<close> The wire format loses nothing: a client that follows the event-stream rules of the HTML standard and
  reads a stream of events and keepalive comments dispatches exactly one message per event, in order, with
  the event's name (\<open>message\<close> when it has none), its possibly multi-line data and the id of the last event
  that had one, and takes the last retry time. The ids and names are single lines, with neither LF nor
  CR, an id has no NUL, and the data is non-empty, has no CR and does not end in a line break.
\<close>

theorem sse_roundtrip:
  assumes "\<forall>e. Some e \<in> set is \<longrightarrow> sse_clean e"
  shows "ss_messages (sse_parse (concat (map sse_item is))) = messages_of [] is \<and>
         ss_retry (sse_parse (concat (map sse_item is))) = retry_of None is"
proof -
  have "list_all one_line (item_lines i)" if "i \<in> set is" for i
    using that assms by (intro item_lines_clean) auto
  then have "list_all one_line (concat (map item_lines is))" by (auto simp: list_all_iff)
  moreover have "concat (map sse_item is) = concat (map (\<lambda>l. l @ [CHR 0x0A]) (concat (map item_lines is)))"
    by (induction "is") (simp_all add: sse_item_lines)
  ultimately have "es_lines [] (strip_bom (concat (map sse_item is))) = concat (map item_lines is)"
    unfolding no_bom by (simp only: es_lines_all)
  then show ?thesis
    using process_items [OF assms, of sse_start] by (simp add: sse_parse_def sse_start_def)
qed

theorem sse_roundtrip_witness:
  "let a = sse_event_new (''a'' @ [CHR 0x0A] @ '' b'') (Some ''7'') (Some ''tick'') (Some 30);
       st = sse_parse (concat (map sse_item [Some a, None, Some (sse_data ''c'')]))
   in ss_messages st = [(''tick'', ''a'' @ [CHR 0x0A] @ '' b'', ''7''), (''message'', ''c'', ''7'')] \<and> ss_retry st = Some 30"
  using sse_roundtrip [of "[Some (sse_event_new (''a'' @ [CHR 0x0A] @ '' b'') (Some ''7'') (Some ''tick'') (Some 30)), None, Some (sse_data ''c'')]"]
  by (simp add: sse_clean_def sse_event_new_def sse_data_def one_line_def Let_def)

text \<open>A line break of either kind in the id adds fields of the attacker's choice; empty data dispatches nothing.\<close>

lemma sse_id_injection:
  "b \<in> {CHR 0x0A, CHR 0x0D} \<Longrightarrow>
   ss_messages (sse_parse (sse_format (sse_event_new ''x'' (Some (''1'' @ [b] @ ''data: evil'')) None None))) =
     [(''message'', ''evil'' @ [CHR 0x0A] @ ''x'', ''1'')]"
  by (auto simp: sse_event_new_def sse_format_def rust_lines_def strip_cr_def sse_parse_def strip_bom_def sse_start_def
      process_line_def process_field_def field_value_def dispatch_def)

lemma sse_empty_data: "sse_format (sse_data []) = [CHR 0x0A]"
  by (simp add: sse_format_def sse_data_def rust_lines_def)

subsection \<open>Streams created from Python\<close>

text \<open>What the streams rely on of the channel: once its receiver is gone every send fails.\<close>

definition mpsc_closed_law :: "'q mpsc \<Rightarrow> ('q \<Rightarrow> bool) \<Rightarrow> bool" where
  "mpsc_closed_law mp gone =
     ((\<forall>q. gone (mp_drop_receiver mp q)) \<and> (\<forall>q m. gone q \<longrightarrow> mp_try_send mp m q = (False, q)))"

lemma sse_send_closed:
  "mpsc_closed_law mp gone \<Longrightarrow> gone (st_sender st) \<Longrightarrow> sse_send mp e st = (False, st)"
  by (simp add: sse_send_def mpsc_closed_law_def)

text \<open>
  A stream object created from Python never delivers anything: its constructor drops the only
  receiver, so every event sent to it and every write is refused, however often it is tried.
\<close>

theorem py_streams_never_send:
  assumes law: "mpsc_closed_law mp gone"
  shows "fst (sse_send mp e (fold (\<lambda>e st. snd (sse_send mp e st)) es (sse_stream_py_new mp n))) = False \<and>
         fst (stream_write mp d (fold (\<lambda>d sr. snd (stream_write mp d sr)) ds (streaming_py_new mp ct n))) = False"
proof -
  have st: "fold (\<lambda>e st. snd (sse_send mp e st)) es st = st" if "gone (st_sender st)" for st :: "'a sse_stream"
    by (induction es) (simp_all add: sse_send_closed [OF law that])
  have wr: "stream_write mp d sr = (False, sr)" if "gone (sr_sender sr)" for d and sr :: "'a streaming_response"
    using law that by (simp add: stream_write_def mpsc_closed_law_def)
  have sr: "fold (\<lambda>d sr. snd (stream_write mp d sr)) ds sr = sr" if "gone (sr_sender sr)" for sr :: "'a streaming_response"
    by (induction ds) (simp_all add: wr [OF that])
  have "gone (st_sender (sse_stream_py_new mp n))" "gone (sr_sender (streaming_py_new mp ct n))"
    using law by (simp_all add: sse_stream_py_new_def streaming_py_new_def mpsc_closed_law_def)
  then show ?thesis by (simp add: st sr wr sse_send_closed [OF law])
qed

text \<open>A bounded queue with a receiver flag, for closed examples.\<close>

definition queue_mpsc :: "(nat \<times> bool \<times> string list) mpsc" where
  "queue_mpsc =
     \<lparr>mp_channel = (\<lambda>n. (n, True, [])),
      mp_drop_receiver = (\<lambda>(n, _, q). (n, False, q)),
      mp_try_send = (\<lambda>m (n, live, q). if live \<and> length q < n then (True, n, live, q @ [m]) else (False, n, live, q)),
      mp_poll_recv = (\<lambda>(n, live, q). case q of [] \<Rightarrow> (None, n, live, []) | m # r \<Rightarrow> (Some (Some m), n, live, r))\<rparr>"

theorem py_streams_never_send_witness:
  "fst (sse_send queue_mpsc (sse_data ''x'') (sse_stream_py_new queue_mpsc 100)) = False"
proof -
  have "mpsc_closed_law queue_mpsc (\<lambda>(n, live, q). \<not> live)"
    by (auto simp: mpsc_closed_law_def queue_mpsc_def)
  from py_streams_never_send [OF this, of "sse_data ''x''" "[]"] show ?thesis by simp
qed

subsection \<open>Closing\<close>

text \<open>
  Closing a stream ends its body at once: the body looks at the flag before the channel, so what was
  accepted for sending and not yet polled is lost, although each send had returned true.
\<close>

lemma close_discards_queue:
  "fst (body_poll_next mp (sse_close st)) = Some None" "fst (stream_poll_next mp (stream_close sr)) = Some None"
  by (simp_all add: body_poll_next_def sse_close_def stream_poll_next_def stream_close_def)

lemma close_discards_accepted_event:
  "let (ok, st) = sse_send queue_mpsc (sse_data ''x'') (sse_body_new queue_mpsc 100)
   in ok \<and> fst (body_poll_next queue_mpsc st) = Some (Some (sse_format (sse_data ''x''))) \<and>
      fst (body_poll_next queue_mpsc (sse_close st)) = Some None"
  by (simp add: sse_send_def sse_body_new_def queue_mpsc_def body_poll_next_def sse_close_def)

end
