(* ===== verification/Http_Response.thy ===== *)
theory Http_Response
  imports Sse
begin

text \<open>
  Responses (\<open>src/http/response.rs\<close>): the shared \<open>ResponseSlot\<close>, the Express-like \<open>Response\<close> API
  on it, and its conversion to the server's response. The \<open>http\<close> crate's validity checks of
  header names and values are arguments; its header map is a list of lower-case names and values.
  A streaming body is the channel its chunks come from, a value of type \<open>'q\<close>.
\<close>

subsection \<open>The http crate\<close>

record http_lib =
  name_ok :: "string \<Rightarrow> bool"
  value_ok :: "string \<Rightarrow> bool"

type_synonym wire_headers = "(string \<times> string) list"

definition hm_append :: "string \<Rightarrow> string \<Rightarrow> wire_headers \<Rightarrow> wire_headers" where
  "hm_append n v h = h @ [(to_lower n, v)]"

definition hm_remove :: "string \<Rightarrow> wire_headers \<Rightarrow> wire_headers" where
  "hm_remove n h = filter (\<lambda>(k, v). k \<noteq> to_lower n) h"

definition hm_insert :: "string \<Rightarrow> string \<Rightarrow> wire_headers \<Rightarrow> wire_headers" where
  "hm_insert n v h = hm_remove n h @ [(to_lower n, v)]"

definition valid_status :: "nat \<Rightarrow> bool" where
  "valid_status s = (100 \<le> s \<and> s \<le> 999)"

datatype 'q http_body = FullBody string | StreamBody 'q

record 'q http_response =
  hr_status :: nat
  hr_headers :: wire_headers
  hr_body :: "'q http_body"

subsection \<open>ResponseSlot\<close>

datatype 'q body_kind = Buffered string | Streaming 'q

record 'q response_slot =
  sl_status :: nat
  sl_headers :: "(string \<times> string) list"
  sl_body :: "'q body_kind"
  sl_ready :: bool
  sl_sent :: bool
  sl_is_streaming :: bool

definition slot_new :: "'q response_slot" where
  "slot_new =
     \<lparr>sl_status = 200, sl_headers = [], sl_body = Buffered [], sl_ready = False, sl_sent = False,
      sl_is_streaming = False\<rparr>"

definition sl_set_status :: "nat \<Rightarrow> 'q response_slot \<Rightarrow> 'q response_slot" where
  "sl_set_status s r = r\<lparr>sl_status := s\<rparr>"

definition sl_set_headers :: "(string \<times> string) list \<Rightarrow> 'q response_slot \<Rightarrow> 'q response_slot" where
  "sl_set_headers hs r = r\<lparr>sl_headers := hs\<rparr>"

definition add_header :: "string \<Rightarrow> string \<Rightarrow> 'q response_slot \<Rightarrow> 'q response_slot" where
  "add_header k v r = r\<lparr>sl_headers := sl_headers r @ [(k, v)]\<rparr>"

definition sl_get_header :: "'q response_slot \<Rightarrow> string \<Rightarrow> string option" where
  "sl_get_header r k = map_option snd (find (\<lambda>(k', v). to_lower k' = to_lower k) (sl_headers r))"

definition sl_remove_header :: "string \<Rightarrow> 'q response_slot \<Rightarrow> 'q response_slot" where
  "sl_remove_header k r = r\<lparr>sl_headers := filter (\<lambda>(k', v). to_lower k' \<noteq> to_lower k) (sl_headers r)\<rparr>"

definition sl_set_body :: "string \<Rightarrow> 'q response_slot \<Rightarrow> 'q response_slot" where
  "sl_set_body b r = r\<lparr>sl_body := Buffered b\<rparr>"

definition append_body :: "string \<Rightarrow> 'q response_slot \<Rightarrow> 'q response_slot" where
  "append_body d r = (case sl_body r of Buffered b \<Rightarrow> r\<lparr>sl_body := Buffered (b @ d)\<rparr> | Streaming _ \<Rightarrow> r)"

definition get_body_len :: "'q response_slot \<Rightarrow> nat" where
  "get_body_len r = (case sl_body r of Buffered b \<Rightarrow> length b | Streaming _ \<Rightarrow> 0)"

definition set_streaming_body :: "'q \<Rightarrow> 'q response_slot \<Rightarrow> 'q response_slot" where
  "set_streaming_body q r = r\<lparr>sl_body := Streaming q, sl_is_streaming := True\<rparr>"

definition mark_ready :: "'q response_slot \<Rightarrow> 'q response_slot" where
  "mark_ready r = r\<lparr>sl_ready := True\<rparr>"

definition mark_sent :: "'q response_slot \<Rightarrow> 'q response_slot" where
  "mark_sent r = r\<lparr>sl_sent := True\<rparr>"

definition slot_header_map :: "http_lib \<Rightarrow> 'q response_slot \<Rightarrow> wire_headers" where
  "slot_header_map lib r =
     (let h = fold (\<lambda>(k, v) h. if name_ok lib k \<and> value_ok lib v then hm_append k v h else h) (sl_headers r) []
      in if \<exists>v. (''server'', v) \<in> set h then h else h @ [(''server'', ''Hypern'')])"

definition into_response :: "http_lib \<Rightarrow> 'q response_slot \<Rightarrow> 'q http_response \<times> 'q response_slot" where
  "into_response lib r =
     (let h = slot_header_map lib r;
          (h, b) =
            (case sl_body r of
               Buffered data \<Rightarrow> (hm_insert ''content-length'' (show_nat (length data)) h, FullBody data)
             | Streaming q \<Rightarrow>
                 (hm_remove ''content-length'' (hm_insert ''transfer-encoding'' ''chunked'' h), StreamBody q))
      in (\<lparr>hr_status = (if valid_status (sl_status r) then sl_status r else 200), hr_headers = h, hr_body = b\<rparr>,
          r\<lparr>sl_body := Buffered []\<rparr>))"

subsection \<open>The Response API: headers\<close>

definition rs_header :: "string \<Rightarrow> string \<Rightarrow> 'q response_slot \<Rightarrow> 'q response_slot" where
  "rs_header k v r = add_header k v r"

definition rs_headers :: "(string \<times> string) list \<Rightarrow> 'q response_slot \<Rightarrow> 'q response_slot" where
  "rs_headers hs r = fold (\<lambda>(k, v). add_header k v) hs r"

definition rs_append :: "string \<Rightarrow> string \<Rightarrow> 'q response_slot \<Rightarrow> 'q response_slot" where
  "rs_append k v r =
     (case sl_get_header r k of
        Some existing \<Rightarrow> add_header k (existing @ '', '' @ v) (sl_remove_header k r)
      | None \<Rightarrow> add_header k v r)"

definition vary :: "string \<Rightarrow> 'q response_slot \<Rightarrow> 'q response_slot" where
  "vary field r =
     (case sl_get_header r ''Vary'' of
        Some existing \<Rightarrow>
          if \<not> contains_sub (to_lower existing) (to_lower field)
          then add_header ''Vary'' (existing @ '', '' @ field) (sl_remove_header ''Vary'' r) else r
      | None \<Rightarrow> add_header ''Vary'' field r)"

definition links :: "(string \<times> string) list \<Rightarrow> 'q response_slot \<Rightarrow> 'q response_slot" where
  "links data r =
     add_header ''Link''
       (join_with '', '' (map (\<lambda>(rel, url). ''<'' @ url @ ''>; rel='' @ [CHR 0x22] @ rel @ [CHR 0x22]) data)) r"

definition location :: "string \<Rightarrow> 'q response_slot \<Rightarrow> 'q response_slot" where
  "location url r = add_header ''Location'' url r"

definition etag :: "string \<Rightarrow> 'q response_slot \<Rightarrow> 'q response_slot" where
  "etag e r =
     add_header ''ETag'' (if starts_with e [CHR 0x22] then e else [CHR 0x22] @ e @ [CHR 0x22]) r"

definition last_modified :: "string \<Rightarrow> 'q response_slot \<Rightarrow> 'q response_slot" where
  "last_modified d r = add_header ''Last-Modified'' d r"

definition expires_header :: "string \<Rightarrow> 'q response_slot \<Rightarrow> 'q response_slot" where
  "expires_header d r = add_header ''Expires'' d r"

definition content_type :: "string \<Rightarrow> 'q response_slot \<Rightarrow> 'q response_slot" where
  "content_type ct r = add_header ''Content-Type'' ct r"

subsection \<open>The Response API: bodies\<close>

text \<open>
  A Python value as \<open>send\<close> and \<open>json\<close> see it: a string, bytes, \<open>None\<close>, or something else with the
  result of serializing it to JSON (an exception or the text).
\<close>

datatype py_value = PyStr string | PyBytes string | PyNone | PyObject "string + string"

definition send :: "py_value \<Rightarrow> 'q response_slot \<Rightarrow> (string + unit) \<times> 'q response_slot" where
  "send body r =
     (case body of
        PyStr s \<Rightarrow>
          (Ok (), mark_ready (sl_set_body s
             (if sl_get_header r ''Content-Type'' = None
              then add_header ''Content-Type'' ''text/html; charset=utf-8'' r else r)))
      | PyBytes b \<Rightarrow>
          (Ok (), mark_ready (sl_set_body b
             (if sl_get_header r ''Content-Type'' = None
              then add_header ''Content-Type'' ''application/octet-stream'' r else r)))
      | PyNone \<Rightarrow> (Ok (), mark_ready (sl_set_body [] r))
      | PyObject json_of \<Rightarrow>
          (case json_of of
             Inl e \<Rightarrow> (Err e, r)
           | Inr js \<Rightarrow>
               (Ok (), mark_ready (sl_set_body js (add_header ''Content-Type'' ''application/json'' r)))))"

definition json :: "(string + string) \<Rightarrow> 'q response_slot \<Rightarrow> (string + unit) \<times> 'q response_slot" where
  "json json_of r =
     (case json_of of
        Inl e \<Rightarrow> (Err e, r)
      | Inr js \<Rightarrow> (Ok (), mark_ready (sl_set_body js (add_header ''Content-Type'' ''application/json'' r))))"

definition html :: "string \<Rightarrow> 'q response_slot \<Rightarrow> 'q response_slot" where
  "html s r = mark_ready (sl_set_body s (add_header ''Content-Type'' ''text/html; charset=utf-8'' r))"

definition text_body :: "string \<Rightarrow> 'q response_slot \<Rightarrow> 'q response_slot" where
  "text_body s r = mark_ready (sl_set_body s (add_header ''Content-Type'' ''text/plain; charset=utf-8'' r))"

definition xml :: "string \<Rightarrow> 'q response_slot \<Rightarrow> 'q response_slot" where
  "xml s r = mark_ready (sl_set_body s (add_header ''Content-Type'' ''application/xml'' r))"

definition add_sse_headers :: "'q response_slot \<Rightarrow> 'q response_slot" where
  "add_sse_headers r =
     add_header ''X-Accel-Buffering'' ''no'' (add_header ''Connection'' ''keep-alive''
       (add_header ''Cache-Control'' ''no-cache'' (add_header ''Content-Type'' ''text/event-stream'' r)))"

definition sse :: "sse_event list \<Rightarrow> 'q response_slot \<Rightarrow> 'q response_slot" where
  "sse events r = mark_ready (sl_set_body (concat (map sse_format events)) (add_sse_headers r))"

definition rs_sse_event :: "string \<Rightarrow> string option \<Rightarrow> string option \<Rightarrow> 'q response_slot \<Rightarrow> 'q response_slot" where
  "rs_sse_event data event i r =
     mark_ready (sl_set_body (sse_format \<lparr>ev_id = i, ev_event = event, ev_data = data, ev_retry = None\<rparr>)
       (add_sse_headers r))"

fun status_message :: "nat \<Rightarrow> string" where
  "status_message s =
     (if s = 100 then ''Continue'' else if s = 101 then ''Switching Protocols''
      else if s = 200 then ''OK'' else if s = 201 then ''Created'' else if s = 202 then ''Accepted''
      else if s = 204 then ''No Content'' else if s = 301 then ''Moved Permanently''
      else if s = 302 then ''Found'' else if s = 303 then ''See Other''
      else if s = 304 then ''Not Modified'' else if s = 307 then ''Temporary Redirect''
      else if s = 308 then ''Permanent Redirect'' else if s = 400 then ''Bad Request''
      else if s = 401 then ''Unauthorized'' else if s = 403 then ''Forbidden''
      else if s = 404 then ''Not Found'' else if s = 405 then ''Method Not Allowed''
      else if s = 406 then ''Not Acceptable'' else if s = 408 then ''Request Timeout''
      else if s = 409 then ''Conflict'' else if s = 410 then ''Gone''
      else if s = 413 then ''Payload Too Large'' else if s = 415 then ''Unsupported Media Type''
      else if s = 422 then ''Unprocessable Entity'' else if s = 429 then ''Too Many Requests''
      else if s = 500 then ''Internal Server Error'' else if s = 501 then ''Not Implemented''
      else if s = 502 then ''Bad Gateway'' else if s = 503 then ''Service Unavailable''
      else if s = 504 then ''Gateway Timeout'' else ''Unknown Status'')"

definition send_status :: "nat \<Rightarrow> 'q response_slot \<Rightarrow> 'q response_slot" where
  "send_status s r = mark_ready (sl_set_body (status_message s) (sl_set_status s r))"

definition rs_end :: "py_value option \<Rightarrow> 'q response_slot \<Rightarrow> 'q response_slot" where
  "rs_end data r =
     mark_ready (case data of Some (PyStr s) \<Rightarrow> sl_set_body s r | Some (PyBytes b) \<Rightarrow> sl_set_body b r | _ \<Rightarrow> r)"

definition redirect :: "string \<Rightarrow> nat \<Rightarrow> 'q response_slot \<Rightarrow> 'q response_slot" where
  "redirect url s r = mark_ready (add_header ''Location'' url (sl_set_status s r))"

subsection \<open>The Response API: cookies, caching, CORS, files\<close>

definition show_int :: "int \<Rightarrow> string" where
  "show_int i = (if i < 0 then ''-'' @ show_nat (nat (- i)) else show_nat (nat i))"

definition opt_part :: "string \<Rightarrow> string option \<Rightarrow> string" where
  "opt_part k v = (case v of Some x \<Rightarrow> k @ x | None \<Rightarrow> [])"

definition cookie ::
  "string \<Rightarrow> string \<Rightarrow> int option \<Rightarrow> string option \<Rightarrow> string option \<Rightarrow> bool \<Rightarrow> bool \<Rightarrow> string option \<Rightarrow>
   'q response_slot \<Rightarrow> 'q response_slot" where
  "cookie name v age path domain secure http_only same_site r =
     add_header ''Set-Cookie''
       (name @ ''='' @ v @ opt_part ''; Max-Age='' (map_option show_int age) @ opt_part ''; Path='' path @
        opt_part ''; Domain='' domain @ (if secure then ''; Secure'' else []) @
        (if http_only then ''; HttpOnly'' else []) @ opt_part ''; SameSite='' same_site) r"

definition clear_cookie :: "string \<Rightarrow> string option \<Rightarrow> string option \<Rightarrow> 'q response_slot \<Rightarrow> 'q response_slot" where
  "clear_cookie name path domain r =
     add_header ''Set-Cookie''
       (name @ ''=; Max-Age=0'' @ opt_part ''; Path='' path @ opt_part ''; Domain='' domain) r"

definition cache_control :: "nat \<Rightarrow> bool \<Rightarrow> bool \<Rightarrow> bool \<Rightarrow> 'q response_slot \<Rightarrow> 'q response_slot" where
  "cache_control age private no_cache no_store r =
     add_header ''Cache-Control''
       (join_with '', ''
          (if no_store then [''no-store''] else if no_cache then [''no-cache'']
           else [if private then ''private'' else ''public'', ''max-age='' @ show_nat age])) r"

definition no_cache :: "'q response_slot \<Rightarrow> 'q response_slot" where
  "no_cache r =
     add_header ''Expires'' ''0'' (add_header ''Pragma'' ''no-cache''
       (add_header ''Cache-Control'' ''no-cache, no-store, must-revalidate'' r))"

definition add_opt_header :: "string \<Rightarrow> string option \<Rightarrow> 'q response_slot \<Rightarrow> 'q response_slot" where
  "add_opt_header k v r = (case v of Some x \<Rightarrow> add_header k x r | None \<Rightarrow> r)"

definition rs_cors ::
  "string \<Rightarrow> string list option \<Rightarrow> string list option \<Rightarrow> bool \<Rightarrow> nat option \<Rightarrow> 'q response_slot \<Rightarrow> 'q response_slot" where
  "rs_cors origin methods headers credentials age r =
     (let r = add_header ''Access-Control-Allow-Origin'' origin r;
          r = add_opt_header ''Access-Control-Allow-Methods'' (map_option (join_with '', '') methods) r;
          r = add_opt_header ''Access-Control-Allow-Headers'' (map_option (join_with '', '') headers) r;
          r = (if credentials then add_header ''Access-Control-Allow-Credentials'' ''true'' r else r)
      in add_opt_header ''Access-Control-Max-Age'' (map_option show_nat age) r)"

definition attachment :: "string option \<Rightarrow> 'q response_slot \<Rightarrow> 'q response_slot" where
  "attachment filename r =
     add_header ''Content-Disposition''
       (case filename of
          Some f \<Rightarrow> ''attachment; filename='' @ [CHR 0x22] @ f @ [CHR 0x22]
        | None \<Rightarrow> ''attachment'') r"

definition response_404 :: "'q http_response" where
  "response_404 = \<lparr>hr_status = 404, hr_headers = [(''content-type'', ''text/plain'')], hr_body = FullBody ''Not Found''\<rparr>"

definition response_500 :: "'q http_response" where
  "response_500 =
     \<lparr>hr_status = 500, hr_headers = [(''content-type'', ''text/plain'')], hr_body = FullBody ''Internal Server Error''\<rparr>"

definition response_405 :: "'q http_response" where
  "response_405 =
     \<lparr>hr_status = 405, hr_headers = [(''content-type'', ''text/plain'')], hr_body = FullBody ''Method Not Allowed''\<rparr>"

subsection \<open>Framing of the final response\<close>

definition wire_values :: "string \<Rightarrow> wire_headers \<Rightarrow> string list" where
  "wire_values n h = map snd (filter (\<lambda>(k, v). k = n) h)"

lemma wire_values_insert:
  "to_lower n = n \<Longrightarrow> wire_values m (hm_insert n v h) = (if m = n then [v] else wire_values m h)"
  by (auto simp: wire_values_def hm_insert_def hm_remove_def filter_empty_conv intro: arg_cong [where f = "map snd"] filter_cong)

lemma wire_values_remove:
  "to_lower n = n \<Longrightarrow> wire_values m (hm_remove n h) = (if m = n then [] else wire_values m h)"
  by (auto simp: wire_values_def hm_remove_def filter_empty_conv intro: arg_cong [where f = "map snd"] filter_cong)

lemma framing_names: "to_lower ''content-length'' = ''content-length''"
    "to_lower ''transfer-encoding'' = ''transfer-encoding''"
  by (simp_all add: str_simps)

text \<open>The values of a header that the application set and that are valid on the wire.\<close>

definition valid_values :: "http_lib \<Rightarrow> string \<Rightarrow> wire_headers \<Rightarrow> string list" where
  "valid_values lib n hs = map snd (filter (\<lambda>(k, v). to_lower k = n \<and> name_ok lib k \<and> value_ok lib v) hs)"

lemma wire_values_slot:
  "wire_values n (slot_header_map lib r) =
     (if n = ''server'' \<and> valid_values lib n (sl_headers r) = [] then [''Hypern''] else valid_values lib n (sl_headers r))"
proof -
  let ?f = "\<lambda>(k, v) h. if name_ok lib k \<and> value_ok lib v then hm_append k v h else h"
  have f: "wire_values m (fold ?f hs h) = wire_values m h @ valid_values lib m hs" for m hs h
  proof (induction hs arbitrary: h)
    case (Cons kv hs)
    have "wire_values m (?f kv h) = wire_values m h @ valid_values lib m [kv]"
      by (cases kv) (auto simp: wire_values_def valid_values_def hm_append_def)
    moreover have "valid_values lib m (kv # hs) = valid_values lib m [kv] @ valid_values lib m hs" by (simp add: valid_values_def)
    ultimately show ?case using Cons.IH [of "?f kv h"] by simp
  qed (simp add: valid_values_def)
  let ?h = "fold ?f (sl_headers r) []"
  have h: "wire_values m ?h = valid_values lib m (sl_headers r)" for m by (simp add: f) (simp add: wire_values_def)
  have "(\<exists>v. (''server'', v) \<in> set ?h) \<longleftrightarrow> wire_values ''server'' ?h \<noteq> []"
    by (auto simp: wire_values_def filter_empty_conv)
  then have server: "(\<exists>v. (''server'', v) \<in> set ?h) \<longleftrightarrow> valid_values lib ''server'' (sl_headers r) \<noteq> []" by (simp add: h)
  have "wire_values m (h @ [(k, v)]) = wire_values m h @ (if k = m then [v] else [])" for m h k v by (simp add: wire_values_def)
  then show ?thesis unfolding slot_header_map_def Let_def server by (auto simp: h)
qed

text \<open>
  \<^bold>\<open>C20\<close> The response on the wire is what the slot holds, framed consistently whatever headers the
  application set. The body is the slot's body and the status the slot's, or 200 where that is not a valid
  status. A buffered response has exactly one \<open>Content-Length\<close>, the length of its body; a streamed
  one has none and exactly one \<open>Transfer-Encoding: chunked\<close>. Every other header has exactly the values the
  application set for it that are valid, in their order; \<open>Server\<close> is \<open>Hypern\<close> when none was set.
\<close>

theorem into_response_framing:
  "let res = fst (into_response lib r); vs = \<lambda>n. wire_values n (hr_headers res);
       app = \<lambda>n. (if n = ''server'' \<and> valid_values lib n (sl_headers r) = [] then [''Hypern'']
                  else valid_values lib n (sl_headers r))
   in hr_status res = (if valid_status (sl_status r) then sl_status r else 200) \<and>
      (case sl_body r of
         Buffered data \<Rightarrow> hr_body res = FullBody data \<and>
           vs n = (if n = ''content-length'' then [show_nat (length data)] else app n)
       | Streaming q \<Rightarrow> hr_body res = StreamBody q \<and>
           vs n = (if n = ''content-length'' then [] else if n = ''transfer-encoding'' then [''chunked''] else app n))"
  by (cases "sl_body r")
    (simp_all add: into_response_def Let_def wire_values_insert wire_values_remove framing_names wire_values_slot)

text \<open>\<open>header\<close> and \<open>set\<close> append: setting a header twice sends it twice.\<close>

lemma set_header_twice:
  "sl_headers (rs_header k v2 (rs_header k v1 r)) = sl_headers r @ [(k, v1), (k, v2)]"
  by (simp add: rs_header_def add_header_def)

lemma find_append: "find P (xs @ ys) = (case find P xs of Some x \<Rightarrow> Some x | None \<Rightarrow> find P ys)"
  by (induction xs) auto

lemma append_single:
  "sl_get_header (rs_append k v r) k =
     Some (case sl_get_header r k of Some e \<Rightarrow> e @ '', '' @ v | None \<Rightarrow> v)"
proof (cases "sl_get_header r k")
  case None
  then have f: "find (\<lambda>(k', v). to_lower k' = to_lower k) (sl_headers r) = None" by (simp add: sl_get_header_def)
  from None have "rs_append k v r = add_header k v r" by (simp add: rs_append_def)
  with None show ?thesis by (simp add: sl_get_header_def add_header_def find_append f)
next
  case (Some e)
  have "find (\<lambda>(k', v). to_lower k' = to_lower k) (filter (\<lambda>(k', v). to_lower k' \<noteq> to_lower k) hs) = None" for hs :: wire_headers
    by (auto simp: find_None_iff)
  then have "sl_get_header (add_header k (e @ '', '' @ v) (sl_remove_header k r)) k = Some (e @ '', '' @ v)"
    by (simp add: sl_get_header_def add_header_def sl_remove_header_def find_append)
  with Some show ?thesis by (simp add: rs_append_def)
qed

subsection \<open>The Response API: chained setters\<close>

definition rs_status :: "nat option \<Rightarrow> 'q response_slot \<Rightarrow> 'q response_slot" where
  "rs_status status r = sl_set_status (case status of Some s \<Rightarrow> s | None \<Rightarrow> 200) r"

definition status_code :: "'q response_slot \<Rightarrow> nat" where
  "status_code r = sl_status r"

definition rs_set :: "string \<Rightarrow> string \<Rightarrow> 'q response_slot \<Rightarrow> 'q response_slot" where
  "rs_set key v r = add_header key v r"

definition rs_get :: "'q response_slot \<Rightarrow> string \<Rightarrow> string option" where
  "rs_get r key = sl_get_header r key"

definition rs_remove_header :: "string \<Rightarrow> 'q response_slot \<Rightarrow> 'q response_slot" where
  "rs_remove_header key r = sl_remove_header key r"

definition rs_type :: "string \<Rightarrow> 'q response_slot \<Rightarrow> 'q response_slot" where
  "rs_type ctype r = add_header ''Content-Type'' ctype r"

definition rs_body :: "string \<Rightarrow> 'q response_slot \<Rightarrow> 'q response_slot" where
  "rs_body body r = sl_set_body body r"

definition rs_body_str :: "string \<Rightarrow> 'q response_slot \<Rightarrow> 'q response_slot" where
  "rs_body_str body r = sl_set_body body r"

definition rs_write :: "string \<Rightarrow> 'q response_slot \<Rightarrow> 'q response_slot" where
  "rs_write body r = sl_set_body body r"

definition rs_append_body :: "string \<Rightarrow> 'q response_slot \<Rightarrow> 'q response_slot" where
  "rs_append_body data r = append_body data r"

definition rs_finish :: "'q response_slot \<Rightarrow> 'q response_slot" where
  "rs_finish r = mark_ready r"

definition headers_sent :: "'q response_slot \<Rightarrow> bool" where
  "headers_sent r = sl_sent r"

definition rs_finished :: "'q response_slot \<Rightarrow> bool" where
  "rs_finished r = sl_ready r"

text \<open>\<open>write\<close>, named after the method that appends in other frameworks, replaces what was written before.\<close>

lemma write_replaces: "hr_body (fst (into_response lib (rs_write b (rs_write a r)))) = FullBody b"
  by (simp add: rs_write_def sl_set_body_def into_response_def Let_def)

lemma append_body_appends:
  "hr_body (fst (into_response lib (rs_append_body b (rs_body a r)))) = FullBody (a @ b)"
  by (simp add: rs_append_body_def append_body_def rs_body_def sl_set_body_def into_response_def Let_def)

lemma rs_get_case_insensitive:
  "to_lower k' = to_lower k \<Longrightarrow> rs_get r k = None \<Longrightarrow> rs_get (rs_set k v r) k' = Some v"
  by (simp add: rs_get_def rs_set_def sl_get_header_def add_header_def find_append)

lemma rs_get_removed: "to_lower k' = to_lower k \<Longrightarrow> rs_get (rs_remove_header k r) k' = None"
  by (auto simp: rs_get_def rs_remove_header_def sl_get_header_def sl_remove_header_def find_None_iff)

end
