(* ===== verification/Interpreter.thy ===== *)
theory Interpreter
  imports Http_Request Http_Response Registry
begin

text \<open>
  Running Python handlers (\<open>src/core/interpreter.rs\<close>, \<open>future_into_py\<close> of \<open>src/core/runtime.rs\<close>): the
  handler registry, the loop that steps a coroutine, and \<open>http_execute\<close>, which turns the response
  slot into the response. Python is a parameter: calling a handler and stepping a coroutine may
  change the response slot it was given and a Python state, and may raise. A coroutine that never
  stops makes the loop run forever, which is the value \<open>None\<close>.
\<close>

datatype send_result = SendYielded | SendStopIteration | SendRaised

record ('f, 'g, 'q, 'p) python =
  py_call :: "'f \<Rightarrow> request \<Rightarrow> 'q response_slot \<Rightarrow> 'p \<Rightarrow> 'g option \<times> 'q response_slot \<times> 'p"
  py_has_send :: "'g \<Rightarrow> bool"
  py_send :: "'g \<Rightarrow> 'q response_slot \<Rightarrow> 'p \<Rightarrow> send_result \<times> 'q response_slot \<times> 'p"
  py_iscoroutinefunction :: "'f \<Rightarrow> bool"

type_synonym 'f handler_registry = "(u64 \<times> 'f \<times> bool) list"

definition register_handler ::
  "('f, 'g, 'q, 'p) python \<Rightarrow> u64 \<Rightarrow> 'f \<Rightarrow> 'f handler_registry \<Rightarrow> 'f handler_registry" where
  "register_handler py hash handler reg = AList.update hash (handler, py_iscoroutinefunction py handler) reg"

definition get_handler_info :: "'f handler_registry \<Rightarrow> u64 \<Rightarrow> bool option" where
  "get_handler_info reg hash = map_option snd (map_of reg hash)"

definition get_handler :: "'f handler_registry \<Rightarrow> u64 \<Rightarrow> 'f option" where
  "get_handler reg hash = map_option fst (map_of reg hash)"

partial_function (option) step_coroutine ::
  "('f, 'g, 'q, 'p) python \<Rightarrow> 'g \<Rightarrow> 'q response_slot \<Rightarrow> 'p \<Rightarrow> ('q response_slot \<times> 'p) option" where
  "step_coroutine py coro slot p =
     (case py_send py coro slot p of
        (SendYielded, slot', p') \<Rightarrow> step_coroutine py coro slot' p'
      | (_, slot', p') \<Rightarrow> Some (slot', p'))"

text \<open>A null result of a call is a raised exception, which is printed and forgotten.\<close>

definition future_into_py ::
  "('f, 'g, 'q, 'p) python \<Rightarrow> bool \<Rightarrow> 'f \<Rightarrow> request \<Rightarrow> 'q response_slot \<Rightarrow> 'p \<Rightarrow> ('q response_slot \<times> 'p) option" where
  "future_into_py py is_async handler req slot p =
     (if is_async then
        (case py_call py handler req slot p of
           (None, slot', p') \<Rightarrow> Some (slot', p')
         | (Some coro, slot', p') \<Rightarrow>
             if \<not> py_has_send py coro then Some (slot', p') else step_coroutine py coro slot' p')
      else (case py_call py handler req slot p of (_, slot', p') \<Rightarrow> Some (slot', p')))"

definition http_execute ::
  "http_lib \<Rightarrow> ('f, 'g, 'q, 'p) python \<Rightarrow> 'f handler_registry \<Rightarrow> u64 \<Rightarrow> request \<Rightarrow> 'p \<Rightarrow> ('q http_response \<times> 'p) option" where
  "http_execute lib py reg route_hash req p =
     (case get_handler_info reg route_hash of
        None \<Rightarrow> Some (fst (into_response lib (sl_set_body ''Not Found'' (sl_set_status 404 slot_new))), p)
      | Some is_async \<Rightarrow>
          (case get_handler reg route_hash of
             None \<Rightarrow> None
           | Some handler \<Rightarrow>
               (case future_into_py py is_async handler req slot_new p of
                  None \<Rightarrow> None
                | Some (slot, p') \<Rightarrow> Some (fst (into_response lib slot), p'))))"

lemma get_handler_info_Some: "get_handler_info reg h = Some a \<Longrightarrow> \<exists>f. get_handler reg h = Some f"
  by (auto simp: get_handler_info_def get_handler_def)

lemma register_handler_get:
  "get_handler (register_handler py h f reg) h' = (if h' = h then Some f else get_handler reg h')"
  "get_handler_info (register_handler py h f reg) h' =
     (if h' = h then Some (py_iscoroutinefunction py f) else get_handler_info reg h')"
  by (simp_all add: get_handler_def get_handler_info_def register_handler_def)

interpretation handlers: store "register_handler py" "\<lambda>h reg. get_handler reg h" for py
  by unfold_locales (rule register_handler_get)

subsection \<open>The stepping loop\<close>

text \<open>One send that yields. The loop returns exactly when yields lead to a send that stops or raises.\<close>

definition yield_step :: "('f, 'g, 'q, 'p) python \<Rightarrow> 'g \<Rightarrow> 'q response_slot \<times> 'p \<Rightarrow> 'q response_slot \<times> 'p \<Rightarrow> bool" where
  "yield_step py coro sp sp' = (py_send py coro (fst sp) (snd sp) = (SendYielded, sp'))"

lemma step_coroutine_yields:
  "(yield_step py coro)\<^sup>*\<^sup>* sp sp' \<Longrightarrow> step_coroutine py coro (fst sp) (snd sp) = step_coroutine py coro (fst sp') (snd sp')"
proof (induction rule: converse_rtranclp_induct)
  case (step sp sp1)
  then show ?case by (subst step_coroutine.simps) (auto simp: yield_step_def split: prod.splits)
qed simp

lemma step_coroutine_end: "py_send py coro slot p = (s, r) \<Longrightarrow> s \<noteq> SendYielded \<Longrightarrow> step_coroutine py coro slot p = Some r"
  by (subst step_coroutine.simps) (auto split: prod.split send_result.split)

lemma step_coroutine_returns_iff:
  "step_coroutine py coro slot p = Some r \<longleftrightarrow>
   (\<exists>slot' p' s. (yield_step py coro)\<^sup>*\<^sup>* (slot, p) (slot', p') \<and> py_send py coro slot' p' = (s, r) \<and> s \<noteq> SendYielded)"
proof
  assume "step_coroutine py coro slot p = Some r"
  then show "\<exists>slot' p' s. (yield_step py coro)\<^sup>*\<^sup>* (slot, p) (slot', p') \<and> py_send py coro slot' p' = (s, r) \<and> s \<noteq> SendYielded"
  proof (rule step_coroutine.raw_induct [rotated], goal_cases)
    case (1 step py coro slot p r)
    obtain s slot' p' where s: "py_send py coro slot p = (s, slot', p')" by (cases "py_send py coro slot p")
    show ?case
    proof (cases "s = SendYielded")
      case True
      with s have "yield_step py coro (slot, p) (slot', p')" "step py coro slot' p' = Some r"
        using 1(2) by (simp_all add: yield_step_def)
      with 1(1) show ?thesis by (meson converse_rtranclp_into_rtranclp)
    next
      case False
      with s 1(2) have "py_send py coro slot p = (s, r)" by (cases s) auto
      with False show ?thesis by blast
    qed
  qed
qed (use step_coroutine_yields [of py coro "(slot, p)"] step_coroutine_end [of py coro] in fastforce)

subsection \<open>Handlers that raise\<close>

lemma response_of_new_slot:
  "hr_status (fst (into_response lib slot_new)) = 200" "hr_body (fst (into_response lib slot_new)) = FullBody []"
  by (simp_all add: into_response_def slot_new_def valid_status_def Let_def)

text \<open>
  \<^bold>\<open>C39\<close> At the level of the crate an exception is not turned into an error response. If the callable that was
  registered with the crate raises, when it is called or as a coroutine at any of its steps, the client gets the
  response slot as it stood at that moment, as after a normal return; if nothing had been written to it, that is
  status 200 and an empty body. This is the bare callable: the Python package registers its handlers through
  \<open>_wrap_handler\<close> (\<open>hypern/application.py\<close>), which catches exceptions of the handler itself
  and writes an error response, so that such an exception does not reach the crate.
\<close>

theorem handler_exception_is_200:
  assumes "map_of reg h = Some (f, is_async)"
    and "py_call py f req slot_new p = (None, slot, p') \<or>
         (is_async \<and> py_call py f req slot_new p = (Some coro, slot1, p1) \<and> py_has_send py coro \<and>
          (yield_step py coro)\<^sup>*\<^sup>* (slot1, p1) (slot2, p2) \<and> py_send py coro slot2 p2 = (SendRaised, slot, p'))"
  shows "http_execute lib py reg h req p = Some (fst (into_response lib slot), p') \<and>
         (slot = slot_new \<longrightarrow> hr_status (fst (into_response lib slot)) = 200 \<and> hr_body (fst (into_response lib slot)) = FullBody [])"
proof -
  have "future_into_py py is_async f req slot_new p = Some (slot, p')"
    using assms(2)
  proof
    assume "is_async \<and> py_call py f req slot_new p = (Some coro, slot1, p1) \<and> py_has_send py coro \<and>
      (yield_step py coro)\<^sup>*\<^sup>* (slot1, p1) (slot2, p2) \<and> py_send py coro slot2 p2 = (SendRaised, slot, p')"
    then show ?thesis
      using step_coroutine_yields [of py coro "(slot1, p1)" "(slot2, p2)"] step_coroutine_end [of py coro slot2 p2]
      by (simp add: future_into_py_def)
  qed (simp add: future_into_py_def)
  then show ?thesis
    using assms(1) by (simp add: http_execute_def get_handler_info_def get_handler_def response_of_new_slot)
qed

definition raising_python :: "(unit, unit, unit, nat) python" where
  "raising_python =
     \<lparr>py_call = (\<lambda>f req slot p. (None, slot, Suc p)), py_has_send = (\<lambda>g. True),
      py_send = (\<lambda>g slot p. (SendRaised, slot, p)), py_iscoroutinefunction = (\<lambda>f. False)\<rparr>"

theorem handler_exception_is_200_witness:
  "\<exists>r. http_execute \<lparr>name_ok = (\<lambda>_. True), value_ok = (\<lambda>_. True)\<rparr> raising_python
         (register_handler raising_python 7 () []) 7
         (request_new (\<lambda>_. 0) ''/'' GET [] [] None) 0 = Some (r, 1) \<and> hr_status r = 200 \<and> hr_body r = FullBody []"
proof -
  have "map_of (register_handler raising_python 7 () []) 7 = Some ((), False)"
    "py_call raising_python () (request_new (\<lambda>_. 0) ''/'' GET [] [] None) slot_new 0 = (None, slot_new, 1)"
    by (simp_all add: register_handler_def raising_python_def)
  from handler_exception_is_200 [OF this(1) disjI1 [OF this(2)]] show ?thesis by blast
qed

end
