(* ===== verification/Reload.thy ===== *)
theory Reload
  imports Prelude
begin

text \<open>
  Health checks and the reload manager (\<open>src/core/reload.rs\<close>). The manager's shared state is one
  record; its atomics make every operation one step. The interleaving of request handlers, the
  drain and its waiter is a step relation on that state with the handlers' program points.
\<close>

subsection \<open>HealthStatus\<close>

datatype health_status = Starting | Healthy | Draining | Unhealthy

definition status_from_u8 :: "nat \<Rightarrow> health_status" where
  "status_from_u8 v =
     (if v = 0 then Starting else if v = 1 then Healthy else if v = 2 then Draining
      else if v = 3 then Unhealthy else Unhealthy)"

fun status_to_u8 :: "health_status \<Rightarrow> nat" where
  "status_to_u8 Starting = 0"
| "status_to_u8 Healthy = 1"
| "status_to_u8 Draining = 2"
| "status_to_u8 Unhealthy = 3"

fun status_as_str :: "health_status \<Rightarrow> string" where
  "status_as_str Starting = ''starting''"
| "status_as_str Healthy = ''healthy''"
| "status_as_str Draining = ''draining''"
| "status_as_str Unhealthy = ''unhealthy''"

definition is_live :: "health_status \<Rightarrow> bool" where
  "is_live s = (s = Starting \<or> s = Healthy \<or> s = Draining)"

definition is_ready :: "health_status \<Rightarrow> bool" where
  "is_ready s = (s = Healthy)"

lemma status_roundtrip [simp]: "status_from_u8 (status_to_u8 s) = s"
  by (cases s) (simp_all add: status_from_u8_def)

interpretation status_byte: codec status_to_u8 "\<lambda>b. Some (status_from_u8 b)" "\<lambda>_. True"
  by unfold_locales simp

subsection \<open>HealthCheck\<close>

text \<open>The status is stored as the discriminant, an \<open>AtomicU8\<close>.\<close>

record health_check =
  hk_status :: nat
  hk_in_flight :: u64
  hk_started_at :: instant
  hk_custom_checks :: "string list"

definition health_new :: "instant \<Rightarrow> health_check" where
  "health_new now =
     \<lparr>hk_status = status_to_u8 Starting, hk_in_flight = 0, hk_started_at = now, hk_custom_checks = []\<rparr>"

definition health_status_of :: "health_check \<Rightarrow> health_status" where
  "health_status_of h = status_from_u8 (hk_status h)"

definition set_status :: "health_status \<Rightarrow> health_check \<Rightarrow> health_check" where
  "set_status s h = h\<lparr>hk_status := status_to_u8 s\<rparr>"

definition mark_healthy :: "health_check \<Rightarrow> health_check" where
  "mark_healthy h = set_status Healthy h"

definition mark_draining :: "health_check \<Rightarrow> health_check" where
  "mark_draining h = set_status Draining h"

definition mark_unhealthy :: "health_check \<Rightarrow> health_check" where
  "mark_unhealthy h = set_status Unhealthy h"

definition increment_in_flight :: "health_check \<Rightarrow> u64 \<times> health_check" where
  "increment_in_flight h = (hk_in_flight h + 1, h\<lparr>hk_in_flight := hk_in_flight h + 1\<rparr>)"

definition decrement_in_flight :: "health_check \<Rightarrow> u64 \<times> health_check" where
  "decrement_in_flight h = (saturating_sub (hk_in_flight h) 1, h\<lparr>hk_in_flight := hk_in_flight h - 1\<rparr>)"

definition uptime :: "instant \<Rightarrow> health_check \<Rightarrow> duration" where
  "uptime now h = now - hk_started_at h"

definition add_custom_check :: "string \<Rightarrow> health_check \<Rightarrow> health_check" where
  "add_custom_check n h = h\<lparr>hk_custom_checks := hk_custom_checks h @ [n]\<rparr>"

definition liveness_code :: "health_check \<Rightarrow> nat" where
  "liveness_code h = (if is_live (health_status_of h) then 200 else 503)"

definition readiness_code :: "health_check \<Rightarrow> nat" where
  "readiness_code h = (if is_ready (health_status_of h) then 200 else 503)"

definition startup_code :: "health_check \<Rightarrow> nat" where
  "startup_code h = (if health_status_of h \<noteq> Starting then 200 else 503)"

text \<open>
  The JSON report. \<open>fixed2\<close> is the rendering of a floating-point number with two decimals by the
  standard library, and \<open>now\<close> the instant at which the uptime is read.
\<close>

definition show_bool :: "bool \<Rightarrow> string" where
  "show_bool b = (if b then ''true'' else ''false'')"

definition in_flight :: "health_check \<Rightarrow> u64" where
  "in_flight h = hk_in_flight h"

definition custom_checks :: "health_check \<Rightarrow> string list" where
  "custom_checks h = hk_custom_checks h"

definition json_key :: "string \<Rightarrow> string" where
  "json_key k = [CHR 0x22] @ k @ [CHR 0x22] @ '':''"

definition health_to_json :: "(real \<Rightarrow> string) \<Rightarrow> instant \<Rightarrow> health_check \<Rightarrow> string" where
  "health_to_json fixed2 now h =
     (let status = health_status_of h;
          uptime_secs = as_secs_f64 (uptime now h)
      in ''{'' @ json_key ''status'' @ [CHR 0x22] @ status_as_str status @ [CHR 0x22] @ '','' @
         json_key ''live'' @ show_bool (is_live status) @ '','' @
         json_key ''ready'' @ show_bool (is_ready status) @ '','' @
         json_key ''in_flight'' @ show_nat (unat (in_flight h)) @ '','' @
         json_key ''uptime_secs'' @ fixed2 uptime_secs @ ''}'')"

subsection \<open>ReloadManager\<close>

record reload_config =
  rd_drain_timeout_secs :: nat
  rd_health_poll_interval_ms :: nat
  rd_startup_grace_secs :: nat
  rd_health_probes_enabled :: bool
  rd_health_path_prefix :: string

definition reload_default :: reload_config where
  "reload_default =
     \<lparr>rd_drain_timeout_secs = 30, rd_health_poll_interval_ms = 100, rd_startup_grace_secs = 2,
      rd_health_probes_enabled = True, rd_health_path_prefix = ''/_health''\<rparr>"

datatype reload_signal = NoSignal | Graceful | Hot | Shutdown

text \<open>\<open>rm_woken\<close> counts the calls of \<open>notify_waiters\<close>.\<close>

record reload_manager =
  rm_config :: reload_config
  rm_health :: health_check
  rm_signal :: reload_signal
  rm_draining :: bool
  rm_woken :: nat

definition rm_new :: "instant \<Rightarrow> reload_config \<Rightarrow> reload_manager" where
  "rm_new now cfg =
     \<lparr>rm_config = cfg, rm_health = health_new now, rm_signal = NoSignal, rm_draining = False, rm_woken = 0\<rparr>"

definition signal_graceful_reload :: "reload_manager \<Rightarrow> reload_manager" where
  "signal_graceful_reload rm = rm\<lparr>rm_signal := Graceful\<rparr>"

definition signal_hot_reload :: "reload_manager \<Rightarrow> reload_manager" where
  "signal_hot_reload rm = rm\<lparr>rm_signal := Hot\<rparr>"

definition signal_shutdown :: "reload_manager \<Rightarrow> reload_manager" where
  "signal_shutdown rm = rm\<lparr>rm_signal := Shutdown\<rparr>"

definition start_drain :: "reload_manager \<Rightarrow> reload_manager" where
  "start_drain rm =
     (if \<not> rm_draining rm then rm\<lparr>rm_draining := True, rm_health := mark_draining (rm_health rm)\<rparr> else rm)"

definition is_draining :: "reload_manager \<Rightarrow> bool" where
  "is_draining rm = rm_draining rm"

definition on_request_complete :: "reload_manager \<Rightarrow> reload_manager" where
  "on_request_complete rm =
     (let (remaining, h) = decrement_in_flight (rm_health rm);
          rm = rm\<lparr>rm_health := h\<rparr>
      in if is_draining rm \<and> remaining = 0 then rm\<lparr>rm_woken := Suc (rm_woken rm)\<rparr> else rm)"

definition reset_after_reload :: "reload_manager \<Rightarrow> reload_manager" where
  "reset_after_reload rm =
     rm\<lparr>rm_draining := False, rm_health := set_status Healthy (rm_health rm), rm_signal := NoSignal\<rparr>"

definition admit :: "reload_manager \<Rightarrow> reload_manager" where
  "admit rm = rm\<lparr>rm_health := snd (increment_in_flight (rm_health rm))\<rparr>"

lemmas reload_defs = start_drain_def is_draining_def on_request_complete_def reset_after_reload_def admit_def
  increment_in_flight_def decrement_in_flight_def mark_draining_def set_status_def

subsection \<open>Draining under concurrency\<close>

text \<open>
  \<open>wait_for_drain\<close> first reads the in-flight count, then registers for the notification and
  waits for it or for the timeout.
\<close>

datatype waiter = NotWaiting | SawInFlight | Registered | Finished bool

record drain_sys =
  dr_rm :: reload_manager
  dr_checked :: nat
  dr_running :: nat
  dr_dropped :: nat
  dr_waiter :: waiter

definition drain_init :: "instant \<Rightarrow> reload_config \<Rightarrow> drain_sys" where
  "drain_init now cfg = \<lparr>dr_rm = rm_new now cfg, dr_checked = 0, dr_running = 0, dr_dropped = 0, dr_waiter = NotWaiting\<rparr>"

text \<open>
  The steps: a request passes or fails the \<open>is_draining\<close> check, is counted, completes or is dropped: when
  its connection closes, the server drops the future of \<open>handle_request\<close> at the \<open>await\<close> of the
  inner handler, and the code after it, which would count the request out, does not run. The drain
  starts; the waiter reads the count, registers, is woken by a completion or times out. A
  completion wakes only a waiter that has registered.
\<close>

inductive drain_step :: "drain_sys \<Rightarrow> drain_sys \<Rightarrow> bool" where
  check_pass: "\<not> is_draining (dr_rm s) \<Longrightarrow> drain_step s (s\<lparr>dr_checked := Suc (dr_checked s)\<rparr>)"
| check_fail: "is_draining (dr_rm s) \<Longrightarrow> drain_step s s"
| count_in: "dr_checked s = Suc n \<Longrightarrow>
    drain_step s (s\<lparr>dr_checked := n, dr_running := Suc (dr_running s), dr_rm := admit (dr_rm s)\<rparr>)"
| complete: "dr_running s = Suc n \<Longrightarrow> rm' = on_request_complete (dr_rm s) \<Longrightarrow>
    drain_step s (s\<lparr>dr_running := n, dr_rm := rm',
      dr_waiter := (if rm_woken rm' \<noteq> rm_woken (dr_rm s) \<and> dr_waiter s = Registered
                    then Finished True else dr_waiter s)\<rparr>)"
| dropped: "dr_running s = Suc n \<Longrightarrow> drain_step s (s\<lparr>dr_running := n, dr_dropped := Suc (dr_dropped s)\<rparr>)"
| start: "drain_step s (s\<lparr>dr_rm := start_drain (dr_rm s)\<rparr>)"
| wait_read: "dr_waiter s = NotWaiting \<Longrightarrow>
    drain_step s (s\<lparr>dr_waiter := (if hk_in_flight (rm_health (dr_rm s)) = 0 then Finished True else SawInFlight)\<rparr>)"
| wait_register: "dr_waiter s = SawInFlight \<Longrightarrow> drain_step s (s\<lparr>dr_waiter := Registered\<rparr>)"
| wait_timeout: "dr_waiter s = Registered \<Longrightarrow> drain_step s (s\<lparr>dr_waiter := Finished False\<rparr>)"

inductive drain_reach :: "drain_sys \<Rightarrow> bool" where
  init: "drain_reach (drain_init now cfg)"
| step: "drain_reach s \<Longrightarrow> drain_step s s' \<Longrightarrow> drain_reach s'"

lemma drain_accounting: "drain_reach s \<Longrightarrow> hk_in_flight (rm_health (dr_rm s)) = of_nat (dr_running s + dr_dropped s)"
proof (induction rule: drain_reach.induct)
  case (init now cfg)
  then show ?case by (simp add: drain_init_def rm_new_def health_new_def)
next
  case (step s s')
  from step.hyps(2) step.IH show ?case
    by (cases rule: drain_step.cases) (auto simp: reload_defs Let_def)
qed

lemma unat_of_nat_u64: "n < 2 ^ 64 \<Longrightarrow> unat (of_nat n :: u64) = n"
  unfolding unat_of_nat by (rule mod_less) simp

text \<open>After a request was dropped a waiter that has not finished finds a count above zero and is never woken.\<close>

lemma dropped_blocks_waiter:
  assumes "drain_reach s" "drain_step s s'" "0 < dr_dropped s" "dr_running s + dr_dropped s < 2 ^ 64"
    and "dr_waiter s \<noteq> Finished True"
  shows "dr_waiter s' \<noteq> Finished True"
proof -
  let ?n = "dr_running s + dr_dropped s"
  have n: "hk_in_flight (rm_health (dr_rm s)) = of_nat ?n" by (rule drain_accounting [OF assms(1)])
  then have u: "unat (hk_in_flight (rm_health (dr_rm s))) = ?n" using unat_of_nat_u64 [OF assms(4)] by presburger
  with assms(3) have pos: "hk_in_flight (rm_health (dr_rm s)) \<noteq> 0" by auto
  have still: "rm_woken (on_request_complete (dr_rm s)) = rm_woken (dr_rm s)" if "dr_running s = Suc k" for k
  proof -
    let ?a = "hk_in_flight (rm_health (dr_rm s))"
    have "2 \<le> unat ?a" using u that assms(3) by simp
    then have "unat (saturating_sub ?a 1) \<noteq> 0" by (simp add: unat_saturating_sub)
    then have "saturating_sub ?a 1 \<noteq> 0" by auto
    then show ?thesis by (simp add: on_request_complete_def decrement_in_flight_def is_draining_def Let_def)
  qed
  from assms(2) show ?thesis
    by (cases rule: drain_step.cases) (use assms(5) pos still in auto)
qed


text \<open>A request that was let in and dropped, and a drain whose waiter then reads the counter.\<close>

lemma dropped_then_drain:
  "\<exists>s. drain_reach s \<and> is_draining (dr_rm s) \<and> dr_checked s = 0 \<and> dr_running s = 0 \<and> dr_dropped s = 1 \<and> dr_waiter s = NotWaiting"
proof -
  let ?i = "drain_init 0 reload_default"
  let ?a = "?i\<lparr>dr_checked := Suc (dr_checked ?i)\<rparr>"
  let ?b = "?a\<lparr>dr_checked := 0, dr_running := Suc (dr_running ?a), dr_rm := admit (dr_rm ?a)\<rparr>"
  let ?c = "?b\<lparr>dr_running := 0, dr_dropped := Suc (dr_dropped ?b)\<rparr>"
  let ?d = "?c\<lparr>dr_rm := start_drain (dr_rm ?c)\<rparr>"
  note d = drain_init_def rm_new_def health_new_def reload_defs
  have "drain_reach ?a" by (rule drain_reach.step [OF drain_reach.init drain_step.check_pass]) (simp add: d)
  moreover have "drain_step ?a ?b" by (rule drain_step.count_in) (simp add: d)
  ultimately have "drain_reach ?b" by (rule drain_reach.step)
  moreover have "drain_step ?b ?c" by (rule drain_step.dropped) (simp add: d)
  ultimately have "drain_reach ?c" by (rule drain_reach.step)
  then have "drain_reach ?d" by (rule drain_reach.step [OF _ drain_step.start])
  then show ?thesis by (intro exI [of _ ?d]) (simp add: d)
qed


text \<open>
  The drain protocol has two races. A completion between the waiter's read of the counter and
  its registration wakes nobody: there is a reachable state with nothing left to drain in which
  the waiter can only time out. And a request that passed the draining check before the drain
  began can start running after the waiter has reported a complete drain.
\<close>

theorem drain_races:
  "(\<exists>s. drain_reach s \<and> is_draining (dr_rm s) \<and> dr_checked s = 0 \<and> dr_running s = 0 \<and> dr_waiter s = Registered \<and>
        \<not> (\<exists>s'. drain_step s s' \<and> dr_waiter s' = Finished True)) \<and>
   (\<exists>s. drain_reach s \<and> is_draining (dr_rm s) \<and> dr_waiter s = Finished True \<and> dr_running s = 1)"
proof
  let ?i = "drain_init 0 reload_default"
  let ?a = "?i\<lparr>dr_checked := Suc (dr_checked ?i)\<rparr>"
  let ?b = "?a\<lparr>dr_checked := 0, dr_running := Suc (dr_running ?a), dr_rm := admit (dr_rm ?a)\<rparr>"
  let ?c = "?b\<lparr>dr_rm := start_drain (dr_rm ?b)\<rparr>"
  let ?d = "?c\<lparr>dr_waiter := SawInFlight\<rparr>"
  let ?e = "?d\<lparr>dr_running := 0, dr_rm := on_request_complete (dr_rm ?d), dr_waiter := SawInFlight\<rparr>"
  let ?f = "?e\<lparr>dr_waiter := Registered\<rparr>"
  note d = drain_init_def rm_new_def health_new_def reload_defs saturating_sub_def
  have a: "drain_reach ?a"
    by (rule drain_reach.step [OF drain_reach.init drain_step.check_pass]) (simp add: d)
  have "drain_step ?a ?b" by (rule drain_step.count_in) (simp add: d)
  with a have b: "drain_reach ?b" by (rule drain_reach.step)
  then have c: "drain_reach ?c" by (rule drain_reach.step [OF _ drain_step.start])
  have "drain_step ?c ?d" using drain_step.wait_read [of ?c] by (simp add: d)
  with c have dd: "drain_reach ?d" by (rule drain_reach.step)
  have "drain_step ?d ?e" using drain_step.complete [of ?d 0 "on_request_complete (dr_rm ?d)"] by (simp add: d)
  with dd have e: "drain_reach ?e" by (rule drain_reach.step)
  have "drain_step ?e ?f" by (rule drain_step.wait_register) simp
  with e have f: "drain_reach ?f" by (rule drain_reach.step)
  have stuck: "dr_waiter s' \<noteq> Finished True" if "drain_step ?f s'" for s'
    using that by (cases rule: drain_step.cases) (auto simp: d)
  have "is_draining (dr_rm ?f) \<and> dr_checked ?f = 0 \<and> dr_running ?f = 0 \<and> dr_waiter ?f = Registered"
    by (simp add: d)
  with f stuck show "\<exists>s. drain_reach s \<and> is_draining (dr_rm s) \<and> dr_checked s = 0 \<and> dr_running s = 0 \<and>
    dr_waiter s = Registered \<and> \<not> (\<exists>s'. drain_step s s' \<and> dr_waiter s' = Finished True)" by blast
  let ?g = "?a\<lparr>dr_rm := start_drain (dr_rm ?a)\<rparr>"
  let ?h = "?g\<lparr>dr_waiter := Finished True\<rparr>"
  let ?j = "?h\<lparr>dr_checked := 0, dr_running := Suc (dr_running ?h), dr_rm := admit (dr_rm ?h)\<rparr>"
  from a have "drain_reach ?g" by (rule drain_reach.step [OF _ drain_step.start])
  moreover have "drain_step ?g ?h" using drain_step.wait_read [of ?g] by (simp add: d)
  ultimately have "drain_reach ?h" by (rule drain_reach.step)
  moreover have "drain_step ?h ?j" by (rule drain_step.count_in) (simp add: d)
  ultimately have "drain_reach ?j" by (rule drain_reach.step)
  moreover have "is_draining (dr_rm ?j) \<and> dr_waiter ?j = Finished True \<and> dr_running ?j = 1" by (simp add: d)
  ultimately show "\<exists>s. drain_reach s \<and> is_draining (dr_rm s) \<and> dr_waiter s = Finished True \<and> dr_running s = 1"
    by blast
qed

end
