(* ===== verification/Worker.thy ===== *)
theory Worker
  imports Interpreter Routing Middleware_Chain Reload
begin

text \<open>
  The worker (\<open>src/core/worker.rs\<close>, \<open>middleware_response_to_hyper\<close> of \<open>src/middleware/mod.rs\<close>): the
  request handler that ties routing, middleware, Python handlers and graceful reload together, the
  health probes and the table of probe routes. One request is handled from begin to end; the
  interleaving of requests with draining is the step relation of the reload component. Access logs
  are not modelled.
\<close>

subsection \<open>Middleware responses on the wire\<close>

text \<open>
  The response builder of the \<open>http\<close> crate keeps the first error, of the status, a header name or a
  header value, and fails in the end.
\<close>

definition middleware_response_to_hyper :: "http_lib \<Rightarrow> mw_response \<Rightarrow> 'q http_response" where
  "middleware_response_to_hyper lib r =
     (if valid_status (mr_status r) \<and> list_all (\<lambda>(k, v). name_ok lib k \<and> value_ok lib v) (mr_headers r)
      then \<lparr>hr_status = mr_status r,
            hr_headers = fold (\<lambda>(k, v) h. hm_append k v h)
              (mr_headers r @ [(''content-length'', show_nat (length (mr_body r)))]) [],
            hr_body = FullBody (mr_body r)\<rparr>
      else \<lparr>hr_status = 500, hr_headers = [], hr_body = FullBody ''Internal Server Error''\<rparr>)"

subsection \<open>The request handler\<close>

record ('m, 'f, 'w) app_state =
  as_router :: "('m, 'f) router"
  as_middleware :: "'w chain"
  as_registry :: "'f handler_registry"

text \<open>What the handler takes from outside: the crates it calls and Python.\<close>

record ('m, 'f, 'g, 'q, 'b, 'p) worker_libs =
  wl_http :: http_lib
  wl_web :: "'b web_libs"
  wl_matchit :: "('m, 'f route) matchit"
  wl_dbg :: "instant \<Rightarrow> string"
  wl_py :: "('f, 'g, 'q, 'p) python"

definition request_context ::
  "('m, 'f, 'g, 'q, 'b, 'p) worker_libs \<Rightarrow> instant \<Rightarrow> request \<Rightarrow> mw_context" where
  "request_context lib now req =
     context_new (xxh3_64 (wl_web lib)) (wl_dbg lib) now (rq_path req)
       (case from_str (as_str (rq_method req)) of Some m \<Rightarrow> m | None \<Rightarrow> GET)
       (headers_map req) (rq_query_string req) (rq_body req)"

definition apply_headers :: "http_lib \<Rightarrow> (string \<times> string) list \<Rightarrow> wire_headers \<Rightarrow> wire_headers" where
  "apply_headers lib hs h =
     fold (\<lambda>(k, v) h. if name_ok lib k \<and> value_ok lib v then hm_insert k v h else h) hs h"

definition handle_request_inner ::
  "('m, 'f, 'g, 'q, 'b, 'p) worker_libs \<Rightarrow> ('m, 'f, 'w) app_state \<Rightarrow> instant \<Rightarrow> 'b axum_request \<Rightarrow> 'w \<Rightarrow> 'p \<Rightarrow>
   ('q http_response \<times> 'w \<times> 'p) option" where
  "handle_request_inner lib st now req w p =
     (let fast_req = request_from_axum (wl_web lib) req;
          found = find_matching_route (wl_matchit lib) (as_router st) (rq_path fast_req) (as_str (rq_method fast_req));
          run = (\<lambda>route ps. http_execute (wl_http lib) (wl_py lib) (as_registry st)
                   (handler_hash (xxh3_64 (wl_web lib)) route) (set_path_params ps fast_req) p)
      in if \<not> is_empty_before (as_middleware st) then
           (case execute_before (as_middleware st) (request_context lib now fast_req) w of
              (Response r, c, w) \<Rightarrow> Some (middleware_response_to_hyper (wl_http lib) r, w, p)
            | (Error e, c, w) \<Rightarrow>
                (case execute_error (as_middleware st) c e w of
                   (Some r, c, w) \<Rightarrow> Some (middleware_response_to_hyper (wl_http lib) r, w, p)
                 | (None, c, w) \<Rightarrow> Some (middleware_response_to_hyper (wl_http lib) (to_response e), w, p))
            | (Continue, c, w) \<Rightarrow>
                (case found of
                   None \<Rightarrow> Some (response_404, w, p)
                 | Some (route, ps) \<Rightarrow>
                     (case run route ps of
                        None \<Rightarrow> None
                      | Some (res, p) \<Rightarrow>
                          (let c = set_params ps c;
                               (c, w) = (if \<not> is_empty_after (as_middleware st)
                                         then snd (execute_after (as_middleware st) c w) else (c, w))
                           in Some (res\<lparr>hr_headers :=
                                apply_headers (wl_http lib) (mc_response_headers c) (hr_headers res)\<rparr>, w, p)))))
         else
           (case found of
              None \<Rightarrow> Some (response_404, w, p)
            | Some (route, ps) \<Rightarrow>
                (case run route ps of None \<Rightarrow> None | Some (res, p) \<Rightarrow> Some (res, w, p))))"

definition draining_response :: "'q http_response" where
  "draining_response =
     \<lparr>hr_status = 503,
      hr_headers = [(''content-type'', ''application/json''), (''connection'', ''close''), (''retry-after'', ''5'')],
      hr_body = FullBody (''{'' @ [CHR 0x22] @ ''error'' @ [CHR 0x22] @ '':'' @ [CHR 0x22] @ ''service_draining'' @
        [CHR 0x22] @ '','' @ [CHR 0x22] @ ''message'' @ [CHR 0x22] @ '':'' @ [CHR 0x22] @
        ''Server is reloading, please retry'' @ [CHR 0x22] @ ''}'')\<rparr>"

definition handle_request ::
  "('m, 'f, 'g, 'q, 'b, 'p) worker_libs \<Rightarrow> ('m, 'f, 'w) app_state \<Rightarrow> instant \<Rightarrow> 'b axum_request \<Rightarrow>
   reload_manager \<times> 'w \<times> 'p \<Rightarrow> ('q http_response \<times> reload_manager \<times> 'w \<times> 'p) option" where
  "handle_request lib st now req =
     (\<lambda>(rm, w, p).
        if is_draining rm then Some (draining_response, rm, w, p)
        else
          (let rm = admit rm in
           case handle_request_inner lib st now req w p of
             None \<Rightarrow> None
           | Some (response, w, p) \<Rightarrow> Some (response, on_request_complete rm, w, p)))"

subsection \<open>Health probes\<close>

definition probe_response :: "(real \<Rightarrow> string) \<Rightarrow> instant \<Rightarrow> (health_check \<Rightarrow> nat) \<Rightarrow> reload_manager \<Rightarrow> 'q http_response" where
  "probe_response fixed2 now code rm =
     \<lparr>hr_status = (if valid_status (code (rm_health rm)) then code (rm_health rm) else 500),
      hr_headers = [(''content-type'', ''application/json'')], hr_body = FullBody (health_to_json fixed2 now (rm_health rm))\<rparr>"

definition health_liveness :: "(real \<Rightarrow> string) \<Rightarrow> instant \<Rightarrow> reload_manager \<Rightarrow> 'q http_response" where
  "health_liveness fixed2 now rm = probe_response fixed2 now liveness_code rm"

definition health_readiness :: "(real \<Rightarrow> string) \<Rightarrow> instant \<Rightarrow> reload_manager \<Rightarrow> 'q http_response" where
  "health_readiness fixed2 now rm = probe_response fixed2 now readiness_code rm"

definition health_startup :: "(real \<Rightarrow> string) \<Rightarrow> instant \<Rightarrow> reload_manager \<Rightarrow> 'q http_response" where
  "health_startup fixed2 now rm = probe_response fixed2 now startup_code rm"

definition health_probe :: "(real \<Rightarrow> string) \<Rightarrow> instant \<Rightarrow> reload_manager \<Rightarrow> 'q http_response" where
  "health_probe fixed2 now rm =
     probe_response fixed2 now (\<lambda>h. if is_live (health_status_of h) then 200 else 503) rm"

datatype probe = Liveness | Readiness | Startup | Status

text \<open>The probe routes of \<open>build_axum_router\<close>; every other path falls back to \<open>handle_request\<close>.\<close>

definition probe_routes :: "reload_config \<Rightarrow> (string \<times> probe) list" where
  "probe_routes cfg =
     (if rd_health_probes_enabled cfg
      then [(rd_health_path_prefix cfg @ ''/live'', Liveness), (rd_health_path_prefix cfg @ ''/ready'', Readiness),
            (rd_health_path_prefix cfg @ ''/startup'', Startup), (rd_health_path_prefix cfg, Status)]
      else [])"

subsection \<open>In-flight accounting and draining\<close>

lemma complete_after_admit:
  "hk_in_flight (rm_health (on_request_complete (admit rm))) = hk_in_flight (rm_health rm)"
  "is_draining (on_request_complete (admit rm)) = is_draining rm"
  by (simp_all add: reload_defs Let_def split_beta)

text \<open>
  \<^bold>\<open>C4\<close> The gate of the worker: while the server drains, every request is answered with the 503
  of \<open>draining_response\<close> and nothing else happens, no middleware and no handler runs and the
  in-flight count stays; otherwise the answer is that of \<open>handle_request_inner\<close>, and when it is
  given the in-flight count and the draining flag are what they were before.
\<close>

theorem handle_request_gate:
  "if is_draining rm then handle_request lib st now req (rm, w, p) = Some (draining_response, rm, w, p)
   else case handle_request lib st now req (rm, w, p) of
          None \<Rightarrow> handle_request_inner lib st now req w p = None
        | Some (response, rm', w', p') \<Rightarrow>
            handle_request_inner lib st now req w p = Some (response, w', p') \<and>
            hk_in_flight (rm_health rm') = hk_in_flight (rm_health rm) \<and> \<not> is_draining rm'"
  by (auto simp: handle_request_def Let_def complete_after_admit split: option.split)

subsection \<open>Short circuits\<close>

text \<open>
  \<^bold>\<open>C5\<close> A request that a before-middleware stops never reaches Python: when the chain answers with
  a response, that response is sent as it is, when it fails, a response is sent all the same, and in
  both cases the Python state is untouched, for every router and every registry of handlers. A request
  to a path without a route is answered with 404 and does not reach Python either.
\<close>

theorem stopped_requests_skip_python:
  "case execute_before (as_middleware st) (request_context lib now (request_from_axum (wl_web lib) req)) w of
     (Response r, c, w') \<Rightarrow>
       handle_request_inner lib st now req w p = Some (middleware_response_to_hyper (wl_http lib) r, w', p)
   | (Error e, c, w') \<Rightarrow>
       \<exists>r w''. handle_request_inner lib st now req w p = Some (middleware_response_to_hyper (wl_http lib) r, w'', p)
   | (Continue, c, w') \<Rightarrow>
       if find_matching_route (wl_matchit lib) (as_router st) (rq_path (request_from_axum (wl_web lib) req))
            (as_str (rq_method (request_from_axum (wl_web lib) req))) = None
       then handle_request_inner lib st now req w p = Some (response_404, w', p) else True"
proof (cases "is_empty_before (as_middleware st)")
  case True
  then show ?thesis
    by (auto simp: execute_before_def is_empty_before_def handle_request_inner_def Let_def)
next
  case False
  then show ?thesis
    by (auto simp: handle_request_inner_def Let_def split: prod.splits mw_result.splits option.splits)
qed

subsection \<open>Response headers of the chain\<close>

text \<open>The valid headers a chain adds; a later one of a name replaces earlier ones.\<close>

definition valid_headers :: "http_lib \<Rightarrow> (string \<times> string) list \<Rightarrow> (string \<times> string) list" where
  "valid_headers lib hs =
     map (\<lambda>(k, v). (to_lower k, v)) (filter (\<lambda>(k, v). name_ok lib k \<and> value_ok lib v) hs)"

lemma wire_values_insert_any:
  "wire_values n (hm_insert k v h) = (if n = to_lower k then [v] else wire_values n h)"
  by (auto simp: wire_values_def hm_insert_def hm_remove_def filter_empty_conv intro: arg_cong [where f = "map snd"] filter_cong)

lemma wire_values_apply:
  "wire_values n (apply_headers lib hs h) =
     (case map_of (rev (valid_headers lib hs)) n of Some v \<Rightarrow> [v] | None \<Rightarrow> wire_values n h)"
proof (induction hs arbitrary: h)
  case Nil
  then show ?case by (simp add: apply_headers_def valid_headers_def)
next
  case (Cons a hs)
  obtain k v where a: "a = (k, v)" by (cases a)
  have "apply_headers lib (a # hs) h =
      apply_headers lib hs (if name_ok lib k \<and> value_ok lib v then hm_insert k v h else h)"
    by (simp add: apply_headers_def a)
  then show ?case
    by (simp add: Cons.IH a valid_headers_def wire_values_insert_any map_add_def split: option.split)
qed

text \<open>
  What the chain adds to a handled response: after the before-chain continued, a route was
  found and its handler answered, the response of the worker has the status and the body of the
  handler's, and for every header name the last valid value the middleware added, or the handler's
  values if they added none.
\<close>

theorem handled_response_headers:
  "let fr = request_from_axum (wl_web lib) req; chain = as_middleware st in
   case (execute_before chain (request_context lib now fr) w,
         find_matching_route (wl_matchit lib) (as_router st) (rq_path fr) (as_str (rq_method fr))) of
     ((Continue, c, w1), Some (route, ps)) \<Rightarrow>
       (case http_execute (wl_http lib) (wl_py lib) (as_registry st) (handler_hash (xxh3_64 (wl_web lib)) route)
               (set_path_params ps fr) p of
          None \<Rightarrow> handle_request_inner lib st now req w p = None
        | Some (res, p') \<Rightarrow>
            let (c', w') = (if ch_before chain = [] then (c, w1) else snd (execute_after chain (set_params ps c) w1)) in
            (\<exists>out. handle_request_inner lib st now req w p = Some (out, w', p') \<and>
               hr_status out = hr_status res \<and> hr_body out = hr_body res \<and>
               (\<forall>n. wire_values n (hr_headers out) =
                  (case map_of (rev (valid_headers (wl_http lib) (mc_response_headers c'))) n of
                     Some v \<Rightarrow> [v] | None \<Rightarrow> wire_values n (hr_headers res)))))
   | _ \<Rightarrow> True"
proof (cases "ch_before (as_middleware st) = []")
  case True
  then show ?thesis
    by (auto simp: handle_request_inner_def Let_def is_empty_before_def execute_before_def request_context_def
        context_new_def valid_headers_def split: option.splits)
next
  case False
  have after: "(if \<not> is_empty_after ch then snd (execute_after ch c' v) else (c', v)) = snd (execute_after ch c' v)" for ch c' v
    by (simp add: is_empty_after_def execute_after_def)
  from False show ?thesis unfolding handle_request_inner_def Let_def after
    by (auto simp: is_empty_before_def wire_values_apply split: prod.splits option.splits mw_result.splits)
qed

text \<open>
  After-middleware runs only when there is before-middleware, and not for requests the chain stopped
  or that have no route: without before-middleware the answer does not depend on it.
\<close>

lemma after_needs_before:
  "handle_request_inner lib (st\<lparr>as_middleware := (as_middleware st)\<lparr>ch_before := [], ch_after := a\<rparr>\<rparr>) now req w p =
   handle_request_inner lib (st\<lparr>as_middleware := (as_middleware st)\<lparr>ch_before := [], ch_after := b\<rparr>\<rparr>) now req w p"
  by (simp add: handle_request_inner_def Let_def is_empty_before_def)

text \<open>Readiness fails while draining although the process stays live.\<close>

lemma draining_probes:
  "hr_status (health_readiness fixed2 now (start_drain rm)) = 503 \<and> hr_status (health_liveness fixed2 now (start_drain rm)) = 200"
  if "\<not> is_draining rm"
  using that
  by (simp add: health_readiness_def health_liveness_def probe_response_def readiness_code_def liveness_code_def
      health_status_of_def status_from_u8_def reload_defs is_ready_def is_live_def valid_status_def)

end
