(* ===== verification/Reload_Api.thy ===== *)
theory Reload_Api
  imports Worker
begin

text \<open>
  The Python-facing side of \<open>src/core/reload.rs\<close>: the classes \<open>HealthCheck\<close>, \<open>ReloadConfig\<close> and
  \<open>ReloadManager\<close>. They wrap the Rust objects of the reload component; the lemmas say what a
  Python program can find out from the report and what its calls do to requests.
\<close>

subsection \<open>HealthCheck\<close>

definition py_health_new :: "instant \<Rightarrow> health_check" where
  "py_health_new now = health_new now"

definition py_health_status :: "health_check \<Rightarrow> string" where
  "py_health_status h = status_as_str (health_status_of h)"

definition py_mark_healthy :: "health_check \<Rightarrow> health_check" where
  "py_mark_healthy h = mark_healthy h"

definition py_mark_draining :: "health_check \<Rightarrow> health_check" where
  "py_mark_draining h = mark_draining h"

definition py_mark_unhealthy :: "health_check \<Rightarrow> health_check" where
  "py_mark_unhealthy h = mark_unhealthy h"

definition py_health_in_flight :: "health_check \<Rightarrow> u64" where
  "py_health_in_flight h = in_flight h"

definition py_uptime_secs :: "instant \<Rightarrow> health_check \<Rightarrow> real" where
  "py_uptime_secs now h = as_secs_f64 (uptime now h)"

definition py_is_live :: "health_check \<Rightarrow> bool" where
  "py_is_live h = is_live (health_status_of h)"

definition py_is_ready :: "health_check \<Rightarrow> bool" where
  "py_is_ready h = is_ready (health_status_of h)"

definition py_health_to_json :: "(real \<Rightarrow> string) \<Rightarrow> instant \<Rightarrow> health_check \<Rightarrow> string" where
  "py_health_to_json fixed2 now h = health_to_json fixed2 now h"

definition py_add_custom_check :: "string \<Rightarrow> health_check \<Rightarrow> health_check" where
  "py_add_custom_check name h = add_custom_check name h"

text \<open>\<open>fixed1\<close> renders a floating-point number with one decimal.\<close>

definition py_health_repr :: "(real \<Rightarrow> string) \<Rightarrow> instant \<Rightarrow> health_check \<Rightarrow> string" where
  "py_health_repr fixed1 now h =
     ''HealthCheck(status='' @ status_as_str (health_status_of h) @ '', in_flight='' @ show_nat (unat (in_flight h)) @
     '', uptime='' @ fixed1 (as_secs_f64 (uptime now h)) @ ''s)''"

subsection \<open>ReloadConfig\<close>

text \<open>The defaults of the constructor's signature, for the arguments a call leaves out.\<close>

definition py_reload_config_new ::
  "nat option \<Rightarrow> nat option \<Rightarrow> nat option \<Rightarrow> bool option \<Rightarrow> string option \<Rightarrow> reload_config" where
  "py_reload_config_new drain_timeout_secs health_poll_interval_ms startup_grace_secs health_probes_enabled health_path_prefix =
     \<lparr>rd_drain_timeout_secs = case_option 30 (\<lambda>x. x) drain_timeout_secs,
      rd_health_poll_interval_ms = case_option 100 (\<lambda>x. x) health_poll_interval_ms,
      rd_startup_grace_secs = case_option 2 (\<lambda>x. x) startup_grace_secs,
      rd_health_probes_enabled = case_option True (\<lambda>x. x) health_probes_enabled,
      rd_health_path_prefix = case_option ''/_health'' (\<lambda>x. x) health_path_prefix\<rparr>"

definition py_reload_config_repr :: "reload_config \<Rightarrow> string" where
  "py_reload_config_repr c =
     ''ReloadConfig(drain_timeout='' @ show_nat (rd_drain_timeout_secs c) @ ''s, health_probes='' @
     show_bool (rd_health_probes_enabled c) @ '')''"

subsection \<open>ReloadManager\<close>

definition py_manager_new :: "instant \<Rightarrow> reload_config option \<Rightarrow> reload_manager" where
  "py_manager_new now config = rm_new now (case config of Some c \<Rightarrow> c | None \<Rightarrow> reload_default)"

definition py_manager_health :: "reload_manager \<Rightarrow> health_check" where
  "py_manager_health rm = rm_health rm"

definition py_graceful_reload :: "reload_manager \<Rightarrow> reload_manager" where
  "py_graceful_reload rm = signal_graceful_reload rm"

definition py_hot_reload :: "reload_manager \<Rightarrow> reload_manager" where
  "py_hot_reload rm = signal_hot_reload rm"

definition py_shutdown :: "reload_manager \<Rightarrow> reload_manager" where
  "py_shutdown rm = signal_shutdown rm"

definition py_is_draining :: "reload_manager \<Rightarrow> bool" where
  "py_is_draining rm = is_draining rm"

definition py_manager_status :: "reload_manager \<Rightarrow> string" where
  "py_manager_status rm = status_as_str (health_status_of (rm_health rm))"

definition py_manager_in_flight :: "reload_manager \<Rightarrow> u64" where
  "py_manager_in_flight rm = in_flight (rm_health rm)"

definition py_manager_repr :: "reload_manager \<Rightarrow> string" where
  "py_manager_repr rm =
     ''ReloadManager(status='' @ status_as_str (health_status_of (rm_health rm)) @ '', draining='' @
     show_bool (is_draining rm) @ '', in_flight='' @ show_nat (unat (in_flight (rm_health rm))) @ '')''"

text \<open>The constructor of Python without arguments is the \<open>Default\<close> of Rust.\<close>

lemma py_reload_config_default: "py_reload_config_new None None None None None = reload_default"
  by (simp add: py_reload_config_new_def reload_default_def)

subsection \<open>The report\<close>

lemma show_nat_no_comma: "CHR '','' \<notin> set (show_nat n)"
  using show_nat_digits [of "CHR '',''" n] by auto

lemma status_no_quote: "CHR 0x22 \<notin> set (status_as_str s)"
  by (cases s) simp_all

lemma status_as_str_inj: "status_as_str s = status_as_str t \<longleftrightarrow> s = t"
  by (cases s; cases t) simp_all

text \<open>
  The report of the probes tells its reader everything but the custom checks: two reports are
  the same text only if the status, both verdicts and the number of requests in flight are the
  same, whatever the uptimes are. The verdicts are those of the status codes the liveness and
  readiness probes answer with, and a ready worker is a live one.
\<close>

theorem health_report_unambiguous:
  "(health_to_json fixed2 now h = health_to_json fixed2 now' h') =
     (health_status_of h = health_status_of h' \<and> in_flight h = in_flight h' \<and>
      fixed2 (as_secs_f64 (uptime now h)) = fixed2 (as_secs_f64 (uptime now' h'))) \<and>
   (py_is_live h = (liveness_code h = 200)) \<and> (py_is_ready h = (readiness_code h = 200)) \<and>
   \<not> (py_is_ready h \<and> \<not> py_is_live h)"
proof -
  let ?rest = "\<lambda>now h. json_key ''live'' @ show_bool (is_live (health_status_of h)) @ '','' @
    json_key ''ready'' @ show_bool (is_ready (health_status_of h)) @ '','' @ json_key ''in_flight'' @
    show_nat (unat (in_flight h)) @ CHR '','' # json_key ''uptime_secs'' @ fixed2 (as_secs_f64 (uptime now h)) @ ''}''"
  have shape: "health_to_json fixed2 now h =
      (''{'' @ json_key ''status'' @ [CHR 0x22]) @ status_as_str (health_status_of h) @ CHR 0x22 # '','' @ ?rest now h" for now h
    by (simp add: health_to_json_def Let_def)
  have "health_to_json fixed2 now h = health_to_json fixed2 now' h' \<longleftrightarrow>
      health_status_of h = health_status_of h' \<and> ?rest now h = ?rest now' h'"
    unfolding shape same_append_eq by (simp add: append_sep_eq status_no_quote status_as_str_inj)
  also have "\<dots> \<longleftrightarrow> health_status_of h = health_status_of h' \<and> in_flight h = in_flight h' \<and>
      fixed2 (as_secs_f64 (uptime now h)) = fixed2 (as_secs_f64 (uptime now' h'))"
    by (auto simp: append_sep_eq show_nat_no_comma show_nat_inject intro: word_unat_eq_iff [THEN iffD2])
  finally show ?thesis
    by (cases "health_status_of h")
      (simp_all add: py_is_live_def py_is_ready_def liveness_code_def readiness_code_def is_live_def is_ready_def)
qed

subsection \<open>Signals sent from Python\<close>

datatype manager_call = GracefulReload | HotReload | ShutdownCall

fun manager_step :: "manager_call \<Rightarrow> reload_manager \<Rightarrow> reload_manager" where
  "manager_step GracefulReload rm = py_graceful_reload rm"
| "manager_step HotReload rm = py_hot_reload rm"
| "manager_step ShutdownCall rm = py_shutdown rm"

lemma manager_steps_signal: "\<exists>s. fold manager_step ks rm = rm\<lparr>rm_signal := s\<rparr>"
proof (induction ks arbitrary: rm)
  case Nil
  have "rm = rm\<lparr>rm_signal := rm_signal rm\<rparr>" by simp
  then show ?case by (simp, blast)
next
  case (Cons k ks)
  have "\<exists>s. manager_step k rm = rm\<lparr>rm_signal := s\<rparr>"
    by (cases k) (auto simp: py_graceful_reload_def py_hot_reload_def py_shutdown_def signal_graceful_reload_def
        signal_hot_reload_def signal_shutdown_def)
  with Cons.IH [of "manager_step k rm"] show ?case by auto
qed

lemma handle_request_signal:
  "map_option (\<lambda>(res, rm, w, p). (res, rm_health rm, w, p)) (handle_request lib st now req (rm\<lparr>rm_signal := s\<rparr>, w, p)) =
   map_option (\<lambda>(res, rm, w, p). (res, rm_health rm, w, p)) (handle_request lib st now req (rm, w, p))"
  by (auto simp: handle_request_def Let_def reload_defs split_beta split: option.split)

text \<open>
  The reload methods of the Python classes only store a signal that nothing reads. After any
  number of calls of \<open>graceful_reload\<close>, \<open>hot_reload\<close> and \<open>shutdown\<close> the manager reports the same
  status and the same number of requests, is not draining unless it was, and requests are answered as
  if the calls had not been made.
\<close>

theorem python_reload_signals_inert:
  "let rm' = fold manager_step ks rm in
   py_manager_status rm' = py_manager_status rm \<and> py_is_draining rm' = py_is_draining rm \<and>
   py_manager_in_flight rm' = py_manager_in_flight rm \<and>
   map_option (\<lambda>(res, rm, w, p). (res, rm_health rm, w, p)) (handle_request lib st now req (rm', w, p)) =
   map_option (\<lambda>(res, rm, w, p). (res, rm_health rm, w, p)) (handle_request lib st now req (rm, w, p))"
proof -
  obtain s where "fold manager_step ks rm = rm\<lparr>rm_signal := s\<rparr>" using manager_steps_signal by blast
  then show ?thesis
    by (simp add: py_manager_status_def py_is_draining_def py_manager_in_flight_def is_draining_def
        handle_request_signal)
qed

end
