(* ===== verification/Serving.thy ===== *)
theory Serving
  imports Worker
begin

text \<open>
  From the routes of a program to the answers of a worker: \<open>Server::start\<close> collects the handlers of
  the router (\<open>src/core/server.rs\<close>), \<open>run_worker\<close> registers them under their hashes, builds the
  application state and marks the worker healthy after the grace period (\<open>src/core/worker.rs\<close>).
  The theorems connect \<open>add_route\<close> with the handler that runs for a request.
\<close>

subsection \<open>Starting to serve\<close>

definition collect_handlers :: "(string \<Rightarrow> u64) \<Rightarrow> ('m, 'f) router \<Rightarrow> (u64 \<times> 'f) list" where
  "collect_handlers xxh ro = map (\<lambda>r. (handler_hash xxh r, rt_function r)) (ro_routes ro)"

definition register_all ::
  "('f, 'g, 'q, 'p) python \<Rightarrow> (u64 \<times> 'f) list \<Rightarrow> 'f handler_registry \<Rightarrow> 'f handler_registry" where
  "register_all py handlers reg = fold (\<lambda>(hash, handler). register_handler py hash handler) handlers reg"

text \<open>The state the worker gives to Axum, with the handlers of its process.\<close>

definition worker_state ::
  "('m, 'f, 'g, 'q, 'b, 'p) worker_libs \<Rightarrow> ('m, 'f) router \<Rightarrow> 'w chain \<Rightarrow> ('m, 'f, 'w) app_state" where
  "worker_state lib ro ch =
     \<lparr>as_router = ro, as_middleware = ch,
      as_registry = register_all (wl_py lib) (collect_handlers (xxh3_64 (wl_web lib)) ro) []\<rparr>"

text \<open>The health of a worker that was started at \<open>t\<^sub>0\<close> and has not been told to drain.\<close>

definition startup_health :: "reload_config \<Rightarrow> instant \<Rightarrow> instant \<Rightarrow> reload_manager" where
  "startup_health cfg t0 now =
     (let rm = rm_new t0 cfg
      in if t0 + secs (rd_startup_grace_secs cfg) \<le> now then rm\<lparr>rm_health := mark_healthy (rm_health rm)\<rparr> else rm)"

text \<open>The worker of systems without \<open>fork\<close> answers without looking at the drain.\<close>

definition handle_request_standalone ::
  "('m, 'f, 'g, 'q, 'b, 'p) worker_libs \<Rightarrow> ('m, 'f, 'w) app_state \<Rightarrow> instant \<Rightarrow> 'b axum_request \<Rightarrow> 'w \<Rightarrow> 'p \<Rightarrow>
   ('q http_response \<times> 'w \<times> 'p) option" where
  "handle_request_standalone lib st now req w p = handle_request_inner lib st now req w p"

text \<open>
  A fresh worker fails its readiness and startup probes until the grace period is over and passes
  them afterwards; its liveness probe passes from the start.
\<close>

lemma startup_probes:
  "readiness_code (rm_health (startup_health cfg t0 now)) = (if t0 + secs (rd_startup_grace_secs cfg) \<le> now then 200 else 503)"
  "startup_code (rm_health (startup_health cfg t0 now)) = (if t0 + secs (rd_startup_grace_secs cfg) \<le> now then 200 else 503)"
  "liveness_code (rm_health (startup_health cfg t0 now)) = 200"
  by (simp_all add: startup_health_def Let_def rm_new_def health_new_def mark_healthy_def set_status_def readiness_code_def
      startup_code_def liveness_code_def is_ready_def is_live_def health_status_of_def status_from_u8_def)

subsection \<open>The registry\<close>

lemma get_handler_register_all:
  "map_of (register_all py hs reg) h =
     (case map_of (rev hs) h of Some f \<Rightarrow> Some (f, py_iscoroutinefunction py f) | None \<Rightarrow> map_of reg h)"
  by (induction hs arbitrary: reg) (auto simp: register_all_def register_handler_def map_add_def split: option.splits)

text \<open>Every route of the router finds its own handler when no two routes share a hash.\<close>

lemma registered_handler:
  assumes "r \<in> set (ro_routes ro)" "inj_on (handler_hash xxh) (set (ro_routes ro))"
  shows "map_of (register_all py (collect_handlers xxh ro) []) (handler_hash xxh r) =
         Some (rt_function r, py_iscoroutinefunction py (rt_function r))"
proof -
  have "map_of (rev (collect_handlers xxh ro)) (handler_hash xxh r) = Some f \<Longrightarrow> f = rt_function r" for f
    using assms by (fastforce simp: collect_handlers_def dest!: map_of_SomeD dest: inj_onD)
  moreover have "map_of (rev (collect_handlers xxh ro)) (handler_hash xxh r) \<noteq> None"
    using assms(1) by (auto simp: collect_handlers_def map_of_eq_None_iff image_image)
  ultimately show ?thesis by (auto simp: get_handler_register_all split: option.split)
qed

subsection \<open>The routes of a program\<close>

fun add_routes :: "('m, 'f route) matchit \<Rightarrow> 'f route list \<Rightarrow> ('m, 'f) router \<Rightarrow> string + ('m, 'f) router" where
  "add_routes mt [] ro = Ok ro"
| "add_routes mt (r # rs) ro = (case add_route mt r ro of Err e \<Rightarrow> Err e | Ok ro' \<Rightarrow> add_routes mt rs ro')"

fun insert_paths :: "('m, 'r) matchit \<Rightarrow> (string \<times> 'r) list \<Rightarrow> 'm \<Rightarrow> string + 'm" where
  "insert_paths mt [] m = Ok m"
| "insert_paths mt ((p, r) # ins) m = (case m_insert mt m p r of Err e \<Rightarrow> Err e | Ok m' \<Rightarrow> insert_paths mt ins m')"

text \<open>
  What a matcher built by insertions promises: a path without placeholders that was inserted is found
  with its own value and no parameters, whatever was inserted before and after it.
\<close>

definition plain_path :: "string \<Rightarrow> bool" where
  "plain_path p = (set p \<inter> {CHR '':'', CHR ''*'', CHR ''{'', CHR ''}''} = {})"

definition matchit_law :: "('m, 'r) matchit \<Rightarrow> bool" where
  "matchit_law mt =
     (\<forall>ins m p r. insert_paths mt ins (m_new mt) = Ok m \<longrightarrow> (p, r) \<in> set ins \<longrightarrow> plain_path p \<longrightarrow> m_at mt m p = Some (r, []))"

lemma insert_paths_append:
  "insert_paths mt (xs @ ys) m = (case insert_paths mt xs m of Err e \<Rightarrow> Err e | Ok m' \<Rightarrow> insert_paths mt ys m')"
  by (induction xs arbitrary: m) (auto split: sum.split)

definition inserted :: "('m, 'f) router \<Rightarrow> string \<Rightarrow> 'f route list \<Rightarrow> (string \<times> 'f route) list" where
  "inserted ro meth rs =
     map (\<lambda>r. (convert_to_matchit_path (get_full_path ro (rt_path r)), r)) (filter (\<lambda>r. to_upper (rt_method r) = meth) rs)"

lemma get_full_path_cong: "ro_path ro = ro_path ro' \<Longrightarrow> get_full_path ro = get_full_path ro'"
  by (rule ext) (simp add: get_full_path_def)

lemma add_routes_matchers:
  assumes "add_routes mt rs ro = Ok ro'" "meth \<in> set valid_methods"
  shows "ro_path ro' = ro_path ro \<and> ro_routes ro' = ro_routes ro @ rs \<and>
    insert_paths mt (inserted ro meth rs) (the (router_for meth ro)) = Ok (the (router_for meth ro'))"
  using assms(1)
proof (induction rs arbitrary: ro)
  case (Cons r rs)
  obtain ro1 where add: "add_route mt r ro = Ok ro1" and rest: "add_routes mt rs ro1 = Ok ro'"
    using Cons.prems by (auto split: sum.splits)
  obtain m m' where *: "is_valid r" "router_for (to_upper (rt_method r)) ro = Some m"
    "mr_insert mt m (get_full_path ro (rt_path r)) r = Ok m'"
    "ro1 = (set_router_for (to_upper (rt_method r)) m' ro)\<lparr>ro_routes := ro_routes ro @ [r]\<rparr>"
    using add by (auto simp: add_route_Ok)
  have path: "ro_path ro1 = ro_path ro" by (simp add: *(4) frame_simps)
  have ins: "inserted ro1 meth rs = inserted ro meth rs"
    unfolding inserted_def by (simp add: get_full_path_cong [OF path])
  have step: "inserted ro meth (r # rs) =
      (if to_upper (rt_method r) = meth then [(convert_to_matchit_path (get_full_path ro (rt_path r)), r)] else []) @ inserted ro meth rs"
    by (simp add: inserted_def)
  have "router_for meth ro1 = (if meth = to_upper (rt_method r) then Some m' else router_for meth ro)"
    using *(1) by (simp add: *(4) frame_simps router_for_set is_valid_iff)
  moreover have "ro_routes ro1 = ro_routes ro @ [r]" by (simp add: *(4))
  ultimately show ?case
    using Cons.IH [OF rest] *(2,3) by (auto simp: path ins step mr_insert_def)
qed (simp add: inserted_def)

lemma add_routes_valid: "add_routes mt rs ro = Ok ro' \<Longrightarrow> r \<in> set rs \<Longrightarrow> is_valid r"
  by (induction rs arbitrary: ro) (auto simp: add_route_Ok split: sum.splits)

lemma router_for_new: "meth \<in> set valid_methods \<Longrightarrow> router_for meth (router_new mt base) = Some (m_new mt)"
  by (auto simp: valid_methods_def router_for_def router_new_def)

text \<open>A plain route that was accepted is found by its full path, however many routes surround it.\<close>

lemma added_route_found:
  assumes law: "matchit_law mt" and add: "add_routes mt rs (router_new mt base) = Ok ro"
    and r: "r \<in> set rs" and plain: "plain_path (get_full_path ro (rt_path r))" and m: "to_upper m = to_upper (rt_method r)"
  shows "find_matching_route mt ro (get_full_path ro (rt_path r)) m = Some (r, [])"
proof -
  let ?M = "to_upper (rt_method r)" and ?p = "get_full_path ro (rt_path r)"
  have "is_valid r" using add r by (rule add_routes_valid)
  then have M: "?M \<in> set valid_methods" by (simp add: is_valid_iff)
  note facts = add_routes_matchers [OF add M]
  have conv: "convert_to_matchit_path ?p = ?p" using plain by (intro convert_plain) (auto simp: plain_path_def)
  have full: "get_full_path (router_new mt base) = get_full_path ro" using facts by (intro get_full_path_cong) simp
  have "(?p, r) \<in> set (inserted (router_new mt base) ?M rs)" using r conv by (force simp: inserted_def full)
  moreover have "insert_paths mt (inserted (router_new mt base) ?M rs) (m_new mt) = Ok (the (router_for ?M ro))"
    using facts by (simp add: router_for_new [OF M])
  ultimately have "m_at mt (the (router_for ?M ro)) ?p = Some (r, [])"
    using law plain unfolding matchit_law_def by blast
  moreover obtain x where "router_for ?M ro = Some x" using M router_for_valid [of ?M ro] by blast
  ultimately show ?thesis by (simp add: find_upper m mr_at_def)
qed

subsection \<open>From a route to the handler that answers\<close>

lemma http_execute_registered:
  assumes "map_of reg h = Some (f, a)"
  shows "http_execute lib py reg h req p =
    (case future_into_py py a f req slot_new p of
       None \<Rightarrow> None | Some (slot, p') \<Rightarrow> Some (fst (into_response lib slot), p'))"
  using assms by (simp add: http_execute_def get_handler_info_def get_handler_def)

lemma inner_after_continue:
  assumes "execute_before (as_middleware st) (request_context lib now (request_from_axum (wl_web lib) req)) w = (Continue, c, w1)"
    and "find_matching_route (wl_matchit lib) (as_router st) (rq_path (request_from_axum (wl_web lib) req))
           (as_str (rq_method (request_from_axum (wl_web lib) req))) = Some (r, ps)"
  shows "case http_execute (wl_http lib) (wl_py lib) (as_registry st) (handler_hash (xxh3_64 (wl_web lib)) r)
                (set_path_params ps (request_from_axum (wl_web lib) req)) p of
           None \<Rightarrow> handle_request_inner lib st now req w p = None
         | Some (res, p') \<Rightarrow>
             \<exists>out w'. handle_request_inner lib st now req w p = Some (out, w', p') \<and>
               hr_status out = hr_status res \<and> hr_body out = hr_body res"
proof (cases "is_empty_before (as_middleware st)")
  case True
  with assms show ?thesis by (auto simp: handle_request_inner_def Let_def split: option.split)
next
  case False
  with assms show ?thesis by (auto simp: handle_request_inner_def Let_def split: option.split prod.split)
qed

text \<open>The answer to a request for a route that was found: that of the route's own function.\<close>

lemma found_route_answers:
  assumes add: "add_routes (wl_matchit lib) rs (router_new (wl_matchit lib) base) = Ok ro"
    and hashes: "inj_on (handler_hash (xxh3_64 (wl_web lib))) (set rs)" and r: "r \<in> set rs"
    and found: "find_matching_route (wl_matchit lib) ro (rq_path (request_from_axum (wl_web lib) req))
                  (as_str (rq_method (request_from_axum (wl_web lib) req))) = Some (r, ps)"
    and chain: "execute_before ch (request_context lib now (request_from_axum (wl_web lib) req)) w = (Continue, c, w1)"
  shows "case future_into_py (wl_py lib) (py_iscoroutinefunction (wl_py lib) (rt_function r)) (rt_function r)
                (set_path_params ps (request_from_axum (wl_web lib) req)) slot_new p of
           None \<Rightarrow> handle_request_inner lib (worker_state lib ro ch) now req w p = None
         | Some (slot, p') \<Rightarrow>
             \<exists>out w'. handle_request_inner lib (worker_state lib ro ch) now req w p = Some (out, w', p') \<and>
               hr_status out = hr_status (fst (into_response (wl_http lib) slot)) \<and>
               hr_body out = hr_body (fst (into_response (wl_http lib) slot))"
proof -
  have "''GET'' \<in> set valid_methods" by (simp add: valid_methods_def)
  from add_routes_matchers [OF add this] have routes: "ro_routes ro = rs" by (simp add: router_new_def)
  have "map_of (as_registry (worker_state lib ro ch)) (handler_hash (xxh3_64 (wl_web lib)) r) =
      Some (rt_function r, py_iscoroutinefunction (wl_py lib) (rt_function r))"
    unfolding worker_state_def by (simp, rule registered_handler) (use r hashes routes in simp_all)
  with found show ?thesis
    using inner_after_continue [of "worker_state lib ro ch" lib now req w c w1 r ps p] chain
    by (simp add: worker_state_def http_execute_registered split: option.splits prod.splits)
qed

text \<open>
  \<^bold>\<open>C2\<close> The way of a request through the whole server. The routes of a program were all accepted by
  \<open>add_route\<close>, in any order and number, and no two share a handler hash. A request for the full path
  of one of them (a path without placeholders), with its method in any letter case, that the
  before-chain lets through is answered by that route's own Python function: it is called with the
  request, as a coroutine exactly if it is a coroutine function, and status and body of the answer are
  those of the response it wrote; if it never returns, neither does the worker.
\<close>

theorem route_reaches_its_handler:
  assumes law: "matchit_law (wl_matchit lib)"
    and add: "add_routes (wl_matchit lib) rs (router_new (wl_matchit lib) base) = Ok ro"
    and hashes: "inj_on (handler_hash (xxh3_64 (wl_web lib))) (set rs)"
    and r: "r \<in> set rs" and plain: "plain_path (get_full_path ro (rt_path r))"
    and path: "rq_path (request_from_axum (wl_web lib) req) = get_full_path ro (rt_path r)"
    and meth: "to_upper (as_str (rq_method (request_from_axum (wl_web lib) req))) = to_upper (rt_method r)"
    and chain: "execute_before ch (request_context lib now (request_from_axum (wl_web lib) req)) w = (Continue, c, w1)"
  shows "case future_into_py (wl_py lib) (py_iscoroutinefunction (wl_py lib) (rt_function r)) (rt_function r)
                (set_path_params [] (request_from_axum (wl_web lib) req)) slot_new p of
           None \<Rightarrow> handle_request_inner lib (worker_state lib ro ch) now req w p = None
         | Some (slot, p') \<Rightarrow>
             \<exists>out w'. handle_request_inner lib (worker_state lib ro ch) now req w p = Some (out, w', p') \<and>
               hr_status out = hr_status (fst (into_response (wl_http lib) slot)) \<and>
               hr_body out = hr_body (fst (into_response (wl_http lib) slot))"
proof (rule found_route_answers [OF add hashes r _ chain])
  show "find_matching_route (wl_matchit lib) ro (rq_path (request_from_axum (wl_web lib) req))
      (as_str (rq_method (request_from_axum (wl_web lib) req))) = Some (r, [])"
    unfolding path by (rule added_route_found [OF law add r plain meth])
qed

text \<open>A matcher of exact paths and a Python whose function \<open>n\<close> writes its own number.\<close>

lemma exact_insert_paths:
  "insert_paths exact_matchit ins m = Ok m' \<Longrightarrow> map_of m p = Some r \<or> (p, r) \<in> set ins \<Longrightarrow> map_of m' p = Some r"
proof (induction ins arbitrary: m)
  case (Cons x ins)
  obtain q s where x: "x = (q, s)" by (cases x)
  with Cons.prems(1) have q: "map_of m q = None" and rest: "insert_paths exact_matchit ins (AList.update q s m) = Ok m'"
    by (auto simp: exact_matchit_def contains_key_def split: if_splits)
  show ?case by (rule Cons.IH [OF rest]) (use Cons.prems(2) q x in auto)
qed simp

lemma exact_matchit_paths: "matchit_law exact_matchit"
  unfolding matchit_law_def
proof (intro allI impI)
  fix ins m p and r :: 'a
  assume "insert_paths exact_matchit ins (m_new exact_matchit) = Ok m" "(p, r) \<in> set ins"
  then have "map_of m p = Some r" using exact_insert_paths [of ins "m_new exact_matchit" m p r] by simp
  then show "m_at exact_matchit m p = Some (r, [])" by (simp add: exact_matchit_def)
qed

definition number_lib :: "((string \<times> nat route) list, nat, unit, unit, unit, nat list) worker_libs" where
  "number_lib =
     \<lparr>wl_http = \<lparr>name_ok = (\<lambda>_. True), value_ok = (\<lambda>_. True)\<rparr>,
      wl_web = \<lparr>percent_decode = (\<lambda>s. s), form_parse = (\<lambda>_. []), xxh3_64 = (\<lambda>s. of_nat (length s)), to_bytes = (\<lambda>_ _. None)\<rparr>,
      wl_matchit = exact_matchit, wl_dbg = (\<lambda>_. []),
      wl_py = \<lparr>py_call = (\<lambda>f req slot p. (Some (), sl_set_body (show_nat f) slot, p @ [f])), py_has_send = (\<lambda>_. False),
               py_send = (\<lambda>_ slot p. (SendStopIteration, slot, p)), py_iscoroutinefunction = (\<lambda>_. False)\<rparr>\<rparr>"

theorem route_reaches_its_handler_witness:
  "let rs = [route_new ''/a'' 1 ''get'' None, route_new ''/a'' 2 ''post'' None, route_new ''/bcd'' 3 ''get'' None];
       req = \<lparr>ar_method = ''POST'', ar_path_query = Some (''/a'', None), ar_headers = [], ar_body = ()\<rparr>
   in \<exists>ro out w'. add_routes exact_matchit rs (router_new exact_matchit ''/'') = Ok ro \<and>
        handle_request_inner number_lib (worker_state number_lib ro chain_new) 0 req () [] = Some (out, w', [2]) \<and>
        hr_status out = 200 \<and> hr_body out = FullBody (show_nat 2)"
proof -
  let ?rs = "[route_new ''/a'' 1 ''get'' None, route_new ''/a'' 2 ''post'' None, route_new ''/bcd'' 3 ''get'' None] :: nat route list"
  let ?r = "route_new ''/a'' 2 ''post'' None :: nat route"
  let ?ro = "router_new exact_matchit ''/'' :: ((string \<times> nat route) list, nat) router"
  let ?req = "\<lparr>ar_method = ''POST'', ar_path_query = Some (''/a'', None), ar_headers = [], ar_body = ()\<rparr>"
  note sel = number_lib_def route_new_def
  have "\<exists>ro. add_routes exact_matchit ?rs ?ro = Ok ro"
    by (simp add: add_route_def is_valid_def route_new_def valid_methods_def str_simps router_for_def set_router_for_def
        mr_insert_def exact_matchit_def router_new_def contains_key_def get_full_path_def trim_end_by_def trim_start_by_def Let_def)
  then obtain ro where add: "add_routes exact_matchit ?rs ?ro = Ok ro" ..
  have "''GET'' \<in> set valid_methods" by (simp add: valid_methods_def)
  from add_routes_matchers [OF add this] have "ro_path ro = ''/''" by (simp add: router_new_def)
  then have full: "get_full_path ro (rt_path ?r) = ''/a''"
    by (simp add: get_full_path_def route_new_def trim_end_by_def trim_start_by_def)
  have fr: "rq_path (request_from_axum (wl_web number_lib) ?req) = ''/a''" "rq_method (request_from_axum (wl_web number_lib) ?req) = POST"
    by (simp_all add: request_from_axum_def request_new_def decode_path_def from_axum_def from_bytes_def Let_def)
  have hashes: "inj_on (handler_hash (xxh3_64 (wl_web number_lib))) (set ?rs)"
    by (simp add: inj_on_def sel handler_hash_def str_simps)
  have "case future_into_py (wl_py number_lib) (py_iscoroutinefunction (wl_py number_lib) (rt_function ?r)) (rt_function ?r)
              (set_path_params [] (request_from_axum (wl_web number_lib) ?req)) slot_new [] of
          None \<Rightarrow> handle_request_inner number_lib (worker_state number_lib ro chain_new) 0 ?req () [] = None
        | Some (slot, p') \<Rightarrow>
            \<exists>out w'. handle_request_inner number_lib (worker_state number_lib ro chain_new) 0 ?req () [] = Some (out, w', p') \<and>
              hr_status out = hr_status (fst (into_response (wl_http number_lib) slot)) \<and>
              hr_body out = hr_body (fst (into_response (wl_http number_lib) slot))"
    by (rule route_reaches_its_handler [where rs = ?rs and ?base = "''/''"])
      (use add fr full hashes in \<open>simp_all add: sel exact_matchit_paths plain_path_def str_simps execute_before_def chain_new_def\<close>)
  then show ?thesis
    using add by (auto simp: Let_def sel future_into_py_def into_response_def slot_new_def sl_set_body_def valid_status_def)
qed

end
