(* ===== verification/Path_Params.thy ===== *)
theory Path_Params
  imports Serving
begin

text \<open>
  Routes with parameters, from \<open>Router::add_route\<close> (\<open>src/routing/router.rs\<close>) to the handler: the
  pattern a route path stands for, what matchit promises about patterns, and the request a handler
  of such a route sees (\<open>set_path_params\<close> of \<open>src/http/request.rs\<close>, called in \<open>src/core/worker.rs\<close>).
\<close>

subsection \<open>Patterns\<close>

text \<open>A route path is a list of segments in the syntax of the router: text, \<open>:param\<close> or \<open>*wildcard\<close>.\<close>

fun segment_of :: "string \<Rightarrow> segment" where
  "segment_of s =
     (case s of [] \<Rightarrow> Static []
      | c # n \<Rightarrow> if c = CHR '':'' then Param n else if c = CHR ''*'' then Wildcard n else Static s)"

definition route_pattern :: "string \<Rightarrow> segment list" where
  "route_pattern path = map segment_of (split_on (CHR ''/'') path)"

lemma seg_src_segment_of: "seg_src (segment_of s) = s"
  by (cases s) auto

lemma route_pattern_src: "join_with ''/'' (map seg_src (route_pattern path)) = path"
  by (simp add: route_pattern_def comp_def seg_src_segment_of join_split_on del: segment_of.simps)

text \<open>
  The paths the router and matchit read in the same way: names without the characters that end a
  name or are syntax, text without them, a wildcard only at the end, no name twice.
\<close>

fun segment_wf :: "segment \<Rightarrow> bool" where
  "segment_wf (Static s) = (set s \<inter> {CHR '':'', CHR ''*'', CHR ''{'', CHR ''}'', CHR ''/''} = {})"
| "segment_wf (Param n) = (n \<noteq> [] \<and> set n \<inter> {CHR ''*'', CHR ''{'', CHR ''}'', CHR ''/'', CHR ''-'', CHR ''.''} = {})"
| "segment_wf (Wildcard n) = (n \<noteq> [] \<and> set n \<inter> {CHR ''*'', CHR ''{'', CHR ''}'', CHR ''/''} = {})"

fun seg_name :: "segment \<Rightarrow> string list" where
  "seg_name (Static s) = []"
| "seg_name (Param n) = [n]"
| "seg_name (Wildcard n) = [n]"

fun is_wildcard :: "segment \<Rightarrow> bool" where
  "is_wildcard (Wildcard n) = True"
| "is_wildcard s = False"

definition pattern_wf :: "segment list \<Rightarrow> bool" where
  "pattern_wf segs =
     (segs \<noteq> [] \<and> list_all segment_wf segs \<and> list_all (\<lambda>s. \<not> is_wildcard s) (butlast segs) \<and>
      distinct (concat (map seg_name segs)))"

text \<open>
  What a pattern matches: text matches itself, a parameter one segment that is not empty, a wildcard
  all that is left if it is not empty.
\<close>

fun bindings :: "segment list \<Rightarrow> string list \<Rightarrow> params option" where
  "bindings [] [] = Some []"
| "bindings (Static s # segs) (q # qs) = (if s = q then bindings segs qs else None)"
| "bindings (Param n # segs) (q # qs) = (if q = [] then None else map_option (Cons (n, q)) (bindings segs qs))"
| "bindings [Wildcard n] (q # qs) =
     (if join_with ''/'' (q # qs) = [] then None else Some [(n, join_with ''/'' (q # qs))])"
| "bindings segs qs = None"

definition path_bindings :: "segment list \<Rightarrow> string \<Rightarrow> params option" where
  "path_bindings segs path = bindings segs (split_on (CHR ''/'') path)"

lemma bindings_names: "bindings segs qs = Some ps \<Longrightarrow> map fst ps = concat (map seg_name segs)"
  by (induction segs qs arbitrary: ps rule: bindings.induct) (auto split: if_splits)

subsection \<open>What matchit promises\<close>

definition matchit_pattern :: "segment list \<Rightarrow> string" where
  "matchit_pattern segs = join_with ''/'' (map seg_matchit segs)"

text \<open>
  A matcher into which only well-formed patterns were inserted finds, for a path that exactly one of
  them matches, the value of that pattern with the parameters of the match.
\<close>

definition matchit_params_law :: "('m, 'r) matchit \<Rightarrow> bool" where
  "matchit_params_law mt =
     (\<forall>ins m segs r path ps.
        insert_paths mt (map (\<lambda>(s, r). (matchit_pattern s, r)) ins) (m_new mt) = Ok m \<longrightarrow>
        list_all (\<lambda>(s, r). pattern_wf s) ins \<longrightarrow> (segs, r) \<in> set ins \<longrightarrow> path_bindings segs path = Some ps \<longrightarrow>
        list_all (\<lambda>(s, r). s = segs \<or> path_bindings s path = None) ins \<longrightarrow> m_at mt m path = Some (r, ps))"

lemma segment_wf_ok: "segment_wf s \<Longrightarrow> seg_ok s"
  by (cases s) auto

lemma convert_route_pattern:
  assumes "pattern_wf (route_pattern path)"
  shows "convert_to_matchit_path path = matchit_pattern (route_pattern path)"
proof -
  have "list_all seg_ok (route_pattern path)"
    using assms segment_wf_ok by (auto simp: pattern_wf_def list_all_iff)
  from convert_refines_segments [OF this] show ?thesis
    by (simp only: route_pattern_src matchit_pattern_def)
qed

text \<open>\<open>mr_at\<close> collects the parameters in a map; the names of a pattern are distinct, so none is lost.\<close>

lemma collect_params: "distinct (map fst (acc @ ps)) \<Longrightarrow> fold (\<lambda>(k, v) m. AList.update k v m) ps acc = acc @ ps"
proof (induction ps arbitrary: acc)
  case (Cons x ps)
  obtain k v where x: "x = (k, v)" by (cases x)
  with Cons.prems have "k \<notin> fst ` set acc" by auto
  then have "AList.update k v acc = acc @ [(k, v)]" by (induction acc) auto
  with Cons.IH [of "acc @ [(k, v)]"] Cons.prems x show ?case by simp
qed simp

subsection \<open>From a request to its route\<close>

definition pattern_of :: "('m, 'f) router \<Rightarrow> 'f route \<Rightarrow> segment list" where
  "pattern_of ro r = route_pattern (get_full_path ro (rt_path r))"

text \<open>
  The routes of the request's method all have well-formed patterns, and among them the pattern of
  one route alone matches the path.
\<close>

definition only_match :: "('m, 'f) router \<Rightarrow> 'f route list \<Rightarrow> 'f route \<Rightarrow> string \<Rightarrow> bool" where
  "only_match ro rs r path =
     list_all (\<lambda>r'. to_upper (rt_method r') = to_upper (rt_method r) \<longrightarrow>
         pattern_wf (pattern_of ro r') \<and> (pattern_of ro r' = pattern_of ro r \<or> path_bindings (pattern_of ro r') path = None)) rs"

lemma pattern_route_found:
  assumes law: "matchit_params_law mt" and add: "add_routes mt rs (router_new mt base) = Ok ro"
    and r: "r \<in> set rs" and only: "only_match ro rs r path"
    and bound: "path_bindings (pattern_of ro r) path = Some ps" and m: "to_upper m = to_upper (rt_method r)"
  shows "find_matching_route mt ro path m = Some (r, ps)"
proof -
  let ?M = "to_upper (rt_method r)"
  let ?ins = "map (\<lambda>r. (pattern_of ro r, r)) (filter (\<lambda>r. to_upper (rt_method r) = ?M) rs)"
  have "is_valid r" using add r by (rule add_routes_valid)
  then have M: "?M \<in> set valid_methods" by (simp add: is_valid_iff)
  note facts = add_routes_matchers [OF add M]
  have full: "get_full_path (router_new mt base) = get_full_path ro" using facts by (intro get_full_path_cong) simp
  have wf: "list_all (\<lambda>(s, r). pattern_wf s) ?ins" and uniq: "list_all (\<lambda>(s, r'). s = pattern_of ro r \<or> path_bindings s path = None) ?ins"
    using only by (auto simp: only_match_def list_all_iff)
  have "inserted (router_new mt base) ?M rs = map (\<lambda>(s, r). (matchit_pattern s, r)) ?ins"
    using wf by (auto simp: inserted_def full pattern_of_def list_all_iff convert_route_pattern)
  then have "insert_paths mt (map (\<lambda>(s, r). (matchit_pattern s, r)) ?ins) (m_new mt) = Ok (the (router_for ?M ro))"
    using facts by (simp add: router_for_new [OF M])
  moreover have "(pattern_of ro r, r) \<in> set ?ins" using r by simp
  ultimately have at: "m_at mt (the (router_for ?M ro)) path = Some (r, ps)"
    using law wf uniq bound unfolding matchit_params_law_def by blast
  have "pattern_wf (pattern_of ro r)" using only r by (auto simp: only_match_def list_all_iff)
  then have "distinct (map fst ps)" using bindings_names bound by (fastforce simp: pattern_wf_def path_bindings_def)
  then have "fold (\<lambda>(k, v) m. AList.update k v m) ps [] = ps" using collect_params [of "[]" ps] by simp
  moreover obtain x where "router_for ?M ro = Some x" using M router_for_valid [of ?M ro] by blast
  ultimately show ?thesis using at by (simp add: find_upper m mr_at_def)
qed

text \<open>
  \<^bold>\<open>C3\<close> Routes with parameters, through the whole server. The routes of a program were all accepted by
  \<open>add_route\<close> and no two share a handler hash; the patterns of the routes of the request's method are
  well formed and exactly one of them, of a route written with \<open>:param\<close> and \<open>*wildcard\<close> segments,
  matches the request path. Then a request the before-chain lets through is answered by that route's
  own Python function, which gets the request with exactly the parameters that the pattern binds in
  this path.
\<close>

theorem pattern_route_reaches_its_handler:
  assumes law: "matchit_params_law (wl_matchit lib)"
    and add: "add_routes (wl_matchit lib) rs (router_new (wl_matchit lib) base) = Ok ro"
    and hashes: "inj_on (handler_hash (xxh3_64 (wl_web lib))) (set rs)" and r: "r \<in> set rs"
    and only: "only_match ro rs r (rq_path (request_from_axum (wl_web lib) req))"
    and bound: "path_bindings (pattern_of ro r) (rq_path (request_from_axum (wl_web lib) req)) = Some ps"
    and meth: "to_upper (as_str (rq_method (request_from_axum (wl_web lib) req))) = to_upper (rt_method r)"
    and chain: "execute_before ch (request_context lib now (request_from_axum (wl_web lib) req)) w = (Continue, c, w1)"
  shows "case future_into_py (wl_py lib) (py_iscoroutinefunction (wl_py lib) (rt_function r)) (rt_function r)
                (set_path_params ps (request_from_axum (wl_web lib) req)) slot_new p of
           None \<Rightarrow> handle_request_inner lib (worker_state lib ro ch) now req w p = None
         | Some (slot, p') \<Rightarrow>
             \<exists>out w'. handle_request_inner lib (worker_state lib ro ch) now req w p = Some (out, w', p') \<and>
               hr_status out = hr_status (fst (into_response (wl_http lib) slot)) \<and>
               hr_body out = hr_body (fst (into_response (wl_http lib) slot))"
  by (rule found_route_answers [OF add hashes r _ chain], rule pattern_route_found [OF law add r only bound meth])

subsection \<open>A matcher of patterns\<close>

text \<open>A matcher that tries the patterns in the order of their insertion has the promised behaviour.\<close>

fun segment_of_matchit :: "string \<Rightarrow> segment" where
  "segment_of_matchit s =
     (case s of [] \<Rightarrow> Static []
      | c # n \<Rightarrow> if c \<noteq> CHR ''{'' then Static s else if hd n = CHR ''*'' then Wildcard (butlast (tl n)) else Param (butlast n))"

definition pattern_of_matchit :: "string \<Rightarrow> segment list" where
  "pattern_of_matchit p = map segment_of_matchit (split_on (CHR ''/'') p)"

definition first_match :: "(segment list \<times> 'r) list \<Rightarrow> string \<Rightarrow> ('r \<times> params) option" where
  "first_match m path =
     (case filter (\<lambda>(s, r). path_bindings s path \<noteq> None) m of
        [] \<Rightarrow> None | (s, r) # _ \<Rightarrow> Some (r, the (path_bindings s path)))"

definition list_matchit :: "((segment list \<times> 'r) list, 'r) matchit" where
  "list_matchit =
     \<lparr>m_new = [],
      m_insert = (\<lambda>m p r. if contains_key (pattern_of_matchit p) m then Err ''conflict'' else Ok (m @ [(pattern_of_matchit p, r)])),
      m_at = first_match\<rparr>"

lemma segment_of_matchit_inverse: "segment_wf s \<Longrightarrow> segment_of_matchit (seg_matchit s) = s"
  by (cases s; simp split: list.split) (auto simp: hd_append neq_Nil_conv)

lemma seg_matchit_no_slash: "segment_wf s \<Longrightarrow> CHR ''/'' \<notin> set (seg_matchit s)"
  by (cases s) auto

lemma pattern_of_matchit_inverse:
  assumes "pattern_wf segs"
  shows "pattern_of_matchit (matchit_pattern segs) = segs"
proof -
  have wf: "segment_wf s" if "s \<in> set segs" for s using assms that by (auto simp: pattern_wf_def list_all_iff)
  have "split_on (CHR ''/'') (matchit_pattern segs) = map seg_matchit segs"
    unfolding matchit_pattern_def using assms wf
    by (intro split_join_with) (auto simp: pattern_wf_def seg_matchit_no_slash)
  then show ?thesis
    by (simp add: pattern_of_matchit_def comp_def segment_of_matchit_inverse wf map_idI del: segment_of_matchit.simps)
qed

lemma list_insert_paths:
  "insert_paths list_matchit (map (\<lambda>(s, r). (matchit_pattern s, r)) ins) m = Ok m' \<Longrightarrow> list_all (\<lambda>(s, r). pattern_wf s) ins \<Longrightarrow>
   wf_map m \<Longrightarrow> m' = m @ ins \<and> wf_map m'"
proof (induction ins arbitrary: m)
  case (Cons x ins)
  obtain s r where x: "x = (s, r)" by (cases x)
  with Cons.prems have new: "map_of m s = None" and
    rest: "insert_paths list_matchit (map (\<lambda>(s, r). (matchit_pattern s, r)) ins) (m @ [(s, r)]) = Ok m'"
    by (auto simp: list_matchit_def pattern_of_matchit_inverse contains_key_def split: if_splits)
  from new Cons.prems(3) have "wf_map (m @ [(s, r)])" by (simp add: wf_map_def map_of_eq_None_iff)
  from Cons.IH [OF rest _ this] Cons.prems(2) x show ?case by auto
qed simp

lemma list_matchit_patterns: "matchit_params_law list_matchit"
  unfolding matchit_params_law_def
proof (intro allI impI)
  fix ins m segs and r :: 'a and path ps
  assume ins: "insert_paths list_matchit (map (\<lambda>(s, r). (matchit_pattern s, r)) ins) (m_new list_matchit) = Ok m"
    and wf: "list_all (\<lambda>(s, r). pattern_wf s) ins" and r: "(segs, r) \<in> set ins" and ps: "path_bindings segs path = Some ps"
    and uniq: "list_all (\<lambda>(s, r). s = segs \<or> path_bindings s path = None) ins"
  have m: "m = ins" "wf_map ins" using list_insert_paths [OF ins wf] by (auto simp: list_matchit_def wf_map_def)
  let ?hits = "filter (\<lambda>(s, r). path_bindings s path \<noteq> None) ins"
  have "x = (segs, r)" if "x \<in> set ?hits" for x
  proof -
    obtain s r' where x: "x = (s, r')" by (cases x)
    with that uniq have "s = segs" "(s, r') \<in> set ins" by (auto simp: list_all_iff)
    with x r m(2) show ?thesis by (simp add: wf_map_in_set)
  qed
  moreover have "?hits \<noteq> []" using r ps by (auto simp: filter_empty_conv intro!: bexI [of _ "(segs, r)"])
  ultimately obtain xs where "?hits = (segs, r) # xs" by (metis list.exhaust list.set_intros(1))
  with ps show "m_at list_matchit m path = Some (r, ps)" by (simp add: list_matchit_def first_match_def m)
qed

text \<open>A Python whose function \<open>n\<close> writes its number and the parameter \<open>id\<close> of its request.\<close>

definition greeting_lib :: "((segment list \<times> nat route) list, nat, unit, unit, unit, nat list) worker_libs" where
  "greeting_lib =
     \<lparr>wl_http = \<lparr>name_ok = (\<lambda>_. True), value_ok = (\<lambda>_. True)\<rparr>,
      wl_web = \<lparr>percent_decode = (\<lambda>s. s), form_parse = (\<lambda>_. []), xxh3_64 = (\<lambda>s. of_nat (length s)), to_bytes = (\<lambda>_ _. None)\<rparr>,
      wl_matchit = list_matchit, wl_dbg = (\<lambda>_. []),
      wl_py = \<lparr>py_call = (\<lambda>f req slot p. (Some (), sl_set_body (show_nat f @ the (map_of (rq_path_params req) ''id'')) slot, p @ [f])),
               py_has_send = (\<lambda>_. False), py_send = (\<lambda>_ slot p. (SendStopIteration, slot, p)), py_iscoroutinefunction = (\<lambda>_. False)\<rparr>\<rparr>"

theorem pattern_route_reaches_its_handler_witness:
  "let rs = [route_new ''/users/:id'' 7 ''get'' None, route_new ''/users'' 2 ''get'' None, route_new ''/files/*rest'' 3 ''get'' None];
       req = \<lparr>ar_method = ''GET'', ar_path_query = Some (''/api/users/42'', None), ar_headers = [], ar_body = ()\<rparr>
   in \<exists>ro out w'. add_routes list_matchit rs (router_new list_matchit ''/api'') = Ok ro \<and>
        handle_request_inner greeting_lib (worker_state greeting_lib ro chain_new) 0 req () [] = Some (out, w', [7]) \<and>
        hr_status out = 200 \<and> hr_body out = FullBody (show_nat 7 @ ''42'')"
proof -
  let ?rs = "[route_new ''/users/:id'' 7 ''get'' None, route_new ''/users'' 2 ''get'' None, route_new ''/files/*rest'' 3 ''get'' None] :: nat route list"
  let ?r = "route_new ''/users/:id'' 7 ''get'' None :: nat route"
  let ?ro = "router_new list_matchit ''/api'' :: ((segment list \<times> nat route) list, nat) router"
  let ?req = "\<lparr>ar_method = ''GET'', ar_path_query = Some (''/api/users/42'', None), ar_headers = [], ar_body = ()\<rparr>"
  note sel = greeting_lib_def route_new_def
  have "\<exists>ro. add_routes list_matchit ?rs ?ro = Ok ro"
    by (simp add: add_route_def is_valid_def route_new_def valid_methods_def str_simps router_for_def set_router_for_def pattern_of_matchit_def
        mr_insert_def list_matchit_def router_new_def contains_key_def get_full_path_def trim_end_by_def trim_start_by_def Let_def)
  then obtain ro where add: "add_routes list_matchit ?rs ?ro = Ok ro" ..
  have "''GET'' \<in> set valid_methods" by (simp add: valid_methods_def)
  from add_routes_matchers [OF add this] have "ro_path ro = ''/api''" by (simp add: router_new_def)
  then have pat: "pattern_of ro ?r = [Static [], Static ''api'', Static ''users'', Param ''id'']"
    "pattern_of ro (route_new ''/users'' 2 ''get'' None) = [Static [], Static ''api'', Static ''users'']"
    "pattern_of ro (route_new ''/files/*rest'' 3 ''get'' None) = [Static [], Static ''api'', Static ''files'', Wildcard ''rest'']"
    by (simp_all add: pattern_of_def route_pattern_def get_full_path_def route_new_def trim_end_by_def trim_start_by_def)
  have fr: "rq_path (request_from_axum (wl_web greeting_lib) ?req) = ''/api/users/42''" "rq_method (request_from_axum (wl_web greeting_lib) ?req) = GET"
    by (simp_all add: request_from_axum_def request_new_def decode_path_def from_axum_def from_bytes_def Let_def)
  have only: "only_match ro ?rs ?r ''/api/users/42''" "path_bindings (pattern_of ro ?r) ''/api/users/42'' = Some [(''id'', ''42'')]"
    by (simp_all add: only_match_def pat pattern_wf_def path_bindings_def)
  have hashes: "inj_on (handler_hash (xxh3_64 (wl_web greeting_lib))) (set ?rs)"
    by (simp add: inj_on_def sel handler_hash_def str_simps)
  have "case future_into_py (wl_py greeting_lib) (py_iscoroutinefunction (wl_py greeting_lib) (rt_function ?r)) (rt_function ?r)
              (set_path_params [(''id'', ''42'')] (request_from_axum (wl_web greeting_lib) ?req)) slot_new [] of
          None \<Rightarrow> handle_request_inner greeting_lib (worker_state greeting_lib ro chain_new) 0 ?req () [] = None
        | Some (slot, p') \<Rightarrow>
            \<exists>out w'. handle_request_inner greeting_lib (worker_state greeting_lib ro chain_new) 0 ?req () [] = Some (out, w', p') \<and>
              hr_status out = hr_status (fst (into_response (wl_http greeting_lib) slot)) \<and>
              hr_body out = hr_body (fst (into_response (wl_http greeting_lib) slot))"
    by (rule pattern_route_reaches_its_handler [where rs = ?rs and ?base = "''/api''"])
      (use add fr only hashes in \<open>simp_all add: sel list_matchit_patterns str_simps execute_before_def chain_new_def\<close>)
  then show ?thesis
    using add by (auto simp: Let_def sel future_into_py_def into_response_def slot_new_def sl_set_body_def valid_status_def set_path_params_def)
qed

end
