(* ===== verification/Channel.thy ===== *)
theory Channel
  imports Registry
begin

text \<open>
  Publish/subscribe channels (\<open>src/realtime/channel.rs\<close>): topic patterns, the topic matcher,
  subscriber handles and the channel manager. \<open>tokio::sync::broadcast\<close> is a library: its four
  operations act on a state \<open>'t\<close> of their own and are the fields of a record that the definitions
  take as an argument. A \<open>HashSet\<close> is a list without repetition. Counters are 64-bit words.
\<close>

subsection \<open>The broadcast library\<close>

datatype recv_result = RecvOk string | RecvEmpty | RecvLagged u64 | RecvClosed

record ('t, 'tx, 'rx) tokio_broadcast =
  tb_channel :: "nat \<Rightarrow> 't \<Rightarrow> 'tx \<times> 't"
  tb_subscribe :: "'tx \<Rightarrow> 't \<Rightarrow> 'rx \<times> 't"
  tb_send :: "'tx \<Rightarrow> string \<Rightarrow> 't \<Rightarrow> nat option \<times> 't"
  tb_try_recv :: "'rx \<Rightarrow> 't \<Rightarrow> recv_result \<times> 't"

subsection \<open>Topic patterns\<close>

text \<open>The loop of \<open>pattern_matches\<close>; its two indices always move together.\<close>

fun match_parts :: "string list \<Rightarrow> string list \<Rightarrow> bool" where
  "match_parts (p # ps) (t # ts) =
     (if p = ''#'' then True
      else if p = ''*'' then match_parts ps ts
      else if p \<noteq> t then False
      else match_parts ps ts)"
| "match_parts ps ts = (ps = [] \<and> ts = [])"

definition pattern_matches :: "string \<Rightarrow> string \<Rightarrow> bool" where
  "pattern_matches pattern topic =
     (if pattern = topic then True
      else match_parts (split_on (CHR '':'') pattern) (split_on (CHR '':'') topic))"

subsection \<open>TopicMatcher\<close>

type_synonym topic_matcher = "(string \<times> string list) list"

definition tm_subscribe :: "string \<Rightarrow> string \<Rightarrow> topic_matcher \<Rightarrow> topic_matcher" where
  "tm_subscribe pattern client tm =
     AList.update pattern
       (List.insert client (case map_of tm pattern of Some cs \<Rightarrow> cs | None \<Rightarrow> [])) tm"

definition tm_unsubscribe :: "string \<Rightarrow> string \<Rightarrow> topic_matcher \<Rightarrow> bool \<times> topic_matcher" where
  "tm_unsubscribe pattern client tm =
     (case map_of tm pattern of
        Some cs \<Rightarrow>
          (let removed = client \<in> set cs; cs = removeAll client cs
           in (removed, if cs = [] then AList.delete pattern tm else AList.update pattern cs tm))
      | None \<Rightarrow> (False, tm))"

definition tm_unsubscribe_all :: "string \<Rightarrow> topic_matcher \<Rightarrow> nat \<times> topic_matcher" where
  "tm_unsubscribe_all client tm =
     (length (filter (\<lambda>(p, cs). client \<in> set cs) tm),
      filter (\<lambda>(p, cs). cs \<noteq> []) (map_values (removeAll client) tm))"

definition match_topic :: "topic_matcher \<Rightarrow> string \<Rightarrow> string list" where
  "match_topic tm topic =
     fold (\<lambda>(pattern, clients) matched.
       if pattern_matches pattern topic then fold List.insert clients matched else matched) tm []"

definition tm_patterns :: "topic_matcher \<Rightarrow> string list" where
  "tm_patterns tm = map fst tm"

definition tm_subscriber_count :: "topic_matcher \<Rightarrow> string \<Rightarrow> nat" where
  "tm_subscriber_count tm pattern = (case map_of tm pattern of Some cs \<Rightarrow> length cs | None \<Rightarrow> 0)"

subsection \<open>Subscriber\<close>

record 'rx subscriber =
  su_channel_name :: string
  su_client_id :: string
  su_receiver :: 'rx
  su_received :: u64
  su_missed :: u64

definition sub_try_recv ::
  "('t, 'tx, 'rx) tokio_broadcast \<Rightarrow> 'rx subscriber \<Rightarrow> 't \<Rightarrow> string option \<times> 'rx subscriber \<times> 't" where
  "sub_try_recv tb su t =
     (case tb_try_recv tb (su_receiver su) t of
        (RecvOk msg, t1) \<Rightarrow> (Some msg, su\<lparr>su_received := su_received su + 1\<rparr>, t1)
      | (RecvEmpty, t1) \<Rightarrow> (None, su, t1)
      | (RecvLagged n, t1) \<Rightarrow>
          (let su = su\<lparr>su_missed := su_missed su + n\<rparr> in
           case tb_try_recv tb (su_receiver su) t1 of
             (RecvOk msg, t2) \<Rightarrow> (Some msg, su\<lparr>su_received := su_received su + 1\<rparr>, t2)
           | (_, t2) \<Rightarrow> (None, su, t2))
      | (RecvClosed, t1) \<Rightarrow> (None, su, t1))"

text \<open>The drain loop ends when the library says so; not ending is the value \<open>None\<close>.\<close>

partial_function (option) sub_drain ::
  "('t, 'tx, 'rx) tokio_broadcast \<Rightarrow> string list \<Rightarrow> 'rx subscriber \<Rightarrow> 't \<Rightarrow>
   (string list \<times> 'rx subscriber \<times> 't) option" where
  "sub_drain tb msgs su t =
     (case tb_try_recv tb (su_receiver su) t of
        (RecvOk msg, t1) \<Rightarrow> sub_drain tb (msgs @ [msg]) (su\<lparr>su_received := su_received su + 1\<rparr>) t1
      | (RecvLagged n, t1) \<Rightarrow> sub_drain tb msgs (su\<lparr>su_missed := su_missed su + n\<rparr>) t1
      | (_, t1) \<Rightarrow> Some (msgs, su, t1))"

definition drain ::
  "('t, 'tx, 'rx) tokio_broadcast \<Rightarrow> 'rx subscriber \<Rightarrow> 't \<Rightarrow> (string list \<times> 'rx subscriber \<times> 't) option" where
  "drain tb su t = sub_drain tb [] su t"

subsection \<open>ChannelManager\<close>

record 'tx channel_inner =
  ch_sender :: 'tx
  ch_subscribers :: "string list"
  ch_total_messages :: u64
  ch_dropped_messages :: u64
  ch_metadata :: params

record 'tx channel_manager =
  cm_channels :: "(string \<times> 'tx channel_inner) list"
  cm_default_buffer_size :: nat
  cm_topic_matcher :: topic_matcher

record channel_stats =
  cs_name :: string
  cs_subscriber_count :: nat
  cs_total_messages :: u64
  cs_dropped_messages :: u64
  cs_metadata :: params

definition cm_new :: "nat \<Rightarrow> 'tx channel_manager" where
  "cm_new n = \<lparr>cm_channels = [], cm_default_buffer_size = n, cm_topic_matcher = []\<rparr>"

definition no_channel :: "string \<Rightarrow> string" where
  "no_channel n = ''Channel '' @ [CHR 0x27] @ n @ [CHR 0x27] @ '' does not exist''"

definition create_channel ::
  "('t, 'tx, 'rx) tokio_broadcast \<Rightarrow> string \<Rightarrow> nat option \<Rightarrow> params option \<Rightarrow>
   'tx channel_manager \<times> 't \<Rightarrow> bool \<times> 'tx channel_manager \<times> 't" where
  "create_channel tb name buffer_size metadata = (\<lambda>(cm, t).
     if contains_key name (cm_channels cm) then (False, cm, t)
     else
       let buf = (case buffer_size of Some n \<Rightarrow> n | None \<Rightarrow> cm_default_buffer_size cm);
           (sender, t) = tb_channel tb buf t;
           inner = \<lparr>ch_sender = sender, ch_subscribers = [], ch_total_messages = 0,
                    ch_dropped_messages = 0,
                    ch_metadata = (case metadata of Some m \<Rightarrow> m | None \<Rightarrow> [])\<rparr>
       in (True, cm\<lparr>cm_channels := AList.update name inner (cm_channels cm)\<rparr>, t))"

definition remove_channel :: "string \<Rightarrow> 'tx channel_manager \<times> 't \<Rightarrow> bool \<times> 'tx channel_manager \<times> 't" where
  "remove_channel name = (\<lambda>(cm, t).
     (contains_key name (cm_channels cm), cm\<lparr>cm_channels := AList.delete name (cm_channels cm)\<rparr>, t))"

definition has_channel :: "string \<Rightarrow> 'tx channel_manager \<times> 't \<Rightarrow> bool" where
  "has_channel name = (\<lambda>(cm, t). contains_key name (cm_channels cm))"

definition cm_subscribe ::
  "('t, 'tx, 'rx) tokio_broadcast \<Rightarrow> string \<Rightarrow> string \<Rightarrow> 'tx channel_manager \<times> 't \<Rightarrow>
   (string + 'rx subscriber) \<times> 'tx channel_manager \<times> 't" where
  "cm_subscribe tb channel client = (\<lambda>(cm, t).
     case map_of (cm_channels cm) channel of
       None \<Rightarrow> (Err (no_channel channel), cm, t)
     | Some ch \<Rightarrow>
         (let ch = ch\<lparr>ch_subscribers := List.insert client (ch_subscribers ch)\<rparr>;
              (rx, t) = tb_subscribe tb (ch_sender ch) t;
              cm = cm\<lparr>cm_channels := AList.update channel ch (cm_channels cm),
                      cm_topic_matcher := tm_subscribe channel client (cm_topic_matcher cm)\<rparr>
          in (Ok \<lparr>su_channel_name = channel, su_client_id = client, su_receiver = rx,
                  su_received = 0, su_missed = 0\<rparr>, cm, t)))"

definition cm_unsubscribe :: "string \<Rightarrow> string \<Rightarrow> 'tx channel_manager \<Rightarrow> bool \<times> 'tx channel_manager" where
  "cm_unsubscribe channel client cm =
     (let cm = cm\<lparr>cm_topic_matcher := snd (tm_unsubscribe channel client (cm_topic_matcher cm))\<rparr> in
      case map_of (cm_channels cm) channel of
        Some ch \<Rightarrow>
          (client \<in> set (ch_subscribers ch),
           cm\<lparr>cm_channels := AList.update channel
                (ch\<lparr>ch_subscribers := removeAll client (ch_subscribers ch)\<rparr>) (cm_channels cm)\<rparr>)
      | None \<Rightarrow> (False, cm))"

definition publish ::
  "('t, 'tx, 'rx) tokio_broadcast \<Rightarrow> string \<Rightarrow> string \<Rightarrow> 'tx channel_manager \<times> 't \<Rightarrow>
   (string + nat) \<times> 'tx channel_manager \<times> 't" where
  "publish tb channel message = (\<lambda>(cm, t).
     case map_of (cm_channels cm) channel of
       None \<Rightarrow> (Err (no_channel channel), cm, t)
     | Some ch \<Rightarrow>
         (let cm = cm\<lparr>cm_channels := AList.update channel
                        (ch\<lparr>ch_total_messages := ch_total_messages ch + 1\<rparr>) (cm_channels cm)\<rparr> in
          case tb_send tb (ch_sender ch) message t of
            (Some n, t) \<Rightarrow> (Ok n, cm, t)
          | (None, t) \<Rightarrow> (Ok 0, cm, t)))"

fun publish_each ::
  "('t, 'tx, 'rx) tokio_broadcast \<Rightarrow> string \<Rightarrow> string \<Rightarrow> (string \<times> 'tx channel_inner) list \<Rightarrow> 't \<Rightarrow>
   nat \<times> (string \<times> 'tx channel_inner) list \<times> 't" where
  "publish_each tb topic message [] t = (0, [], t)"
| "publish_each tb topic message ((name, ch) # m) t =
     (if pattern_matches topic name \<or> pattern_matches name topic then
        (let ch = ch\<lparr>ch_total_messages := ch_total_messages ch + 1\<rparr>;
             (r, t) = tb_send tb (ch_sender ch) message t;
             (total, m, t) = publish_each tb topic message m t
         in ((case r of Some n \<Rightarrow> n | None \<Rightarrow> 0) + total, (name, ch) # m, t))
      else
        let (total, m, t) = publish_each tb topic message m t in (total, (name, ch) # m, t))"

definition publish_to_topic ::
  "('t, 'tx, 'rx) tokio_broadcast \<Rightarrow> string \<Rightarrow> string \<Rightarrow> 'tx channel_manager \<times> 't \<Rightarrow>
   nat \<times> 'tx channel_manager \<times> 't" where
  "publish_to_topic tb topic message = (\<lambda>(cm, t).
     let (total, m, t) = publish_each tb topic message (cm_channels cm) t
     in (total, cm\<lparr>cm_channels := m\<rparr>, t))"

definition cm_get_stats :: "string \<Rightarrow> 'tx channel_manager \<Rightarrow> string + channel_stats" where
  "cm_get_stats channel cm =
     (case map_of (cm_channels cm) channel of
        None \<Rightarrow> Err (no_channel channel)
      | Some ch \<Rightarrow>
          Ok \<lparr>cs_name = channel, cs_subscriber_count = length (ch_subscribers ch),
              cs_total_messages = ch_total_messages ch, cs_dropped_messages = ch_dropped_messages ch,
              cs_metadata = ch_metadata ch\<rparr>)"

definition list_channels :: "'tx channel_manager \<Rightarrow> string list" where
  "list_channels cm = map fst (cm_channels cm)"

definition get_subscribers :: "string \<Rightarrow> 'tx channel_manager \<Rightarrow> string + string list" where
  "get_subscribers channel cm =
     (case map_of (cm_channels cm) channel of
        None \<Rightarrow> Err (no_channel channel) | Some ch \<Rightarrow> Ok (ch_subscribers ch))"

definition channel_count :: "'tx channel_manager \<Rightarrow> nat" where
  "channel_count cm = length (cm_channels cm)"

definition cm_clear :: "'tx channel_manager \<Rightarrow> 'tx channel_manager" where
  "cm_clear cm = cm\<lparr>cm_channels := []\<rparr>"

interpretation channels: registry "\<lambda>k (b, md). create_channel tb k b md" remove_channel has_channel for tb
  by unfold_locales
    (auto simp: create_channel_def remove_channel_def has_channel_def contains_key_def Let_def split: prod.splits)

subsection \<open>What a pattern matches\<close>

lemma match_parts_Nil [simp]: "match_parts [] ts \<longleftrightarrow> ts = []" "match_parts ps [] \<longleftrightarrow> ps = []"
  by (cases ts; simp) (cases ps; simp)

lemma match_parts_iff:
  "match_parts ps ts \<longleftrightarrow>
     list_all2 (\<lambda>p t. p = ''*'' \<or> p = t) ps ts \<or>
     (\<exists>pre post. ps = pre @ ''#'' # post \<and> length pre < length ts \<and>
        list_all2 (\<lambda>p t. p = ''*'' \<or> p = t) pre (take (length pre) ts))" (is "_ \<longleftrightarrow> ?spec ps ts")
proof
  show "match_parts ps ts \<Longrightarrow> ?spec ps ts"
  proof (induction ps ts rule: match_parts.induct)
    case (1 p ps t ts)
    show ?case
    proof (cases "p = ''#''")
      case True
      then have "p # ps = [] @ ''#'' # ps \<and> length [] < length (t # ts) \<and>
        list_all2 (\<lambda>p t. p = ''*'' \<or> p = t) [] (take (length []) (t # ts))" by simp
      then show ?thesis by blast
    next
      case False
      with 1 have head: "p = ''*'' \<or> p = t" and rec: "?spec ps ts" by (auto split: if_splits)
      from rec show ?thesis
      proof
        assume "\<exists>pre post. ps = pre @ ''#'' # post \<and> length pre < length ts \<and>
          list_all2 (\<lambda>p t. p = ''*'' \<or> p = t) pre (take (length pre) ts)"
        then obtain pre post where "ps = pre @ ''#'' # post" "length pre < length ts"
          "list_all2 (\<lambda>p t. p = ''*'' \<or> p = t) pre (take (length pre) ts)" by blast
        then have "p # ps = (p # pre) @ ''#'' # post \<and> length (p # pre) < length (t # ts) \<and>
          list_all2 (\<lambda>p t. p = ''*'' \<or> p = t) (p # pre) (take (length (p # pre)) (t # ts))"
          using head by simp
        then show ?thesis by blast
      qed (use head in simp)
    qed
  qed auto
next
  have exact: "match_parts ps ts" if "list_all2 (\<lambda>p t. p = ''*'' \<or> p = t) ps ts" for ps ts
    using that by (induction rule: list_all2_induct) auto
  have deep: "match_parts (pre @ ''#'' # post) ts" if "length pre < length ts"
    "list_all2 (\<lambda>p t. p = ''*'' \<or> p = t) pre (take (length pre) ts)" for pre post ts
    using that
  proof (induction pre arbitrary: ts)
    case Nil
    then show ?case by (cases ts) auto
  next
    case (Cons p pre)
    then show ?case by (cases ts) auto
  qed
  assume "?spec ps ts"
  with exact deep show "match_parts ps ts" by blast
qed

text \<open>
  \<^bold>\<open>C11\<close> Topic matching is a relation on colon-separated segments: a pattern matches a
  topic exactly when they are equal, when they have equally many segments and each pattern segment is
  \<open>*\<close> or the topic's segment, or when the pattern has a \<open>#\<close> segment such that the segments before
  it match and at least one topic segment is left for it. The guide gives \<open>#\<close> any number of segments; the loop
  stops before it looks at a \<open>#\<close> for which nothing is left, so zero is excluded.
\<close>

theorem pattern_matches_iff:
  "pattern_matches pattern topic \<longleftrightarrow>
     (let ps = split_on (CHR '':'') pattern; ts = split_on (CHR '':'') topic;
          seg = (\<lambda>p t. p = ''*'' \<or> p = t)
      in pattern = topic \<or> list_all2 seg ps ts \<or>
         (\<exists>pre post. ps = pre @ ''#'' # post \<and> length pre < length ts \<and>
            list_all2 seg pre (take (length pre) ts)))"
  by (auto simp: pattern_matches_def match_parts_iff Let_def)

lemma hash_needs_a_segment:
  "\<not> pattern_matches ''events:#'' ''events''" "pattern_matches ''events:#'' ''events:user:login''"
  by (code_simp, code_simp)

subsection \<open>The topic matcher implements a relation\<close>

definition tm_rel :: "topic_matcher \<Rightarrow> (string \<times> string) set" where
  "tm_rel tm = {(p, c). \<exists>cs. map_of tm p = Some cs \<and> c \<in> set cs}"

definition tm_wf :: "topic_matcher \<Rightarrow> bool" where
  "tm_wf tm = (wf_map tm \<and> all_values (\<lambda>cs. cs \<noteq> [] \<and> distinct cs) tm)"

lemma tm_subscribe_wf [kept]: "tm_wf tm \<Longrightarrow> tm_wf (tm_subscribe p c tm)"
  by (auto simp: tm_wf_def tm_subscribe_def List.insert_def split: option.split
      intro!: all_values_update dest: all_values_get)

lemma tm_unsubscribe_wf [kept]: "tm_wf tm \<Longrightarrow> tm_wf (snd (tm_unsubscribe p c tm))"
  by (auto simp: tm_wf_def tm_unsubscribe_def Let_def split: option.split
      intro!: all_values_update dest: all_values_get)

lemma map_of_unsubscribe_all:
  "tm_wf tm \<Longrightarrow> map_of (snd (tm_unsubscribe_all c tm)) p =
     (case map_of tm p of None \<Rightarrow> None
      | Some cs \<Rightarrow> if removeAll c cs = [] then None else Some (removeAll c cs))"
  by (simp add: tm_unsubscribe_all_def tm_wf_def map_of_filter_wf split: option.split)

lemma tm_unsubscribe_all_wf [kept]: "tm_wf tm \<Longrightarrow> tm_wf (snd (tm_unsubscribe_all c tm))"
  by (auto simp: tm_wf_def tm_unsubscribe_all_def all_values_def map_values_def)

lemma tm_rel_subscribe: "tm_rel (tm_subscribe p c tm) = insert (p, c) (tm_rel tm)"
  by (auto simp: tm_rel_def tm_subscribe_def split: option.splits if_splits)

lemma tm_rel_unsubscribe:
  "tm_rel (snd (tm_unsubscribe p c tm)) = tm_rel tm - {(p, c)}"
  "fst (tm_unsubscribe p c tm) = ((p, c) \<in> tm_rel tm)"
  by (auto simp: tm_rel_def tm_unsubscribe_def Let_def removeAll_Nil_iff split: option.splits if_splits)

lemma tm_rel_unsubscribe_all: "tm_wf tm \<Longrightarrow> tm_rel (snd (tm_unsubscribe_all c tm)) = {(p, d) \<in> tm_rel tm. d \<noteq> c}"
  by (auto simp: tm_rel_def map_of_unsubscribe_all removeAll_Nil_iff split: option.splits if_splits)

lemma set_match_topic: "tm_wf tm \<Longrightarrow> set (match_topic tm topic) = {c. \<exists>p. (p, c) \<in> tm_rel tm \<and> pattern_matches p topic}"
proof -
  have ins: "set (fold List.insert cs acc) = set cs \<union> set acc" for cs acc :: "string list"
    by (induction cs arbitrary: acc) auto
  have "set (fold (\<lambda>(pattern, clients) matched.
       if pattern_matches pattern topic then fold List.insert clients matched else matched) tm acc) =
     set acc \<union> {c. \<exists>p cs. (p, cs) \<in> set tm \<and> c \<in> set cs \<and> pattern_matches p topic}" for acc
  proof (induction tm arbitrary: acc)
    case (Cons e tm)
    obtain p cs where "e = (p, cs)" by (cases e)
    with Cons show ?case by (cases "pattern_matches p topic") (auto simp: ins)
  qed simp
  moreover assume "tm_wf tm"
  ultimately show ?thesis by (auto simp: match_topic_def tm_rel_def tm_wf_def wf_map_in_set)
qed

datatype topic_op = TSub string string | TUnsub string string | TUnsubAll string

fun topic_apply :: "topic_op \<Rightarrow> topic_matcher \<Rightarrow> topic_matcher" where
  "topic_apply (TSub p c) tm = tm_subscribe p c tm"
| "topic_apply (TUnsub p c) tm = snd (tm_unsubscribe p c tm)"
| "topic_apply (TUnsubAll c) tm = snd (tm_unsubscribe_all c tm)"

fun topic_spec :: "topic_op \<Rightarrow> (string \<times> string) set \<Rightarrow> (string \<times> string) set" where
  "topic_spec (TSub p c) R = insert (p, c) R"
| "topic_spec (TUnsub p c) R = R - {(p, c)}"
| "topic_spec (TUnsubAll c) R = {(p, d) \<in> R. d \<noteq> c}"

interpretation topics: simulation topic_apply tm_wf topic_spec tm_rel
proof
  fix tm op
  assume "tm_wf tm"
  then show "tm_wf (topic_apply op tm)" by (cases op) (simp_all add: kept)
  from \<open>tm_wf tm\<close> show "tm_rel (topic_apply op tm) = topic_spec op (tm_rel tm)"
    by (cases op) (simp_all add: tm_rel_subscribe tm_rel_unsubscribe tm_rel_unsubscribe_all)
qed

lemma distinct_match_topic: "distinct (match_topic tm topic)"
proof -
  have ins: "distinct xs \<Longrightarrow> distinct (fold List.insert cs xs)" for cs xs :: "string list"
    by (induction cs arbitrary: xs) simp_all
  have "distinct xs \<Longrightarrow> distinct (fold (\<lambda>(pattern, clients) matched.
      if pattern_matches pattern topic then fold List.insert clients matched else matched) tm xs)" for xs
    by (induction tm arbitrary: xs) (auto simp: ins)
  then show ?thesis by (simp add: match_topic_def)
qed

text \<open>
  \<^bold>\<open>C17\<close> The topic matcher refines a relation between patterns and clients: after any sequence of
  subscriptions and removals, matching a topic returns exactly the clients that the abstract
  relation relates to a matching pattern, each once however many of its patterns match, and no pattern
  with an empty client set is kept.
\<close>

theorem topic_matcher_refines:
  "distinct (match_topic (fold topic_apply ops []) topic) \<and>
   set (match_topic (fold topic_apply ops []) topic) =
     {c. \<exists>p. (p, c) \<in> fold topic_spec ops {} \<and> pattern_matches p topic} \<and>
   [] \<notin> snd ` set (fold topic_apply ops [])"
proof -
  have wf: "tm_wf (fold topic_apply ops [])" and rel: "tm_rel (fold topic_apply ops []) = fold topic_spec ops {}"
    using topics.inv_run [of "[]" ops] topics.abs_run [of "[]" ops] by (simp_all add: tm_wf_def tm_rel_def)
  have "[] \<notin> snd ` set (fold topic_apply ops [])"
    using wf by (force simp: tm_wf_def all_values_def)
  with set_match_topic [OF wf] show ?thesis by (simp add: rel distinct_match_topic)
qed

subsection \<open>Draining\<close>

text \<open>
  What the drain loop relies on of the library: a receiver has a finite queue of pending messages
  and a number of messages it has missed; a receive takes the first pending message, reports and
  clears the missed ones, or says that nothing is pending.
\<close>

definition recv_law ::
  "('t, 'tx, 'rx) tokio_broadcast \<Rightarrow> ('rx \<Rightarrow> 't \<Rightarrow> string list) \<Rightarrow> ('rx \<Rightarrow> 't \<Rightarrow> u64) \<Rightarrow> bool" where
  "recv_law tb pending lag =
     (\<forall>rx t. case tb_try_recv tb rx t of
        (RecvOk m, t') \<Rightarrow> lag rx t = 0 \<and> lag rx t' = 0 \<and> pending rx t = m # pending rx t'
      | (RecvLagged n, t') \<Rightarrow> n \<noteq> 0 \<and> lag rx t = n \<and> lag rx t' = 0 \<and> pending rx t' = pending rx t
      | (_, t') \<Rightarrow> pending rx t = [] \<and> lag rx t = 0)"

lemma sub_drain_pending:
  assumes law: "recv_law tb pending lag"
  shows "lag (su_receiver su) t = 0 \<Longrightarrow>
    \<exists>t'. sub_drain tb msgs su t =
      Some (msgs @ pending (su_receiver su) t,
            su\<lparr>su_received := su_received su + of_nat (length (pending (su_receiver su) t))\<rparr>, t')"
proof (induction "pending (su_receiver su) t" arbitrary: msgs su t)
  case Nil
  obtain r t' where r: "tb_try_recv tb (su_receiver su) t = (r, t')" by fastforce
  with law Nil have "r = RecvEmpty \<or> r = RecvClosed"
    unfolding recv_law_def by (cases r) (force split: prod.splits)+
  with r Nil show ?case by (subst sub_drain.simps) auto
next
  case (Cons m ms)
  obtain r t' where r: "tb_try_recv tb (su_receiver su) t = (r, t')" by fastforce
  with law Cons.hyps(2) Cons.prems have m: "r = RecvOk m" "ms = pending (su_receiver su) t'" "lag (su_receiver su) t' = 0"
    unfolding recv_law_def by (cases r; force split: prod.splits)+
  let ?su = "su\<lparr>su_received := su_received su + 1\<rparr>"
  from Cons.hyps(1) [of ?su t' "msgs @ [m]"] m obtain t'' where
    "sub_drain tb (msgs @ [m]) ?su t' =
       Some ((msgs @ [m]) @ ms, ?su\<lparr>su_received := su_received ?su + of_nat (length ms)\<rparr>, t'')" by auto
  with r m Cons.hyps(2) show ?case
    by (subst sub_drain.simps) (auto simp: algebra_simps Cons.hyps(2) [symmetric])
qed

text \<open>
  Draining a subscriber ends and loses nothing: it returns all pending messages in order,
  counts each of them as received, and adds exactly the messages the library dropped to the
  missed count.
\<close>

theorem drain_complete:
  assumes law: "recv_law tb pending lag"
  shows "\<exists>t'. drain tb su t =
    Some (pending (su_receiver su) t,
          su\<lparr>su_received := su_received su + of_nat (length (pending (su_receiver su) t)),
             su_missed := su_missed su + lag (su_receiver su) t\<rparr>, t')"
proof (cases "lag (su_receiver su) t = 0")
  case True
  from sub_drain_pending [OF law this, of "[]"] True show ?thesis by (auto simp: drain_def)
next
  case False
  obtain r t' where r: "tb_try_recv tb (su_receiver su) t = (r, t')" by fastforce
  with law False have m: "r = RecvLagged (lag (su_receiver su) t)" "lag (su_receiver su) t' = 0"
    "pending (su_receiver su) t' = pending (su_receiver su) t"
    unfolding recv_law_def by (cases r; force split: prod.splits)+
  let ?su = "su\<lparr>su_missed := su_missed su + lag (su_receiver su) t\<rparr>"
  from sub_drain_pending [OF law, of ?su t' "[]"] m obtain t'' where
    "sub_drain tb [] ?su t' = Some (pending (su_receiver su) t,
       ?su\<lparr>su_received := su_received su + of_nat (length (pending (su_receiver su) t))\<rparr>, t'')" by auto
  with r m show ?thesis unfolding drain_def by (subst sub_drain.simps) auto
qed

text \<open>
  A broadcast library for closed examples: one channel that keeps the whole log, a capacity, and
  per receiver the position of its next message.
\<close>

record ring =
  rg_cap :: nat
  rg_log :: "string list"
  rg_pos :: "nat list"

definition ring_behind :: "nat \<Rightarrow> ring \<Rightarrow> nat" where
  "ring_behind rx g = length (rg_log g) - rg_cap g - (if rx < length (rg_pos g) then rg_pos g ! rx else length (rg_log g))"

definition ring_pending :: "nat \<Rightarrow> ring \<Rightarrow> string list" where
  "ring_pending rx g =
     drop (ring_behind rx g + (if rx < length (rg_pos g) then rg_pos g ! rx else length (rg_log g))) (rg_log g)"

definition ring_lag :: "nat \<Rightarrow> ring \<Rightarrow> u64" where
  "ring_lag rx g = of_nat (min (ring_behind rx g) (2 ^ 64 - 1))"

definition ring_broadcast :: "(ring, unit, nat) tokio_broadcast" where
  "ring_broadcast =
     \<lparr>tb_channel = (\<lambda>n g. ((), g\<lparr>rg_cap := n, rg_log := [], rg_pos := []\<rparr>)),
      tb_subscribe = (\<lambda>_ g. (length (rg_pos g), g\<lparr>rg_pos := rg_pos g @ [length (rg_log g)]\<rparr>)),
      tb_send = (\<lambda>_ m g. (if rg_pos g = [] then None else Some (length (rg_pos g)), g\<lparr>rg_log := rg_log g @ [m]\<rparr>)),
      tb_try_recv = (\<lambda>rx g.
        if ring_behind rx g \<noteq> 0
        then (RecvLagged (ring_lag rx g), g\<lparr>rg_pos := (rg_pos g)[rx := rg_pos g ! rx + ring_behind rx g]\<rparr>)
        else if rx < length (rg_pos g) \<and> rg_pos g ! rx < length (rg_log g)
        then (RecvOk (rg_log g ! (rg_pos g ! rx)), g\<lparr>rg_pos := (rg_pos g)[rx := Suc (rg_pos g ! rx)]\<rparr>)
        else (RecvEmpty, g))\<rparr>"

lemma ring_law: "recv_law ring_broadcast ring_pending ring_lag"
proof -
  have "unat (ring_lag rx g) = min (ring_behind rx g) (2 ^ 64 - 1)" for rx g
    unfolding ring_lag_def unat_of_nat by (rule mod_less) simp
  then have "ring_lag rx g = 0 \<longleftrightarrow> ring_behind rx g = 0" for rx g
    by (metis (no_types, opaque_lifting) unat_eq_zero min_0L min_def one_neq_zero power_0 zero_less_diff
        less_numeral_extra(3) one_less_numeral_iff power_strict_increasing semiring_norm(76) zero_less_numeral)
  then show ?thesis
    by (auto simp: recv_law_def ring_broadcast_def ring_pending_def ring_behind_def Cons_nth_drop_Suc split: if_splits)
qed

theorem drain_complete_witness:
  "\<exists>t'. drain ring_broadcast \<lparr>su_channel_name = ''c'', su_client_id = ''u'', su_receiver = 0, su_received = 0, su_missed = 0\<rparr>
     \<lparr>rg_cap = 1, rg_log = [''a'', ''b''], rg_pos = [0]\<rparr> =
   Some ([''b''], \<lparr>su_channel_name = ''c'', su_client_id = ''u'', su_receiver = 0, su_received = 1, su_missed = 1\<rparr>, t')"
  using drain_complete [OF ring_law,
      of "\<lparr>su_channel_name = ''c'', su_client_id = ''u'', su_receiver = 0, su_received = 0, su_missed = 0\<rparr>"
        "\<lparr>rg_cap = 1, rg_log = [''a'', ''b''], rg_pos = [0]\<rparr>"]
  by (simp add: ring_pending_def ring_behind_def ring_lag_def)

end
