(* ===== verification/Broadcast.thy ===== *)
theory Broadcast
  imports Channel
begin

text \<open>
  The broadcast system (\<open>src/realtime/broadcast.rs\<close>): named channels with a policy for sends
  without receivers and deduplication of message ids over a window of recent ids. The broadcast
  library is the same argument as in the theory of channels.
\<close>

datatype backpressure_policy = DropOldest | PolicyError

record broadcast_config =
  bc_buffer_size :: nat
  bc_policy :: backpressure_policy
  bc_dedup_enabled :: bool
  bc_dedup_window :: nat

definition broadcast_config_new :: "nat \<Rightarrow> backpressure_policy \<Rightarrow> bool \<Rightarrow> nat \<Rightarrow> broadcast_config" where
  "broadcast_config_new n p d w =
     \<lparr>bc_buffer_size = n, bc_policy = p, bc_dedup_enabled = d, bc_dedup_window = w\<rparr>"

definition broadcast_config_default :: broadcast_config where
  "broadcast_config_default =
     \<lparr>bc_buffer_size = 256, bc_policy = DropOldest, bc_dedup_enabled = False, bc_dedup_window = 1000\<rparr>"

record broadcast_stats =
  bs_total_sent :: u64
  bs_total_dropped :: u64
  bs_total_deduped :: u64
  bs_active_subscribers :: u64
  bs_channel_count :: nat

record 'tx broadcast_inner =
  bi_sender :: 'tx
  bi_config :: broadcast_config
  bi_total_sent :: u64
  bi_total_dropped :: u64
  bi_total_deduped :: u64
  bi_subscriber_count :: u64
  bi_recent_ids :: "string list"

type_synonym 'tx broadcasts = "(string \<times> 'tx broadcast_inner) list"

record 'rx broadcast_subscriber =
  br_channel_name :: string
  br_receiver :: 'rx
  br_received :: u64
  br_lagged :: u64

definition br_try_recv ::
  "('t, 'tx, 'rx) tokio_broadcast \<Rightarrow> 'rx broadcast_subscriber \<Rightarrow> 't \<Rightarrow>
   string option \<times> 'rx broadcast_subscriber \<times> 't" where
  "br_try_recv tb su t =
     (case tb_try_recv tb (br_receiver su) t of
        (RecvOk msg, t1) \<Rightarrow> (Some msg, su\<lparr>br_received := br_received su + 1\<rparr>, t1)
      | (RecvEmpty, t1) \<Rightarrow> (None, su, t1)
      | (RecvLagged n, t1) \<Rightarrow>
          (let su = su\<lparr>br_lagged := br_lagged su + n\<rparr> in
           case tb_try_recv tb (br_receiver su) t1 of
             (RecvOk msg, t2) \<Rightarrow> (Some msg, su\<lparr>br_received := br_received su + 1\<rparr>, t2)
           | (_, t2) \<Rightarrow> (None, su, t2))
      | (RecvClosed, t1) \<Rightarrow> (None, su, t1))"

partial_function (option) br_drain ::
  "('t, 'tx, 'rx) tokio_broadcast \<Rightarrow> string list \<Rightarrow> 'rx broadcast_subscriber \<Rightarrow> 't \<Rightarrow>
   (string list \<times> 'rx broadcast_subscriber \<times> 't) option" where
  "br_drain tb msgs su t =
     (case tb_try_recv tb (br_receiver su) t of
        (RecvOk msg, t1) \<Rightarrow> br_drain tb (msgs @ [msg]) (su\<lparr>br_received := br_received su + 1\<rparr>) t1
      | (RecvLagged n, t1) \<Rightarrow> br_drain tb msgs (su\<lparr>br_lagged := br_lagged su + n\<rparr>) t1
      | (_, t1) \<Rightarrow> Some (msgs, su, t1))"

definition no_broadcast :: "string \<Rightarrow> string" where
  "no_broadcast n = ''Broadcast channel '' @ [CHR 0x27] @ n @ [CHR 0x27] @ '' does not exist''"

definition bc_create ::
  "('t, 'tx, 'rx) tokio_broadcast \<Rightarrow> string \<Rightarrow> broadcast_config option \<Rightarrow> 'tx broadcasts \<times> 't \<Rightarrow>
   bool \<times> 'tx broadcasts \<times> 't" where
  "bc_create tb name config = (\<lambda>(m, t).
     if contains_key name m then (False, m, t)
     else
       let cfg = (case config of Some c \<Rightarrow> c | None \<Rightarrow> broadcast_config_default);
           (sender, t) = tb_channel tb (bc_buffer_size cfg) t
       in (True, AList.update name
             \<lparr>bi_sender = sender, bi_config = cfg, bi_total_sent = 0, bi_total_dropped = 0,
              bi_total_deduped = 0, bi_subscriber_count = 0, bi_recent_ids = []\<rparr> m, t))"

definition bc_remove :: "string \<Rightarrow> 'tx broadcasts \<times> 't \<Rightarrow> bool \<times> 'tx broadcasts \<times> 't" where
  "bc_remove name = (\<lambda>(m, t). (contains_key name m, AList.delete name m, t))"

definition bc_has_channel :: "string \<Rightarrow> 'tx broadcasts \<times> 't \<Rightarrow> bool" where
  "bc_has_channel name = (\<lambda>(m, t). contains_key name m)"

definition bc_subscribe ::
  "('t, 'tx, 'rx) tokio_broadcast \<Rightarrow> string \<Rightarrow> 'tx broadcasts \<times> 't \<Rightarrow>
   (string + 'rx broadcast_subscriber) \<times> 'tx broadcasts \<times> 't" where
  "bc_subscribe tb name = (\<lambda>(m, t).
     case map_of m name of
       None \<Rightarrow> (Err (no_broadcast name), m, t)
     | Some ch \<Rightarrow>
         (let (rx, t) = tb_subscribe tb (bi_sender ch) t
          in (Ok \<lparr>br_channel_name = name, br_receiver = rx, br_received = 0, br_lagged = 0\<rparr>,
              AList.update name (ch\<lparr>bi_subscriber_count := bi_subscriber_count ch + 1\<rparr>) m, t)))"

text \<open>The deduplication block of \<open>send\<close>: whether the message is skipped, and the recent ids.\<close>

definition dedup_check :: "broadcast_config \<Rightarrow> string option \<Rightarrow> string list \<Rightarrow> bool \<times> string list" where
  "dedup_check cfg message_id recent =
     (if bc_dedup_enabled cfg then
        (case message_id of
           Some msg_id \<Rightarrow>
             if msg_id \<in> set recent then (True, recent)
             else
               let recent = recent @ [msg_id] in
               (False,
                if length recent > bc_dedup_window cfg
                then drop (length recent - bc_dedup_window cfg) recent else recent)
         | None \<Rightarrow> (False, recent))
      else (False, recent))"

definition bc_send ::
  "('t, 'tx, 'rx) tokio_broadcast \<Rightarrow> string \<Rightarrow> string \<Rightarrow> string option \<Rightarrow> 'tx broadcasts \<times> 't \<Rightarrow>
   (string + nat) \<times> 'tx broadcasts \<times> 't" where
  "bc_send tb name message message_id = (\<lambda>(m, t).
     case map_of m name of
       None \<Rightarrow> (Err (no_broadcast name), m, t)
     | Some ch \<Rightarrow>
         (let (skip, recent) = dedup_check (bi_config ch) message_id (bi_recent_ids ch);
              ch = ch\<lparr>bi_recent_ids := recent\<rparr>
          in if skip
             then (Ok 0, AList.update name (ch\<lparr>bi_total_deduped := bi_total_deduped ch + 1\<rparr>) m, t)
             else
               let ch = ch\<lparr>bi_total_sent := bi_total_sent ch + 1\<rparr> in
               case tb_send tb (bi_sender ch) message t of
                 (Some n, t) \<Rightarrow> (Ok n, AList.update name ch m, t)
               | (None, t) \<Rightarrow>
                   (case bc_policy (bi_config ch) of
                      PolicyError \<Rightarrow> (Err ''No active subscribers'', AList.update name ch m, t)
                    | DropOldest \<Rightarrow>
                        (Ok 0, AList.update name (ch\<lparr>bi_total_dropped := bi_total_dropped ch + 1\<rparr>) m, t))))"

fun send_many ::
  "('t, 'tx, 'rx) tokio_broadcast \<Rightarrow> string list \<Rightarrow> string \<Rightarrow> (string \<times> nat) list \<Rightarrow> 'tx broadcasts \<times> 't \<Rightarrow>
   (string \<times> nat) list \<times> 'tx broadcasts \<times> 't" where
  "send_many tb [] message results (m, t) = (results, m, t)"
| "send_many tb (name # names) message results (m, t) =
     (case map_of m name of
        None \<Rightarrow> send_many tb names message results (m, t)
      | Some ch \<Rightarrow>
          (let (r, t) = tb_send tb (bi_sender ch) message t;
               n = (case r of Some n \<Rightarrow> n | None \<Rightarrow> 0)
           in send_many tb names message (AList.update name n results)
                (AList.update name (ch\<lparr>bi_total_sent := bi_total_sent ch + 1\<rparr>) m, t)))"

definition bc_stats :: "string \<Rightarrow> 'tx broadcasts \<Rightarrow> string + broadcast_stats" where
  "bc_stats name m =
     (case map_of m name of
        None \<Rightarrow> Err (no_broadcast name)
      | Some ch \<Rightarrow>
          Ok \<lparr>bs_total_sent = bi_total_sent ch, bs_total_dropped = bi_total_dropped ch,
              bs_total_deduped = bi_total_deduped ch, bs_active_subscribers = bi_subscriber_count ch,
              bs_channel_count = 1\<rparr>)"

definition global_stats :: "'tx broadcasts \<Rightarrow> broadcast_stats" where
  "global_stats m =
     fold (\<lambda>(k, ch) st.
       st\<lparr>bs_total_sent := bs_total_sent st + bi_total_sent ch,
          bs_total_dropped := bs_total_dropped st + bi_total_dropped ch,
          bs_total_deduped := bs_total_deduped st + bi_total_deduped ch,
          bs_active_subscribers := bs_active_subscribers st + bi_subscriber_count ch\<rparr>) m
     \<lparr>bs_total_sent = 0, bs_total_dropped = 0, bs_total_deduped = 0, bs_active_subscribers = 0,
      bs_channel_count = length m\<rparr>"

definition bc_list_channels :: "'tx broadcasts \<times> 't \<Rightarrow> string list" where
  "bc_list_channels = (\<lambda>(m, t). map fst m)"

definition bc_clear :: "'tx broadcasts \<times> 't \<Rightarrow> 'tx broadcasts \<times> 't" where
  "bc_clear = (\<lambda>(m, t). ([], t))"

interpretation broadcasts: registry "bc_create tb" bc_remove bc_has_channel for tb
  by unfold_locales
    (auto simp: bc_create_def bc_remove_def bc_has_channel_def contains_key_def Let_def split: prod.splits)

subsection \<open>The deduplication window\<close>

text \<open>
  The reference: the list of all accepted ids; an id is accepted unless it is among the last
  \<open>window\<close> accepted ones.
\<close>

definition last_n :: "nat \<Rightarrow> 'a list \<Rightarrow> 'a list" where
  "last_n n xs = drop (length xs - n) xs"

definition accept :: "nat \<Rightarrow> string \<Rightarrow> string list \<Rightarrow> string list" where
  "accept w x acc = (if x \<in> set (last_n w acc) then acc else acc @ [x])"

lemma last_n_snoc: "last_n w (last_n w acc @ [x]) = last_n w (acc @ [x])"
  by (cases "length acc \<le> w"; cases w) (auto simp: last_n_def Suc_diff_Suc [symmetric] Suc_diff_le)

lemma dedup_check_window:
  assumes "bc_dedup_enabled cfg"
  shows "dedup_check cfg (Some x) (last_n (bc_dedup_window cfg) acc) =
    (x \<in> set (last_n (bc_dedup_window cfg) acc),
     last_n (bc_dedup_window cfg) (accept (bc_dedup_window cfg) x acc))"
proof -
  have "last_n w (last_n w acc @ [x]) = (if length (last_n w acc @ [x]) > w
      then drop (length (last_n w acc @ [x]) - w) (last_n w acc @ [x]) else last_n w acc @ [x])" for w
    by (simp add: last_n_def)
  with assms last_n_snoc [of "bc_dedup_window cfg" acc x] show ?thesis
    by (auto simp: dedup_check_def accept_def Let_def)
qed

lemma bc_send_channel:
  assumes "map_of m name = Some ch"
  shows "\<exists>ch'. map_of (fst (snd (bc_send tb name msg mid (m, t)))) = (map_of m)(name \<mapsto> ch') \<and>
    bi_config ch' = bi_config ch \<and> bi_sender ch' = bi_sender ch \<and>
    bi_recent_ids ch' = snd (dedup_check (bi_config ch) mid (bi_recent_ids ch)) \<and>
    bi_total_sent ch' = bi_total_sent ch + (if fst (dedup_check (bi_config ch) mid (bi_recent_ids ch)) then 0 else 1) \<and>
    bi_total_deduped ch' = bi_total_deduped ch + (if fst (dedup_check (bi_config ch) mid (bi_recent_ids ch)) then 1 else 0)"
  using assms
  by (auto simp: bc_send_def Let_def split: prod.splits option.splits backpressure_policy.splits)

lemma bc_send_skip:
  assumes "map_of m name = Some ch" "dedup_check (bi_config ch) mid (bi_recent_ids ch) = (True, bi_recent_ids ch)"
  shows "bc_send tb name msg mid (m, t) =
    (Ok 0, AList.update name (ch\<lparr>bi_total_deduped := bi_total_deduped ch + 1\<rparr>) m, t)"
  using assms by (simp add: bc_send_def)

lemma bc_send_through:
  assumes "map_of m name = Some ch" "\<not> fst (dedup_check (bi_config ch) mid (bi_recent_ids ch))"
  shows "fst (bc_send tb name msg mid (m, t)) =
      (case fst (tb_send tb (bi_sender ch) msg t) of
         Some n \<Rightarrow> Ok n
       | None \<Rightarrow> if bc_policy (bi_config ch) = PolicyError then Err ''No active subscribers'' else Ok 0) \<and>
    snd (snd (bc_send tb name msg mid (m, t))) = snd (tb_send tb (bi_sender ch) msg t)"
  using assms by (auto simp: bc_send_def Let_def split: prod.splits option.splits backpressure_policy.splits)

text \<open>The state of a channel after a history: its sender, the window, and the two counters.\<close>

definition channel_after :: "broadcast_config \<Rightarrow> 'tx \<Rightarrow> string list \<Rightarrow> nat \<Rightarrow> 'tx broadcast_inner \<Rightarrow> bool" where
  "channel_after cfg tx acc n ch =
     (bi_config ch = cfg \<and> bi_sender ch = tx \<and> bi_recent_ids ch = last_n (bc_dedup_window cfg) acc \<and>
      bi_total_sent ch = of_nat (length acc) \<and> bi_total_sent ch + bi_total_deduped ch = of_nat n)"

lemma bc_send_run:
  assumes "map_of m name = Some ch" "bc_dedup_enabled cfg" "channel_after cfg tx acc n ch"
  shows "\<exists>ch'. map_of (fst (fold (\<lambda>(msg, x) st. snd (bc_send tb name msg (Some x) st)) sends (m, t))) name = Some ch' \<and>
    channel_after cfg tx (fold (accept (bc_dedup_window cfg)) (map snd sends) acc) (n + length sends) ch'"
  using assms
proof (induction sends arbitrary: m ch acc n t)
  case (Cons e sends)
  obtain msg x where e: "e = (msg, x)" by (cases e)
  let ?m = "fst (snd (bc_send tb name msg (Some x) (m, t)))" and ?acc = "accept (bc_dedup_window cfg) x acc"
  obtain ch' where ch': "map_of ?m name = Some ch'" and after: "channel_after cfg tx ?acc (Suc n) ch'"
    using bc_send_channel [OF Cons.prems(1), of tb msg "Some x" t] Cons.prems(2,3)
    by (auto simp: channel_after_def dedup_check_window accept_def ac_simps)
  from Cons.IH [OF ch' Cons.prems(2) after, of "snd (snd (bc_send tb name msg (Some x) (m, t)))"]
  show ?case by (simp add: e)
qed auto

text \<open>
  \<^bold>\<open>C36\<close> Deduplication is exactly a window of recent ids. After any sequence of sends with ids to a
  new channel with deduplication enabled, the channel remembers the last \<open>dedup_window\<close> accepted ids and no
  more, and has counted every send as sent (the accepted ones) or deduplicated. The next send is
  suppressed when its id is among the remembered ones: it reports zero receivers, nothing reaches the
  broadcast library, and only the count of deduplicated messages changes. Otherwise the message goes to the broadcast
  library, whose answer it returns: the number of receivers or, without receivers, what the policy says.
\<close>

theorem broadcast_dedup_window:
  assumes fresh: "\<not> contains_key name m" and en: "bc_dedup_enabled cfg"
    and st: "st = fold (\<lambda>(msg, x) st. snd (bc_send tb name msg (Some x) st)) sends
                    (snd (bc_create tb name (Some cfg) (m, t)))"
    and acc: "acc = fold (accept (bc_dedup_window cfg)) (map snd sends) []"
  shows "\<exists>ch. map_of (fst st) name = Some ch \<and> bi_recent_ids ch = last_n (bc_dedup_window cfg) acc \<and>
         length (bi_recent_ids ch) \<le> bc_dedup_window cfg \<and> bi_total_sent ch = of_nat (length acc) \<and>
         bi_total_sent ch + bi_total_deduped ch = of_nat (length sends) \<and>
         (if x \<in> set (last_n (bc_dedup_window cfg) acc)
          then bc_send tb name msg (Some x) st =
                 (Ok 0, AList.update name (ch\<lparr>bi_total_deduped := bi_total_deduped ch + 1\<rparr>) (fst st), snd st)
          else fst (bc_send tb name msg (Some x) st) =
                 (case fst (tb_send tb (bi_sender ch) msg (snd st)) of
                    Some n \<Rightarrow> Ok n
                  | None \<Rightarrow> if bc_policy cfg = PolicyError then Err ''No active subscribers'' else Ok 0) \<and>
               snd (snd (bc_send tb name msg (Some x) st)) = snd (tb_send tb (bi_sender ch) msg (snd st)))"
proof -
  obtain ch t' where ch: "snd (bc_create tb name (Some cfg) (m, t)) = (AList.update name ch m, t')"
    "channel_after cfg (bi_sender ch) [] 0 ch"
    using fresh by (cases "tb_channel tb (bc_buffer_size cfg) t") (auto simp: bc_create_def channel_after_def last_n_def)
  obtain ch' where ch': "map_of (fst st) name = Some ch'" "channel_after cfg (bi_sender ch) acc (length sends) ch'"
    using bc_send_run [of "AList.update name ch m" name ch cfg "bi_sender ch" "[]" 0 tb sends t'] ch en
    by (auto simp: st acc)
  then have check: "dedup_check (bi_config ch') (Some x) (bi_recent_ids ch') =
      (x \<in> set (last_n (bc_dedup_window cfg) acc), last_n (bc_dedup_window cfg) (accept (bc_dedup_window cfg) x acc))"
    using en by (simp add: channel_after_def dedup_check_window)
  have "length (bi_recent_ids ch') \<le> bc_dedup_window cfg" using ch'(2) by (simp add: channel_after_def last_n_def)
  with ch' check bc_send_skip [OF ch'(1), of "Some x" tb msg "snd st"] bc_send_through [OF ch'(1), of "Some x" tb msg "snd st"]
  show ?thesis by (intro exI [of _ ch']) (auto simp: channel_after_def accept_def)
qed

text \<open>A repeated id is suppressed; a new one is accepted.\<close>

theorem broadcast_dedup_window_witness:
  "fst (bc_send ring_broadcast ''n'' ''again'' (Some ''id1'')
     (fold (\<lambda>(msg, x) st. snd (bc_send ring_broadcast ''n'' msg (Some x) st)) [(''hello'', ''id1'')]
       (snd (bc_create ring_broadcast ''n'' (Some (broadcast_config_new 4 DropOldest True 2))
          ([], \<lparr>rg_cap = 0, rg_log = [], rg_pos = []\<rparr>))))) = Ok 0 \<and>
   accept 2 ''id2'' [''id1''] = [''id1'', ''id2'']"
proof -
  have "bc_dedup_enabled (broadcast_config_new 4 DropOldest True 2)"
    "\<not> contains_key ''n'' ([] :: unit broadcasts)"
    "''id1'' \<in> set (last_n (bc_dedup_window (broadcast_config_new 4 DropOldest True 2))
       (fold (accept (bc_dedup_window (broadcast_config_new 4 DropOldest True 2))) (map snd [(''hello'', ''id1'')]) []))"
    by (simp_all add: contains_key_def broadcast_config_new_def accept_def last_n_def)
  then show ?thesis
    using broadcast_dedup_window [OF _ _ refl refl, where msg = "''again''" and x = "''id1''" and tb = ring_broadcast
        and name = "''n''" and m = "[]" and cfg = "broadcast_config_new 4 DropOldest True 2" and sends = "[(''hello'', ''id1'')]"
        and t = "\<lparr>rg_cap = 0, rg_log = [], rg_pos = []\<rparr>"]
    by (auto simp: accept_def last_n_def)
qed

end
