(* ===== verification/Heartbeat.thy ===== *)
theory Heartbeat
  imports Registry
begin

text \<open>
  The heartbeat monitor (\<open>src/realtime/heartbeat.rs\<close>). Times are Unix seconds, real numbers here;
  \<open>now\<close> is the reading of the system clock at the call. The retry count is a 32-bit word, the
  totals are 64-bit words.
\<close>

record heartbeat_config =
  hc_interval_secs :: real
  hc_timeout_secs :: real
  hc_max_retries :: u32
  hc_sse_retry_ms :: nat
  hc_send_keepalive :: bool

definition heartbeat_default :: heartbeat_config where
  "heartbeat_default =
     \<lparr>hc_interval_secs = 30, hc_timeout_secs = 90, hc_max_retries = 5, hc_sse_retry_ms = 3000,
      hc_send_keepalive = True\<rparr>"

record client_heartbeat =
  hb_last_ping :: real
  hb_last_pong :: real
  hb_retry_count :: u32
  hb_is_alive :: bool
  hb_last_event_id :: "string option"

record heartbeat_monitor =
  hm_config :: heartbeat_config
  hm_clients :: "(string \<times> client_heartbeat) list"
  hm_total_pings :: u64
  hm_total_pongs :: u64
  hm_total_timeouts :: u64

record heartbeat_stats =
  hs_monitored_clients :: nat
  hs_total_pings :: u64
  hs_total_pongs :: u64
  hs_total_timeouts :: u64
  hs_timed_out_clients :: nat

definition hm_new :: "heartbeat_config option \<Rightarrow> heartbeat_monitor" where
  "hm_new config =
     \<lparr>hm_config = (case config of Some c \<Rightarrow> c | None \<Rightarrow> heartbeat_default), hm_clients = [],
      hm_total_pings = 0, hm_total_pongs = 0, hm_total_timeouts = 0\<rparr>"

definition register :: "real \<Rightarrow> string \<Rightarrow> string option \<Rightarrow> heartbeat_monitor \<Rightarrow> heartbeat_monitor" where
  "register now client eid hm =
     hm\<lparr>hm_clients := AList.update client
          \<lparr>hb_last_ping = now, hb_last_pong = now, hb_retry_count = 0, hb_is_alive = True,
           hb_last_event_id = eid\<rparr> (hm_clients hm)\<rparr>"

definition unregister :: "string \<Rightarrow> heartbeat_monitor \<Rightarrow> bool \<times> heartbeat_monitor" where
  "unregister client hm =
     (contains_key client (hm_clients hm), hm\<lparr>hm_clients := AList.delete client (hm_clients hm)\<rparr>)"

definition ping :: "real \<Rightarrow> string \<Rightarrow> heartbeat_monitor \<Rightarrow> bool \<times> heartbeat_monitor" where
  "ping now client hm =
     (case map_of (hm_clients hm) client of
        Some c \<Rightarrow>
          (True, hm\<lparr>hm_clients := AList.update client (c\<lparr>hb_last_ping := now\<rparr>) (hm_clients hm),
                    hm_total_pings := hm_total_pings hm + 1\<rparr>)
      | None \<Rightarrow> (False, hm))"

definition pong :: "real \<Rightarrow> string \<Rightarrow> heartbeat_monitor \<Rightarrow> bool \<times> heartbeat_monitor" where
  "pong now client hm =
     (case map_of (hm_clients hm) client of
        Some c \<Rightarrow>
          (True, hm\<lparr>hm_clients := AList.update client
                      (c\<lparr>hb_last_pong := now, hb_retry_count := 0, hb_is_alive := True\<rparr>) (hm_clients hm),
                    hm_total_pongs := hm_total_pongs hm + 1\<rparr>)
      | None \<Rightarrow> (False, hm))"

text \<open>The body of the loop of \<open>check_timeouts\<close> on one client.\<close>

definition expires :: "heartbeat_config \<Rightarrow> real \<Rightarrow> client_heartbeat \<Rightarrow> bool" where
  "expires cfg now c = (now - hb_last_pong c > hc_timeout_secs cfg \<and> hb_is_alive c)"

definition mark_timeout :: "heartbeat_config \<Rightarrow> real \<Rightarrow> client_heartbeat \<Rightarrow> client_heartbeat" where
  "mark_timeout cfg now c =
     (if expires cfg now c then c\<lparr>hb_is_alive := False, hb_retry_count := hb_retry_count c + 1\<rparr> else c)"

definition check_timeouts :: "real \<Rightarrow> heartbeat_monitor \<Rightarrow> string list \<times> heartbeat_monitor" where
  "check_timeouts now hm =
     (let timed_out = map fst (filter (\<lambda>(k, c). expires (hm_config hm) now c) (hm_clients hm))
      in (timed_out,
          hm\<lparr>hm_clients := map_values (mark_timeout (hm_config hm) now) (hm_clients hm),
             hm_total_timeouts := hm_total_timeouts hm + of_nat (length timed_out)\<rparr>))"

definition is_timed_out :: "heartbeat_monitor \<Rightarrow> string \<Rightarrow> bool" where
  "is_timed_out hm client = (case map_of (hm_clients hm) client of Some c \<Rightarrow> \<not> hb_is_alive c | None \<Rightarrow> True)"

definition is_alive :: "heartbeat_monitor \<Rightarrow> string \<Rightarrow> bool" where
  "is_alive hm client = (case map_of (hm_clients hm) client of Some c \<Rightarrow> hb_is_alive c | None \<Rightarrow> False)"

definition get_dead_clients :: "heartbeat_monitor \<Rightarrow> string list" where
  "get_dead_clients hm =
     map fst (filter (\<lambda>(k, c). hb_retry_count c > hc_max_retries (hm_config hm)) (hm_clients hm))"

definition evict_dead :: "heartbeat_monitor \<Rightarrow> string list \<times> heartbeat_monitor" where
  "evict_dead hm =
     (let dead = get_dead_clients hm
      in (dead, hm\<lparr>hm_clients := fold AList.delete dead (hm_clients hm)\<rparr>))"

definition set_last_event_id :: "string \<Rightarrow> string \<Rightarrow> heartbeat_monitor \<Rightarrow> bool \<times> heartbeat_monitor" where
  "set_last_event_id client eid hm =
     (case map_of (hm_clients hm) client of
        Some c \<Rightarrow>
          (True, hm\<lparr>hm_clients := AList.update client (c\<lparr>hb_last_event_id := Some eid\<rparr>) (hm_clients hm)\<rparr>)
      | None \<Rightarrow> (False, hm))"

definition get_last_event_id :: "heartbeat_monitor \<Rightarrow> string \<Rightarrow> string option" where
  "get_last_event_id hm client =
     (case map_of (hm_clients hm) client of Some c \<Rightarrow> hb_last_event_id c | None \<Rightarrow> None)"

definition clients_needing_ping :: "real \<Rightarrow> heartbeat_monitor \<Rightarrow> string list" where
  "clients_needing_ping now hm =
     map fst (filter (\<lambda>(k, c). hb_is_alive c \<and> now - hb_last_ping c > hc_interval_secs (hm_config hm)) (hm_clients hm))"

definition sse_keepalive_comment :: string where
  "sse_keepalive_comment = '': keepalive'' @ [CHR 0x0A, CHR 0x0A]"

definition sse_retry_field :: "heartbeat_monitor \<Rightarrow> string" where
  "sse_retry_field hm = ''retry: '' @ show_nat (hc_sse_retry_ms (hm_config hm)) @ [CHR 0x0A, CHR 0x0A]"

definition sse_heartbeat_event :: "heartbeat_monitor \<Rightarrow> string" where
  "sse_heartbeat_event hm =
     (if hc_sse_retry_ms (hm_config hm) > 0
      then ''retry: '' @ show_nat (hc_sse_retry_ms (hm_config hm)) @ [CHR 0x0A] else []) @
     '': heartbeat'' @ [CHR 0x0A, CHR 0x0A]"

definition retry_count :: "heartbeat_monitor \<Rightarrow> string \<Rightarrow> u32" where
  "retry_count hm client = (case map_of (hm_clients hm) client of Some c \<Rightarrow> hb_retry_count c | None \<Rightarrow> 0)"

definition hm_stats :: "real \<Rightarrow> heartbeat_monitor \<Rightarrow> heartbeat_stats" where
  "hm_stats now hm =
     \<lparr>hs_monitored_clients = length (hm_clients hm), hs_total_pings = hm_total_pings hm,
      hs_total_pongs = hm_total_pongs hm, hs_total_timeouts = hm_total_timeouts hm,
      hs_timed_out_clients =
        length (filter (\<lambda>(k, c). now - hb_last_pong c > hc_timeout_secs (hm_config hm)) (hm_clients hm))\<rparr>"

definition client_ids :: "heartbeat_monitor \<Rightarrow> string list" where
  "client_ids hm = map fst (hm_clients hm)"

definition client_count :: "heartbeat_monitor \<Rightarrow> nat" where
  "client_count hm = length (hm_clients hm)"

text \<open>\<open>fixed1\<close> renders a floating-point number with one decimal.\<close>

definition info_of :: "(real \<Rightarrow> string) \<Rightarrow> real \<Rightarrow> client_heartbeat \<Rightarrow> params" where
  "info_of fixed1 now c =
     (let info = AList.update ''alive'' (if hb_is_alive c then ''true'' else ''false'') [];
          info = AList.update ''retries'' (show_nat (unat (hb_retry_count c))) info;
          info = AList.update ''last_pong_ago_secs'' (fixed1 (now - hb_last_pong c)) info
      in case hb_last_event_id c of Some eid \<Rightarrow> AList.update ''last_event_id'' eid info | None \<Rightarrow> info)"

definition client_info :: "(real \<Rightarrow> string) \<Rightarrow> real \<Rightarrow> heartbeat_monitor \<Rightarrow> (string \<times> params) list" where
  "client_info fixed1 now hm =
     fold (\<lambda>(k, c) result. AList.update k (info_of fixed1 now c) result) (hm_clients hm) []"

text \<open>The arguments Python leaves out take the values of the constructor's signature.\<close>

definition heartbeat_config_new ::
  "real option \<Rightarrow> real option \<Rightarrow> u32 option \<Rightarrow> nat option \<Rightarrow> bool option \<Rightarrow> heartbeat_config" where
  "heartbeat_config_new interval_secs timeout_secs max_retries sse_retry_ms send_keepalive =
     \<lparr>hc_interval_secs = case_option 30 (\<lambda>x. x) interval_secs, hc_timeout_secs = case_option 90 (\<lambda>x. x) timeout_secs,
      hc_max_retries = case_option 5 (\<lambda>x. x) max_retries, hc_sse_retry_ms = case_option 3000 (\<lambda>x. x) sse_retry_ms,
      hc_send_keepalive = case_option True (\<lambda>x. x) send_keepalive\<rparr>"

definition hm_clear :: "heartbeat_monitor \<Rightarrow> heartbeat_monitor" where
  "hm_clear hm = hm\<lparr>hm_clients := []\<rparr>"

subsection \<open>All histories\<close>

datatype heartbeat_op =
  Register real string "string option" | Unregister string | Ping real string | Pong real string
  | CheckTimeouts real | EvictDead | SetEventId string string | ClearClients

fun heartbeat_apply :: "heartbeat_op \<Rightarrow> heartbeat_monitor \<Rightarrow> heartbeat_monitor" where
  "heartbeat_apply (Register now c e) hm = register now c e hm"
| "heartbeat_apply (Unregister c) hm = snd (unregister c hm)"
| "heartbeat_apply (Ping now c) hm = snd (ping now c hm)"
| "heartbeat_apply (Pong now c) hm = snd (pong now c hm)"
| "heartbeat_apply (CheckTimeouts now) hm = snd (check_timeouts now hm)"
| "heartbeat_apply EvictDead hm = snd (evict_dead hm)"
| "heartbeat_apply (SetEventId c e) hm = snd (set_last_event_id c e hm)"
| "heartbeat_apply ClearClients hm = hm_clear hm"

definition retry_ok :: "client_heartbeat \<Rightarrow> bool" where
  "retry_ok c = (hb_retry_count c = (if hb_is_alive c then 0 else 1))"

definition hm_inv :: "heartbeat_monitor \<Rightarrow> bool" where
  "hm_inv hm = (wf_map (hm_clients hm) \<and> all_values retry_ok (hm_clients hm))"

lemma fold_delete_keeps:
  "wf_map m \<and> all_values P m \<Longrightarrow> wf_map (fold AList.delete ks m) \<and> all_values P (fold AList.delete ks m)"
  by (induction ks arbitrary: m) simp_all

lemma all_values_map_values: "all_values P m \<Longrightarrow> (\<And>v. P v \<Longrightarrow> P (f v)) \<Longrightarrow> all_values P (map_values f m)"
  by (auto simp: all_values_def map_values_def)

lemma heartbeat_inv: "hm_inv hm \<Longrightarrow> hm_inv (heartbeat_apply op hm)"
proof (cases op)
  case (CheckTimeouts now)
  moreover have "retry_ok c \<Longrightarrow> retry_ok (mark_timeout cfg now c)" for c cfg
    by (auto simp: retry_ok_def mark_timeout_def expires_def)
  moreover assume "hm_inv hm"
  ultimately show ?thesis
    by (simp add: hm_inv_def check_timeouts_def Let_def all_values_map_values)
next
  case EvictDead
  moreover assume "hm_inv hm"
  ultimately show ?thesis
    using fold_delete_keeps [of "hm_clients hm" retry_ok "get_dead_clients hm"]
    by (simp add: hm_inv_def evict_dead_def Let_def)
next
  case (Ping now c)
  moreover assume "hm_inv hm"
  ultimately show ?thesis
    by (auto simp: hm_inv_def ping_def retry_ok_def split: option.split dest: all_values_get intro!: all_values_update)
next
  case (SetEventId c e)
  moreover assume "hm_inv hm"
  ultimately show ?thesis
    by (auto simp: hm_inv_def set_last_event_id_def retry_ok_def split: option.split dest: all_values_get
        intro!: all_values_update)
qed (auto simp: hm_inv_def register_def unregister_def pong_def hm_clear_def retry_ok_def split: option.split)

lemma heartbeat_config_frame: "hm_config (heartbeat_apply op hm) = hm_config hm"
  by (cases op)
    (auto simp: register_def unregister_def ping_def pong_def check_timeouts_def evict_dead_def
      set_last_event_id_def hm_clear_def Let_def split: option.split)

interpretation heartbeats: machine heartbeat_apply "\<lambda>hm. hm_inv hm \<and> hm_config hm = cfg" for cfg
  by unfold_locales (simp add: heartbeat_inv heartbeat_config_frame)

text \<open>
  A dead client is never evicted: in every history the retry count of a client is 0 while it
  is alive and 1 once it has timed out, because a timeout is counted only on the transition from
  alive to dead. So with \<open>max_retries\<close> of at least one no client ever exceeds it and
  \<open>evict_dead\<close> removes nobody.
\<close>

theorem heartbeat_never_evicts:
  assumes "1 \<le> hc_max_retries cfg"
  shows "all_values retry_ok (hm_clients (fold heartbeat_apply ops (hm_new (Some cfg)))) \<and>
         evict_dead (fold heartbeat_apply ops (hm_new (Some cfg))) = ([], fold heartbeat_apply ops (hm_new (Some cfg)))"
proof -
  let ?hm = "fold heartbeat_apply ops (hm_new (Some cfg))"
  have inv: "hm_inv ?hm" "hm_config ?hm = cfg"
    using heartbeats.inv_run [of "hm_new (Some cfg)" cfg ops] by (simp_all add: hm_inv_def hm_new_def)
  have "hb_retry_count c \<le> 1" if "retry_ok c" for c
    using that by (simp add: retry_ok_def)
  then have "\<not> hb_retry_count c > hc_max_retries cfg" if "(k, c) \<in> set (hm_clients ?hm)" for k c
    using that inv(1) assms by (fastforce simp: hm_inv_def all_values_def)
  then have "get_dead_clients ?hm = []"
    by (auto simp: get_dead_clients_def inv(2) filter_empty_conv)
  with inv(1) show ?thesis by (simp add: evict_dead_def hm_inv_def)
qed

theorem heartbeat_never_evicts_witness:
  "fst (evict_dead (fold heartbeat_apply [Register 0 ''c'' None, CheckTimeouts 100, CheckTimeouts 200]
     (hm_new (Some heartbeat_default)))) = []"
  using heartbeat_never_evicts [of heartbeat_default "[Register 0 ''c'' None, CheckTimeouts 100, CheckTimeouts 200]"]
  by (simp add: heartbeat_default_def word_le_nat_alt)

text \<open>A timeout is reported once, and a pong revives the client.\<close>

lemma check_timeouts_once:
  "wf_map (hm_clients hm) \<Longrightarrow> fst (check_timeouts now (snd (check_timeouts now hm))) = []"
  by (auto simp: check_timeouts_def Let_def map_values_def filter_empty_conv mark_timeout_def expires_def split: if_splits)

lemma pong_revives: "fst (pong now c hm) \<Longrightarrow> is_alive (snd (pong now c hm)) c"
  by (auto simp: pong_def is_alive_def split: option.splits)

subsection \<open>The table for Python\<close>

lemma heartbeat_config_default: "heartbeat_config_new None None None None None = heartbeat_default"
  by (simp add: heartbeat_config_new_def heartbeat_default_def)

lemma client_info_of:
  "map_of (client_info fixed1 now hm) k = map_option (info_of fixed1 now) (map_of (rev (hm_clients hm)) k)"
proof -
  have "map_of (fold (\<lambda>(k, c) result. AList.update k (info_of fixed1 now c) result) cs m) k =
      (case map_of (rev cs) k of Some c \<Rightarrow> Some (info_of fixed1 now c) | None \<Rightarrow> map_of m k)" for cs m
    by (induction cs arbitrary: m) (auto simp: map_add_def split: option.splits)
  then show ?thesis by (simp add: client_info_def split: option.split)
qed

text \<open>The table says of every client whether it is alive, as \<open>is_alive\<close> does.\<close>

lemma client_info_alive:
  assumes "wf_map (hm_clients hm)" "map_of (client_info fixed1 now hm) k = Some info"
  shows "map_of info ''alive'' = Some (if is_alive hm k then ''true'' else ''false'')"
proof -
  have "map_of (rev (hm_clients hm)) = map_of (hm_clients hm)" using assms(1) by (simp add: wf_map_def map_of_inject_set rev_map [symmetric])
  with assms(2) show ?thesis
    by (auto simp: client_info_of info_of_def Let_def is_alive_def split: option.splits)
qed

end
