(* ===== verification/Presence.thy ===== *)
theory Presence
  imports Registry
begin

text \<open>
  The presence tracker (\<open>src/realtime/presence.rs\<close>): per channel the present clients and the
  joins and leaves not yet flushed, and per client the list of its channels. Times are Unix
  seconds, real numbers here.
\<close>

record presence_info =
  pi_client_id :: string
  pi_channel :: string
  pi_metadata :: params
  pi_joined_at :: real
  pi_last_seen :: real

definition presence_info_new :: "real \<Rightarrow> string \<Rightarrow> string \<Rightarrow> params option \<Rightarrow> presence_info" where
  "presence_info_new now client channel metadata =
     \<lparr>pi_client_id = client, pi_channel = channel,
      pi_metadata = (case metadata of Some m \<Rightarrow> m | None \<Rightarrow> []), pi_joined_at = now, pi_last_seen = now\<rparr>"

record presence_diff =
  pd_joins :: "presence_info list"
  pd_leaves :: "string list"

definition has_changes :: "presence_diff \<Rightarrow> bool" where
  "has_changes d = (pd_joins d \<noteq> [] \<or> pd_leaves d \<noteq> [])"

definition change_count :: "presence_diff \<Rightarrow> nat" where
  "change_count d = length (pd_joins d) + length (pd_leaves d)"

record channel_presence =
  cp_members :: "(string \<times> presence_info) list"
  cp_pending_joins :: "presence_info list"
  cp_pending_leaves :: "string list"

definition channel_presence_new :: channel_presence where
  "channel_presence_new = \<lparr>cp_members = [], cp_pending_joins = [], cp_pending_leaves = []\<rparr>"

record presence_tracker =
  pt_channels :: "(string \<times> channel_presence) list"
  pt_client_channels :: "(string \<times> string list) list"

definition pt_new :: presence_tracker where
  "pt_new = \<lparr>pt_channels = [], pt_client_channels = []\<rparr>"

definition track ::
  "real \<Rightarrow> string \<Rightarrow> string \<Rightarrow> params option \<Rightarrow> presence_tracker \<Rightarrow> presence_info \<times> presence_tracker" where
  "track now channel client metadata pt =
     (let info = presence_info_new now client channel metadata;
          cp = (case map_of (pt_channels pt) channel of Some cp \<Rightarrow> cp | None \<Rightarrow> channel_presence_new);
          cp = cp\<lparr>cp_members := AList.update client info (cp_members cp)\<rparr>;
          cp = cp\<lparr>cp_pending_joins := cp_pending_joins cp @ [info]\<rparr>;
          chs = (case map_of (pt_client_channels pt) client of Some l \<Rightarrow> l | None \<Rightarrow> [])
      in (info, pt\<lparr>pt_channels := AList.update channel cp (pt_channels pt),
                   pt_client_channels := AList.update client (chs @ [channel]) (pt_client_channels pt)\<rparr>))"

text \<open>Leaving one channel: the part of \<open>untrack\<close>, \<open>untrack_all\<close> on the channel's members.\<close>

definition leave :: "string \<Rightarrow> channel_presence \<Rightarrow> channel_presence" where
  "leave client cp =
     (if contains_key client (cp_members cp)
      then cp\<lparr>cp_members := AList.delete client (cp_members cp), cp_pending_leaves := cp_pending_leaves cp @ [client]\<rparr>
      else cp)"

text \<open>The upkeep of the client-to-channels map that \<open>untrack\<close> and \<open>evict_stale\<close> share.\<close>

definition forget_channel :: "string \<Rightarrow> string \<Rightarrow> (string \<times> string list) list \<Rightarrow> (string \<times> string list) list" where
  "forget_channel channel client cc =
     (case map_of cc client of
        Some chs \<Rightarrow>
          (let chs = filter (\<lambda>c. c \<noteq> channel) chs
           in if chs = [] then AList.delete client cc else AList.update client chs cc)
      | None \<Rightarrow> cc)"

definition untrack :: "string \<Rightarrow> string \<Rightarrow> presence_tracker \<Rightarrow> bool \<times> presence_tracker" where
  "untrack channel client pt =
     (let removed =
            (case map_of (pt_channels pt) channel of
               Some cp \<Rightarrow> contains_key client (cp_members cp) | None \<Rightarrow> False);
          m = (case map_of (pt_channels pt) channel of
                 Some cp \<Rightarrow> AList.update channel (leave client cp) (pt_channels pt) | None \<Rightarrow> pt_channels pt);
          m = (case map_of m channel of
                 Some cp \<Rightarrow>
                   if cp_members cp = [] \<and> cp_pending_joins cp = [] \<and> cp_pending_leaves cp = []
                   then AList.delete channel m else m
               | None \<Rightarrow> m)
      in (removed, pt\<lparr>pt_channels := m, pt_client_channels := forget_channel channel client (pt_client_channels pt)\<rparr>))"

definition leave_channel :: "string \<Rightarrow> string \<Rightarrow> (string \<times> channel_presence) list \<Rightarrow> (string \<times> channel_presence) list" where
  "leave_channel client channel m =
     (case map_of m channel of Some cp \<Rightarrow> AList.update channel (leave client cp) m | None \<Rightarrow> m)"

definition untrack_all :: "string \<Rightarrow> presence_tracker \<Rightarrow> string list \<times> presence_tracker" where
  "untrack_all client pt =
     (case map_of (pt_client_channels pt) client of
        None \<Rightarrow> ([], pt)
      | Some chs \<Rightarrow>
          (chs, pt\<lparr>pt_client_channels := AList.delete client (pt_client_channels pt),
                   pt_channels := fold (leave_channel client) chs (pt_channels pt)\<rparr>))"

definition change_member ::
  "string \<Rightarrow> string \<Rightarrow> (presence_info \<Rightarrow> presence_info) \<Rightarrow> presence_tracker \<Rightarrow> bool \<times> presence_tracker" where
  "change_member channel client f pt =
     (case map_of (pt_channels pt) channel of
        Some cp \<Rightarrow>
          (case map_of (cp_members cp) client of
             Some info \<Rightarrow>
               (True, pt\<lparr>pt_channels := AList.update channel
                           (cp\<lparr>cp_members := AList.update client (f info) (cp_members cp)\<rparr>) (pt_channels pt)\<rparr>)
           | None \<Rightarrow> (False, pt))
      | None \<Rightarrow> (False, pt))"

definition presence_update :: "real \<Rightarrow> string \<Rightarrow> string \<Rightarrow> params \<Rightarrow> presence_tracker \<Rightarrow> bool \<times> presence_tracker" where
  "presence_update now channel client metadata pt =
     change_member channel client (\<lambda>info. info\<lparr>pi_metadata := metadata, pi_last_seen := now\<rparr>) pt"

definition touch :: "real \<Rightarrow> string \<Rightarrow> string \<Rightarrow> presence_tracker \<Rightarrow> bool \<times> presence_tracker" where
  "touch now channel client pt = change_member channel client (\<lambda>info. info\<lparr>pi_last_seen := now\<rparr>) pt"

definition presence_list :: "presence_tracker \<Rightarrow> string \<Rightarrow> presence_info list" where
  "presence_list pt channel =
     (case map_of (pt_channels pt) channel of Some cp \<Rightarrow> map snd (cp_members cp) | None \<Rightarrow> [])"

definition presence_get :: "presence_tracker \<Rightarrow> string \<Rightarrow> string \<Rightarrow> presence_info option" where
  "presence_get pt channel client =
     (case map_of (pt_channels pt) channel of Some cp \<Rightarrow> map_of (cp_members cp) client | None \<Rightarrow> None)"

definition presence_count :: "presence_tracker \<Rightarrow> string \<Rightarrow> nat" where
  "presence_count pt channel =
     (case map_of (pt_channels pt) channel of Some cp \<Rightarrow> length (cp_members cp) | None \<Rightarrow> 0)"

definition flush_diff :: "string \<Rightarrow> presence_tracker \<Rightarrow> presence_diff \<times> presence_tracker" where
  "flush_diff channel pt =
     (case map_of (pt_channels pt) channel of
        Some cp \<Rightarrow>
          (\<lparr>pd_joins = cp_pending_joins cp, pd_leaves = cp_pending_leaves cp\<rparr>,
           pt\<lparr>pt_channels := AList.update channel
                (cp\<lparr>cp_pending_joins := [], cp_pending_leaves := []\<rparr>) (pt_channels pt)\<rparr>)
      | None \<Rightarrow> (\<lparr>pd_joins = [], pd_leaves = []\<rparr>, pt))"

definition client_channels :: "presence_tracker \<Rightarrow> string \<Rightarrow> string list" where
  "client_channels pt client = (case map_of (pt_client_channels pt) client of Some l \<Rightarrow> l | None \<Rightarrow> [])"

definition active_channels :: "presence_tracker \<Rightarrow> string list" where
  "active_channels pt = map fst (filter (\<lambda>(k, cp). cp_members cp \<noteq> []) (pt_channels pt))"

definition total_clients :: "presence_tracker \<Rightarrow> nat" where
  "total_clients pt = length (pt_client_channels pt)"

definition stale_members :: "real \<Rightarrow> channel_presence \<Rightarrow> string list" where
  "stale_members cutoff cp = map fst (filter (\<lambda>(k, info). pi_last_seen info < cutoff) (cp_members cp))"

definition drop_stale :: "real \<Rightarrow> channel_presence \<Rightarrow> channel_presence" where
  "drop_stale cutoff cp =
     fold (\<lambda>client cp. cp\<lparr>cp_members := AList.delete client (cp_members cp),
                          cp_pending_leaves := cp_pending_leaves cp @ [client]\<rparr>) (stale_members cutoff cp) cp"

definition evict_stale :: "real \<Rightarrow> real \<Rightarrow> presence_tracker \<Rightarrow> (string \<times> string) list \<times> presence_tracker" where
  "evict_stale now timeout pt =
     (let cutoff = now - timeout;
          evicted = concat (map (\<lambda>(ch, cp). map (\<lambda>client. (ch, client)) (stale_members cutoff cp)) (pt_channels pt))
      in (evicted,
          pt\<lparr>pt_channels := map_values (drop_stale cutoff) (pt_channels pt),
             pt_client_channels := fold (\<lambda>(ch, client). forget_channel ch client) evicted (pt_client_channels pt)\<rparr>))"

definition pt_clear :: "presence_tracker \<Rightarrow> presence_tracker" where
  "pt_clear pt = pt\<lparr>pt_channels := [], pt_client_channels := []\<rparr>"

subsection \<open>The two maps agree\<close>

definition present :: "presence_tracker \<Rightarrow> string \<Rightarrow> string \<Rightarrow> bool" where
  "present pt ch c =
     (case map_of (pt_channels pt) ch of Some cp \<Rightarrow> contains_key c (cp_members cp) | None \<Rightarrow> False)"

definition listed :: "(string \<times> string list) list \<Rightarrow> string \<Rightarrow> string \<Rightarrow> bool" where
  "listed cc ch c = (case map_of cc c of Some l \<Rightarrow> ch \<in> set l | None \<Rightarrow> False)"

definition pt_inv :: "presence_tracker \<Rightarrow> bool" where
  "pt_inv pt = (wf_map (pt_channels pt) \<and> (\<forall>ch c. present pt ch c = listed (pt_client_channels pt) ch c))"

lemma listed_forget: "listed (forget_channel ch c cc) ch' c' = (listed cc ch' c' \<and> (ch', c') \<noteq> (ch, c))"
  by (auto simp: listed_def forget_channel_def Let_def filter_empty_conv split: option.split)

lemma listed_forget_fold:
  "listed (fold (\<lambda>(ch, c). forget_channel ch c) ev cc) ch' c' = (listed cc ch' c' \<and> (ch', c') \<notin> set ev)"
proof (induction ev arbitrary: cc)
  case (Cons e ev)
  obtain a b where "e = (a, b)" by (cases e)
  with Cons show ?case by (simp add: listed_forget)
qed simp

lemma contains_leave: "contains_key c' (cp_members (leave c cp)) = (contains_key c' (cp_members cp) \<and> c' \<noteq> c)"
  by (auto simp: leave_def contains_key_def)

lemma present_track: "present (snd (track now ch c md pt)) ch' c' = (present pt ch' c' \<or> (ch', c') = (ch, c))"
  by (auto simp: present_def track_def Let_def contains_key_def channel_presence_new_def split: option.split)

lemma listed_track: "listed (pt_client_channels (snd (track now ch c md pt))) ch' c' =
    (listed (pt_client_channels pt) ch' c' \<or> (ch', c') = (ch, c))"
  by (auto simp: listed_def track_def Let_def split: option.split)

lemma pt_inv_track: "pt_inv pt \<Longrightarrow> pt_inv (snd (track now ch c md pt))"
  using present_track listed_track by (simp add: pt_inv_def) (simp add: track_def Let_def)

lemma present_untrack: "present (snd (untrack ch c pt)) ch' c' = (present pt ch' c' \<and> (ch', c') \<noteq> (ch, c))"
proof (cases "map_of (pt_channels pt) ch")
  case None
  then show ?thesis by (auto simp: present_def untrack_def Let_def)
next
  case (Some cp)
  have "contains_key c' (cp_members cp) \<longrightarrow> c' = c" if "cp_members (leave c cp) = []"
    using contains_leave [of c' c cp] that by (auto simp: contains_key_def)
  with Some show ?thesis
    by (auto simp: present_def untrack_def Let_def contains_leave)
qed

lemma pt_inv_untrack: "pt_inv pt \<Longrightarrow> pt_inv (snd (untrack ch c pt))"
  using present_untrack [of ch c pt]
  by (auto simp: pt_inv_def) (auto simp: untrack_def Let_def listed_forget split: option.split)

lemma present_leave_channel:
  "present (pt\<lparr>pt_channels := leave_channel c ch m\<rparr>) ch' c' =
     (present (pt\<lparr>pt_channels := m\<rparr>) ch' c' \<and> (ch', c') \<noteq> (ch, c))"
  by (auto simp: present_def leave_channel_def contains_leave split: option.split)

lemma present_leave_fold:
  "present (pt\<lparr>pt_channels := fold (leave_channel c) chs m\<rparr>) ch' c' =
     (present (pt\<lparr>pt_channels := m\<rparr>) ch' c' \<and> (c' \<noteq> c \<or> ch' \<notin> set chs))"
  by (induction chs arbitrary: m) (auto simp: present_leave_channel)

lemma wf_leave_fold: "wf_map m \<Longrightarrow> wf_map (fold (leave_channel c) chs m)"
  by (induction chs arbitrary: m) (auto simp: leave_channel_def split: option.split)

lemma present_frame: "present (pt\<lparr>pt_client_channels := cc\<rparr>) = present pt"
  by (auto simp: present_def fun_eq_iff)

lemma pt_inv_untrack_all: "pt_inv pt \<Longrightarrow> pt_inv (snd (untrack_all c pt))"
proof (cases "map_of (pt_client_channels pt) c")
  case (Some chs)
  assume inv: "pt_inv pt"
  let ?cc = "AList.delete c (pt_client_channels pt)" and ?m = "fold (leave_channel c) chs (pt_channels pt)"
  have "present (pt\<lparr>pt_channels := ?m\<rparr>) ch' c' = listed ?cc ch' c'" for ch' c'
    using inv Some present_leave_fold [where pt = pt and m = "pt_channels pt" and c = c and chs = chs and ch' = ch' and c' = c']
    by (auto simp: pt_inv_def listed_def)
  moreover have "present (pt\<lparr>pt_client_channels := ?cc, pt_channels := ?m\<rparr>) = present (pt\<lparr>pt_channels := ?m\<rparr>)"
    by (simp add: present_def fun_eq_iff)
  ultimately show ?thesis
    using inv Some by (simp add: untrack_all_def pt_inv_def wf_leave_fold)
qed (simp add: untrack_all_def)

lemma pt_inv_change_member: "pt_inv pt \<Longrightarrow> pt_inv (snd (change_member ch c f pt))"
proof -
  have "present (snd (change_member ch c f pt)) = present pt"
    by (auto simp: present_def change_member_def fun_eq_iff contains_key_def split: option.split)
  moreover have "wf_map (pt_channels pt) \<Longrightarrow> wf_map (pt_channels (snd (change_member ch c f pt)))"
    "pt_client_channels (snd (change_member ch c f pt)) = pt_client_channels pt"
    by (simp_all add: change_member_def split: option.split)
  moreover assume "pt_inv pt"
  ultimately show ?thesis by (simp add: pt_inv_def)
qed

lemma pt_inv_flush: "pt_inv pt \<Longrightarrow> pt_inv (snd (flush_diff ch pt))"
proof -
  have "present (snd (flush_diff ch pt)) = present pt"
    by (auto simp: present_def flush_diff_def fun_eq_iff split: option.split)
  moreover have "wf_map (pt_channels pt) \<Longrightarrow> wf_map (pt_channels (snd (flush_diff ch pt)))"
    "pt_client_channels (snd (flush_diff ch pt)) = pt_client_channels pt"
    by (simp_all add: flush_diff_def split: option.split)
  moreover assume "pt_inv pt"
  ultimately show ?thesis by (simp add: pt_inv_def)
qed

lemma contains_drop_stale:
  "contains_key c (cp_members (drop_stale cutoff cp)) =
     (contains_key c (cp_members cp) \<and> c \<notin> set (stale_members cutoff cp))"
proof -
  have "contains_key c (cp_members (fold (\<lambda>client cp. cp\<lparr>cp_members := AList.delete client (cp_members cp),
      cp_pending_leaves := cp_pending_leaves cp @ [client]\<rparr>) st cp)) = (contains_key c (cp_members cp) \<and> c \<notin> set st)" for st
    by (induction st arbitrary: cp) (auto simp: contains_key_def)
  then show ?thesis by (simp add: drop_stale_def)
qed

lemma pt_inv_evict: "pt_inv pt \<Longrightarrow> pt_inv (snd (evict_stale now timeout pt))"
proof -
  assume inv: "pt_inv pt"
  let ?co = "now - timeout"
  have ev: "(ch, c) \<in> set (fst (evict_stale now timeout pt)) \<longleftrightarrow>
      (\<exists>cp. map_of (pt_channels pt) ch = Some cp \<and> c \<in> set (stale_members ?co cp))" for ch c
    using inv by (force simp: evict_stale_def Let_def pt_inv_def wf_map_in_set [symmetric])
  have "present (snd (evict_stale now timeout pt)) ch c =
      (present pt ch c \<and> (ch, c) \<notin> set (fst (evict_stale now timeout pt)))" for ch c
    unfolding ev by (auto simp: present_def evict_stale_def Let_def contains_drop_stale split: option.split)
  moreover have "pt_client_channels (snd (evict_stale now timeout pt)) =
      fold (\<lambda>(ch, c). forget_channel ch c) (fst (evict_stale now timeout pt)) (pt_client_channels pt)"
    by (simp add: evict_stale_def Let_def)
  moreover have "wf_map (pt_channels (snd (evict_stale now timeout pt)))"
    using inv by (simp add: evict_stale_def Let_def pt_inv_def)
  ultimately show ?thesis using inv by (simp add: pt_inv_def listed_forget_fold)
qed

datatype presence_op =
  Track real string string "params option" | Untrack string string | UntrackAll string
  | Update real string string params | Touch real string string | Flush string
  | EvictStale real real | ClearPresence

fun presence_apply :: "presence_op \<Rightarrow> presence_tracker \<Rightarrow> presence_tracker" where
  "presence_apply (Track now ch c md) pt = snd (track now ch c md pt)"
| "presence_apply (Untrack ch c) pt = snd (untrack ch c pt)"
| "presence_apply (UntrackAll c) pt = snd (untrack_all c pt)"
| "presence_apply (Update now ch c md) pt = snd (presence_update now ch c md pt)"
| "presence_apply (Touch now ch c) pt = snd (touch now ch c pt)"
| "presence_apply (Flush ch) pt = snd (flush_diff ch pt)"
| "presence_apply (EvictStale now t) pt = snd (evict_stale now t pt)"
| "presence_apply ClearPresence pt = pt_clear pt"

lemmas pt_inv_ops = pt_inv_track pt_inv_untrack pt_inv_untrack_all pt_inv_change_member pt_inv_flush pt_inv_evict

lemma pt_inv_apply: "pt_inv pt \<Longrightarrow> pt_inv (presence_apply op pt)"
proof (cases op)
  case ClearPresence
  then show ?thesis by (simp add: pt_clear_def pt_inv_def present_def listed_def)
qed (simp_all add: pt_inv_ops presence_update_def touch_def)

interpretation presence: machine presence_apply pt_inv
  by unfold_locales (rule pt_inv_apply)

text \<open>
  \<^bold>\<open>C18\<close> The two indexes of the presence tracker always agree: after any sequence of tracking,
  untracking, updates, flushes and evictions a client is a member of a channel exactly when that
  channel is in the client's own list; so a disconnect (\<open>untrack_all\<close>) leaves the client
  in no channel.
\<close>

theorem presence_consistent:
  "present (fold presence_apply ops pt_new) ch c =
     listed (pt_client_channels (fold presence_apply ops pt_new)) ch c \<and>
   \<not> present (snd (untrack_all c (fold presence_apply ops pt_new))) ch c"
proof -
  have inv: "pt_inv (fold presence_apply ops pt_new)"
    by (rule presence.inv_run) (simp add: pt_inv_def pt_new_def present_def listed_def)
  from pt_inv_untrack_all [OF this, of c] have
    "present (snd (untrack_all c (fold presence_apply ops pt_new))) ch c =
     listed (pt_client_channels (snd (untrack_all c (fold presence_apply ops pt_new)))) ch c"
    by (simp add: pt_inv_def)
  then show ?thesis
    using inv by (simp add: pt_inv_def) (auto simp: untrack_all_def listed_def split: option.splits)
qed

text \<open>Tracking a client twice in one channel lists the channel twice.\<close>

lemma track_twice_duplicates:
  "client_channels (snd (track t2 ch c md2 (snd (track t1 ch c md1 pt_new)))) c = [ch, ch]"
  by (simp add: client_channels_def track_def pt_new_def Let_def)

subsection \<open>A race between joining and disconnecting\<close>

text \<open>
  \<open>track\<close> and \<open>untrack_all\<close> change the two maps one after the other: their parts, in the order of the
  code. Calls from Python exclude each other under its global lock; other threads interleave the parts.
\<close>

definition track_member :: "real \<Rightarrow> string \<Rightarrow> string \<Rightarrow> params option \<Rightarrow> presence_tracker \<Rightarrow> presence_tracker" where
  "track_member now channel client metadata pt =
     (let info = presence_info_new now client channel metadata;
          cp = (case map_of (pt_channels pt) channel of Some cp \<Rightarrow> cp | None \<Rightarrow> channel_presence_new);
          cp = cp\<lparr>cp_members := AList.update client info (cp_members cp), cp_pending_joins := cp_pending_joins cp @ [info]\<rparr>
      in pt\<lparr>pt_channels := AList.update channel cp (pt_channels pt)\<rparr>)"

definition track_index :: "string \<Rightarrow> string \<Rightarrow> presence_tracker \<Rightarrow> presence_tracker" where
  "track_index channel client pt =
     pt\<lparr>pt_client_channels := AList.update client (client_channels pt client @ [channel]) (pt_client_channels pt)\<rparr>"

definition untrack_all_begin :: "string \<Rightarrow> presence_tracker \<Rightarrow> string list \<times> presence_tracker" where
  "untrack_all_begin client pt =
     (client_channels pt client, pt\<lparr>pt_client_channels := AList.delete client (pt_client_channels pt)\<rparr>)"

definition leave_one :: "string \<Rightarrow> string \<Rightarrow> presence_tracker \<Rightarrow> presence_tracker" where
  "leave_one client channel pt = pt\<lparr>pt_channels := leave_channel client channel (pt_channels pt)\<rparr>"

lemma track_parts: "snd (track now ch c md pt) = track_index ch c (track_member now ch c md pt)"
  by (simp add: track_def track_member_def track_index_def client_channels_def Let_def)

lemma untrack_all_parts:
  "untrack_all c pt = (case untrack_all_begin c pt of (chs, pt') \<Rightarrow> (chs, fold (leave_one c) chs pt'))"
proof -
  have "fold (leave_one c) chs pt = pt\<lparr>pt_channels := fold (leave_channel c) chs (pt_channels pt)\<rparr>" for chs pt
    by (induction chs arbitrary: pt) (simp_all add: leave_one_def)
  moreover have "AList.delete c m = m" if "map_of m c = None" for m :: "(string \<times> string list) list"
    using that by (force simp: AList.delete_eq filter_id_conv map_of_eq_None_iff)
  ultimately show ?thesis by (simp add: untrack_all_def untrack_all_begin_def client_channels_def split: option.split)
qed

text \<open>
  A client that joins a channel again while its disconnect has emptied the index but not yet left the
  channel ends up listed in a channel in which it is not present.
\<close>

lemma disconnect_race:
  assumes "map_of (pt_client_channels pt) c = Some [ch]"
  shows "let (chs, pt1) = untrack_all_begin c pt;
             pt2 = fold (leave_one c) chs (snd (track now ch c md pt1))
         in \<not> present pt2 ch c \<and> listed (pt_client_channels pt2) ch c"
  using assms
  by (simp add: untrack_all_begin_def client_channels_def Let_def track_def leave_one_def leave_channel_def present_def listed_def
      contains_leave)

subsection \<open>What a flushed diff says\<close>

text \<open>
  What the next \<open>flush_diff\<close> of a channel reports of a client, with its membership: is it a
  member, is it among the joins, is it among the leaves.
\<close>

definition joins_of :: "presence_tracker \<Rightarrow> string \<Rightarrow> string list" where
  "joins_of pt ch = map pi_client_id (pd_joins (fst (flush_diff ch pt)))"

definition leaves_of :: "presence_tracker \<Rightarrow> string \<Rightarrow> string list" where
  "leaves_of pt ch = pd_leaves (fst (flush_diff ch pt))"

definition standing :: "string \<Rightarrow> string \<Rightarrow> presence_tracker \<Rightarrow> bool \<times> bool \<times> bool" where
  "standing ch c pt = (present pt ch c, c \<in> set (joins_of pt ch), c \<in> set (leaves_of pt ch))"

text \<open>A call between two flushes leaves a client's standing as it is, makes it join or makes it leave.\<close>

inductive standing_step :: "bool \<times> bool \<times> bool \<Rightarrow> bool \<times> bool \<times> bool \<Rightarrow> bool" where
  stays: "standing_step st st"
| joins: "standing_step (p, j, l) (True, True, l)"
| leaves: "standing_step (True, j, l) (False, j, True)"

inductive_cases standing_stepE: "standing_step (p, j, l) st"

definition diff_sound :: "bool \<Rightarrow> bool \<times> bool \<times> bool \<Rightarrow> bool" where
  "diff_sound before st = (case st of (p, j, l) \<Rightarrow>
     (\<not> j \<and> \<not> l \<longrightarrow> p = before) \<and> (j \<and> \<not> l \<longrightarrow> p) \<and> (\<not> j \<and> l \<longrightarrow> \<not> p \<and> before))"

interpretation standing: transitions standing_step "diff_sound before"
  by unfold_locales (auto simp: diff_sound_def elim!: standing_step.cases)

definition member_standing :: "string \<Rightarrow> channel_presence \<Rightarrow> bool \<times> bool \<times> bool" where
  "member_standing c cp = (contains_key c (cp_members cp), c \<in> pi_client_id ` set (cp_pending_joins cp), c \<in> set (cp_pending_leaves cp))"

lemma standing_channels:
  "standing ch c pt =
     (case map_of (pt_channels pt) ch of None \<Rightarrow> (False, False, False) | Some cp \<Rightarrow> member_standing c cp)"
  by (simp add: member_standing_def standing_def present_def joins_of_def leaves_of_def flush_diff_def split: option.split)

lemma standing_track: "standing_step (standing ch c pt) (standing ch c (snd (track now ch' c' md pt)))"
proof (cases "ch' = ch \<and> c' = c")
  case True
  have "\<exists>p j l. standing ch c pt = (p, j, l) \<and> standing ch c (snd (track now ch c md pt)) = (True, True, l)"
    by (auto simp: standing_channels member_standing_def track_def Let_def presence_info_new_def channel_presence_new_def contains_key_def split: option.split)
  with True show ?thesis by (auto intro: joins)
next
  case False
  then have "standing ch c (snd (track now ch' c' md pt)) = standing ch c pt"
    by (auto simp: standing_channels member_standing_def track_def Let_def presence_info_new_def channel_presence_new_def contains_key_def split: option.split)
  then show ?thesis by (simp add: stays)
qed

lemma member_standing_leave: "standing_step (member_standing c cp) (member_standing c (leave c' cp))"
  by (auto simp: member_standing_def leave_def contains_key_def intro: standing_step.intros)

lemma standing_leave_channel:
  "standing_step (standing ch c (pt\<lparr>pt_channels := m\<rparr>)) (standing ch c (pt\<lparr>pt_channels := leave_channel c' ch' m\<rparr>))"
  by (auto simp: standing_channels leave_channel_def member_standing_leave stays split: option.split)

lemma standing_leave_fold:
  "standing_step\<^sup>*\<^sup>* (standing ch c (pt\<lparr>pt_channels := m\<rparr>)) (standing ch c (pt\<lparr>pt_channels := fold (leave_channel c') chs m\<rparr>))"
proof (induction chs arbitrary: m)
  case (Cons ch' chs)
  from standing_leave_channel [where ch = ch and c = c and pt = pt and m = m and c' = c' and ch' = ch'] Cons [of "leave_channel c' ch' m"]
  show ?case by (simp add: converse_rtranclp_into_rtranclp)
qed simp

lemma standing_untrack: "standing_step (standing ch c pt) (standing ch c (snd (untrack ch' c' pt)))"
proof (cases "ch' = ch")
  case True
  have empty: "member_standing c cp = (False, False, False)"
    if "cp_members cp = []" "cp_pending_joins cp = []" "cp_pending_leaves cp = []" for cp
    using that by (simp add: member_standing_def contains_key_def)
  show ?thesis
  proof (cases "map_of (pt_channels pt) ch")
    case (Some cp)
    then have "standing ch c (snd (untrack ch' c' pt)) = member_standing c (leave c' cp)"
      using True empty [of "leave c' cp"] by (simp add: standing_channels untrack_def Let_def)
    with Some show ?thesis by (simp add: standing_channels member_standing_leave)
  qed (simp add: True standing_channels untrack_def stays)
next
  case False
  then have "standing ch c (snd (untrack ch' c' pt)) = standing ch c pt"
    by (simp add: standing_channels untrack_def Let_def split: option.split)
  then show ?thesis by (simp add: stays)
qed

lemma standing_change_member: "standing ch c (snd (change_member ch' c' f pt)) = standing ch c pt"
  by (auto simp: standing_channels member_standing_def change_member_def contains_key_def split: option.split)

lemma standing_drop_stale: "standing_step (member_standing c cp) (member_standing c (drop_stale cutoff cp))"
proof -
  have "cp_pending_joins (fold (\<lambda>client cp. cp\<lparr>cp_members := AList.delete client (cp_members cp),
      cp_pending_leaves := cp_pending_leaves cp @ [client]\<rparr>) st cp) = cp_pending_joins cp \<and>
    cp_pending_leaves (fold (\<lambda>client cp. cp\<lparr>cp_members := AList.delete client (cp_members cp),
      cp_pending_leaves := cp_pending_leaves cp @ [client]\<rparr>) st cp) = cp_pending_leaves cp @ st" for st
    by (induction st arbitrary: cp) auto
  then have pending: "cp_pending_joins (drop_stale cutoff cp) = cp_pending_joins cp"
    "cp_pending_leaves (drop_stale cutoff cp) = cp_pending_leaves cp @ stale_members cutoff cp"
    by (simp_all add: drop_stale_def)
  have member: "contains_key c (cp_members cp)" if "c \<in> set (stale_members cutoff cp)"
    using that by (force simp: stale_members_def contains_key_def map_of_eq_None_iff)
  show ?thesis
    using member by (cases "c \<in> set (stale_members cutoff cp)")
      (auto simp: member_standing_def pending contains_drop_stale intro: standing_step.intros)
qed

lemma standing_evict: "standing_step (standing ch c pt) (standing ch c (snd (evict_stale now t pt)))"
  by (auto simp: standing_channels evict_stale_def Let_def standing_drop_stale stays split: option.split)

text \<open>The calls that keep what is pending on a channel: all but its own flush and \<open>clear\<close>.\<close>

fun keeps_pending :: "string \<Rightarrow> presence_op \<Rightarrow> bool" where
  "keeps_pending ch (Flush ch') = (ch' \<noteq> ch)"
| "keeps_pending ch ClearPresence = False"
| "keeps_pending ch op = True"

lemma standing_apply:
  assumes "keeps_pending ch op"
  shows "standing_step\<^sup>*\<^sup>* (standing ch c pt) (standing ch c (presence_apply op pt))"
proof (cases op)
  case (UntrackAll c')
  have "standing ch c (snd (untrack_all c' pt)) =
      standing ch c (pt\<lparr>pt_channels := fold (leave_channel c') (client_channels pt c') (pt_channels pt)\<rparr>)"
    by (simp add: untrack_all_def client_channels_def standing_channels split: option.split)
  with UntrackAll standing_leave_fold [where pt = pt and m = "pt_channels pt" and ch = ch and c = c and c' = c' and chs = "client_channels pt c'"]
  show ?thesis by simp
next
  case (Flush ch')
  with assms have "standing ch c (snd (flush_diff ch' pt)) = standing ch c pt"
    by (simp add: standing_channels flush_diff_def split: option.split)
  with Flush show ?thesis by simp
qed (use assms in \<open>simp_all add: presence_update_def touch_def standing_change_member r_into_rtranclp
       standing_track standing_untrack standing_evict\<close>)

lemma standing_run:
  "list_all (keeps_pending ch) ops \<Longrightarrow> standing_step\<^sup>*\<^sup>* (standing ch c pt) (standing ch c (fold presence_apply ops pt))"
  by (induction ops arbitrary: pt) (auto intro: rtranclp_trans [OF standing_apply])

lemma standing_flushed: "standing ch c (snd (flush_diff ch pt)) = (present pt ch c, False, False)"
  by (simp add: standing_channels member_standing_def present_def flush_diff_def contains_key_def split: option.split)

text \<open>
  \<^bold>\<open>C29\<close> Between two flushes of a channel, whatever calls are made on the tracker (joins,
  disconnects, touches, evictions, flushes of other channels), the diff the second flush returns tells
  a subscriber the truth about every client that is not on both sides of it: a client in neither list
  is a member exactly if it was one at the first flush, a client only among the joins is a member, and
  one only among the leaves was a member and is not one any more.
\<close>

theorem flushed_diff_sound:
  assumes "list_all (keeps_pending ch) ops"
  shows "let pt' = fold presence_apply ops (snd (flush_diff ch pt));
             joined = c \<in> pi_client_id ` set (pd_joins (fst (flush_diff ch pt')));
             left = c \<in> set (pd_leaves (fst (flush_diff ch pt')))
         in (if joined \<and> left then True
             else if joined then present pt' ch c
             else if left then present pt ch c \<and> \<not> present pt' ch c
             else present pt' ch c = present pt ch c)"
proof -
  let ?pt' = "fold presence_apply ops (snd (flush_diff ch pt))"
  have "diff_sound (present pt ch c) (standing ch c ?pt')"
    using standing_run [OF assms, of c "snd (flush_diff ch pt)"]
    by (rule standing.inv_steps) (simp add: standing_flushed diff_sound_def)
  then show ?thesis
    by (auto simp: Let_def diff_sound_def standing_def joins_of_def leaves_of_def)
qed

text \<open>
  A client in both lists is undetermined: leaving and joining again, or joining again and leaving,
  flush to the same diff with opposite memberships. (A client that is tracked twice is reported as a
  join twice.)
\<close>

lemma flushed_diff_ambiguous:
  "let pt = snd (flush_diff ''room'' (snd (track 0 ''room'' ''ann'' None pt_new)));
       back_again = fold presence_apply [Untrack ''room'' ''ann'', Track 1 ''room'' ''ann'' None] pt;
       gone = fold presence_apply [Track 1 ''room'' ''ann'' None, Untrack ''room'' ''ann''] pt
   in fst (flush_diff ''room'' back_again) = fst (flush_diff ''room'' gone) \<and>
      present back_again ''room'' ''ann'' \<and> \<not> present gone ''room'' ''ann''"
  by (simp add: track_def untrack_def flush_diff_def leave_def present_def contains_key_def forget_channel_def
        pt_new_def presence_info_new_def channel_presence_new_def Let_def)

theorem flushed_diff_sound_witness:
  "let pt = fold presence_apply [Track 0 ''room'' ''ann'' None, Track 0 ''room'' ''bob'' None] pt_new;
       pt' = fold presence_apply [Track 1 ''room'' ''cyd'' None, EvictStale 2 1, Flush ''hall'', UntrackAll ''ann''] (snd (flush_diff ''room'' pt))
   in map pi_client_id (pd_joins (fst (flush_diff ''room'' pt'))) = [''cyd''] \<and>
      pd_leaves (fst (flush_diff ''room'' pt')) = [''ann'', ''bob''] \<and>
      present pt ''room'' ''bob'' \<and> \<not> present pt' ''room'' ''bob''"
  using flushed_diff_sound [of "''room''" "[Track 1 ''room'' ''cyd'' None, EvictStale 2 1, Flush ''hall'', UntrackAll ''ann'']"
      "fold presence_apply [Track 0 ''room'' ''ann'' None, Track 0 ''room'' ''bob'' None] pt_new" "''bob''"]
  by (simp add: track_def untrack_def untrack_all_def leave_channel_def flush_diff_def leave_def evict_stale_def drop_stale_def
        stale_members_def present_def contains_key_def forget_channel_def
        pt_new_def presence_info_new_def channel_presence_new_def Let_def)

end
