(* ===== verification/Tasks.thy ===== *)
theory Tasks
  imports Hex
begin

text \<open>
  Background tasks (\<open>src/core/tasks.rs\<close>): the executor's queue and result table, its operations, and
  the worker threads as a step relation. The threads run the same loop, so the state counts the idle,
  waiting and stopped ones and lists the tasks that others hold: tasks whose delay a worker sleeps
  through and tasks a worker executes. The Python call is a step with an arbitrary outcome; wall-clock
  readings are arguments. The queue is a bounded channel of positive capacity. It is disconnected when the
  last worker has dropped its receiver: what it holds is discarded, and a send fails.
\<close>

subsection \<open>Tasks and results\<close>

datatype task_status = Pending | Running | Completed | Failed | Cancelled

record task_result =
  tr_task_id :: string
  tr_status :: task_status
  tr_result :: "string option"
  tr_error :: "string option"
  tr_started_at :: "real option"
  tr_completed_at :: "real option"

definition is_success :: "task_result \<Rightarrow> bool" where
  "is_success r = (tr_status r = Completed)"

definition is_failed :: "task_result \<Rightarrow> bool" where
  "is_failed r = (tr_status r = Failed)"

definition is_pending :: "task_result \<Rightarrow> bool" where
  "is_pending r = (tr_status r = Pending \<or> tr_status r = Running)"

record 'h background_task =
  bt_id :: string
  bt_handler :: 'h
  bt_created_at :: instant
  bt_delay :: "duration option"

record 'h task_executor =
  te_capacity :: nat
  te_queue :: "'h background_task list"
  te_results :: "(string \<times> task_result) list"
  te_running :: bool
  te_counter :: nat
  te_sending :: "'h background_task list"
  te_idle :: nat
  te_waiting :: nat
  te_delaying :: "'h background_task list"
  te_executing :: "'h background_task list"
  te_stopped :: nat
  te_lost :: "'h background_task list"

definition te_new :: "nat \<Rightarrow> nat \<Rightarrow> 'h task_executor" where
  "te_new num_workers queue_size =
     \<lparr>te_capacity = queue_size, te_queue = [], te_results = [], te_running = True, te_counter = 0,
      te_sending = [], te_idle = num_workers, te_waiting = 0, te_delaying = [], te_executing = [], te_stopped = 0,
      te_lost = []\<rparr>"

text \<open>The counter is a \<open>u64\<close>: the number of calls modulo \<open>2^64\<close> enters the id.\<close>

definition generate_id :: "nat \<Rightarrow> nat \<Rightarrow> string" where
  "generate_id timestamp count =
     ''task_'' @ pad_left 16 (show_hex timestamp) @ ''_'' @ pad_left 8 (show_hex (count mod 2 ^ 64))"

definition pending_result :: "string \<Rightarrow> task_result" where
  "pending_result tid =
     \<lparr>tr_task_id = tid, tr_status = Pending, tr_result = None, tr_error = None, tr_started_at = None, tr_completed_at = None\<rparr>"

text \<open>\<open>submit\<close> up to the send: the id, the pending result, the task that is about to be sent.\<close>

definition submit :: "nat \<Rightarrow> instant \<Rightarrow> 'h \<Rightarrow> nat option \<Rightarrow> 'h task_executor \<Rightarrow> string \<times> 'h task_executor" where
  "submit timestamp now handler delay_ms te =
     (let tid = generate_id timestamp (te_counter te);
          task = \<lparr>bt_id = tid, bt_handler = handler, bt_created_at = now,
                  bt_delay = map_option (\<lambda>ms. ms * 1000000) delay_ms\<rparr>
      in (tid, te\<lparr>te_counter := Suc (te_counter te),
                 te_results := AList.update tid (pending_result tid) (te_results te),
                 te_sending := te_sending te @ [task]\<rparr>))"

definition get_result :: "'h task_executor \<Rightarrow> string \<Rightarrow> task_result option" where
  "get_result te tid = map_of (te_results te) tid"

definition is_complete :: "'h task_executor \<Rightarrow> string \<Rightarrow> bool" where
  "is_complete te tid =
     (case map_of (te_results te) tid of
        Some r \<Rightarrow> tr_status r \<in> {Completed, Failed, Cancelled} | None \<Rightarrow> False)"

definition cancel :: "string \<Rightarrow> 'h task_executor \<Rightarrow> bool \<times> 'h task_executor" where
  "cancel tid te =
     (case map_of (te_results te) tid of
        Some r \<Rightarrow>
          if tr_status r = Pending
          then (True, te\<lparr>te_results := AList.update tid (r\<lparr>tr_status := Cancelled\<rparr>) (te_results te)\<rparr>)
          else (False, te)
      | None \<Rightarrow> (False, te))"

definition pending_count :: "'h task_executor \<Rightarrow> nat" where
  "pending_count te = length (filter (\<lambda>(k, r). tr_status r = Pending \<or> tr_status r = Running) (te_results te))"

definition completed_count :: "'h task_executor \<Rightarrow> nat" where
  "completed_count te = length (filter (\<lambda>(k, r). tr_status r = Completed) (te_results te))"

definition cleanup :: "real \<Rightarrow> nat \<Rightarrow> 'h task_executor \<Rightarrow> 'h task_executor" where
  "cleanup now max_age_secs te =
     te\<lparr>te_results :=
          filter (\<lambda>(k, r). case tr_completed_at r of Some t \<Rightarrow> t > now - real max_age_secs | None \<Rightarrow> True)
            (te_results te)\<rparr>"

definition shutdown :: "'h task_executor \<Rightarrow> 'h task_executor" where
  "shutdown te = te\<lparr>te_running := False\<rparr>"

subsection \<open>The worker loop\<close>

definition update_result :: "string \<Rightarrow> (task_result \<Rightarrow> task_result) \<Rightarrow> 'h task_executor \<Rightarrow> 'h task_executor" where
  "update_result tid f te =
     (case map_of (te_results te) tid of
        Some r \<Rightarrow> te\<lparr>te_results := AList.update tid (f r) (te_results te)\<rparr> | None \<Rightarrow> te)"

definition was_cancelled :: "'h task_executor \<Rightarrow> string \<Rightarrow> bool" where
  "was_cancelled te tid =
     (case map_of (te_results te) tid of Some r \<Rightarrow> tr_status r = Cancelled | None \<Rightarrow> False)"

definition mark_running :: "real \<Rightarrow> string \<Rightarrow> 'h task_executor \<Rightarrow> 'h task_executor" where
  "mark_running started_at tid te =
     update_result tid (\<lambda>r. r\<lparr>tr_status := Running, tr_started_at := Some started_at\<rparr>) te"

definition mark_finished :: "real \<Rightarrow> string \<Rightarrow> string + string \<Rightarrow> 'h task_executor \<Rightarrow> 'h task_executor" where
  "mark_finished completed_at tid outcome te =
     update_result tid (\<lambda>r.
       (case outcome of
          Ok res \<Rightarrow> r\<lparr>tr_status := Completed, tr_result := Some res\<rparr>
        | Err e \<Rightarrow> r\<lparr>tr_status := Failed, tr_error := Some e\<rparr>)\<lparr>tr_completed_at := Some completed_at\<rparr>) te"

definition delay_over :: "instant \<Rightarrow> 'h background_task \<Rightarrow> bool" where
  "delay_over now t = (case bt_delay t of None \<Rightarrow> True | Some d \<Rightarrow> d \<le> now - bt_created_at t)"

text \<open>
  A worker owns a receiver until its loop ends, and the constructor drops the one it made. The tasks
  that were discarded with the queue or could not be sent are kept in \<open>te_lost\<close>; their results stay in the table.
\<close>

definition no_receiver :: "'h task_executor \<Rightarrow> bool" where
  "no_receiver te = (te_idle te = 0 \<and> te_waiting te = 0 \<and> te_delaying te = [] \<and> te_executing te = [])"

definition drop_receiver :: "'h task_executor \<Rightarrow> 'h task_executor" where
  "drop_receiver te = (if no_receiver te then te\<lparr>te_queue := [], te_lost := te_lost te @ te_queue te\<rparr> else te)"

inductive task_step :: "'h task_executor \<Rightarrow> 'h task_executor \<Rightarrow> bool" where
  submit_step: "task_step te (snd (submit ts now h d te))"
| send_step: "te_sending te = xs @ t # ys \<Longrightarrow> \<not> no_receiver te \<Longrightarrow> length (te_queue te) < te_capacity te \<Longrightarrow>
    task_step te (te\<lparr>te_sending := xs @ ys, te_queue := te_queue te @ [t]\<rparr>)"
| send_fails_step: "te_sending te = xs @ t # ys \<Longrightarrow> no_receiver te \<Longrightarrow>
    task_step te (te\<lparr>te_sending := xs @ ys, te_lost := te_lost te @ [t]\<rparr>)"
| cancel_step: "task_step te (snd (cancel tid te))"
| cleanup_step: "task_step te (cleanup now age te)"
| shutdown_step: "task_step te (shutdown te)"
| loop_step: "te_idle te = Suc n \<Longrightarrow> te_running te \<Longrightarrow> task_step te (te\<lparr>te_idle := n, te_waiting := Suc (te_waiting te)\<rparr>)"
| stop_step: "te_idle te = Suc n \<Longrightarrow> \<not> te_running te \<Longrightarrow> 
    task_step te (drop_receiver (te\<lparr>te_idle := n, te_stopped := Suc (te_stopped te)\<rparr>))"
| timeout_step: "te_waiting te = Suc n \<Longrightarrow> task_step te (te\<lparr>te_waiting := n, te_idle := Suc (te_idle te)\<rparr>)"
| skip_step: "te_waiting te = Suc n \<Longrightarrow> te_queue te = t # q \<Longrightarrow> was_cancelled te (bt_id t) \<Longrightarrow>
    task_step te (te\<lparr>te_waiting := n, te_queue := q, te_idle := Suc (te_idle te)\<rparr>)"
| recv_step: "te_waiting te = Suc n \<Longrightarrow> te_queue te = t # q \<Longrightarrow> \<not> was_cancelled te (bt_id t) \<Longrightarrow>
    task_step te (te\<lparr>te_waiting := n, te_queue := q, te_delaying := te_delaying te @ [t]\<rparr>)"
| start_step: "te_delaying te = xs @ t # ys \<Longrightarrow> delay_over now t \<Longrightarrow>
    task_step te (mark_running started (bt_id t) (te\<lparr>te_delaying := xs @ ys, te_executing := te_executing te @ [t]\<rparr>))"
| finish_step: "te_executing te = xs @ t # ys \<Longrightarrow>
    task_step te (mark_finished completed (bt_id t) outcome (te\<lparr>te_executing := xs @ ys, te_idle := Suc (te_idle te)\<rparr>))"

inductive task_reach :: "nat \<Rightarrow> nat \<Rightarrow> 'h task_executor \<Rightarrow> bool" for n q where
  init: "task_reach n q (te_new n q)"
| step: "task_reach n q te \<Longrightarrow> task_step te te' \<Longrightarrow> task_reach n q te'"

subsection \<open>Ids\<close>

lemma pad_no_underscore: "CHR ''_'' \<notin> set (pad_left w (show_hex n))"
  by (simp add: pad_left_def show_hex_no_underscore)

lemma generate_id_inject:
  assumes "generate_id t c = generate_id t' c'" "c < 2 ^ 64" "c' < 2 ^ 64"
  shows "c = c'"
proof -
  have "split_once (CHR ''_'') (pad_left 16 (show_hex u) @ CHR ''_'' # pad_left 8 (show_hex k)) =
      Some (pad_left 16 (show_hex u), pad_left 8 (show_hex k))" for u k
    by (simp add: split_once_Some pad_no_underscore)
  moreover have "pad_left 16 (show_hex t) @ CHR ''_'' # pad_left 8 (show_hex c) =
      pad_left 16 (show_hex t') @ CHR ''_'' # pad_left 8 (show_hex c')"
    using assms by (simp add: generate_id_def)
  ultimately have "pad_left 8 (show_hex c) = pad_left 8 (show_hex c')"
    by (metis option.inject prod.inject)
  then show ?thesis by (simp add: padded_hex.encode_inject)
qed

subsection \<open>The life of a task\<close>

definition waiting_ids :: "'h task_executor \<Rightarrow> string list" where
  "waiting_ids te = map bt_id (te_sending te @ te_queue te @ te_delaying te)"

definition executing_ids :: "'h task_executor \<Rightarrow> string list" where
  "executing_ids te = map bt_id (te_executing te)"

definition lost_ids :: "'h task_executor \<Rightarrow> string list" where
  "lost_ids te = map bt_id (te_lost te)"

definition parked_ids :: "'h task_executor \<Rightarrow> string list" where
  "parked_ids te = map bt_id (te_sending te @ te_queue te @ te_delaying te @ te_lost te)"

text \<open>A result, whether the task is waiting and whether it is executed agree.\<close>

fun stage_ok :: "task_result option \<Rightarrow> bool \<Rightarrow> bool \<Rightarrow> bool" where
  "stage_ok None w e = (\<not> w \<and> \<not> e)"
| "stage_ok (Some r) w e =
     ((e \<longleftrightarrow> tr_status r = Running) \<and> (w \<longrightarrow> tr_status r \<in> {Pending, Cancelled}) \<and> (tr_status r = Pending \<longrightarrow> w) \<and>
      (tr_completed_at r \<noteq> None \<longleftrightarrow> tr_status r \<in> {Completed, Failed}))"

definition stages_ok :: "(string \<times> task_result) list \<Rightarrow> string list \<Rightarrow> string list \<Rightarrow> bool" where
  "stages_ok rs ws es =
     (wf_map rs \<and> distinct (ws @ es) \<and> (\<forall>tid. stage_ok (map_of rs tid) (tid \<in> set ws) (tid \<in> set es)))"

definition ids_used :: "nat \<Rightarrow> (string \<times> task_result) list \<Rightarrow> bool" where
  "ids_used n rs = (\<forall>tid \<in> keys rs. \<exists>ts c. c < n \<and> tid = generate_id ts c)"

definition te_inv :: "'h task_executor \<Rightarrow> bool" where
  "te_inv te = (stages_ok (te_results te) (parked_ids te) (executing_ids te) \<and> ids_used (te_counter te) (te_results te))"

lemma stages_perm:
  "stages_ok rs ws es \<Longrightarrow> set ws' = set ws \<Longrightarrow> length ws' = length ws \<Longrightarrow> stages_ok rs ws' es"
  by (auto simp: stages_ok_def card_distinct distinct_card)

lemma stages_update:
  assumes "stages_ok rs ws es" "stage_ok (Some r) (tid \<in> set ws') (tid \<in> set es')" "distinct (ws' @ es')"
    and "set ws' - {tid} = set ws - {tid}" "set es' - {tid} = set es - {tid}"
  shows "stages_ok (AList.update tid r rs) ws' es'"
proof -
  have "stage_ok (map_of (AList.update tid r rs) t) (t \<in> set ws') (t \<in> set es')" for t
  proof (cases "t = tid")
    case False
    then have "(t \<in> set ws') = (t \<in> set ws)" "(t \<in> set es') = (t \<in> set es)" using assms(4,5) by blast+
    then show ?thesis using assms(1) False by (simp add: stages_ok_def)
  qed (use assms(2) in simp)
  then show ?thesis using assms by (simp add: stages_ok_def)
qed

lemma stages_get:
  "stages_ok rs ws es \<Longrightarrow> stage_ok (map_of rs tid) (tid \<in> set ws) (tid \<in> set es)"
  by (simp add: stages_ok_def)

lemma ids_used_Suc: "ids_used n rs \<Longrightarrow> ids_used (Suc n) (AList.update (generate_id ts n) v rs)"
  unfolding ids_used_def by (simp, metis less_SucI lessI)

lemma te_inv_submit:
  assumes "te_inv te" "te_counter te < 2 ^ 64"
  shows "te_inv (snd (submit ts now h d te))"
proof -
  let ?id = "generate_id ts (te_counter te)" and ?te = "snd (submit ts now h d te)"
  have st: "stages_ok (te_results te) (parked_ids te) (executing_ids te)" and
    used: "ids_used (te_counter te) (te_results te)" using assms(1) by (simp_all add: te_inv_def)
  have "?id \<notin> keys (te_results te)"
  proof
    assume "?id \<in> keys (te_results te)"
    then obtain ts' c where "c < te_counter te" "?id = generate_id ts' c" using used by (auto simp: ids_used_def)
    then show False using generate_id_inject [of ts "te_counter te" ts' c] assms(2) by simp
  qed
  then have "map_of (te_results te) ?id = None" by (simp add: keys_def map_of_eq_None_iff)
  then have fresh: "?id \<notin> set (parked_ids te)" "?id \<notin> set (executing_ids te)"
    using stages_get [OF st, of ?id] by simp_all
  have "stages_ok (AList.update ?id (pending_result ?id) (te_results te)) (parked_ids ?te) (executing_ids ?te)"
    by (rule stages_update [OF st])
      (use fresh st in \<open>auto simp: parked_ids_def executing_ids_def submit_def Let_def pending_result_def stages_ok_def\<close>)
  then show ?thesis
    using ids_used_Suc [OF used] by (simp add: te_inv_def submit_def Let_def)
qed

lemma te_inv_cancel: "te_inv te \<Longrightarrow> te_inv (snd (cancel tid te))"
proof (cases "map_of (te_results te) tid")
  case (Some r)
  assume inv: "te_inv te"
  then have st: "stages_ok (te_results te) (parked_ids te) (executing_ids te)" by (simp add: te_inv_def)
  show ?thesis
  proof (cases "tr_status r = Pending")
    case True
    have "stages_ok (AList.update tid (r\<lparr>tr_status := Cancelled\<rparr>) (te_results te)) (parked_ids te) (executing_ids te)"
      by (rule stages_update [OF st]) (use stages_get [OF st, of tid] Some True st in \<open>auto simp: stages_ok_def\<close>)
    moreover have "tid \<in> keys (te_results te)" using Some by (force simp: keys_def dest: map_of_SomeD)
    ultimately show ?thesis
      using inv Some True by (auto simp: te_inv_def cancel_def ids_used_def parked_ids_def executing_ids_def)
  next
    case False
    with inv Some show ?thesis by (simp add: cancel_def)
  qed
qed (simp add: cancel_def)

lemma te_inv_cleanup: "te_inv te \<Longrightarrow> te_inv (cleanup now age te)"
proof -
  assume inv: "te_inv te"
  let ?P = "\<lambda>(k :: string, r). case tr_completed_at r of Some t \<Rightarrow> t > now - real age | None \<Rightarrow> True"
  have st: "stages_ok (te_results te) (parked_ids te) (executing_ids te)" using inv by (simp add: te_inv_def)
  then have wf: "wf_map (te_results te)" by (simp add: stages_ok_def)
  have "stage_ok (map_of (filter ?P (te_results te)) t) (t \<in> set (parked_ids te)) (t \<in> set (executing_ids te))" for t
    using stages_get [OF st, of t] wf by (auto simp: map_of_filter_wf split: option.splits)
  then have "stages_ok (filter ?P (te_results te)) (parked_ids te) (executing_ids te)"
    using st by (simp add: stages_ok_def)
  then show ?thesis
    using inv by (auto simp: te_inv_def cleanup_def parked_ids_def executing_ids_def ids_used_def keys_def)
qed

lemma update_result_fields [simp]:
  "te_sending (update_result i f te) = te_sending te" "te_queue (update_result i f te) = te_queue te"
  "te_delaying (update_result i f te) = te_delaying te" "te_executing (update_result i f te) = te_executing te"
  "te_counter (update_result i f te) = te_counter te" "te_idle (update_result i f te) = te_idle te"
  "te_waiting (update_result i f te) = te_waiting te" "te_stopped (update_result i f te) = te_stopped te"
  "te_lost (update_result i f te) = te_lost te" "te_running (update_result i f te) = te_running te"
  by (simp_all add: update_result_def split: option.split)

lemma te_inv_start:
  assumes "te_inv te" "te_delaying te = xs @ t # ys"
  shows "te_inv (mark_running s (bt_id t) (te\<lparr>te_delaying := xs @ ys, te_executing := te_executing te @ [t]\<rparr>))"
proof -
  have st: "stages_ok (te_results te) (parked_ids te) (executing_ids te)" using assms(1) by (simp add: te_inv_def)
  have w: "bt_id t \<in> set (parked_ids te)" using assms(2) by (simp add: parked_ids_def)
  with stages_get [OF st, of "bt_id t"] obtain r where
    r: "map_of (te_results te) (bt_id t) = Some r" "tr_completed_at r = None"
    by (cases "map_of (te_results te) (bt_id t)") auto
  let ?ws = "map bt_id (te_sending te @ te_queue te @ (xs @ ys) @ te_lost te)" and ?es = "map bt_id (te_executing te @ [t])"
  have "stages_ok (AList.update (bt_id t) (r\<lparr>tr_status := Running, tr_started_at := Some s\<rparr>) (te_results te)) ?ws ?es"
    by (rule stages_update [OF st])
      (use st assms(2) r in \<open>auto simp: stages_ok_def parked_ids_def executing_ids_def\<close>)
  moreover have "bt_id t \<in> keys (te_results te)" using r by (force simp: keys_def dest: map_of_SomeD)
  ultimately show ?thesis
    using assms(1) r by (auto simp: te_inv_def mark_running_def update_result_def parked_ids_def executing_ids_def ids_used_def)
qed

lemma te_inv_finish:
  assumes "te_inv te" "te_executing te = xs @ t # ys"
  shows "te_inv (mark_finished s (bt_id t) out (te\<lparr>te_executing := xs @ ys, te_idle := k\<rparr>))"
proof -
  have st: "stages_ok (te_results te) (parked_ids te) (executing_ids te)" using assms(1) by (simp add: te_inv_def)
  have w: "bt_id t \<in> set (executing_ids te)" using assms(2) by (simp add: executing_ids_def)
  with stages_get [OF st, of "bt_id t"] obtain r where r: "map_of (te_results te) (bt_id t) = Some r"
    by (cases "map_of (te_results te) (bt_id t)") auto
  let ?r = "(case out of Ok res \<Rightarrow> r\<lparr>tr_status := Completed, tr_result := Some res\<rparr>
        | Err e \<Rightarrow> r\<lparr>tr_status := Failed, tr_error := Some e\<rparr>)\<lparr>tr_completed_at := Some s\<rparr>"
  have "stages_ok (AList.update (bt_id t) ?r (te_results te)) (parked_ids te) (map bt_id (xs @ ys))"
    by (rule stages_update [OF st])
      (use st assms(2) in \<open>auto simp: stages_ok_def executing_ids_def split: sum.split\<close>)
  moreover have "bt_id t \<in> keys (te_results te)" using r by (force simp: keys_def dest: map_of_SomeD)
  ultimately show ?thesis
    using assms(1) r by (auto simp: te_inv_def mark_finished_def update_result_def parked_ids_def executing_ids_def ids_used_def)
qed

lemma te_inv_move:
  assumes "te_inv te" "te_results te' = te_results te" "te_counter te' = te_counter te" "te_executing te' = te_executing te"
    and "set (parked_ids te') = set (parked_ids te)" "length (parked_ids te') = length (parked_ids te)"
  shows "te_inv te'"
  using assms stages_perm [of "te_results te" "parked_ids te" "executing_ids te" "parked_ids te'"]
  by (simp add: te_inv_def executing_ids_def)

lemma te_inv_skip:
  assumes "te_inv te" "te_queue te = t # q" "was_cancelled te (bt_id t)"
  shows "te_inv (te\<lparr>te_waiting := n, te_queue := q, te_idle := k\<rparr>)"
proof -
  let ?ws = "map bt_id (te_sending te @ q @ te_delaying te @ te_lost te)"
  have st: "stages_ok (te_results te) (parked_ids te) (executing_ids te)" using assms(1) by (simp add: te_inv_def)
  obtain r where r: "map_of (te_results te) (bt_id t) = Some r" "tr_status r = Cancelled"
    using assms(3) by (auto simp: was_cancelled_def split: option.splits)
  have nt: "bt_id t \<notin> set ?ws" "bt_id t \<notin> set (executing_ids te)"
    using st assms(2) by (auto simp: stages_ok_def parked_ids_def)
  have "stage_ok (map_of (te_results te) i) (i \<in> set ?ws) (i \<in> set (executing_ids te))" for i
    using stages_get [OF st, of i] stages_get [OF st, of "bt_id t"] r nt assms(2)
    by (cases "i = bt_id t") (auto simp: parked_ids_def)
  then show ?thesis
    using assms(1,2) by (auto simp: te_inv_def stages_ok_def parked_ids_def executing_ids_def)
qed

lemma te_counter_step: "task_step te te' \<Longrightarrow> te_counter te \<le> te_counter te'"
  by (induction rule: task_step.induct)
    (auto simp: submit_def Let_def cancel_def cleanup_def shutdown_def mark_running_def mark_finished_def drop_receiver_def
      split: option.split)

lemma te_inv_step: "task_step te te' \<Longrightarrow> te_inv te \<Longrightarrow> te_counter te' \<le> 2 ^ 64 \<Longrightarrow> te_inv te'"
proof (induction rule: task_step.induct)
  case (submit_step te ts now h d)
  then show ?case by (intro te_inv_submit) (simp_all add: submit_def Let_def)
next
  case (send_step te xs t ys)
  show ?case
    by (rule te_inv_move [OF send_step(4)]) (use send_step(1) in \<open>auto simp: parked_ids_def\<close>)
next
  case (send_fails_step te xs t ys)
  show ?case
    by (rule te_inv_move [OF send_fails_step(3)]) (use send_fails_step(1) in \<open>auto simp: parked_ids_def\<close>)
next
  case (shutdown_step te)
  show ?case by (rule te_inv_move [OF shutdown_step(1)]) (simp_all add: parked_ids_def shutdown_def)
next
  case (recv_step te n t q)
  show ?case by (rule te_inv_move [OF recv_step(4)]) (use recv_step(2) in \<open>auto simp: parked_ids_def\<close>)
next
  case (loop_step te n)
  show ?case by (rule te_inv_move [OF loop_step(3)]) (simp_all add: parked_ids_def)
next
  case (stop_step te n)
  show ?case by (rule te_inv_move [OF stop_step(3)]) (auto simp: parked_ids_def drop_receiver_def)
next
  case (timeout_step te n)
  show ?case by (rule te_inv_move [OF timeout_step(2)]) (simp_all add: parked_ids_def)
qed (simp_all add: te_inv_cancel te_inv_cleanup te_inv_skip te_inv_start te_inv_finish)

lemma te_inv_reach: "task_reach n q te \<Longrightarrow> te_counter te \<le> 2 ^ 64 \<Longrightarrow> te_inv te"
proof (induction rule: task_reach.induct)
  case init
  show ?case by (simp add: te_inv_def te_new_def stages_ok_def parked_ids_def executing_ids_def ids_used_def)
next
  case (step te te')
  then show ?case using te_counter_step [OF step(2)] te_inv_step [OF step(2)] by simp
qed

text \<open>Every worker is somewhere; one stops only after a shutdown, and tasks get lost only when all have stopped.\<close>

definition workers_inv :: "nat \<Rightarrow> 'h task_executor \<Rightarrow> bool" where
  "workers_inv n te =
     (te_idle te + te_waiting te + length (te_delaying te) + length (te_executing te) + te_stopped te = n \<and>
      (te_running te \<longrightarrow> te_stopped te = 0) \<and> (te_lost te \<noteq> [] \<longrightarrow> no_receiver te))"

lemma workers_inv_step: "task_step te te' \<Longrightarrow> workers_inv n te \<Longrightarrow> workers_inv n te'"
  by (induction rule: task_step.induct)
    (auto simp: workers_inv_def no_receiver_def drop_receiver_def submit_def Let_def cancel_def cleanup_def shutdown_def
      mark_running_def mark_finished_def split: option.split)

lemma workers_inv_reach: "task_reach n q te \<Longrightarrow> workers_inv n te"
  by (induction rule: task_reach.induct) (auto simp: workers_inv_step, simp add: workers_inv_def te_new_def)

text \<open>
  \<^bold>\<open>C34\<close> The life of a task, in every state the executor and its workers can reach in fewer than
  \<open>2^64\<close> submissions: no task is held in two places, so it is never executed twice; a result is
  \<open>Running\<close> exactly while a worker executes its task; a pending task is on its way, in a blocked
  \<open>submit\<close>, in the queue or in a worker's delay, or it is lost; and a result has a completion time
  exactly when it is \<open>Completed\<close> or \<open>Failed\<close>, when its task is held nowhere. Tasks are lost only when no
  worker is left, which takes a shutdown or an executor made without workers.
\<close>

theorem task_lifecycle:
  assumes "task_reach n q te" "te_counter te \<le> 2 ^ 64"
  shows "distinct (waiting_ids te @ executing_ids te @ lost_ids te) \<and>
    (lost_ids te \<noteq> [] \<longrightarrow> no_receiver te \<and> (n = 0 \<or> \<not> te_running te)) \<and>
    (case get_result te tid of
       None \<Rightarrow> tid \<notin> set (waiting_ids te @ executing_ids te @ lost_ids te)
     | Some r \<Rightarrow>
         (tr_status r = Running \<longleftrightarrow> tid \<in> set (executing_ids te)) \<and>
         (if tr_status r = Pending then tid \<in> set (waiting_ids te @ lost_ids te)
          else if tr_status r \<in> {Completed, Failed}
          then tr_completed_at r \<noteq> None \<and> tid \<notin> set (waiting_ids te @ executing_ids te @ lost_ids te)
          else tr_completed_at r = None))"
proof -
  have st: "stages_ok (te_results te) (parked_ids te) (executing_ids te)"
    using te_inv_reach [OF assms] by (simp add: te_inv_def)
  have ids: "set (parked_ids te) = set (waiting_ids te @ lost_ids te)"
    by (auto simp: parked_ids_def waiting_ids_def lost_ids_def)
  have "distinct (waiting_ids te @ executing_ids te @ lost_ids te)"
    using st by (auto simp: stages_ok_def parked_ids_def waiting_ids_def lost_ids_def)
  moreover have "lost_ids te \<noteq> [] \<longrightarrow> no_receiver te \<and> (n = 0 \<or> \<not> te_running te)"
    using workers_inv_reach [OF assms(1)] by (auto simp: workers_inv_def lost_ids_def no_receiver_def)
  ultimately show ?thesis
    using stages_get [OF st, of tid] unfolding ids by (auto simp: get_result_def split: option.split)
qed

text \<open>One worker takes a task; a second task is submitted after the shutdown and is lost, its result pending.\<close>

lemma lost_after_shutdown:
  fixes s1 s2 s3 s4 :: "unit task_executor"
  defines "s1 \<equiv> shutdown (te_new 1 1)"
  defines "s2 \<equiv> drop_receiver (s1\<lparr>te_idle := 0, te_stopped := Suc (te_stopped s1)\<rparr>)"
  defines "s3 \<equiv> snd (submit 1 0 () None s2)"
  defines "s4 \<equiv> s3\<lparr>te_sending := [], te_lost := te_lost s3 @ te_sending s3\<rparr>"
  shows "task_reach 1 1 s4" "lost_ids s4 = [generate_id 1 0]"
    "get_result s4 (generate_id 1 0) = Some (pending_result (generate_id 1 0))" "te_counter s4 = 1"
proof -
  note defs = s1_def s2_def s3_def s4_def shutdown_def te_new_def drop_receiver_def no_receiver_def submit_def Let_def
  have r1: "task_reach 1 1 s1" unfolding s1_def by (rule task_reach.step [OF task_reach.init shutdown_step])
  have r2: "task_reach 1 1 s2"
    unfolding s2_def by (rule task_reach.step [OF r1 stop_step]) (simp_all add: s1_def shutdown_def te_new_def)
  have r3: "task_reach 1 1 s3" unfolding s3_def by (rule task_reach.step [OF r2 submit_step])
  obtain t where t: "te_sending s3 = [] @ t # []" by (simp add: defs)
  have "no_receiver s3" by (simp add: defs)
  from send_fails_step [OF t this] show "task_reach 1 1 s4"
    using task_reach.step [OF r3] t by (simp add: s4_def)
  show "lost_ids s4 = [generate_id 1 0]" "te_counter s4 = 1"
    "get_result s4 (generate_id 1 0) = Some (pending_result (generate_id 1 0))"
    by (simp_all add: defs lost_ids_def get_result_def)
qed

theorem task_lifecycle_witness:
  "\<exists>te :: unit task_executor. task_reach 1 1 te \<and> lost_ids te = [generate_id 1 0] \<and> no_receiver te \<and> \<not> te_running te \<and>
     get_result te (generate_id 1 0) = Some (pending_result (generate_id 1 0)) \<and>
     generate_id 1 0 \<in> set (waiting_ids te @ lost_ids te)"
proof -
  obtain te :: "unit task_executor" where te: "task_reach 1 1 te" "lost_ids te = [generate_id 1 0]"
    "get_result te (generate_id 1 0) = Some (pending_result (generate_id 1 0))" "te_counter te = 1"
    using lost_after_shutdown by blast
  from te(4) have "te_counter te \<le> 2 ^ 64" by simp
  from task_lifecycle [OF te(1) this, of "generate_id 1 0"] te show ?thesis
    by (intro exI [of _ te]) (simp add: pending_result_def)
qed

text \<open>
  Cancelling is lost during a delay: there is a reachable state in which \<open>cancel\<close> answers
  \<open>True\<close>, and so reports the task as complete, and from which the next step of its worker runs the
  task all the same, because the worker does not look at the result again after the delay.
\<close>

theorem cancelled_task_runs:
  "\<exists>te te' :: unit task_executor. \<exists>tid r.
     task_reach 1 1 te \<and> fst (cancel tid te) \<and> is_complete (snd (cancel tid te)) tid \<and>
     task_step (snd (cancel tid te)) te' \<and> get_result te' tid = Some r \<and> tr_status r = Running"
proof -
  let ?id = "generate_id 1 0" and ?t = "\<lparr>bt_id = generate_id 1 0, bt_handler = (), bt_created_at = 0, bt_delay = Some 5000000\<rparr>"
  let ?s0 = "te_new 1 1 :: unit task_executor"
  let ?s1 = "snd (submit 1 0 () (Some 5) ?s0)"
  let ?s2 = "?s1\<lparr>te_sending := [], te_queue := te_queue ?s1 @ [?t]\<rparr>"
  let ?s3 = "?s2\<lparr>te_idle := 0, te_waiting := Suc (te_waiting ?s2)\<rparr>"
  let ?s4 = "?s3\<lparr>te_waiting := 0, te_queue := [], te_delaying := te_delaying ?s3 @ [?t]\<rparr>"
  let ?s5 = "snd (cancel ?id ?s4)"
  let ?s6 = "mark_running 0 ?id (?s5\<lparr>te_delaying := [], te_executing := te_executing ?s5 @ [?t]\<rparr>)"
  have r1: "task_reach 1 1 ?s1" by (rule task_reach.step [OF task_reach.init submit_step])
  have r2: "task_reach 1 1 ?s2"
    using task_reach.step [OF r1 send_step [of ?s1 "[]" ?t "[]"]] by (simp add: submit_def te_new_def Let_def no_receiver_def)
  have r3: "task_reach 1 1 ?s3"
    using task_reach.step [OF r2 loop_step [of ?s2 0]] by (simp add: submit_def te_new_def Let_def)
  have r4: "task_reach 1 1 ?s4"
    using task_reach.step [OF r3 recv_step [of ?s3 0 ?t "[]"]]
    by (simp add: submit_def te_new_def Let_def was_cancelled_def pending_result_def)
  have c: "fst (cancel ?id ?s4)" "is_complete ?s5 ?id"
    by (simp_all add: submit_def te_new_def Let_def cancel_def pending_result_def is_complete_def)
  have "te_delaying ?s5 = [] @ ?t # []" by (simp add: submit_def te_new_def Let_def cancel_def pending_result_def)
  from start_step [OF this, of 5000000 0] have s6: "task_step ?s5 ?s6" by (simp add: delay_over_def)
  have "\<exists>r. get_result ?s6 ?id = Some r \<and> tr_status r = Running"
    by (simp add: submit_def te_new_def Let_def cancel_def pending_result_def mark_running_def update_result_def get_result_def)
  with r4 c s6 show ?thesis by blast
qed

end
