(* ===== verification/Db_Context.thy ===== *)
theory Db_Context
  imports Machines
begin

text \<open>
  Per-request database contexts (\<open>src/database/request_context.rs\<close>): the context's state machine over
  a lazily acquired connection, the sessions Python holds, and the global table from request and alias
  to context. Contexts are shared (\<open>Arc\<close>), so the system keeps them in a store and the table and the
  sessions hold their index. The pool and the PostgreSQL client are parameters acting on a database
  state \<open>'d\<close>; parameter and row conversion happen before and after these operations.
\<close>

record ('c, 'v, 'row, 'd) postgres =
  pg_pool :: "string \<Rightarrow> 'd \<Rightarrow> bool"
  pg_get :: "string \<Rightarrow> 'd \<Rightarrow> (string + 'c) \<times> 'd"
  pg_execute :: "'c \<Rightarrow> string \<Rightarrow> 'v list \<Rightarrow> 'd \<Rightarrow> (string + u64) \<times> 'd"
  pg_query :: "'c \<Rightarrow> string \<Rightarrow> 'v list \<Rightarrow> 'd \<Rightarrow> (string + 'row list) \<times> 'd"

datatype context_state = Idle | Connected | InTransaction | Committed | RolledBack | Closed

record 'c db_context =
  dc_request_id :: string
  dc_alias :: string
  dc_connection :: "'c option"
  dc_state :: context_state
  dc_auto_commit :: bool
  dc_has_error :: bool
  dc_in_transaction :: bool

definition db_context_new :: "string \<Rightarrow> string \<Rightarrow> 'c db_context" where
  "db_context_new request_id alias =
     \<lparr>dc_request_id = request_id, dc_alias = alias, dc_connection = None, dc_state = Idle,
      dc_auto_commit = True, dc_has_error = False, dc_in_transaction = False\<rparr>"

definition set_auto_commit :: "bool \<Rightarrow> 'c db_context \<Rightarrow> 'c db_context" where
  "set_auto_commit b ctx = ctx\<lparr>dc_auto_commit := b\<rparr>"

definition set_error :: "'c db_context \<Rightarrow> 'c db_context" where
  "set_error ctx = ctx\<lparr>dc_has_error := True\<rparr>"

definition ensure_connection ::
  "('c, 'v, 'row, 'd) postgres \<Rightarrow> 'c db_context \<times> 'd \<Rightarrow> (string + unit) \<times> 'c db_context \<times> 'd" where
  "ensure_connection pg =
     (\<lambda>(ctx, db).
        if dc_connection ctx \<noteq> None then (Ok (), ctx, db)
        else if \<not> pg_pool pg (dc_alias ctx) db
        then (Err (''Connection pool for alias '' @ [CHR 0x27] @ dc_alias ctx @ [CHR 0x27] @ '' not initialized''), ctx, db)
        else case pg_get pg (dc_alias ctx) db of
               (Err e, db) \<Rightarrow> (Err (''Failed to acquire connection: '' @ e), ctx, db)
             | (Ok conn, db) \<Rightarrow> (Ok (), ctx\<lparr>dc_connection := Some conn, dc_state := Connected\<rparr>, db))"

text \<open>
  Taking the connection out, running one statement and putting it back; the statement's error with
  its prefix.
\<close>

definition with_connection ::
  "('c \<Rightarrow> 'd \<Rightarrow> (string + 'a) \<times> 'd) \<Rightarrow> string \<Rightarrow> 'c db_context \<times> 'd \<Rightarrow> (string + 'a) \<times> 'c db_context \<times> 'd" where
  "with_connection f what =
     (\<lambda>(ctx, db).
        case dc_connection ctx of
          None \<Rightarrow> (Err ''No connection available'', ctx, db)
        | Some conn \<Rightarrow>
            (case f conn db of
               (Err e, db) \<Rightarrow> (Err (what @ e), ctx, db)
             | (Ok a, db) \<Rightarrow> (Ok a, ctx, db)))"

definition begin_tx ::
  "('c, 'v, 'row, 'd) postgres \<Rightarrow> 'c db_context \<times> 'd \<Rightarrow> (string + unit) \<times> 'c db_context \<times> 'd" where
  "begin_tx pg s =
     (case ensure_connection pg s of
        (Err e, s) \<Rightarrow> (Err e, s)
      | (Ok _, ctx, db) \<Rightarrow>
          if dc_in_transaction ctx then (Err ''Transaction already active'', ctx, db)
          else case with_connection (\<lambda>c. pg_execute pg c ''BEGIN'' []) ''Failed to begin transaction: '' (ctx, db) of
                 (Err e, s) \<Rightarrow> (Err e, s)
               | (Ok _, ctx, db) \<Rightarrow> (Ok (), ctx\<lparr>dc_in_transaction := True, dc_state := InTransaction\<rparr>, db))"

definition commit ::
  "('c, 'v, 'row, 'd) postgres \<Rightarrow> 'c db_context \<times> 'd \<Rightarrow> (string + unit) \<times> 'c db_context \<times> 'd" where
  "commit pg =
     (\<lambda>(ctx, db).
        if \<not> dc_in_transaction ctx then (Err ''No active transaction to commit'', ctx, db)
        else case with_connection (\<lambda>c. pg_execute pg c ''COMMIT'' []) ''Failed to commit transaction: '' (ctx, db) of
               (Err e, s) \<Rightarrow> (Err e, s)
             | (Ok _, ctx, db) \<Rightarrow> (Ok (), ctx\<lparr>dc_in_transaction := False, dc_state := Committed\<rparr>, db))"

definition rollback ::
  "('c, 'v, 'row, 'd) postgres \<Rightarrow> 'c db_context \<times> 'd \<Rightarrow> (string + unit) \<times> 'c db_context \<times> 'd" where
  "rollback pg =
     (\<lambda>(ctx, db).
        if \<not> dc_in_transaction ctx then (Err ''No active transaction to rollback'', ctx, db)
        else case with_connection (\<lambda>c. pg_execute pg c ''ROLLBACK'' []) ''Failed to rollback transaction: '' (ctx, db) of
               (Err e, s) \<Rightarrow> (Err e, s)
             | (Ok _, ctx, db) \<Rightarrow> (Ok (), ctx\<lparr>dc_in_transaction := False, dc_state := RolledBack\<rparr>, db))"

definition db_query ::
  "('c, 'v, 'row, 'd) postgres \<Rightarrow> string \<Rightarrow> 'v list \<Rightarrow> 'c db_context \<times> 'd \<Rightarrow> (string + 'row list) \<times> 'c db_context \<times> 'd" where
  "db_query pg sql params s =
     (case ensure_connection pg s of
        (Err e, s) \<Rightarrow> (Err e, s)
      | (Ok _, s) \<Rightarrow> with_connection (\<lambda>c. pg_query pg c sql params) ''Query failed: '' s)"

definition db_execute ::
  "('c, 'v, 'row, 'd) postgres \<Rightarrow> string \<Rightarrow> 'v list \<Rightarrow> 'c db_context \<times> 'd \<Rightarrow> (string + u64) \<times> 'c db_context \<times> 'd" where
  "db_execute pg sql params s =
     (case ensure_connection pg s of
        (Err e, s) \<Rightarrow> (Err e, s)
      | (Ok _, s) \<Rightarrow> with_connection (\<lambda>c. pg_execute pg c sql params) ''Execute failed: '' s)"

definition query_one ::
  "('c, 'v, 'row, 'd) postgres \<Rightarrow> string \<Rightarrow> 'v list \<Rightarrow> 'c db_context \<times> 'd \<Rightarrow> (string + 'row) \<times> 'c db_context \<times> 'd" where
  "query_one pg sql params s =
     (case db_query pg sql params s of
        (Err e, s) \<Rightarrow> (Err e, s)
      | (Ok [], s) \<Rightarrow> (Err ''No rows returned'', s)
      | (Ok (row # _), s) \<Rightarrow> (Ok row, s))"

text \<open>\<open>execute_many\<close> stops at the first error; the affected rows add up as a \<open>u64\<close>.\<close>

fun execute_many ::
  "('c, 'v, 'row, 'd) postgres \<Rightarrow> string \<Rightarrow> 'v list list \<Rightarrow> u64 \<Rightarrow> 'c db_context \<times> 'd \<Rightarrow> (string + u64) \<times> 'c db_context \<times> 'd" where
  "execute_many pg sql [] affected_rows s = (Ok affected_rows, s)"
| "execute_many pg sql (ps # pss) affected_rows s =
     (case db_execute pg sql ps s of
        (Err e, s) \<Rightarrow> (Err e, s)
      | (Ok affected, s) \<Rightarrow> execute_many pg sql pss (affected_rows + affected) s)"

text \<open>The transaction part of \<open>finalize\<close>, and \<open>finalize\<close> up to the global table.\<close>

definition end_transaction ::
  "('c, 'v, 'row, 'd) postgres \<Rightarrow> 'c db_context \<times> 'd \<Rightarrow> (string + unit) \<times> 'c db_context \<times> 'd" where
  "end_transaction pg =
     (\<lambda>(ctx, db).
        if dc_in_transaction ctx then
          (if dc_has_error ctx then rollback pg (ctx, db)
           else if dc_auto_commit ctx then commit pg (ctx, db)
           else rollback pg (ctx, db))
        else (Ok (), ctx, db))"

definition close_context ::
  "('c, 'v, 'row, 'd) postgres \<Rightarrow> 'c db_context \<times> 'd \<Rightarrow> (string + unit) \<times> 'c db_context \<times> 'd" where
  "close_context pg s =
     (case end_transaction pg s of
        (Err e, s) \<Rightarrow> (Err e, s)
      | (Ok _, ctx, db) \<Rightarrow> (Ok (), ctx\<lparr>dc_connection := None, dc_state := Closed\<rparr>, db))"

subsection \<open>The global table\<close>

record ('c, 'd) db_system =
  ds_contexts :: "(string \<times> (string \<times> nat) list) list"
  ds_store :: "'c db_context list"
  ds_db :: 'd

definition get_request_context :: "('c, 'd) db_system \<Rightarrow> string \<Rightarrow> string \<Rightarrow> nat option" where
  "get_request_context ds request_id alias =
     (case map_of (ds_contexts ds) request_id of None \<Rightarrow> None | Some m \<Rightarrow> map_of m alias)"

definition create_request_context :: "string \<Rightarrow> string \<Rightarrow> ('c, 'd) db_system \<Rightarrow> nat \<times> ('c, 'd) db_system" where
  "create_request_context request_id alias ds =
     (let a = length (ds_store ds);
          m = (case map_of (ds_contexts ds) request_id of Some m \<Rightarrow> m | None \<Rightarrow> [])
      in (a, ds\<lparr>ds_store := ds_store ds @ [db_context_new request_id alias],
                ds_contexts := AList.update request_id (AList.update alias a m) (ds_contexts ds)\<rparr>))"

definition get_db :: "string \<Rightarrow> string \<Rightarrow> ('c, 'd) db_system \<Rightarrow> nat \<times> ('c, 'd) db_system" where
  "get_db request_id alias ds =
     (case get_request_context ds request_id alias of
        Some a \<Rightarrow> (a, ds)
      | None \<Rightarrow> create_request_context request_id alias ds)"

text \<open>A session's operation runs on the stored context it points to.\<close>

definition on_context ::
  "nat \<Rightarrow> ('c db_context \<times> 'd \<Rightarrow> 'a \<times> 'c db_context \<times> 'd) \<Rightarrow> ('c, 'd) db_system \<Rightarrow> 'a \<times> ('c, 'd) db_system" where
  "on_context a f ds =
     (case f (ds_store ds ! a, ds_db ds) of
        (r, ctx, db) \<Rightarrow> (r, ds\<lparr>ds_store := (ds_store ds)[a := ctx], ds_db := db\<rparr>))"

definition forget_context :: "string \<Rightarrow> string \<Rightarrow> (string \<times> (string \<times> nat) list) list \<Rightarrow> (string \<times> (string \<times> nat) list) list" where
  "forget_context request_id alias m =
     (case map_of m request_id of
        None \<Rightarrow> m
      | Some rc \<Rightarrow>
          (let rc = AList.delete alias rc in
           if rc = [] then AList.delete request_id m else AList.update request_id rc m))"

definition finalize ::
  "('c, 'v, 'row, 'd) postgres \<Rightarrow> nat \<Rightarrow> ('c, 'd) db_system \<Rightarrow> (string + unit) \<times> ('c, 'd) db_system" where
  "finalize pg a ds =
     (case on_context a (close_context pg) ds of
        (Err e, ds) \<Rightarrow> (Err e, ds)
      | (Ok _, ds) \<Rightarrow>
          (Ok (), ds\<lparr>ds_contexts := forget_context (dc_request_id (ds_store ds ! a)) (dc_alias (ds_store ds ! a)) (ds_contexts ds)\<rparr>))"

definition finalize_db ::
  "('c, 'v, 'row, 'd) postgres \<Rightarrow> string \<Rightarrow> string \<Rightarrow> ('c, 'd) db_system \<Rightarrow> (string + unit) \<times> ('c, 'd) db_system" where
  "finalize_db pg request_id alias ds =
     (case get_request_context ds request_id alias of
        Some a \<Rightarrow> finalize pg a ds | None \<Rightarrow> (Ok (), ds))"

fun finalize_each ::
  "('c, 'v, 'row, 'd) postgres \<Rightarrow> nat list \<Rightarrow> ('c, 'd) db_system \<Rightarrow> (string + unit) \<times> ('c, 'd) db_system" where
  "finalize_each pg [] ds = (Ok (), ds)"
| "finalize_each pg (a # as) ds =
     (case finalize pg a ds of (Err e, ds) \<Rightarrow> (Err e, ds) | (Ok _, ds) \<Rightarrow> finalize_each pg as ds)"

definition finalize_db_all ::
  "('c, 'v, 'row, 'd) postgres \<Rightarrow> string \<Rightarrow> ('c, 'd) db_system \<Rightarrow> (string + unit) \<times> ('c, 'd) db_system" where
  "finalize_db_all pg request_id ds =
     (case map_of (ds_contexts ds) request_id of
        None \<Rightarrow> (Ok (), ds) | Some m \<Rightarrow> finalize_each pg (map snd m) ds)"

subsection \<open>The state machine\<close>

definition ctx_inv :: "'c db_context \<Rightarrow> bool" where
  "ctx_inv ctx =
     ((dc_in_transaction ctx \<longleftrightarrow> dc_state ctx = InTransaction) \<and>
      (dc_connection ctx = None \<longleftrightarrow> dc_state ctx \<in> {Idle, Closed}))"

definition store_inv :: "('c, 'd) db_system \<Rightarrow> bool" where
  "store_inv ds = list_all ctx_inv (ds_store ds)"

text \<open>The table points to stored contexts, each under its own request and alias.\<close>

definition table_inv :: "('c, 'd) db_system \<Rightarrow> bool" where
  "table_inv ds =
     (\<forall>r al a. get_request_context ds r al = Some a \<longrightarrow>
        a < length (ds_store ds) \<and> dc_request_id (ds_store ds ! a) = r \<and> dc_alias (ds_store ds ! a) = al)"

definition rows_wf :: "('c, 'd) db_system \<Rightarrow> bool" where
  "rows_wf ds = (\<forall>r m. map_of (ds_contexts ds) r = Some m \<longrightarrow> wf_map m)"

definition ds_inv :: "('c, 'd) db_system \<Rightarrow> bool" where
  "ds_inv ds = (store_inv ds \<and> table_inv ds \<and> rows_wf ds)"

text \<open>An operation of a context keeps the invariant and the context's identity.\<close>

locale context_op =
  fixes f :: "'c db_context \<times> 'd \<Rightarrow> 'a \<times> 'c db_context \<times> 'd"
  assumes inv: "f (ctx, db) = (r, ctx', db') \<Longrightarrow> ctx_inv ctx \<Longrightarrow> ctx_inv ctx'"
    and ident: "f (ctx, db) = (r, ctx', db') \<Longrightarrow>
      dc_request_id ctx' = dc_request_id ctx \<and> dc_alias ctx' = dc_alias ctx"
begin

lemma on_context_ds_inv:
  assumes "ds_inv ds" "a < length (ds_store ds)"
  shows "ds_inv (snd (on_context a f ds))"
proof -
  obtain r ctx' db' where f: "f (ds_store ds ! a, ds_db ds) = (r, ctx', db')" by (cases "f (ds_store ds ! a, ds_db ds)")
  have "ctx_inv (ds_store ds ! a)" using assms by (simp add: ds_inv_def store_inv_def list_all_length)
  then have "ctx_inv ctx'" by (rule inv [OF f])
  then show ?thesis
    using assms ident [OF f]
    by (auto simp: ds_inv_def store_inv_def table_inv_def rows_wf_def get_request_context_def on_context_def f
        list_all_length nth_list_update)
qed

lemma on_context_ident:
  "a < length (ds_store ds) \<Longrightarrow>
   dc_request_id (ds_store (snd (on_context a f ds)) ! a) = dc_request_id (ds_store ds ! a) \<and>
   dc_alias (ds_store (snd (on_context a f ds)) ! a) = dc_alias (ds_store ds ! a) \<and>
   length (ds_store (snd (on_context a f ds))) = length (ds_store ds)"
proof -
  assume a: "a < length (ds_store ds)"
  obtain r ctx' db' where f: "f (ds_store ds ! a, ds_db ds) = (r, ctx', db')" by (cases "f (ds_store ds ! a, ds_db ds)")
  from ident [OF f] a show ?thesis by (simp add: on_context_def f)
qed

end

lemmas ctx_op_defs = ensure_connection_def with_connection_def begin_tx_def commit_def rollback_def
  db_query_def db_execute_def query_one_def end_transaction_def close_context_def

lemma ensure_connection_op: "context_op (ensure_connection pg)"
  by unfold_locales (auto simp: ensure_connection_def ctx_inv_def split: if_splits prod.splits sum.splits)

lemma with_connection_Err: "with_connection g wh (ctx, db) = (Err e, ctx', db') \<Longrightarrow> ctx' = ctx"
  by (auto simp: with_connection_def split: option.splits prod.splits sum.splits)

lemma with_connection_Ok: "with_connection g wh (ctx, db) = (Ok v, ctx', db') \<Longrightarrow> ctx' = ctx \<and> dc_connection ctx \<noteq> None"
  by (auto simp: with_connection_def split: option.splits prod.splits sum.splits)

lemma with_connection_op: "context_op (with_connection g wh)"
  by unfold_locales (auto simp: with_connection_def split: option.splits prod.splits sum.splits)

interpretation connect: context_op "ensure_connection pg" for pg
  by (rule ensure_connection_op)

interpretation statement: context_op "with_connection g wh" for g wh
  by (rule with_connection_op)

text \<open>Running one operation after another, and the tail of the three transaction operations.\<close>

lemma context_op_bind:
  fixes f :: "'c db_context \<times> 'd \<Rightarrow> (string + 'a) \<times> 'c db_context \<times> 'd"
    and g :: "'a \<Rightarrow> 'c db_context \<times> 'd \<Rightarrow> (string + 'b) \<times> 'c db_context \<times> 'd"
  assumes "context_op f" "\<And>a. context_op (g a)"
  shows "context_op (\<lambda>s. case f s of (Err e, s) \<Rightarrow> (Err e, s) | (Ok a, s) \<Rightarrow> g a s)"
proof (unfold_locales, goal_cases)
  case (1 ctx db r ctx' db')
  then show ?case
    by (auto split: prod.splits sum.splits dest: context_op.inv [OF assms(1)] context_op.inv [OF assms(2)])
next
  case (2 ctx db r ctx' db')
  then show ?case
    by (fastforce split: prod.splits sum.splits dest: context_op.ident [OF assms(1)] context_op.ident [OF assms(2)])
qed

lemma transaction_op:
  assumes "st \<notin> {Idle, Closed}" "b = (st = InTransaction)"
  shows "context_op (\<lambda>s. case with_connection g wh s of
     (Err e, s) \<Rightarrow> (Err e, s) | (Ok v, ctx, db) \<Rightarrow> (Ok (), ctx\<lparr>dc_in_transaction := b, dc_state := st\<rparr>, db))"
proof (unfold_locales, goal_cases)
  case (1 ctx db r ctx' db')
  then show ?case using assms
    by (auto split: prod.splits sum.splits dest!: with_connection_Err with_connection_Ok) (auto simp: ctx_inv_def)
next
  case (2 ctx db r ctx' db')
  then show ?case
    by (auto split: prod.splits sum.splits dest!: with_connection_Err with_connection_Ok)
qed

lemma guarded_op:
  assumes "context_op f"
  shows "context_op (\<lambda>(ctx, db). if P ctx then (Err e, ctx, db) else f (ctx, db))"
  using assms by (auto simp: context_op_def)

interpretation begin_tx: context_op "begin_tx pg" for pg
proof -
  have "begin_tx pg = (\<lambda>s. case ensure_connection pg s of (Err e, s) \<Rightarrow> (Err e, s)
     | (Ok a, s) \<Rightarrow> (\<lambda>(ctx, db). if dc_in_transaction ctx then (Err ''Transaction already active'', ctx, db)
         else (\<lambda>s. case with_connection (\<lambda>c. pg_execute pg c ''BEGIN'' []) ''Failed to begin transaction: '' s of
           (Err e, s) \<Rightarrow> (Err e, s)
         | (Ok v, ctx, db) \<Rightarrow> (Ok (), ctx\<lparr>dc_in_transaction := True, dc_state := InTransaction\<rparr>, db)) (ctx, db)) s)"
    by (rule ext) (simp add: begin_tx_def split_beta)
  then show "context_op (begin_tx pg)"
    by (simp only:) (intro context_op_bind ensure_connection_op guarded_op transaction_op; simp)
qed

interpretation commit: context_op "commit pg" for pg
  unfolding commit_def by (intro guarded_op transaction_op) simp_all

interpretation rollback: context_op "rollback pg" for pg
  unfolding rollback_def by (intro guarded_op transaction_op) simp_all

interpretation query: context_op "db_query pg sql ps" for pg sql ps
  unfolding db_query_def by (intro context_op_bind ensure_connection_op with_connection_op)

interpretation execute: context_op "db_execute pg sql ps" for pg sql ps
  unfolding db_execute_def by (intro context_op_bind ensure_connection_op with_connection_op)

lemma end_transaction_op: "context_op (end_transaction pg)"
proof (unfold_locales, goal_cases)
  case (1 ctx db r ctx' db')
  then show ?case by (auto simp: end_transaction_def split: if_splits dest: commit.inv rollback.inv)
next
  case (2 ctx db r ctx' db')
  then show ?case by (auto simp: end_transaction_def split: if_splits dest: commit.ident rollback.ident)
qed

lemma end_transaction_Ok: "end_transaction pg (ctx, db) = (Ok u, ctx', db') \<Longrightarrow> \<not> dc_in_transaction ctx'"
  by (auto simp: end_transaction_def commit_def rollback_def split: if_splits prod.splits sum.splits)

interpretation close: context_op "close_context pg" for pg
proof (unfold_locales, goal_cases)
  case (1 ctx db r ctx' db')
  then show ?case
    by (auto simp: close_context_def split: prod.splits sum.splits
        dest: end_transaction_Ok context_op.inv [OF end_transaction_op]) (auto simp: ctx_inv_def dest: end_transaction_Ok)
next
  case (2 ctx db r ctx' db')
  then show ?case
    by (auto simp: close_context_def split: prod.splits sum.splits dest!: context_op.ident [OF end_transaction_op])
qed

interpretation auto_commit: context_op "\<lambda>(ctx, db). (Ok () :: string + unit, set_auto_commit b ctx, db)" for b
  by unfold_locales (auto simp: set_auto_commit_def ctx_inv_def)

interpretation error_flag: context_op "\<lambda>(ctx, db). (Ok () :: string + unit, set_error ctx, db)"
  by unfold_locales (auto simp: set_error_def ctx_inv_def)

lemma forget_context_gone:
  "(case map_of (forget_context r al m) r' of None \<Rightarrow> None | Some m \<Rightarrow> map_of m al') =
   (if r' = r \<and> al' = al then None else case map_of m r' of None \<Rightarrow> None | Some m \<Rightarrow> map_of m al')"
  by (auto simp: forget_context_def Let_def split: option.splits) (metis map_of.simps(1) map_of_delete fun_upd_other)+

subsection \<open>Finalizing\<close>

text \<open>The statement that ends the transaction of a context.\<close>

definition closing_sql :: "'c db_context \<Rightarrow> string" where
  "closing_sql ctx = (if dc_auto_commit ctx \<and> \<not> dc_has_error ctx then ''COMMIT'' else ''ROLLBACK'')"

text \<open>
  \<^bold>\<open>C32\<close> What \<open>finalize\<close> does to a context in a consistent state. Outside a transaction it talks to
  the database not at all; inside one it sends exactly one statement, \<open>COMMIT\<close> when the request
  saw no error and auto-commit is on, \<open>ROLLBACK\<close> otherwise. If that succeeds, or there was no
  transaction, the connection goes back to the pool, the context is closed and left the table; if
  the statement fails, the error is returned and the context keeps its connection, its transaction
  and its place in the table.
\<close>

theorem finalize_decides:
  assumes "ctx_inv ctx" "a < length (ds_store ds)" "ds_store ds ! a = ctx"
  shows "case (if dc_in_transaction ctx
               then pg_execute pg (the (dc_connection ctx)) (closing_sql ctx) [] (ds_db ds) else (Ok 0, ds_db ds)) of
       (Ok n, db) \<Rightarrow>
         (\<exists>ds'. finalize pg a ds = (Ok (), ds') \<and> ds_db ds' = db \<and>
            dc_connection (ds_store ds' ! a) = None \<and> dc_state (ds_store ds' ! a) = Closed \<and>
            get_request_context ds' (dc_request_id ctx) (dc_alias ctx) = None)
     | (Err e, db) \<Rightarrow>
         (\<exists>ds' msg. finalize pg a ds = (Err msg, ds') \<and> ds_db ds' = db \<and>
            ds_store ds' = ds_store ds \<and> ds_contexts ds' = ds_contexts ds)"
proof (cases "dc_in_transaction ctx")
  case True
  then obtain c where c: "dc_connection ctx = Some c" using assms(1) by (auto simp: ctx_inv_def)
  show ?thesis
    using True assms(2,3) c
    by (auto simp: finalize_def on_context_def close_context_def end_transaction_def commit_def rollback_def
        with_connection_def closing_sql_def get_request_context_def forget_context_gone split: prod.splits sum.splits)
next
  case False
  then show ?thesis
    using assms(2,3)
    by (simp add: finalize_def on_context_def close_context_def end_transaction_def get_request_context_def forget_context_gone)
qed

text \<open>A client that fails every \<open>COMMIT\<close> and counts its statements.\<close>

definition failing_postgres :: "(unit, unit, unit, string list) postgres" where
  "failing_postgres =
     \<lparr>pg_pool = (\<lambda>al d. True), pg_get = (\<lambda>al d. (Ok (), d)),
      pg_execute = (\<lambda>c sql ps d. (if sql = ''COMMIT'' then Err ''connection lost'' else Ok 0, d @ [sql])),
      pg_query = (\<lambda>c sql ps d. (Ok [], d @ [sql]))\<rparr>"

theorem finalize_decides_witness:
  "let ctx = (db_context_new ''r'' ''default'')\<lparr>dc_connection := Some (), dc_state := InTransaction, dc_in_transaction := True\<rparr>;
       ds = \<lparr>ds_contexts = [(''r'', [(''default'', 0)])], ds_store = [ctx], ds_db = []\<rparr>
   in \<exists>ds' msg. finalize failing_postgres 0 ds = (Err msg, ds') \<and> ds_db ds' = [''COMMIT''] \<and>
        ds_store ds' = ds_store ds \<and> ds_contexts ds' = ds_contexts ds"
proof -
  let ?ctx = "(db_context_new ''r'' ''default'')\<lparr>dc_connection := Some (), dc_state := InTransaction, dc_in_transaction := True\<rparr>"
  let ?ds = "\<lparr>ds_contexts = [(''r'', [(''default'', 0)])], ds_store = [?ctx], ds_db = []\<rparr> :: (unit, string list) db_system"
  have "ctx_inv ?ctx" "0 < length (ds_store ?ds)" "ds_store ?ds ! 0 = ?ctx"
    by (simp_all add: ctx_inv_def db_context_new_def)
  from finalize_decides [OF this, of failing_postgres] show ?thesis
    by (simp add: Let_def failing_postgres_def closing_sql_def db_context_new_def)
qed

subsection \<open>All histories\<close>

lemma ds_inv_forget: "ds_inv ds \<Longrightarrow> ds_inv (ds\<lparr>ds_contexts := forget_context r al (ds_contexts ds)\<rparr>)"
proof -
  assume inv: "ds_inv ds"
  have "map_of (forget_context r al (ds_contexts ds)) r' = Some m \<Longrightarrow> wf_map m" for r' m
    using inv by (auto simp: ds_inv_def rows_wf_def forget_context_def Let_def split: option.splits if_splits)
  with inv show ?thesis
    by (auto simp: ds_inv_def store_inv_def table_inv_def rows_wf_def get_request_context_def forget_context_gone split: if_splits)
qed

lemma ds_inv_finalize:
  assumes "ds_inv ds" "a < length (ds_store ds)"
  shows "ds_inv (snd (finalize pg a ds)) \<and> length (ds_store (snd (finalize pg a ds))) = length (ds_store ds)"
proof -
  obtain r ds' where o: "on_context a (close_context pg) ds = (r, ds')" by (cases "on_context a (close_context pg) ds")
  with close.on_context_ds_inv [OF assms, of pg] close.on_context_ident [OF assms(2), of pg]
  have "ds_inv ds'" "length (ds_store ds') = length (ds_store ds)" by auto
  then show ?thesis by (cases r) (auto simp: finalize_def o ds_inv_forget)
qed

lemma ds_inv_finalize_each:
  "ds_inv ds \<Longrightarrow> list_all (\<lambda>a. a < length (ds_store ds)) as \<Longrightarrow> ds_inv (snd (finalize_each pg as ds))"
proof (induction as arbitrary: ds)
  case (Cons a as)
  obtain r ds' where f: "finalize pg a ds = (r, ds')" by (cases "finalize pg a ds")
  with ds_inv_finalize [of ds a pg] Cons.prems have "ds_inv ds'" "length (ds_store ds') = length (ds_store ds)" by auto
  with Cons show ?case by (cases r) (auto simp: f)
qed simp

lemma ds_inv_create: "ds_inv ds \<Longrightarrow> ds_inv (snd (create_request_context r al ds))"
proof -
  assume inv: "ds_inv ds"
  let ?ds = "snd (create_request_context r al ds)"
  have "get_request_context ?ds r' al' =
      (if r' = r \<and> al' = al then Some (length (ds_store ds)) else get_request_context ds r' al')" for r' al'
    by (simp add: create_request_context_def get_request_context_def Let_def split: option.split)
  moreover have "rows_wf ?ds"
    using inv by (auto simp: ds_inv_def rows_wf_def create_request_context_def Let_def split: option.splits if_splits)
  ultimately show ?thesis
    using inv by (auto simp: ds_inv_def store_inv_def table_inv_def create_request_context_def Let_def nth_append
        db_context_new_def ctx_inv_def less_Suc_eq split: if_splits)
qed

datatype 'v db_op =
  GetDb string string | Begin nat | Commit nat | Rollback nat | Query nat string "'v list" | Execute nat string "'v list"
  | SetAutoCommit nat bool | SetError nat | FinalizeDb string string | FinalizeAll string

definition on_session ::
  "nat \<Rightarrow> ('c db_context \<times> 'd \<Rightarrow> 'a \<times> 'c db_context \<times> 'd) \<Rightarrow> ('c, 'd) db_system \<Rightarrow> ('c, 'd) db_system" where
  "on_session a f ds = (if a < length (ds_store ds) then snd (on_context a f ds) else ds)"

fun db_apply :: "('c, 'v, 'row, 'd) postgres \<Rightarrow> 'v db_op \<Rightarrow> ('c, 'd) db_system \<Rightarrow> ('c, 'd) db_system" where
  "db_apply pg (GetDb r al) ds = snd (get_db r al ds)"
| "db_apply pg (Begin a) ds = on_session a (begin_tx pg) ds"
| "db_apply pg (Commit a) ds = on_session a (commit pg) ds"
| "db_apply pg (Rollback a) ds = on_session a (rollback pg) ds"
| "db_apply pg (Query a sql ps) ds = on_session a (db_query pg sql ps) ds"
| "db_apply pg (Execute a sql ps) ds = on_session a (db_execute pg sql ps) ds"
| "db_apply pg (SetAutoCommit a b) ds = on_session a (\<lambda>(ctx, db). (Ok () :: string + unit, set_auto_commit b ctx, db)) ds"
| "db_apply pg (SetError a) ds = on_session a (\<lambda>(ctx, db). (Ok () :: string + unit, set_error ctx, db)) ds"
| "db_apply pg (FinalizeDb r al) ds = snd (finalize_db pg r al ds)"
| "db_apply pg (FinalizeAll r) ds = snd (finalize_db_all pg r ds)"

lemmas on_session_invs = begin_tx.on_context_ds_inv commit.on_context_ds_inv rollback.on_context_ds_inv
  query.on_context_ds_inv execute.on_context_ds_inv auto_commit.on_context_ds_inv error_flag.on_context_ds_inv

lemma ds_inv_apply: "ds_inv ds \<Longrightarrow> ds_inv (db_apply pg op ds)"
proof (cases op)
  case (FinalizeDb r al)
  assume inv: "ds_inv ds"
  then have "get_request_context ds r al = Some a \<Longrightarrow> a < length (ds_store ds)" for a
    by (simp add: ds_inv_def table_inv_def)
  with inv FinalizeDb show ?thesis
    by (auto simp: finalize_db_def ds_inv_finalize split: option.split)
next
  case (FinalizeAll r)
  assume inv: "ds_inv ds"
  have "list_all (\<lambda>a. a < length (ds_store ds)) (map snd m)" if m: "map_of (ds_contexts ds) r = Some m" for m
  proof -
    have "a < length (ds_store ds)" if "(al, a) \<in> set m" for al a
    proof -
      have "wf_map m" using inv m by (auto simp: ds_inv_def rows_wf_def)
      with that m have "get_request_context ds r al = Some a" by (simp add: wf_map_def get_request_context_def)
      then show ?thesis using inv by (simp add: ds_inv_def table_inv_def)
    qed
    then show ?thesis by (auto simp: list_all_iff)
  qed
  with inv FinalizeAll show ?thesis
    by (auto simp: finalize_db_all_def ds_inv_finalize_each split: option.split)
qed (auto simp: on_session_def on_session_invs get_db_def ds_inv_create split: option.split)

interpretation db: machine "db_apply pg" ds_inv for pg
  by unfold_locales (rule ds_inv_apply)

text \<open>
  After any sequence of session operations and finalizations, whatever the database answers,
  every context is in a consistent state, in a transaction exactly in state \<open>InTransaction\<close> and
  holding a connection exactly when it is neither idle nor closed; and \<open>get_db\<close> returns the
  context of the request and the alias it was asked for.
\<close>

theorem db_contexts_consistent:
  "let ds = fold (db_apply pg) ops \<lparr>ds_contexts = [], ds_store = [], ds_db = db\<rparr>;
       (a, ds') = get_db r al ds
   in list_all ctx_inv (ds_store ds) \<and> a < length (ds_store ds') \<and>
      dc_request_id (ds_store ds' ! a) = r \<and> dc_alias (ds_store ds' ! a) = al"
proof -
  let ?ds = "fold (db_apply pg) ops \<lparr>ds_contexts = [], ds_store = [], ds_db = db\<rparr>"
  have inv: "ds_inv ?ds"
    by (rule db.inv_run) (simp add: ds_inv_def store_inv_def table_inv_def rows_wf_def get_request_context_def)
  then show ?thesis
    by (auto simp: Let_def ds_inv_def store_inv_def table_inv_def get_db_def create_request_context_def db_context_new_def
        split: option.splits)
qed

text \<open>
  A session outlives \<open>finalize\<close>: a query after it takes a new connection from the pool, which no
  later finalization through the table gives back.
\<close>

lemma query_after_finalize_reconnects:
  assumes "dc_connection ctx = None" "dc_state ctx = Closed" "pg_pool pg (dc_alias ctx) db" "pg_get pg (dc_alias ctx) db = (Ok c, db1)"
  shows "dc_connection (fst (snd (db_query pg sql ps (ctx, db)))) = Some c"
  using assms
  by (auto simp: db_query_def ensure_connection_def with_connection_def split: prod.split sum.split)

end
