(* ===== verification/Executor.thy ===== *)
theory Executor
  imports Machines "HOL-Library.Multiset"
begin

text \<open>
  The blocking executor (\<open>src/core/blocking_executor.rs\<close>): the worker loop with submission and
  shutdown as a step relation, single calls, the calls of \<open>run_parallel\<close> and \<open>map\<close> against a bounded
  queue under the interpreter lock, and how \<open>map\<close> cuts its items into chunks and puts the results
  together again. A Python callable is a parameter; the threads run the same loop, so the state counts
  the workers at each point of it. The steps of a parallel call are those of one call on an executor
  with no other work: items of other callers, which share the queue, are not in its state.
\<close>

subsection \<open>Chunked map\<close>

text \<open>The outcome of one work item: a value or the error's message.\<close>

type_synonym 'y work_result = "string + 'y"

fun run_chunk :: "('x \<Rightarrow> 'y work_result) \<Rightarrow> 'x list \<Rightarrow> 'y list work_result" where
  "run_chunk f [] = Ok []"
| "run_chunk f (x # xs) =
     (case f x of
        Err e \<Rightarrow> Err e
      | Ok y \<Rightarrow> (case run_chunk f xs of Err e \<Rightarrow> Err e | Ok ys \<Rightarrow> Ok (y # ys)))"

definition chunk_length :: "nat \<Rightarrow> nat \<Rightarrow> nat \<Rightarrow> nat" where
  "chunk_length max_threads chunk_size n =
     max 1 (if chunk_size > 0 then chunk_size
            else let target_chunks = max_threads * 4 in (n + target_chunks - 1) div target_chunks)"

function chunks :: "nat \<Rightarrow> 'x list \<Rightarrow> 'x list list" where
  "chunks k xs = (if xs = [] \<or> k = 0 then [] else take k xs # chunks k (drop k xs))"
  by pat_completeness auto
termination
  by (relation "measure (\<lambda>(k, xs). length xs)") auto

declare chunks.simps [simp del]

text \<open>The results in order of the chunks; the first error wins.\<close>

fun collect :: "'y list work_result list \<Rightarrow> 'y list work_result" where
  "collect [] = Ok []"
| "collect (r # rs) =
     (case r of
        Err e \<Rightarrow> Err e
      | Ok ys \<Rightarrow> (case collect rs of Err e \<Rightarrow> Err e | Ok zs \<Rightarrow> Ok (ys @ zs)))"

text \<open>
  The elements of the list given to \<open>run_parallel\<close>: not a tuple, or a tuple with its length and, where
  its arguments have the right types, the call it describes.
\<close>

datatype 'y task_item =
  NotTuple
| TaskTuple nat "(unit \<Rightarrow> 'y work_result) option"

datatype executor_error =
  RuntimeError string
| ValueError string
| CastError

fun submit_tasks :: "'y task_item list \<Rightarrow> executor_error + (unit \<Rightarrow> 'y work_result) list" where
  "submit_tasks [] = Ok []"
| "submit_tasks (NotTuple # ts) = Err CastError"
| "submit_tasks (TaskTuple len call # ts) =
     (if len < 2 then Err (ValueError ''Each task must be (callable, args) or (callable, args, kwargs)'')
      else case call of
             None \<Rightarrow> Err CastError
           | Some t \<Rightarrow> (case submit_tasks ts of Err e \<Rightarrow> Err e | Ok us \<Rightarrow> Ok (t # us)))"

text \<open>
  What \<open>run_parallel\<close> gives when it returns, for calls whose outcomes do not depend on each other. Whether it
  returns depends on the queue: see the section on the interpreter lock.
\<close>

definition run_parallel :: "bool \<Rightarrow> 'y task_item list \<Rightarrow> executor_error + 'y list" where
  "run_parallel running tasks =
     (if \<not> running then Err (RuntimeError ''BlockingExecutor is shut down'')
      else case submit_tasks tasks of
             Err e \<Rightarrow> Err e
           | Ok ts \<Rightarrow> map_sum RuntimeError (\<lambda>ys. ys) (collect (map (\<lambda>t. map_sum (\<lambda>e. e) (\<lambda>y. [y]) (t ())) ts)))"

fun_cases submit_tasks_OkE: "submit_tasks ts = Ok us"

lemma submit_tasks_Ok:
  "submit_tasks ts = Ok us \<longleftrightarrow> list_all2 (\<lambda>t u. \<exists>len. t = TaskTuple len (Some u) \<and> 2 \<le> len) ts us"
  by (induction ts arbitrary: us rule: submit_tasks.induct)
    (auto simp: list_all2_Cons1 split: sum.splits option.splits)

text \<open>The results of the calls in the order of the tasks, or the message of the first failing one.\<close>

lemma run_parallel_in_order:
  assumes "submit_tasks ts = Ok us"
  shows "run_parallel True ts = map_sum RuntimeError (\<lambda>ys. ys) (run_chunk (\<lambda>u. u ()) us)"
proof -
  have "collect (map (\<lambda>t. map_sum (\<lambda>e. e) (\<lambda>y. [y]) (t ())) us) = run_chunk (\<lambda>u. u ()) us"
    by (induction us) (auto split: sum.splits)
  with assms show ?thesis by (simp add: run_parallel_def)
qed

lemma chunk_length_pos [simp]: "0 < chunk_length m c n"
  by (simp add: chunk_length_def)

lemma run_chunk_append:
  "run_chunk f (xs @ ys) =
     (case run_chunk f xs of Err e \<Rightarrow> Err e
      | Ok as \<Rightarrow> (case run_chunk f ys of Err e \<Rightarrow> Err e | Ok bs \<Rightarrow> Ok (as @ bs)))"
  by (induction xs) (auto split: sum.split)

lemma collect_chunks: "0 < k \<Longrightarrow> collect (map (run_chunk f) (chunks k xs)) = run_chunk f xs"
proof (induction k xs rule: chunks.induct)
  case (1 k xs)
  show ?case
  proof (cases "xs = []")
    case False
    with 1 have "collect (map (run_chunk f) (chunks k (drop k xs))) = run_chunk f (drop k xs)" by simp
    with False 1(2) run_chunk_append [of f "take k xs" "drop k xs"] show ?thesis
      by (subst chunks.simps) (simp split: sum.split)
  qed (simp add: chunks.simps)
qed

lemma length_chunks: "0 < k \<Longrightarrow> length (chunks k xs) = (length xs + k - 1) div k"
proof (induction k xs rule: chunks.induct)
  case (1 k xs)
  show ?case
  proof (cases "xs = []")
    case False
    with 1 have IH: "length (chunks k (drop k xs)) = (length xs - k + k - 1) div k" by simp
    have "Suc ((length xs - k + k - 1) div k) = (length xs + k - 1) div k"
    proof (cases "k \<le> length xs")
      case True
      then have "length xs + k - 1 = (length xs - k + k - 1) + k" using 1(2) by linarith
      then show ?thesis using 1(2) by (metis add.commute add_Suc_right div_add_self2 less_irrefl plus_1_eq_Suc add_0)
    next
      case less: False
      then have a: "(length xs - k + k - 1) div k = 0" using 1(2) by simp
      have "k \<le> length xs + k - 1" "length xs + k - 1 < 2 * k" using False less by (cases xs; simp)+
      then have "(length xs + k - 1) div k = 1" by (simp add: div_nat_eqI)
      with a show ?thesis by simp
    qed
    with False 1(2) IH show ?thesis by (subst chunks.simps) simp
  qed (use 1(2) in \<open>simp add: chunks.simps\<close>)
qed

lemma concat_chunks: "0 < k \<Longrightarrow> concat (chunks k xs) = xs"
proof (induction k xs rule: chunks.induct)
  case (1 k xs)
  then show ?case by (subst chunks.simps) simp
qed

lemma chunks_empty [simp]: "0 < k \<Longrightarrow> chunks k xs = [] \<longleftrightarrow> xs = []"
  by (subst chunks.simps) simp

text \<open>The automatic chunk length makes at most four chunks per thread.\<close>

lemma chunks_per_thread:
  assumes "0 < m"
  shows "length (chunks (chunk_length m 0 (length items)) items) \<le> 4 * m"
proof -
  let ?n = "length items" and ?t = "m * 4"
  let ?k = "chunk_length m 0 ?n"
  have k: "?k = max 1 ((?n + ?t - 1) div ?t)" by (simp add: chunk_length_def Let_def)
  have "?n \<le> ((?n + ?t - 1) div ?t) * ?t"
    using dividend_less_div_times [of ?t "?n + ?t - 1"] assms by simp
  also have "\<dots> \<le> ?k * ?t" unfolding k by (intro mult_le_mono1) simp
  finally have "?n + ?k \<le> (?t + 1) * ?k" by (simp add: algebra_simps)
  moreover have "?n + ?k - 1 < ?n + ?k" using chunk_length_pos [of m 0 ?n] by linarith
  ultimately have "?n + ?k - 1 < (?t + 1) * ?k" by linarith
  then have "(?n + ?k - 1) div ?k \<le> ?t"
    by (metis Suc_eq_plus1 less_Suc_eq_le less_mult_imp_div_less)
  then show ?thesis by (simp add: length_chunks)
qed

subsection \<open>The worker loop\<close>

record 'c executor =
  ex_running :: bool
  ex_capacity :: "nat option"
  ex_queue :: "'c list"
  ex_sending :: "'c list"
  ex_checking :: nat
  ex_receiving :: nat
  ex_working :: "'c list"
  ex_idle :: nat
  ex_exited :: nat

text \<open>\<open>parallelism\<close> is the number of processors, used when \<open>max_threads\<close> is 0; a queue size of 0 is unbounded.\<close>

definition executor_new :: "nat \<Rightarrow> nat \<Rightarrow> nat \<Rightarrow> 'c executor" where
  "executor_new parallelism max_threads queue_size =
     \<lparr>ex_running = True, ex_capacity = (if queue_size > 0 then Some queue_size else None), ex_queue = [],
      ex_sending = [], ex_checking = (if max_threads = 0 then parallelism else max_threads), ex_receiving = 0,
      ex_working = [], ex_idle = 0, ex_exited = 0\<rparr>"

definition has_room :: "'c executor \<Rightarrow> bool" where
  "has_room ex = (case ex_capacity ex of None \<Rightarrow> True | Some n \<Rightarrow> length (ex_queue ex) < n)"

definition executor_shutdown :: "'c executor \<Rightarrow> 'c executor" where
  "executor_shutdown ex = ex\<lparr>ex_running := False\<rparr>"

definition live_threads :: "'c executor \<Rightarrow> nat" where
  "live_threads ex = ex_checking ex + ex_receiving ex + length (ex_working ex) + ex_idle ex"

text \<open>
  Submitting tests the flag and sends later, when the queue has room. A worker tests the flag; if it is set it waits for an
  item or the timeout, runs the item and starts over; after a timeout or a cleared flag it leaves
  the loop only if the flag is cleared and the queue is empty.
\<close>

inductive executor_step :: "'c executor \<Rightarrow> 'c executor \<Rightarrow> bool" where
  submit: "ex_running ex \<Longrightarrow> executor_step ex (ex\<lparr>ex_sending := ex_sending ex @ [c]\<rparr>)"
| send: "ex_sending ex = xs @ c # ys \<Longrightarrow> has_room ex \<Longrightarrow>
    executor_step ex (ex\<lparr>ex_sending := xs @ ys, ex_queue := ex_queue ex @ [c]\<rparr>)"
| flag_set: "ex_checking ex = Suc n \<Longrightarrow> ex_running ex \<Longrightarrow>
    executor_step ex (ex\<lparr>ex_checking := n, ex_receiving := Suc (ex_receiving ex)\<rparr>)"
| flag_cleared: "ex_checking ex = Suc n \<Longrightarrow> \<not> ex_running ex \<Longrightarrow>
    executor_step ex (ex\<lparr>ex_checking := n, ex_idle := Suc (ex_idle ex)\<rparr>)"
| receive: "ex_receiving ex = Suc n \<Longrightarrow> ex_queue ex = c # q \<Longrightarrow>
    executor_step ex (ex\<lparr>ex_receiving := n, ex_queue := q, ex_working := ex_working ex @ [c]\<rparr>)"
| timeout: "ex_receiving ex = Suc n \<Longrightarrow>
    executor_step ex (ex\<lparr>ex_receiving := n, ex_idle := Suc (ex_idle ex)\<rparr>)"
| finish: "ex_working ex = xs @ c # ys \<Longrightarrow>
    executor_step ex (ex\<lparr>ex_working := xs @ ys, ex_checking := Suc (ex_checking ex)\<rparr>)"
| again: "ex_idle ex = Suc n \<Longrightarrow> ex_running ex \<or> ex_queue ex \<noteq> [] \<Longrightarrow>
    executor_step ex (ex\<lparr>ex_idle := n, ex_checking := Suc (ex_checking ex)\<rparr>)"
| exit: "ex_idle ex = Suc n \<Longrightarrow> \<not> ex_running ex \<Longrightarrow> ex_queue ex = [] \<Longrightarrow>
    executor_step ex (ex\<lparr>ex_idle := n, ex_exited := Suc (ex_exited ex)\<rparr>)"
| shutdown: "executor_step ex (executor_shutdown ex)"

inductive_cases executor_stepE: "executor_step ex ex'"

lemma live_plus_exited: "executor_step ex ex' \<Longrightarrow> live_threads ex' + ex_exited ex' = live_threads ex + ex_exited ex"
  by (induction rule: executor_step.induct) (auto simp: live_threads_def executor_shutdown_def)

interpretation executor_threads: transitions executor_step "\<lambda>ex. live_threads ex + ex_exited ex = n" for n
  by unfold_locales (simp add: live_plus_exited)

lemma threads_accounted:
  assumes "executor_step\<^sup>*\<^sup>* (executor_new p m q) ex"
  shows "live_threads ex + ex_exited ex = (if m = 0 then p else m)"
  using executor_threads.inv_steps [OF assms, of "if m = 0 then p else m"] by (simp add: live_threads_def executor_new_def)

text \<open>The states of an executor that was shut down with work in its queue and no worker waiting for it.\<close>

definition stranded :: "'c list \<Rightarrow> nat \<Rightarrow> 'c executor \<Rightarrow> bool" where
  "stranded q n ex =
     (\<not> ex_running ex \<and> ex_receiving ex = 0 \<and> q \<noteq> [] \<and> prefix q (ex_queue ex) \<and> ex_exited ex = n)"

lemma stranded_step: "executor_step ex ex' \<Longrightarrow> stranded q n ex \<Longrightarrow> stranded q n ex'"
  by (induction rule: executor_step.induct) (auto simp: stranded_def executor_shutdown_def)

interpretation stranded: transitions executor_step "stranded q n" for q n
  by unfold_locales (rule stranded_step)

text \<open>
  \<^bold>\<open>C38\<close> Shutting down strands queued work: once the flag is cleared, work is queued and no worker is
  inside \<open>recv_timeout\<close>, then whatever happens afterwards the queue keeps that work, no worker
  takes it and no worker ever leaves its loop; the workers spin between the flag test and the
  test for an empty queue, and the callers waiting for the results wait forever.
\<close>

theorem shutdown_strands_queue:
  assumes "\<not> ex_running ex" "ex_receiving ex = 0" "ex_queue ex \<noteq> []" "executor_step\<^sup>*\<^sup>* ex ex'"
  shows "prefix (ex_queue ex) (ex_queue ex') \<and> ex_exited ex' = ex_exited ex \<and> \<not> ex_running ex'"
proof -
  have "stranded (ex_queue ex) (ex_exited ex) ex" using assms(1-3) by (simp add: stranded_def)
  from stranded.inv_steps [OF assms(4) this] show ?thesis by (simp add: stranded_def)
qed

text \<open>A single worker busy with a first item when the second is queued and the executor shut down.\<close>

theorem shutdown_strands_queue_witness:
  "\<exists>ex. executor_step\<^sup>*\<^sup>* (executor_new 8 1 0) ex \<and> ex_queue ex = [2 :: nat] \<and>
     (\<exists>ex'. executor_step\<^sup>*\<^sup>* ex ex' \<and> ex_working ex' = [] \<and>
        prefix (ex_queue ex) (ex_queue ex') \<and> ex_exited ex' = ex_exited ex \<and> \<not> ex_running ex')"
proof -
  let ?s0 = "executor_new 8 1 0 :: nat executor"
  let ?s1 = "?s0\<lparr>ex_sending := ex_sending ?s0 @ [1]\<rparr>"
  let ?s2 = "?s1\<lparr>ex_sending := [] @ [], ex_queue := ex_queue ?s1 @ [1]\<rparr>"
  let ?s3 = "?s2\<lparr>ex_checking := 0, ex_receiving := Suc (ex_receiving ?s2)\<rparr>"
  let ?s4 = "?s3\<lparr>ex_receiving := 0, ex_queue := [], ex_working := ex_working ?s3 @ [1]\<rparr>"
  let ?s5 = "?s4\<lparr>ex_sending := ex_sending ?s4 @ [2]\<rparr>"
  let ?s6 = "?s5\<lparr>ex_sending := [] @ [], ex_queue := ex_queue ?s5 @ [2]\<rparr>"
  let ?s7 = "executor_shutdown ?s6"
  let ?s8 = "?s7\<lparr>ex_working := [] @ [], ex_checking := Suc (ex_checking ?s7)\<rparr>"
  have steps: "executor_step ?s0 ?s1" "executor_step ?s1 ?s2" "executor_step ?s2 ?s3" "executor_step ?s3 ?s4"
    "executor_step ?s4 ?s5" "executor_step ?s5 ?s6" "executor_step ?s6 ?s7" "executor_step ?s7 ?s8"
    by (intro executor_step.intros; simp add: executor_new_def executor_shutdown_def has_room_def)+
  then have r: "executor_step\<^sup>*\<^sup>* ?s0 ?s7" by (meson converse_rtranclp_into_rtranclp rtranclp.rtrancl_refl)
  have e: "executor_step\<^sup>*\<^sup>* ?s7 ?s8" using steps(8) by (rule r_into_rtranclp)
  have "prefix (ex_queue ?s7) (ex_queue ?s8) \<and> ex_exited ?s8 = ex_exited ?s7 \<and> \<not> ex_running ?s8"
    by (rule shutdown_strands_queue [OF _ _ _ e]) (simp_all add: executor_new_def executor_shutdown_def)
  moreover have "ex_queue ?s7 = [2]" "ex_working ?s8 = []" by (simp_all add: executor_new_def executor_shutdown_def)
  ultimately show ?thesis using r e by blast
qed

subsection \<open>Single calls\<close>

text \<open>A Python callable takes its arguments and keywords and returns a value or raises with a text.\<close>

record ('a, 'k, 'y) work_item =
  wi_callable :: "'a \<Rightarrow> 'k option \<Rightarrow> string + 'y"
  wi_args :: 'a
  wi_kwargs :: "'k option"

definition execute_work :: "('a, 'k, 'y) work_item \<Rightarrow> 'y work_result" where
  "execute_work work =
     (case (case wi_kwargs work of
              Some kw \<Rightarrow> wi_callable work (wi_args work) (Some kw)
            | None \<Rightarrow> wi_callable work (wi_args work) None) of
        Ok ob \<Rightarrow> Ok ob
      | Err err \<Rightarrow> Err err)"

text \<open>
  \<open>send_ok\<close>: the send reached the channel; \<open>recv\<close>: what the result channel delivers for the item,
  \<open>None\<close> when its sender is gone.
\<close>

definition run_sync ::
  "bool \<Rightarrow> bool \<Rightarrow> (('a, 'k, 'y) work_item \<Rightarrow> 'y work_result option) \<Rightarrow> ('a, 'k, 'y) work_item \<Rightarrow> executor_error + 'y" where
  "run_sync running send_ok recv work =
     (if \<not> running then Err (RuntimeError ''BlockingExecutor is shut down'')
      else if \<not> send_ok then Err (RuntimeError ''Failed to submit work to pool'')
      else case recv work of
             Some (Ok ob) \<Rightarrow> Ok ob
           | Some (Err msg) \<Rightarrow> Err (RuntimeError msg)
           | None \<Rightarrow> Err (RuntimeError ''Worker thread disconnected unexpectedly''))"

text \<open>A call through the pool is the call itself, except that every exception becomes a \<open>RuntimeError\<close>.\<close>

lemma run_sync_transparent:
  "run_sync True True (\<lambda>w. Some (execute_work w)) work = map_sum RuntimeError (\<lambda>y. y) (wi_callable work (wi_args work) (wi_kwargs work))"
  by (auto simp: run_sync_def execute_work_def split: sum.split option.split)

subsection \<open>The interpreter lock and a bounded queue\<close>

text \<open>
  On a Python with an interpreter lock, \<open>run_parallel\<close> and \<open>map\<close> send all their items before they release it. A worker
  receives without the lock but needs it to go on, with an item or after its timeout. The state
  of one call by \<open>n\<close> items: those not sent, in the queue, taken by workers that wait for the lock, and
  done; and the workers receiving and those that timed out and wait for the lock.
\<close>

record gil_call =
  gc_capacity :: "nat option"
  gc_unsent :: nat
  gc_queue :: nat
  gc_holding :: nat
  gc_finished :: nat
  gc_receiving :: nat
  gc_timed_out :: nat

definition gil_call_new :: "nat option \<Rightarrow> nat \<Rightarrow> nat \<Rightarrow> gil_call" where
  "gil_call_new cap m n =
     \<lparr>gc_capacity = cap, gc_unsent = n, gc_queue = 0, gc_holding = 0, gc_finished = 0, gc_receiving = m, gc_timed_out = 0\<rparr>"

definition gil_room :: "gil_call \<Rightarrow> bool" where
  "gil_room s = (case gc_capacity s of None \<Rightarrow> True | Some c \<Rightarrow> gc_queue s < c)"

inductive gil_step :: "gil_call \<Rightarrow> gil_call \<Rightarrow> bool" where
  send: "gc_unsent s = Suc n \<Longrightarrow> gil_room s \<Longrightarrow> gil_step s (s\<lparr>gc_unsent := n, gc_queue := Suc (gc_queue s)\<rparr>)"
| receive: "gc_receiving s = Suc n \<Longrightarrow> gc_queue s = Suc q \<Longrightarrow>
    gil_step s (s\<lparr>gc_receiving := n, gc_queue := q, gc_holding := Suc (gc_holding s)\<rparr>)"
| timeout: "gc_receiving s = Suc n \<Longrightarrow> gil_step s (s\<lparr>gc_receiving := n, gc_timed_out := Suc (gc_timed_out s)\<rparr>)"
| work: "gc_unsent s = 0 \<Longrightarrow> gc_holding s = Suc n \<Longrightarrow>
    gil_step s (s\<lparr>gc_holding := n, gc_finished := Suc (gc_finished s), gc_receiving := Suc (gc_receiving s)\<rparr>)"
| resume: "gc_unsent s = 0 \<Longrightarrow> gc_timed_out s = Suc n \<Longrightarrow>
    gil_step s (s\<lparr>gc_timed_out := n, gc_receiving := Suc (gc_receiving s)\<rparr>)"

text \<open>Items and workers are conserved, and nothing is done before everything is sent.\<close>

definition gil_inv :: "nat option \<Rightarrow> nat \<Rightarrow> nat \<Rightarrow> gil_call \<Rightarrow> bool" where
  "gil_inv cap m n s =
     (gc_capacity s = cap \<and> gc_unsent s + gc_queue s + gc_holding s + gc_finished s = n \<and>
      gc_holding s + gc_receiving s + gc_timed_out s = m \<and> (gc_unsent s = 0 \<or> gc_finished s = 0) \<and>
      (case cap of None \<Rightarrow> True | Some c \<Rightarrow> gc_queue s \<le> c \<and> (0 < gc_unsent s \<or> n \<le> c + m)))"

lemma gil_inv_step: "gil_step s s' \<Longrightarrow> gil_inv cap m n s \<Longrightarrow> gil_inv cap m n s'"
  by (induction rule: gil_step.induct) (auto simp: gil_inv_def gil_room_def split: option.splits)

lemma gil_inv_new: "0 < n \<Longrightarrow> gil_inv cap m n (gil_call_new cap m n)"
  by (simp add: gil_inv_def gil_call_new_def split: option.split)

interpretation gil: transitions gil_step "gil_inv cap m n" for cap m n
  by unfold_locales (rule gil_inv_step)

lemma all_time_out:
  "gc_receiving s = k \<Longrightarrow> gil_step\<^sup>*\<^sup>* s (s\<lparr>gc_receiving := 0, gc_timed_out := gc_timed_out s + k\<rparr>)"
proof (induction k arbitrary: s)
  case (Suc k)
  let ?s = "s\<lparr>gc_receiving := k, gc_timed_out := Suc (gc_timed_out s)\<rparr>"
  have "gil_step s ?s" using Suc.prems by (rule gil_step.timeout)
  with Suc.IH [of ?s] show ?case by (simp add: converse_rtranclp_into_rtranclp)
next
  case 0
  then have "s\<lparr>gc_receiving := 0, gc_timed_out := gc_timed_out s + 0\<rparr> = s" by simp
  then show ?case by simp
qed

lemma send_to_capacity:
  "gc_capacity s = Some c \<Longrightarrow> gc_queue s + k \<le> c \<Longrightarrow> k \<le> gc_unsent s \<Longrightarrow>
   gil_step\<^sup>*\<^sup>* s (s\<lparr>gc_unsent := gc_unsent s - k, gc_queue := gc_queue s + k\<rparr>)"
proof (induction k arbitrary: s)
  case (Suc k)
  then obtain u where u: "gc_unsent s = Suc u" by (cases "gc_unsent s") auto
  let ?s = "s\<lparr>gc_unsent := u, gc_queue := Suc (gc_queue s)\<rparr>"
  have "gil_step s ?s" by (rule gil_step.send) (use u Suc.prems in \<open>simp_all add: gil_room_def\<close>)
  moreover have "gil_step\<^sup>*\<^sup>* ?s (?s\<lparr>gc_unsent := gc_unsent ?s - k, gc_queue := gc_queue ?s + k\<rparr>)"
    by (rule Suc.IH) (use u Suc.prems in simp_all)
  ultimately show ?case by (simp add: u converse_rtranclp_into_rtranclp)
qed simp

lemma gil_stuck_small:
  assumes "gil_inv cap m n s" "0 < gc_unsent s" "\<And>s'. \<not> gil_step s s'"
  shows "case cap of None \<Rightarrow> False | Some c \<Rightarrow> c < n"
proof -
  have "\<not> gil_room s" using assms(2,3) by (metis gil_step.send gr0_implies_Suc)
  with assms(1,2) show ?thesis by (auto simp: gil_inv_def gil_room_def split: option.splits)
qed

lemma gil_stuck_reachable:
  assumes "c < n"
  obtains s where "gil_step\<^sup>*\<^sup>* (gil_call_new (Some c) m n) s" "0 < gc_unsent s" "\<And>s'. \<not> gil_step s s'"
proof -
  let ?i = "gil_call_new (Some c) m n"
  let ?t = "?i\<lparr>gc_receiving := 0, gc_timed_out := m\<rparr>"
  let ?s = "?t\<lparr>gc_unsent := n - c, gc_queue := c\<rparr>"
  have "gil_step\<^sup>*\<^sup>* ?i ?t" using all_time_out [of ?i m] by (simp add: gil_call_new_def)
  also have "gil_step\<^sup>*\<^sup>* ?t ?s" using send_to_capacity [of ?t c c] assms by (simp add: gil_call_new_def)
  finally have "gil_step\<^sup>*\<^sup>* ?i ?s" .
  moreover have "\<not> gil_step ?s s'" for s'
    using assms by (auto elim!: gil_step.cases simp: gil_call_new_def gil_room_def)
  ultimately show thesis using assms by (intro that [of ?s]) auto
qed

lemma gil_overfull:
  assumes "gil_inv (Some c) m n t" "c + m < n"
  shows "0 < gc_unsent t \<and> gc_finished t = 0"
  using assms by (auto simp: gil_inv_def)

text \<open>
  \<^bold>\<open>C22\<close> A bounded queue can deadlock a parallel call. A call with \<open>n\<close> items on an idle executor with \<open>m\<close> workers
  can come to a state in which nothing can move and items are still unsent exactly when the queue is
  bounded and smaller than \<open>n\<close>. With more items than the queue and the workers together can hold the
  deadlock is certain: in every state the call can reach items are unsent and none has been run.
\<close>

theorem bounded_queue_deadlock:
  assumes "0 < n"
  shows "(\<exists>s. gil_step\<^sup>*\<^sup>* (gil_call_new cap m n) s \<and> 0 < gc_unsent s \<and> (\<forall>s'. \<not> gil_step s s')) =
         (case cap of None \<Rightarrow> False | Some c \<Rightarrow> c < n) \<and>
         (\<forall>c t. cap = Some c \<and> c + m < n \<and> gil_step\<^sup>*\<^sup>* (gil_call_new cap m n) t \<longrightarrow>
            0 < gc_unsent t \<and> gc_finished t = 0)"
proof -
  note inv = gil.inv_steps [OF _ gil_inv_new [OF assms]]
  let ?stuck = "\<lambda>s. 0 < gc_unsent s \<and> (\<forall>s'. \<not> gil_step s s')"
  have "(\<exists>s. gil_step\<^sup>*\<^sup>* (gil_call_new cap m n) s \<and> ?stuck s) = (case cap of None \<Rightarrow> False | Some c \<Rightarrow> c < n)"
  proof
    assume "\<exists>s. gil_step\<^sup>*\<^sup>* (gil_call_new cap m n) s \<and> ?stuck s"
    then show "case cap of None \<Rightarrow> False | Some c \<Rightarrow> c < n"
      by (elim exE conjE) (rule gil_stuck_small [OF inv], auto)
  next
    assume "case cap of None \<Rightarrow> False | Some c \<Rightarrow> c < n"
    then obtain c where "cap = Some c" "c < n" by (cases cap) simp_all
    then show "\<exists>s. gil_step\<^sup>*\<^sup>* (gil_call_new cap m n) s \<and> ?stuck s"
      using gil_stuck_reachable [of c n m] by metis
  qed
  moreover have "0 < gc_unsent t \<and> gc_finished t = 0"
    if "cap = Some c" "c + m < n" "gil_step\<^sup>*\<^sup>* (gil_call_new cap m n) t" for c t
    using gil_overfull [of c m n t] inv [OF that(3)] that(1,2) by simp
  ultimately show ?thesis by blast
qed

theorem bounded_queue_deadlock_witness:
  "(\<exists>s. gil_step\<^sup>*\<^sup>* (gil_call_new (Some 1) 1 3) s \<and> 0 < gc_unsent s \<and> (\<forall>s'. \<not> gil_step s s')) \<and>
   0 < gc_unsent (gil_call_new (Some 1) 1 3)"
  using bounded_queue_deadlock [of 3 "Some 1" 1] by simp

subsection \<open>Chunked map through the queue\<close>

text \<open>
  A call of the callable on an item returns a value or raises, and \<open>R x r\<close> says that \<open>r\<close> is a possible
  outcome for the item \<open>x\<close>: nothing is assumed of its side effects. \<open>chunk_result\<close> gives the possible outcomes
  of the wrapper \<open>[fn(item) for item in items]\<close> of one chunk.
\<close>

inductive chunk_result :: "('x \<Rightarrow> 'y work_result \<Rightarrow> bool) \<Rightarrow> 'x list \<Rightarrow> 'y list work_result \<Rightarrow> bool" for R where
  chunk_end: "chunk_result R [] (Ok [])"
| chunk_raise: "R x (Err e) \<Longrightarrow> chunk_result R (x # xs) (Err e)"
| chunk_next: "R x (Ok y) \<Longrightarrow> chunk_result R xs r \<Longrightarrow>
    chunk_result R (x # xs) (map_sum (\<lambda>e. e) (Cons y) r)"

inductive_cases chunk_result_ConsE: "chunk_result R (x # xs) r"
inductive_cases chunk_result_NilE: "chunk_result R [] r"

text \<open>
  The state of one call of \<open>map\<close>: the numbered chunks not sent, in the queue and taken by workers, the
  outcomes with their chunk numbers, and the workers as in \<open>gil_call\<close>.
\<close>

record ('x, 'y) map_call =
  mc_capacity :: "nat option"
  mc_unsent :: "(nat \<times> 'x list) list"
  mc_queue :: "(nat \<times> 'x list) list"
  mc_holding :: "(nat \<times> 'x list) list"
  mc_outcomes :: "(nat \<times> 'y list work_result) list"
  mc_receiving :: nat
  mc_timed_out :: nat

definition map_call_new :: "nat option \<Rightarrow> nat \<Rightarrow> 'x list list \<Rightarrow> ('x, 'y) map_call" where
  "map_call_new cap m chs =
     \<lparr>mc_capacity = cap, mc_unsent = enumerate 0 chs, mc_queue = [], mc_holding = [], mc_outcomes = [],
      mc_receiving = m, mc_timed_out = 0\<rparr>"

text \<open>\<open>map\<close> returns at once (\<open>Inl\<close>) or starts a call through the queue (\<open>Inr\<close>).\<close>

definition executor_map ::
  "nat \<Rightarrow> nat option \<Rightarrow> bool \<Rightarrow> 'x list \<Rightarrow> nat \<Rightarrow> 'y list work_result + ('x, 'y) map_call" where
  "executor_map max_threads cap running items chunk_size =
     (if \<not> running then Inl (Err ''BlockingExecutor is shut down'')
      else if items = [] then Inl (Ok [])
      else Inr (map_call_new cap max_threads
                  (chunks (chunk_length max_threads chunk_size (length items)) items)))"

definition map_room :: "('x, 'y) map_call \<Rightarrow> bool" where
  "map_room s = (case mc_capacity s of None \<Rightarrow> True | Some c \<Rightarrow> length (mc_queue s) < c)"

inductive map_step :: "('x \<Rightarrow> 'y work_result \<Rightarrow> bool) \<Rightarrow> ('x, 'y) map_call \<Rightarrow> ('x, 'y) map_call \<Rightarrow> bool" for R where
  map_send: "mc_unsent s = c # cs \<Longrightarrow> map_room s \<Longrightarrow>
    map_step R s (s\<lparr>mc_unsent := cs, mc_queue := mc_queue s @ [c]\<rparr>)"
| map_receive: "mc_receiving s = Suc n \<Longrightarrow> mc_queue s = c # q \<Longrightarrow>
    map_step R s (s\<lparr>mc_receiving := n, mc_queue := q, mc_holding := mc_holding s @ [c]\<rparr>)"
| map_timeout: "mc_receiving s = Suc n \<Longrightarrow>
    map_step R s (s\<lparr>mc_receiving := n, mc_timed_out := Suc (mc_timed_out s)\<rparr>)"
| map_work: "mc_unsent s = [] \<Longrightarrow> mc_holding s = as @ (i, xs) # bs \<Longrightarrow> chunk_result R xs r \<Longrightarrow>
    map_step R s (s\<lparr>mc_holding := as @ bs, mc_outcomes := mc_outcomes s @ [(i, r)], mc_receiving := Suc (mc_receiving s)\<rparr>)"
| map_resume: "mc_unsent s = [] \<Longrightarrow> mc_timed_out s = Suc n \<Longrightarrow>
    map_step R s (s\<lparr>mc_timed_out := n, mc_receiving := Suc (mc_receiving s)\<rparr>)"

text \<open>When every chunk has its outcome, \<open>map\<close> sorts them by chunk number and flattens them.\<close>

definition map_returned :: "('x, 'y) map_call \<Rightarrow> 'y list work_result option" where
  "map_returned s =
     (if mc_unsent s = [] \<and> mc_queue s = [] \<and> mc_holding s = []
      then Some (collect (map snd (sort_key fst (mc_outcomes s)))) else None)"

lemma chunk_result_append:
  "chunk_result R xs r \<Longrightarrow> chunk_result R ys q \<Longrightarrow>
   chunk_result R (xs @ ys) (case r of Err e \<Rightarrow> Err e | Ok as \<Rightarrow> (case q of Err e \<Rightarrow> Err e | Ok bs \<Rightarrow> Ok (as @ bs)))"
proof (induction rule: chunk_result.induct)
  case (chunk_next x y xs r)
  from chunk_result.chunk_next [OF chunk_next.hyps(1) chunk_next.IH [OF chunk_next.prems]] show ?case
    by (cases r; cases q) simp_all
qed (auto intro: chunk_result.chunk_raise split: sum.split)

lemma collect_chunk_results: "list_all2 (chunk_result R) chs rs \<Longrightarrow> chunk_result R (concat chs) (collect rs)"
proof (induction rule: list_all2_induct)
  case (Cons c cs r rs)
  then show ?case
    using chunk_result_append [of R c r "concat cs" "collect rs"] by (cases r; cases "collect rs") simp_all
qed (simp add: chunk_result.chunk_end)

lemma chunk_result_total: "\<forall>x. \<exists>r. R x r \<Longrightarrow> \<exists>r. chunk_result R xs r"
proof (induction xs)
  case (Cons x xs)
  then obtain r q where "R x r" "chunk_result R xs q" by blast
  then show ?case by (cases r) (blast intro: chunk_result.chunk_raise chunk_result.chunk_next)+
qed (blast intro: chunk_result.chunk_end)

text \<open>For a callable that is a function, the outcome is that of applying it item by item.\<close>

lemma chunk_result_fun: "chunk_result (\<lambda>x r. r = f x) xs r \<longleftrightarrow> r = run_chunk f xs"
proof
  show "r = run_chunk f xs" if "chunk_result (\<lambda>x r. r = f x) xs r"
    using that by (induction rule: chunk_result.induct) (auto split: sum.splits)
  have "chunk_result (\<lambda>x r. r = f x) xs (run_chunk f xs)"
  proof (induction xs)
    case (Cons x xs)
    from chunk_result.chunk_next [of "\<lambda>x r. r = f x" x _ xs "run_chunk f xs"] Cons show ?case
      by (cases "f x"; cases "run_chunk f xs") (auto intro: chunk_result.chunk_raise)
  qed (simp add: chunk_result.chunk_end)
  then show "chunk_result (\<lambda>x r. r = f x) xs r" if "r = run_chunk f xs" using that by simp
qed

text \<open>Forgetting the contents of the chunks gives the call by counts, step for step.\<close>

definition counts :: "('x, 'y) map_call \<Rightarrow> gil_call" where
  "counts s =
     \<lparr>gc_capacity = mc_capacity s, gc_unsent = length (mc_unsent s), gc_queue = length (mc_queue s),
      gc_holding = length (mc_holding s), gc_finished = length (mc_outcomes s), gc_receiving = mc_receiving s,
      gc_timed_out = mc_timed_out s\<rparr>"

lemma counts_new [simp]: "counts (map_call_new cap m chs) = gil_call_new cap m (length chs)"
  by (simp add: counts_def map_call_new_def gil_call_new_def)

lemma gil_room_counts [simp]: "gil_room (counts s) = map_room s"
  by (cases "mc_capacity s") (simp_all add: gil_room_def map_room_def counts_def)

lemma map_step_counts: "map_step R s s' \<Longrightarrow> gil_step (counts s) (counts s')"
proof (induction rule: map_step.induct)
  case (map_send s c cs)
  then have "gil_step (counts s) ((counts s)\<lparr>gc_unsent := length cs, gc_queue := Suc (gc_queue (counts s))\<rparr>)"
    by (intro gil_step.send) (simp_all, simp add: counts_def)
  with map_send show ?case by (simp add: counts_def)
next
  case (map_receive s n c q)
  then show ?case using gil_step.receive [of "counts s" n "length q"] by (simp add: counts_def)
next
  case (map_timeout s n)
  then show ?case using gil_step.timeout [of "counts s" n] by (simp add: counts_def)
next
  case (map_work s as i xs bs r)
  then show ?case using gil_step.work [of "counts s" "length as + length bs"] by (simp add: counts_def)
next
  case (map_resume s n)
  then show ?case using gil_step.resume [of "counts s" n] by (simp add: counts_def)
qed

lemma map_steps_counts: "(map_step R)\<^sup>*\<^sup>* s s' \<Longrightarrow> gil_step\<^sup>*\<^sup>* (counts s) (counts s')"
  by (induction rule: rtranclp_induct) (auto intro: map_step_counts rtranclp.rtrancl_into_rtrancl)

lemma counts_map_step:
  assumes "gil_step (counts s) g" and total: "\<forall>x. \<exists>r. R x r"
  shows "\<exists>s'. map_step R s s' \<and> counts s' = g"
  using assms(1)
proof cases
  case (send n)
  then obtain c cs where "mc_unsent s = c # cs" "length cs = n" by (auto simp: counts_def length_Suc_conv)
  moreover have "map_room s" using send by simp
  ultimately show ?thesis using send
    by (intro exI [of _ "s\<lparr>mc_unsent := cs, mc_queue := mc_queue s @ [c]\<rparr>"])
      (auto simp: counts_def intro!: map_step.map_send)
next
  case (receive n q)
  then obtain c cs where "mc_queue s = c # cs" "length cs = q" by (auto simp: counts_def length_Suc_conv)
  with receive show ?thesis
    by (intro exI [of _ "s\<lparr>mc_receiving := n, mc_queue := cs, mc_holding := mc_holding s @ [c]\<rparr>"])
      (auto simp: counts_def intro!: map_step.map_receive)
next
  case (timeout n)
  then show ?thesis
    by (intro exI [of _ "s\<lparr>mc_receiving := n, mc_timed_out := Suc (mc_timed_out s)\<rparr>"])
      (auto simp: counts_def intro!: map_step.map_timeout)
next
  case (work n)
  then obtain i xs cs where h: "mc_holding s = [] @ (i, xs) # cs" "length cs = n"
    by (auto simp: counts_def length_Suc_conv)
  obtain r where r: "chunk_result R xs r" using chunk_result_total [OF total] by blast
  from map_step.map_work [OF _ h(1) r] work h(2) show ?thesis by (fastforce simp: counts_def)
next
  case (resume n)
  then show ?thesis
    by (intro exI [of _ "s\<lparr>mc_timed_out := n, mc_receiving := Suc (mc_receiving s)\<rparr>"])
      (auto simp: counts_def intro!: map_step.map_resume)
qed

lemma counts_map_steps:
  assumes "gil_step\<^sup>*\<^sup>* (counts s) g" "\<forall>x. \<exists>r. R x r"
  shows "\<exists>s'. (map_step R)\<^sup>*\<^sup>* s s' \<and> counts s' = g"
  using assms(1)
proof (induction rule: rtranclp_induct)
  case (step g g')
  then obtain s' where s': "(map_step R)\<^sup>*\<^sup>* s s'" "counts s' = g" by blast
  from counts_map_step [OF _ assms(2), of s' g'] step.hyps(2) s'(2)
  obtain s'' where "map_step R s' s''" "counts s'' = g'" by blast
  with s'(1) show ?case by (blast intro: rtranclp.rtrancl_into_rtrancl)
qed blast

text \<open>Every chunk is in one place, and an outcome belongs to the chunk of its number.\<close>

definition map_inv :: "('x \<Rightarrow> 'y work_result \<Rightarrow> bool) \<Rightarrow> 'x list list \<Rightarrow> ('x, 'y) map_call \<Rightarrow> bool" where
  "map_inv R chs s =
     (mset (map fst (mc_unsent s @ mc_queue s @ mc_holding s) @ map fst (mc_outcomes s)) = mset [0..<length chs] \<and>
      (\<forall>(i, xs) \<in> set (mc_unsent s @ mc_queue s @ mc_holding s). xs = chs ! i) \<and>
      (\<forall>(i, r) \<in> set (mc_outcomes s). chunk_result R (chs ! i) r))"

lemma map_inv_new: "map_inv R chs (map_call_new cap m chs)"
  by (auto simp: map_inv_def map_call_new_def in_set_enumerate_eq)

lemma map_inv_step: "map_step R s s' \<Longrightarrow> map_inv R chs s \<Longrightarrow> map_inv R chs s'"
  by (induction rule: map_step.induct) (auto simp: map_inv_def)

interpretation map_calls: transitions "map_step R" "map_inv R chs" for R chs
  by unfold_locales (rule map_inv_step)

lemma map_inv_returned:
  assumes "map_inv R chs s" "map_returned s = Some r"
  shows "chunk_result R (concat chs) r"
proof -
  let ?os = "sort_key fst (mc_outcomes s)"
  from assms(2) have e: "mc_unsent s = []" "mc_queue s = []" "mc_holding s = []" and r: "r = collect (map snd ?os)"
    by (auto simp: map_returned_def split: if_splits)
  have "mset (map fst ?os) = mset [0..<length chs]" using assms(1) e by (simp add: map_inv_def)
  then have fst: "map fst ?os = [0..<length chs]"
    by (metis properties_for_sort sorted_sort_key sorted_upt sorted_sort_id)
  then have len: "length ?os = length chs" by (metis length_map length_upt minus_nat.diff_0)
  have "chunk_result R (chs ! i) (snd (?os ! i))" if "i < length chs" for i
  proof -
    have "fst (?os ! i) = i" using fst that len by (metis add_0 nth_map nth_upt)
    moreover have "?os ! i \<in> set (mc_outcomes s)" using that len by (metis nth_mem set_sort)
    ultimately show ?thesis using assms(1) by (auto simp: map_inv_def)
  qed
  then have "list_all2 (chunk_result R) chs (map snd ?os)" 
    using len by (auto simp: list_all2_conv_all_nth)
  then show ?thesis unfolding r by (rule collect_chunk_results)
qed

text \<open>While nothing is stuck in the queue, a call can always be brought to its end.\<close>

lemma map_call_returns:
  assumes total: "\<forall>x. \<exists>r. R x r" and m: "0 < m"
    and room: "case cap of None \<Rightarrow> True | Some c \<Rightarrow> n \<le> c"
  shows "gil_inv cap m n (counts s) \<Longrightarrow> \<exists>s' r. (map_step R)\<^sup>*\<^sup>* s s' \<and> map_returned s' = Some r"
proof (induction "(3 * length (mc_unsent s) + 2 * length (mc_queue s) + length (mc_holding s)) * Suc m + mc_timed_out s"
    arbitrary: s rule: less_induct)
  case less
  let ?measure = "\<lambda>s. (3 * length (mc_unsent s) + 2 * length (mc_queue s) + length (mc_holding s)) * Suc m + mc_timed_out s"
  note inv = less.prems [unfolded gil_inv_def counts_def, simplified]
  have go: ?case if "map_step R s s'" "?measure s' < ?measure s" for s'
    using less.hyps [OF that(2)] gil_inv_step [OF map_step_counts [OF that(1)] less.prems] that(1)
    by (meson converse_rtranclp_into_rtranclp)
  consider c cs where "mc_unsent s = c # cs"
    | as i xs bs where "mc_unsent s = []" "mc_holding s = as @ (i, xs) # bs"
    | c q k where "mc_holding s = []" "mc_queue s = c # q" "mc_receiving s = Suc k"
    | k where "mc_unsent s = []" "mc_holding s = []" "mc_queue s \<noteq> []" "mc_timed_out s = Suc k"
    | "mc_unsent s = []" "mc_holding s = []" "mc_queue s = []"
    using inv m by (cases "mc_unsent s"; cases "mc_holding s"; cases "mc_queue s"; cases "mc_receiving s"; cases "mc_timed_out s") force+
  then show ?case
  proof cases
    case 1
    with inv room have "map_room s" by (auto simp: map_room_def split: option.splits)
    from map_step.map_send [OF 1 this] show ?thesis by (rule go) (simp add: 1 algebra_simps)
  next
    case 2
    obtain r where "chunk_result R xs r" using chunk_result_total [OF total] by blast
    from map_step.map_work [OF 2 this] show ?thesis by (rule go) (simp add: 2)
  next
    case 3
    from map_step.map_receive [OF 3(3,2), of R] show ?thesis by (rule go) (simp add: 3)
  next
    case 4
    from map_step.map_resume [OF 4(1,4), of R] show ?thesis by (rule go) (simp add: 4)
  next
    case 5
    then have "map_returned s = Some (collect (map snd (sort_key fst (mc_outcomes s))))" by (simp add: map_returned_def)
    then show ?thesis by blast
  qed
qed



end
