(* ===== verification/Pagination.thy ===== *)
theory Pagination
  imports Prelude
begin

text \<open>
  Pagination (\<open>src/utils/pagination.rs\<close>): page metadata on 64-bit integers with the wrap-around of
  the release build, \<open>clamp\<close> with its panic when the bounds are out of order (\<open>None\<close>), and cursors
  over the base64 engine, which is a parameter.
\<close>

record page_info =
  pg_total :: u64
  pg_page :: u64
  pg_per_page :: u64
  pg_total_pages :: u64
  pg_has_next :: bool
  pg_has_prev :: bool
  pg_offset :: u64
  pg_from_item :: u64
  pg_to_item :: u64

definition clamp :: "u64 \<Rightarrow> u64 \<Rightarrow> u64 \<Rightarrow> u64 option" where
  "clamp x lo hi = (if lo > hi then None else Some (if x < lo then lo else if x > hi then hi else x))"

definition paginate :: "u64 \<Rightarrow> u64 \<Rightarrow> u64 \<Rightarrow> page_info option" where
  "paginate total_items page0 per_page0 =
     (case clamp per_page0 1 10000 of
        None \<Rightarrow> None
      | Some per_page \<Rightarrow>
          (let total_pages = (if total_items = 0 then 1 else (total_items + per_page - 1) div per_page) in
           case clamp page0 1 total_pages of
             None \<Rightarrow> None
           | Some page \<Rightarrow>
               (let offset = (page - 1) * per_page;
                    (from_item, to_item) =
                      (if total_items = 0 then (0, 0) else (offset + 1, min (offset + per_page) total_items))
                in Some \<lparr>pg_total = total_items, pg_page = page, pg_per_page = per_page, pg_total_pages = total_pages,
                         pg_has_next = page < total_pages, pg_has_prev = page > 1, pg_offset = offset,
                         pg_from_item = from_item, pg_to_item = to_item\<rparr>)))"

definition be_digits :: "nat \<Rightarrow> nat \<Rightarrow> string" where
  "be_digits w n = map (\<lambda>i. char_of (n div 256 ^ (w - 1 - i) mod 256)) [0..<w]"

definition to_be_bytes :: "u64 \<Rightarrow> string" where
  "to_be_bytes n = be_digits 8 (unat n)"

definition from_be_bytes :: "string \<Rightarrow> u64" where
  "from_be_bytes bs = of_nat (foldl (\<lambda>n c. 256 * n + of_char c) 0 bs)"

record base64_engine =
  be_encode :: "string \<Rightarrow> string"
  be_decode :: "string \<Rightarrow> string option"

definition encode_cursor :: "base64_engine \<Rightarrow> u64 \<Rightarrow> string" where
  "encode_cursor eng offset = be_encode eng (to_be_bytes offset)"

definition decode_cursor :: "base64_engine \<Rightarrow> string \<Rightarrow> u64" where
  "decode_cursor eng cursor =
     (case be_decode eng cursor of
        Some b \<Rightarrow> if length b = 8 then from_be_bytes b else 0
      | None \<Rightarrow> 0)"

subsection \<open>Cursors\<close>

lemma be_digits_Suc: "be_digits (Suc w) n = be_digits w (n div 256) @ [char_of (n mod 256)]"
proof -
  have "n div 256 ^ (Suc w - 1 - i) = n div 256 div 256 ^ (w - 1 - i)" if "i < w" for i
  proof -
    have "Suc w - 1 - i = Suc (w - 1 - i)" using that by simp
    then show ?thesis by (simp add: div_mult2_eq)
  qed
  then show ?thesis by (simp add: be_digits_def cong: map_cong)
qed

lemma read_be_digits: "foldl (\<lambda>n c. 256 * n + of_char c) 0 (be_digits w n) = n mod 256 ^ w"
proof (induction w arbitrary: n)
  case (Suc w)
  then show ?case
    by (simp add: be_digits_Suc of_char_char_of_small mod_mult2_eq)
qed (simp add: be_digits_def)

lemma from_to_be_bytes: "from_be_bytes (to_be_bytes n) = n"
proof -
  have "unat n < 2 ^ LENGTH(64)" by (rule unsigned_less)
  then have "unat n mod 256 ^ 8 = unat n" by simp
  then show ?thesis by (simp add: from_be_bytes_def to_be_bytes_def read_be_digits)
qed

lemma length_to_be_bytes [simp]: "length (to_be_bytes n) = 8"
  by (simp add: to_be_bytes_def be_digits_def)

text \<open>A cursor decodes to the offset it was made from, as long as the engine decodes what it encodes.\<close>

interpretation be_bytes: codec to_be_bytes "\<lambda>b. Some (from_be_bytes b)" "\<lambda>_. True"
  by unfold_locales (simp add: from_to_be_bytes)

lemma cursor_roundtrip:
  "(\<And>b. be_decode eng (be_encode eng b) = Some b) \<Longrightarrow> decode_cursor eng (encode_cursor eng n) = n"
  by (simp add: decode_cursor_def encode_cursor_def from_to_be_bytes)

subsection \<open>Pages\<close>

lemma clamp_unat:
  "clamp x lo hi = Some y \<longleftrightarrow> unat lo \<le> unat hi \<and> unat y = max (unat lo) (min (unat x) (unat hi))"
  unfolding clamp_def word_less_nat_alt
  by (auto simp: min_def max_def not_less word_unat_eq_iff)

lemma page_count:
  fixes s :: nat
  assumes "0 < s"
  shows "p < (n + s - 1) div s \<longleftrightarrow> p * s < n"
proof -
  have "p < (n + s - 1) div s \<longleftrightarrow> Suc p * s \<le> n + s - 1"
    using assms by (simp add: Suc_le_eq [symmetric] less_eq_div_iff_mult_less_eq del: mult_Suc)
  also have "\<dots> \<longleftrightarrow> p * s < n" using assms by auto
  finally show ?thesis .
qed

lemma unat_no_wrap:
  "unat a + unat b < 2 ^ 64 \<Longrightarrow> unat (a + b :: u64) = unat a + unat b"
  "unat a * unat b < 2 ^ 64 \<Longrightarrow> unat (a * b :: u64) = unat a * unat b"
  "1 \<le> unat a \<Longrightarrow> unat (a - 1 :: u64) = unat a - 1"
  by (simp_all add: unat_word_ariths unat_sub word_le_nat_alt)

lemma unat_min: "unat (min a b :: u64) = min (unat a) (unat b)"
  by (simp add: min_def word_le_nat_alt)

subsection \<open>Pages as natural numbers\<close>

text \<open>The number of pages of size \<open>s\<close> for \<open>N\<close> items, and what a page number in range means.\<close>

definition pages_of :: "nat \<Rightarrow> nat \<Rightarrow> nat" where
  "pages_of N s = (if N = 0 then 1 else (N + s - 1) div s)"

lemma pages_of_pos: "1 \<le> s \<Longrightarrow> 1 \<le> pages_of N s"
  using page_count [of s 0 N] by (auto simp: pages_of_def)

lemma page_starts_before_end: "1 \<le> s \<Longrightarrow> 1 \<le> P \<Longrightarrow> P \<le> pages_of N s \<Longrightarrow> 0 < N \<Longrightarrow> (P - 1) * s < N"
  using page_count [of s "P - 1" N] by (auto simp: pages_of_def)

lemma last_page_iff: "1 \<le> s \<Longrightarrow> 1 \<le> P \<Longrightarrow> P < pages_of N s \<longleftrightarrow> P * s < N"
  using page_count [of s P N] by (auto simp: pages_of_def)

text \<open>The 64-bit computations of \<open>paginate\<close> on a page \<open>pa\<close> of size \<open>pp\<close> do not wrap around.\<close>

lemma total_pages_unat:
  fixes n pp :: u64
  assumes "unat n + 10000 < 2 ^ 64" "1 \<le> unat pp" "unat pp \<le> 10000"
  shows "unat (if n = 0 then 1 else (n + pp - 1) div pp) = pages_of (unat n) (unat pp)"
proof (cases "n = 0")
  case False
  have "unat (n + pp) = unat n + unat pp" using assms by (simp add: unat_no_wrap)
  then have "unat (n + pp - 1) = unat n + unat pp - 1" using assms(2) by (simp add: unat_no_wrap)
  moreover have "unat n \<noteq> 0" using False by (simp add: word_unat_eq_iff)
  ultimately show ?thesis using False by (simp add: pages_of_def unat_div)
qed (simp add: pages_of_def)

lemma page_offset_unat:
  fixes n pp pa :: u64
  assumes "unat n + 10000 < 2 ^ 64" "1 \<le> unat pp" "1 \<le> unat pa" "unat pa \<le> pages_of (unat n) (unat pp)"
  shows "unat ((pa - 1) * pp) = (unat pa - 1) * unat pp"
proof (cases "n = 0")
  case True
  then have "unat pa = 1" using assms(3,4) by (simp add: pages_of_def)
  then have "pa = 1" by (simp add: word_unat_eq_iff)
  then show ?thesis by simp
next
  case False
  then have "(unat pa - 1) * unat pp < unat n" by (intro page_starts_before_end assms) (simp add: unat_gt_0)
  moreover have "unat (pa - 1) = unat pa - 1" using assms(3) by (simp add: unat_no_wrap)
  ultimately show ?thesis using unat_no_wrap(2) [of "pa - 1" pp] assms(1) by simp
qed

lemma page_items_unat:
  fixes n pp pa :: u64
  assumes "unat n + 10000 < 2 ^ 64" "1 \<le> unat pp" "unat pp \<le> 10000" "1 \<le> unat pa" "unat pa \<le> pages_of (unat n) (unat pp)" "n \<noteq> 0"
  shows "unat ((pa - 1) * pp + 1) = (unat pa - 1) * unat pp + 1"
    "unat (min ((pa - 1) * pp + pp) n) = min (unat pa * unat pp) (unat n)"
    "(pa - 1) * pp + 1 \<le> min ((pa - 1) * pp + pp) n"
proof -
  note ofs = page_offset_unat [OF assms(1,2,4,5)]
  have before: "(unat pa - 1) * unat pp < unat n" by (intro page_starts_before_end assms) (use assms(6) in \<open>simp add: unat_gt_0\<close>)
  have ps: "(unat pa - 1) * unat pp + unat pp = unat pa * unat pp" using assms(4) by (simp add: algebra_simps)
  show a: "unat ((pa - 1) * pp + 1) = (unat pa - 1) * unat pp + 1" using before assms(1) ofs by (simp add: unat_no_wrap)
  have "unat ((pa - 1) * pp + pp) = (unat pa - 1) * unat pp + unat pp" using before assms(1,3) ofs by (simp add: unat_no_wrap)
  then show b: "unat (min ((pa - 1) * pp + pp) n) = min (unat pa * unat pp) (unat n)" unfolding ps by (simp add: unat_min)
  show "(pa - 1) * pp + 1 \<le> min ((pa - 1) * pp + pp) n"
    unfolding word_le_nat_alt a b using before assms(2) ps by simp
qed

text \<open>
  \<^bold>\<open>C37\<close> The page metadata is right for every total that leaves room for one page below \<open>2^64\<close>:
  nothing panics, the pages are as many as are needed, the page and its size are clamped, the
  items of the page start after the offset and end with the page or the total, and there is a next
  page exactly when items remain after this one.
\<close>

theorem paginate_correct:
  assumes "unat n + 10000 < 2 ^ 64"
  shows "\<exists>i. paginate n page per = Some i \<and>
    (let size = unat (pg_per_page i); no = unat (pg_page i) in
     size = max 1 (min (unat per) 10000) \<and>
     unat (pg_total_pages i) = (if n = 0 then 1 else (unat n + size - 1) div size) \<and>
     no = max 1 (min (unat page) (unat (pg_total_pages i))) \<and>
     unat (pg_offset i) = (no - 1) * size \<and>
     (if n = 0 then pg_from_item i = 0 \<and> pg_to_item i = 0
      else unat (pg_from_item i) = unat (pg_offset i) + 1 \<and> unat (pg_to_item i) = min (no * size) (unat n) \<and>
           pg_from_item i \<le> pg_to_item i) \<and>
     (pg_has_next i \<longleftrightarrow> no * size < unat n) \<and> (pg_has_prev i \<longleftrightarrow> 0 < unat (pg_offset i)))"
proof -
  obtain pp where pp: "clamp per 1 10000 = Some pp" by (simp add: clamp_def)
  define tp where "tp = (if n = 0 then 1 else (n + pp - 1) div pp)"
  let ?s = "unat pp" and ?N = "unat n"
  have s: "?s = max 1 (min (unat per) 10000)" using pp by (simp add: clamp_unat)
  then have s1: "1 \<le> ?s" "?s \<le> 10000" by simp_all
  have tp: "unat tp = pages_of ?N ?s" unfolding tp_def by (rule total_pages_unat [OF assms s1])
  obtain pa where pa: "clamp page 1 tp = Some pa"
    using pages_of_pos [OF s1(1), of ?N] tp by (auto simp: clamp_def word_less_nat_alt)
  have P: "unat pa = max 1 (min (unat page) (unat tp))" using pa by (simp add: clamp_unat)
  then have P1: "1 \<le> unat pa" "unat pa \<le> pages_of ?N ?s" using tp pages_of_pos [OF s1(1), of ?N] by simp_all
  note ofs = page_offset_unat [OF assms s1(1) P1] and items = page_items_unat [OF assms s1 P1]
  let ?r = "if n = 0 then (0, 0) else ((pa - 1) * pp + 1, min ((pa - 1) * pp + pp) n)"
  let ?i = "\<lparr>pg_total = n, pg_page = pa, pg_per_page = pp, pg_total_pages = tp, pg_has_next = pa < tp,
    pg_has_prev = pa > 1, pg_offset = (pa - 1) * pp, pg_from_item = fst ?r, pg_to_item = snd ?r\<rparr>"
  have res: "paginate n page per = Some ?i"
    by (simp add: paginate_def pp Let_def tp_def [symmetric] pa)
  have nxt: "pa < tp \<longleftrightarrow> unat pa * ?s < ?N" using last_page_iff [OF s1(1) P1(1)] by (simp add: word_less_nat_alt tp)
  have prv: "1 < pa \<longleftrightarrow> 0 < (unat pa - 1) * ?s" using s1 by (auto simp: word_less_nat_alt)
  have total: "unat tp = (if n = 0 then 1 else (?N + ?s - 1) div ?s)" by (simp add: tp pages_of_def word_unat_eq_iff [of n 0])
  have items': "if n = 0 then fst ?r = 0 \<and> snd ?r = 0
    else unat (fst ?r) = unat ((pa - 1) * pp) + 1 \<and> unat (snd ?r) = min (unat pa * ?s) ?N \<and> fst ?r \<le> snd ?r"
  proof (cases "n = 0")
    case False
    with items show ?thesis unfolding ofs by (simp only: if_False fst_conv snd_conv simp_thms)
  qed simp
  show ?thesis
    unfolding Let_def
    by (rule exI [of _ ?i]) (intro conjI res; unfold page_info.select_convs; fact s total P ofs items' nxt prv [folded ofs])
qed

theorem paginate_correct_witness:
  "\<exists>i. paginate 95 2 10 = Some i \<and> unat (pg_total_pages i) = 10 \<and> unat (pg_offset i) = 10 \<and>
       unat (pg_from_item i) = 11 \<and> unat (pg_to_item i) = 20 \<and> pg_has_next i"
  using paginate_correct [of 95 2 10] by (auto simp: Let_def)

text \<open>A total within one page of \<open>2^64\<close> wraps to no pages, and \<open>clamp(1, 0)\<close> panics.\<close>

lemma paginate_wraps: "paginate (- 1) 1 20 = None"
  by code_simp

end
