(* ===== verification/Crypto_Utils.thy ===== *)
theory Crypto_Utils
  imports Pagination Hex
begin

text \<open>
  Crypto helpers (\<open>src/utils/crypto.rs\<close>): token alphabet, hexadecimal digests, the constant-time
  comparison on bytes, and signing and verifying JSON web tokens. Hashes, the random generator,
  base64 and the signature schemes are parameters; the two token formats differ only in their header
  and scheme, so RS256 and ES256 are one definition with the scheme as an argument.
\<close>

unbundle bit_operations_syntax

definition TOKEN_ALPHABET :: string where
  "TOKEN_ALPHABET = ''ABCDEFGHIJKLMNOPQRSTUVWXYZabcdefghijklmnopqrstuvwxyz0123456789-_''"

text \<open>\<open>rnd k\<close> is the \<open>k\<close>-th draw of \<open>random_range(0..64)\<close>.\<close>

definition random_token :: "(nat \<Rightarrow> nat) \<Rightarrow> nat \<Rightarrow> string" where
  "random_token rnd len = map (\<lambda>k. TOKEN_ALPHABET ! rnd k) [0..<len]"

definition hex_encode :: "string \<Rightarrow> string" where
  "hex_encode bytes = concat (map (\<lambda>b. hex_digits 2 (of_char b)) bytes)"

definition hmac_sha256_hex :: "(string \<Rightarrow> string \<Rightarrow> string) \<Rightarrow> string \<Rightarrow> string \<Rightarrow> string" where
  "hmac_sha256_hex hmac key data = hex_encode (hmac key data)"

definition sha256_hex :: "(string \<Rightarrow> string) \<Rightarrow> string \<Rightarrow> string" where
  "sha256_hex sha256 data = hex_encode (sha256 data)"

text \<open>
  The wrappers around a crate: the generator that fills a buffer, the keyed hash on raw bytes, the two
  base64 alphabets, the two kinds of UUID (\<open>uuid_v7\<close> reads the clock) and the 64-bit hash, which sees a
  string as its bytes.
\<close>

definition random_bytes :: "(string \<Rightarrow> string) \<Rightarrow> nat \<Rightarrow> string" where
  "random_bytes fill_bytes n = fill_bytes (replicate n (CHR 0x00))"

definition hmac_sha256_bytes :: "(string \<Rightarrow> string \<Rightarrow> string) \<Rightarrow> string \<Rightarrow> string \<Rightarrow> string" where
  "hmac_sha256_bytes hmac key data = hmac key data"

definition py_b64_encode :: "base64_engine \<Rightarrow> string \<Rightarrow> string" where
  "py_b64_encode standard data = be_encode standard data"

definition py_b64_decode :: "base64_engine \<Rightarrow> string \<Rightarrow> string option" where
  "py_b64_decode standard data = be_decode standard data"

definition py_b64url_encode :: "base64_engine \<Rightarrow> string \<Rightarrow> string" where
  "py_b64url_encode url_safe_no_pad data = be_encode url_safe_no_pad data"

definition py_b64url_decode :: "base64_engine \<Rightarrow> string \<Rightarrow> string option" where
  "py_b64url_decode url_safe_no_pad data = be_decode url_safe_no_pad data"

definition uuid_v4 :: "('u \<Rightarrow> string) \<Rightarrow> 'u \<Rightarrow> string" where
  "uuid_v4 to_string new_v4 = to_string new_v4"

definition uuid_v7 :: "('u \<Rightarrow> string) \<Rightarrow> ('t \<Rightarrow> 'u) \<Rightarrow> 't \<Rightarrow> string" where
  "uuid_v7 to_string now_v7 clock = to_string (now_v7 clock)"

definition fast_hash_bytes :: "(string \<Rightarrow> u64) \<Rightarrow> string \<Rightarrow> u64" where
  "fast_hash_bytes xxh3_64 data = xxh3_64 data"

definition fast_hash :: "(string \<Rightarrow> u64) \<Rightarrow> string \<Rightarrow> u64" where
  "fast_hash xxh3_64 data = xxh3_64 data"

definition secure_compare :: "u8 list \<Rightarrow> u8 list \<Rightarrow> bool" where
  "secure_compare a b =
     (if length a \<noteq> length b then False
      else fold (\<lambda>(x, y) acc. acc OR (x XOR y)) (zip a b) 0 = 0)"

subsection \<open>JSON web tokens\<close>

text \<open>A signature scheme: keys from PEM text, signatures from bytes, signing and verifying.\<close>

record ('k, 'v) jwt_scheme =
  js_header :: string
  js_private_key :: "string \<Rightarrow> string + 'k"
  js_public_key :: "string \<Rightarrow> string + 'v"
  js_sign :: "'k \<Rightarrow> string \<Rightarrow> string"
  js_signature_ok :: "string \<Rightarrow> string option"
  js_verify :: "'v \<Rightarrow> string \<Rightarrow> string \<Rightarrow> bool"

text \<open>One error per \<open>map_err\<close>; the text of the underlying error is kept where a parameter provides it.\<close>

datatype jwt_error =
  InvalidFormat | InvalidPem | InvalidPrivateKey string | InvalidPublicKey string | InvalidSignatureEncoding
  | InvalidSignature | VerificationFailed | InvalidPayloadEncoding | InvalidPayloadUtf8

definition rs256_header :: string where
  "rs256_header = ''{'' @ [CHR 0x22] @ ''alg'' @ [CHR 0x22] @ '':'' @ [CHR 0x22] @ ''RS256'' @ [CHR 0x22] @ '','' @
     [CHR 0x22] @ ''typ'' @ [CHR 0x22] @ '':'' @ [CHR 0x22] @ ''JWT'' @ [CHR 0x22] @ ''}''"

definition es256_header :: string where
  "es256_header = ''{'' @ [CHR 0x22] @ ''alg'' @ [CHR 0x22] @ '':'' @ [CHR 0x22] @ ''ES256'' @ [CHR 0x22] @ '','' @
     [CHR 0x22] @ ''typ'' @ [CHR 0x22] @ '':'' @ [CHR 0x22] @ ''JWT'' @ [CHR 0x22] @ ''}''"

definition jwt_sign :: "base64_engine \<Rightarrow> ('k, 'v) jwt_scheme \<Rightarrow> string \<Rightarrow> string \<Rightarrow> jwt_error + string" where
  "jwt_sign eng js payload_json pem_key =
     (let signing_input = be_encode eng (js_header js) @ ''.'' @ be_encode eng payload_json in
      if \<not> utf8_valid pem_key then Err InvalidPem
      else case js_private_key js pem_key of
             Err e \<Rightarrow> Err (InvalidPrivateKey e)
           | Ok k \<Rightarrow> Ok (signing_input @ ''.'' @ be_encode eng (js_sign js k signing_input)))"

text \<open>\<open>splitn(3, '.')\<close>: three parts, the last with whatever dots remain.\<close>

definition splitn3 :: "string \<Rightarrow> (string \<times> string \<times> string) option" where
  "splitn3 s =
     (case split_once (CHR ''.'') s of
        None \<Rightarrow> None
      | Some (a, r) \<Rightarrow> (case split_once (CHR ''.'') r of None \<Rightarrow> None | Some (b, c) \<Rightarrow> Some (a, b, c)))"

definition jwt_verify :: "base64_engine \<Rightarrow> ('k, 'v) jwt_scheme \<Rightarrow> string \<Rightarrow> string \<Rightarrow> jwt_error + string" where
  "jwt_verify eng js token pem_key =
     (case splitn3 token of
        None \<Rightarrow> Err InvalidFormat
      | Some (h, b, s) \<Rightarrow>
          (let signing_input = h @ ''.'' @ b in
           if \<not> utf8_valid pem_key then Err InvalidPem
           else case js_public_key js pem_key of
             Err e \<Rightarrow> Err (InvalidPublicKey e)
           | Ok vk \<Rightarrow>
               (case be_decode eng s of
                  None \<Rightarrow> Err InvalidSignatureEncoding
                | Some sig_bytes \<Rightarrow>
                    (case js_signature_ok js sig_bytes of
                       None \<Rightarrow> Err InvalidSignature
                     | Some sig \<Rightarrow>
                         if \<not> js_verify js vk signing_input sig then Err VerificationFailed
                         else case be_decode eng b of
                                None \<Rightarrow> Err InvalidPayloadEncoding
                              | Some payload \<Rightarrow>
                                  if utf8_valid payload then Ok payload else Err InvalidPayloadUtf8))))"

subsection \<open>Constant-time comparison\<close>

lemma xor_eq_0: "(x XOR y = 0) = (x = (y :: u8))"
  by (metis bit.xor_self xor.assoc xor.right_neutral)

lemma or_eq_0: "(x OR y = 0) = (x = 0 \<and> y = (0 :: u8))"
  by (metis bit.conj_disj_distrib bit.conj_zero_right or.left_neutral or_eq_0_iff)

lemma secure_fold: "length a = length b \<Longrightarrow> fold (\<lambda>(x, y) acc. acc OR (x XOR y)) (zip a b) acc = 0 \<longleftrightarrow> acc = 0 \<and> a = b"
  for acc :: u8
  by (induction a b arbitrary: acc rule: list_induct2) (auto simp: or_eq_0 xor_eq_0)

text \<open>
  The constant-time comparison decides equality: it accumulates the differences of all bytes
  without leaving the loop early and answers \<open>True\<close> exactly for equal byte strings.
\<close>

theorem secure_compare_iff: "secure_compare a b \<longleftrightarrow> a = b"
  by (auto simp: secure_compare_def secure_fold)

lemma length_hex_encode: "length (hex_encode s) = 2 * length s"
  by (induction s) (auto simp: hex_encode_def)

lemma random_token_safe:
  assumes "\<And>k. rnd k < length TOKEN_ALPHABET"
  shows "set (random_token rnd n) \<subseteq> set TOKEN_ALPHABET" "length (random_token rnd n) = n"
  using assms by (auto simp: random_token_def intro: nth_mem)

subsection \<open>Tokens verify\<close>

text \<open>What the parameters promise: base64url inverts itself and has no dots, signatures verify.\<close>

definition engine_law :: "base64_engine \<Rightarrow> bool" where
  "engine_law eng = (\<forall>s. be_decode eng (be_encode eng s) = Some s \<and> CHR ''.'' \<notin> set (be_encode eng s))"

definition scheme_law :: "('k, 'v) jwt_scheme \<Rightarrow> 'k \<Rightarrow> 'v \<Rightarrow> bool" where
  "scheme_law js k vk =
     (\<forall>m. \<exists>sig. js_signature_ok js (js_sign js k m) = Some sig \<and> js_verify js vk m sig)"

lemma splitn3_join: "CHR ''.'' \<notin> set a \<Longrightarrow> CHR ''.'' \<notin> set b \<Longrightarrow> splitn3 (a @ ''.'' @ b @ ''.'' @ c) = Some (a, b, c)"
  by (simp add: splitn3_def split_once_Some [THEN iffD2])

text \<open>
  A token signed with a private key verifies under the matching public key and yields the
  payload it was made from, for both signature schemes.
\<close>

theorem jwt_roundtrip:
  assumes "engine_law eng" "scheme_law js k vk" "utf8_valid payload"
    and "utf8_valid sk_pem" "js_private_key js sk_pem = Ok k" "utf8_valid pk_pem" "js_public_key js pk_pem = Ok vk"
  shows "\<exists>token. jwt_sign eng js payload sk_pem = Ok token \<and> jwt_verify eng js token pk_pem = Ok payload"
proof -
  let ?h = "be_encode eng (js_header js)" and ?b = "be_encode eng payload"
  let ?si = "?h @ ''.'' @ ?b"
  let ?s = "be_encode eng (js_sign js k ?si)"
  have sp: "splitn3 (?si @ ''.'' @ ?s) = Some (?h, ?b, ?s)"
    using assms(1) splitn3_join [of ?h ?b ?s] by (simp add: engine_law_def)
  obtain sig where "js_signature_ok js (js_sign js k ?si) = Some sig" "js_verify js vk ?si sig"
    using assms(2) unfolding scheme_law_def by blast
  then have "jwt_verify eng js (?si @ ''.'' @ ?s) pk_pem = Ok payload"
    using assms(1,3,6,7) unfolding jwt_verify_def sp by (simp add: engine_law_def Let_def)
  then show ?thesis using assms(4,5) by (simp add: jwt_sign_def Let_def)
qed

text \<open>Hexadecimal as an encoding without dots, and a scheme whose signature is the message itself.\<close>

fun unhex :: "string \<Rightarrow> string" where
  "unhex (a # b # s) = char_of (16 * digit_value a + digit_value b) # unhex s"
| "unhex _ = []"

definition hex_engine :: base64_engine where
  "hex_engine = \<lparr>be_encode = hex_encode, be_decode = (\<lambda>s. Some (unhex s))\<rparr>"

definition echo_scheme :: "(unit, unit) jwt_scheme" where
  "echo_scheme =
     \<lparr>js_header = rs256_header, js_private_key = (\<lambda>_. Ok ()), js_public_key = (\<lambda>_. Ok ()), js_sign = (\<lambda>_ m. m),
      js_signature_ok = Some, js_verify = (\<lambda>_ m s. m = s)\<rparr>"

lemma digit_char_no_dot: "n < 16 \<Longrightarrow> digit_char n \<noteq> CHR ''.''"
proof
  assume n: "n < 16" and eq: "digit_char n = CHR ''.''"
  have "of_char (CHR ''.'') = (46 :: nat)" by simp
  moreover have "48 \<le> (of_char (digit_char n) :: nat)" using n by (simp add: digit_char_def of_char_char_of_small)
  ultimately show False by (simp add: eq)
qed

lemma hex_engine_law: "engine_law hex_engine"
proof -
  have d: "hex_digits 2 n = [digit_char (n div 16 mod 16), digit_char (n mod 16)]" for n
    by (simp add: hex_digits_def numeral_2_eq_2)
  have "unhex (hex_encode s) = s" for s
  proof (induction s)
    case (Cons c s)
    have "16 * (of_char c div 16 mod 16) + of_char c mod 16 = (of_char c :: nat)"
      using of_char_lt_256 [of c] by (simp add: less_mult_imp_div_less)
    with Cons show ?case by (simp add: hex_encode_def d)
  qed (simp add: hex_encode_def)
  moreover have "CHR ''.'' \<noteq> digit_char (n mod 16)" for n
    using digit_char_no_dot [of "n mod 16"] by auto
  then have "CHR ''.'' \<notin> set (hex_encode s)" for s
    by (induction s) (simp_all add: hex_encode_def d)
  ultimately show ?thesis by (simp add: engine_law_def hex_engine_def)
qed

theorem jwt_roundtrip_witness:
  "\<exists>token. jwt_sign hex_engine echo_scheme ''claims'' ''sk'' = Ok token \<and>
     jwt_verify hex_engine echo_scheme token ''pk'' = Ok ''claims''"
  by (rule jwt_roundtrip [OF hex_engine_law])
    (simp_all add: scheme_law_def echo_scheme_def)

end
