(* ===== verification/Logging.thy ===== *)
theory Logging
  imports Prelude
begin

text \<open>
  The logging system (\<open>src/logging/mod.rs\<close>): levels with their order, entries and their terminal
  format, the configuration, and the global queue between the callers and the consumer thread, which
  is started again by \<open>init\<close> and flushed by \<open>shutdown\<close>. Clock readings are arguments; chrono's date
  format and the printing of floating-point numbers are parameters. The bounded channel has at
  least one place (a rendezvous channel of size 0 is outside the model).
\<close>

subsection \<open>Levels\<close>

datatype log_level = Trace | Debug | Info | Warn | LogError | Off

fun level_rank :: "log_level \<Rightarrow> nat" where
  "level_rank Trace = 0"
| "level_rank Debug = 1"
| "level_rank Info = 2"
| "level_rank Warn = 3"
| "level_rank LogError = 4"
| "level_rank Off = 5"

lemma level_rank_inject [simp]: "level_rank a = level_rank b \<longleftrightarrow> a = b"
  by (cases a; cases b) simp_all

text \<open>The derived \<open>Ord\<close> compares the discriminants.\<close>

instantiation log_level :: linorder
begin

definition less_eq_log_level :: "log_level \<Rightarrow> log_level \<Rightarrow> bool" where
  "less_eq_log_level a b = (level_rank a \<le> level_rank b)"

definition less_log_level :: "log_level \<Rightarrow> log_level \<Rightarrow> bool" where
  "less_log_level a b = (level_rank a < level_rank b)"

instance
  by standard (auto simp: less_eq_log_level_def less_log_level_def)

end

lemma level_le_Off [simp]: "(l :: log_level) \<le> Off"
  by (cases l) (simp_all add: less_eq_log_level_def)

lemma Trace_level_le [simp]: "Trace \<le> (l :: log_level)"
  by (simp add: less_eq_log_level_def)

fun level_str :: "log_level \<Rightarrow> string" where
  "level_str Trace = ''TRACE''"
| "level_str Debug = ''DEBUG''"
| "level_str Info = ''INFO''"
| "level_str Warn = ''WARN''"
| "level_str LogError = ''ERROR''"
| "level_str Off = ''OFF''"

definition level_from_str :: "string \<Rightarrow> log_level" where
  "level_from_str s =
     (let l = to_lower s in
      if l = ''trace'' then Trace
      else if l = ''debug'' then Debug
      else if l = ''info'' then Info
      else if l \<in> {''warn'', ''warning''} then Warn
      else if l = ''error'' then LogError
      else if l \<in> {''off'', ''none'', ''disabled''} then Off
      else Info)"

definition ansi :: "string \<Rightarrow> string" where
  "ansi code = [CHR 0x1B] @ ''['' @ code @ ''m''"

fun color_code :: "log_level \<Rightarrow> string" where
  "color_code Trace = ansi ''90''"
| "color_code Debug = ansi ''36''"
| "color_code Info = ansi ''32''"
| "color_code Warn = ansi ''33''"
| "color_code LogError = ansi ''31''"
| "color_code Off = []"

lemma level_roundtrip: "level_from_str (level_str l) = l"
  by (cases l) (simp_all add: level_from_str_def str_simps)

interpretation level_name: codec level_str "\<lambda>s. Some (level_from_str s)" "\<lambda>_. True"
  by unfold_locales (simp add: level_roundtrip)

subsection \<open>Entries\<close>

record log_entry =
  le_timestamp :: real
  le_level :: log_level
  le_message :: string
  le_target :: "string option"
  le_request_id :: "string option"
  le_method :: "string option"
  le_path :: "string option"
  le_status :: "u16 option"
  le_duration_ms :: "real option"
  le_worker_id :: "nat option"

definition entry_new :: "real \<Rightarrow> log_level \<Rightarrow> string \<Rightarrow> log_entry" where
  "entry_new now level message =
     \<lparr>le_timestamp = now, le_level = level, le_message = message, le_target = None, le_request_id = None,
      le_method = None, le_path = None, le_status = None, le_duration_ms = None, le_worker_id = None\<rparr>"

definition with_target :: "string \<Rightarrow> log_entry \<Rightarrow> log_entry" where
  "with_target t e = e\<lparr>le_target := Some t\<rparr>"

definition with_worker :: "nat \<Rightarrow> log_entry \<Rightarrow> log_entry" where
  "with_worker w e = e\<lparr>le_worker_id := Some w\<rparr>"

definition request_entry :: "real \<Rightarrow> string \<Rightarrow> string \<Rightarrow> string option \<Rightarrow> log_entry" where
  "request_entry now meth path rid =
     \<lparr>le_timestamp = now, le_level = Info, le_message = [], le_target = Some ''request'', le_request_id = rid,
      le_method = Some meth, le_path = Some path, le_status = None, le_duration_ms = None, le_worker_id = None\<rparr>"

definition response_entry :: "real \<Rightarrow> string \<Rightarrow> string \<Rightarrow> u16 \<Rightarrow> real \<Rightarrow> string option \<Rightarrow> log_entry" where
  "response_entry now meth path status dur rid =
     \<lparr>le_timestamp = now, le_level = Info, le_message = [], le_target = Some ''response'', le_request_id = rid,
      le_method = Some meth, le_path = Some path, le_status = Some status, le_duration_ms = Some dur,
      le_worker_id = None\<rparr>"

text \<open>The date format of chrono and the two-decimals format \<open>{:.2}\<close>.\<close>

record log_format =
  lf_timestamp :: "real \<Rightarrow> string"
  lf_fixed2 :: "real \<Rightarrow> string"

definition pad_right5 :: "string \<Rightarrow> string" where
  "pad_right5 s = s @ replicate (5 - length s) (CHR '' '')"

definition status_color :: "nat \<Rightarrow> string" where
  "status_color s =
     (if 200 \<le> s \<and> s \<le> 299 then ansi ''32''
      else if 300 \<le> s \<and> s \<le> 399 then ansi ''36''
      else if 400 \<le> s \<and> s \<le> 499 then ansi ''33''
      else if 500 \<le> s \<and> s \<le> 599 then ansi ''31''
      else ansi ''37'')"

definition or_default :: "'a \<Rightarrow> 'a option \<Rightarrow> 'a" where
  "or_default d x = (case x of None \<Rightarrow> d | Some v \<Rightarrow> v)"

definition format_colored :: "log_format \<Rightarrow> log_entry \<Rightarrow> string" where
  "format_colored lf e =
     (let reset = ansi ''0'';
          dim = ansi ''2'';
          color = color_code (le_level e);
          ts = lf_timestamp lf (le_timestamp e);
          head = dim @ ts @ reset @ '' '' @ color @ pad_right5 (level_str (le_level e)) @ reset;
          meth = or_default ''?'' (le_method e);
          path = or_default ''?'' (le_path e);
          rid = or_default ''-'' (le_request_id e)
      in if le_target e = Some ''request'' then
           head @ '' '' @ ansi ''35'' @ ''-->'' @ reset @ '' '' @ meth @ '' '' @ path @ '' '' @ dim @ ''['' @ rid @ '']'' @ reset
         else if le_target e = Some ''response'' then
           (let status = unat (or_default 0 (le_status e)); dur = or_default 0 (le_duration_ms e)
            in head @ '' '' @ ansi ''35'' @ ''<--'' @ reset @ '' '' @ meth @ '' '' @ path @ '' '' @
               status_color status @ show_nat status @ reset @ '' '' @ dim @ lf_fixed2 lf dur @ ''ms'' @ reset @ '' '' @
               dim @ ''['' @ rid @ '']'' @ reset)
         else
           (let worker = (case le_worker_id e of None \<Rightarrow> [] | Some w \<Rightarrow> '' '' @ dim @ ''[worker-'' @ show_nat w @ '']'' @ reset);
                target = (case le_target e of None \<Rightarrow> [] | Some t \<Rightarrow> '' '' @ dim @ t @ reset)
            in head @ target @ worker @ '' '' @ le_message e))"

subsection \<open>Configuration\<close>

record log_config =
  lg_level :: log_level
  lg_log_request :: bool
  lg_log_response :: bool
  lg_queue_size :: nat
  lg_skip_paths :: "string list"

definition log_config_default :: log_config where
  "log_config_default =
     \<lparr>lg_level = Info, lg_log_request = True, lg_log_response = True, lg_queue_size = 10000,
      lg_skip_paths = [''/_health'', ''/_health/live'', ''/_health/ready'', ''/_health/startup'', ''/favicon.ico'']\<rparr>"

definition should_skip_path :: "log_config \<Rightarrow> string \<Rightarrow> bool" where
  "should_skip_path cfg path = list_ex (\<lambda>p. starts_with path p) (lg_skip_paths cfg)"

definition py_log_config :: "string \<Rightarrow> bool \<Rightarrow> bool \<Rightarrow> nat \<Rightarrow> string list option \<Rightarrow> log_config" where
  "py_log_config level log_request log_response queue_size skip_paths =
     (let config = log_config_default\<lparr>lg_level := level_from_str level, lg_log_request := log_request,
                     lg_log_response := log_response, lg_queue_size := queue_size\<rparr>
      in case skip_paths of None \<Rightarrow> config | Some ps \<Rightarrow> config\<lparr>lg_skip_paths := ps\<rparr>)"

definition log_disabled :: log_config where
  "log_disabled = \<lparr>lg_level = Off, lg_log_request = False, lg_log_response = False, lg_queue_size = 1, lg_skip_paths = []\<rparr>"

definition errors_only :: log_config where
  "errors_only = log_config_default\<lparr>lg_level := LogError, lg_log_request := False, lg_log_response := False\<rparr>"

definition verbose :: log_config where
  "verbose = log_config_default\<lparr>lg_level := Debug, lg_log_request := True, lg_log_response := True\<rparr>"

subsection \<open>The queue and its consumers\<close>

text \<open>
  A channel with its configuration. The system holds the current channel, the channels that were
  shut down and whose consumer has not finished, and the lines on standard error.
\<close>

record log_channel =
  lc_queue :: "log_entry list"
  lc_capacity :: nat
  lc_config :: log_config
  lc_running :: bool

record log_system =
  ly_current :: "log_channel option"
  ly_closing :: "log_channel list"
  ly_stderr :: "string list"

definition log_shutdown :: "log_system \<Rightarrow> log_system" where
  "log_shutdown ly =
     (case ly_current ly of
        None \<Rightarrow> ly
      | Some ch \<Rightarrow> ly\<lparr>ly_current := None, ly_closing := ly_closing ly @ [ch\<lparr>lc_running := False\<rparr>]\<rparr>)"

definition log_init :: "log_config \<Rightarrow> log_system \<Rightarrow> log_system" where
  "log_init cfg ly =
     (log_shutdown ly)\<lparr>ly_current :=
        Some \<lparr>lc_queue = [], lc_capacity = lg_queue_size cfg, lc_config = cfg, lc_running = True\<rparr>\<rparr>"

definition update_config :: "log_config \<Rightarrow> log_system \<Rightarrow> log_system" where
  "update_config cfg ly = ly\<lparr>ly_current := map_option (\<lambda>ch. ch\<lparr>lc_config := cfg\<rparr>) (ly_current ly)\<rparr>"

definition current_config :: "log_system \<Rightarrow> log_config option" where
  "current_config ly = map_option lc_config (ly_current ly)"

definition reinit_after_fork :: "log_system \<Rightarrow> log_system" where
  "reinit_after_fork ly =
     (case current_config ly of
        None \<Rightarrow> ly
      | Some cfg \<Rightarrow> log_init cfg (ly\<lparr>ly_current := None\<rparr>))"

definition try_send :: "log_entry \<Rightarrow> log_channel \<Rightarrow> log_channel" where
  "try_send e ch = (if length (lc_queue ch) < lc_capacity ch then ch\<lparr>lc_queue := lc_queue ch @ [e]\<rparr> else ch)"

definition send_entry :: "log_entry \<Rightarrow> log_system \<Rightarrow> log_system" where
  "send_entry e ly =
     (case ly_current ly of
        None \<Rightarrow> ly
      | Some ch \<Rightarrow> if le_level e < lg_level (lc_config ch) then ly else ly\<lparr>ly_current := Some (try_send e ch)\<rparr>)"

definition log_message :: "real \<Rightarrow> log_level \<Rightarrow> string \<Rightarrow> log_system \<Rightarrow> log_system" where
  "log_message now level message ly = send_entry (entry_new now level message) ly"

definition log_request :: "real \<Rightarrow> string \<Rightarrow> string \<Rightarrow> string option \<Rightarrow> log_system \<Rightarrow> log_system" where
  "log_request now meth path rid ly =
     (case current_config ly of
        None \<Rightarrow> ly
      | Some cfg \<Rightarrow>
          if \<not> lg_log_request cfg \<or> should_skip_path cfg path then ly
          else send_entry (request_entry now meth path rid) ly)"

definition log_response ::
  "real \<Rightarrow> string \<Rightarrow> string \<Rightarrow> u16 \<Rightarrow> real \<Rightarrow> string option \<Rightarrow> log_system \<Rightarrow> log_system" where
  "log_response now meth path status dur rid ly =
     (case current_config ly of
        None \<Rightarrow> ly
      | Some cfg \<Rightarrow>
          if \<not> lg_log_response cfg \<or> should_skip_path cfg path then ly
          else send_entry (response_entry now meth path status dur rid) ly)"

text \<open>
  The consumer: one turn of its loop takes the first entry of a running channel; the loop ends when
  the channel is shut down, and what is left is flushed.
\<close>

definition write_entry :: "log_format \<Rightarrow> log_config \<Rightarrow> log_entry \<Rightarrow> string list \<Rightarrow> string list" where
  "write_entry lf cfg e out = (if le_level e \<ge> lg_level cfg then out @ [format_colored lf e] else out)"

definition consumer_turn :: "log_format \<Rightarrow> log_system \<Rightarrow> log_system" where
  "consumer_turn lf ly =
     (case ly_current ly of
        None \<Rightarrow> ly
      | Some ch \<Rightarrow>
          (case lc_queue ch of
             [] \<Rightarrow> ly
           | e # q \<Rightarrow> ly\<lparr>ly_current := Some (ch\<lparr>lc_queue := q\<rparr>), ly_stderr := write_entry lf (lc_config ch) e (ly_stderr ly)\<rparr>))"

definition flush_channel :: "log_format \<Rightarrow> log_channel \<Rightarrow> string list \<Rightarrow> string list" where
  "flush_channel lf ch out = fold (write_entry lf (lc_config ch)) (lc_queue ch) out"

definition flush_closing :: "log_format \<Rightarrow> log_system \<Rightarrow> log_system" where
  "flush_closing lf ly = ly\<lparr>ly_closing := [], ly_stderr := fold (flush_channel lf) (ly_closing ly) (ly_stderr ly)\<rparr>"

subsection \<open>What reaches the terminal\<close>

datatype log_event = Emit log_entry | Turn

fun log_apply :: "log_format \<Rightarrow> log_event \<Rightarrow> log_system \<Rightarrow> log_system" where
  "log_apply lf (Emit e) ly = send_entry e ly"
| "log_apply lf Turn ly = consumer_turn lf ly"

definition wanted :: "log_config \<Rightarrow> log_event list \<Rightarrow> log_entry list" where
  "wanted cfg evs = concat (map (\<lambda>ev. case ev of Emit e \<Rightarrow> if lg_level cfg \<le> le_level e then [e] else [] | Turn \<Rightarrow> []) evs)"

lemma wanted_simps [simp]:
  "wanted cfg [] = []"
  "wanted cfg (Turn # evs) = wanted cfg evs"
  "wanted cfg (Emit e # evs) = (if lg_level cfg \<le> le_level e then e # wanted cfg evs else wanted cfg evs)"
  "wanted cfg (evs @ evs') = wanted cfg evs @ wanted cfg evs'"
  by (simp_all add: wanted_def)

lemma flush_written: "fold (write_entry lf cfg) es out = out @ map (format_colored lf) (filter (\<lambda>e. lg_level cfg \<le> le_level e) es)"
  by (induction es arbitrary: out) (simp_all add: write_entry_def)

text \<open>
  The state of the pipeline after some events: \<open>ws\<close> was written and the queue holds the rest of what
  was kept, a subsequence of what was wanted, all of it when the queue is long enough.
\<close>

definition pipeline :: "log_format \<Rightarrow> log_config \<Rightarrow> log_entry list \<Rightarrow> log_entry list \<Rightarrow> log_system \<Rightarrow> bool" where
  "pipeline lf cfg want ws ly =
     (\<exists>q. ly = \<lparr>ly_current = Some \<lparr>lc_queue = q, lc_capacity = lg_queue_size cfg, lc_config = cfg, lc_running = True\<rparr>,
                ly_closing = [], ly_stderr = map (format_colored lf) ws\<rparr> \<and>
          subseq (ws @ q) want \<and> (length want \<le> lg_queue_size cfg \<longrightarrow> ws @ q = want) \<and>
          (\<forall>e \<in> set (ws @ q). lg_level cfg \<le> le_level e))"

lemma pipeline_emit:
  assumes "pipeline lf cfg want ws ly"
  shows "pipeline lf cfg (want @ wanted cfg [Emit e]) ws (send_entry e ly)"
proof -
  obtain q where q: "ly = \<lparr>ly_current = Some \<lparr>lc_queue = q, lc_capacity = lg_queue_size cfg, lc_config = cfg, lc_running = True\<rparr>,
                ly_closing = [], ly_stderr = map (format_colored lf) ws\<rparr>"
      "subseq (ws @ q) want" "length want \<le> lg_queue_size cfg \<Longrightarrow> ws @ q = want"
      "\<forall>e \<in> set (ws @ q). lg_level cfg \<le> le_level e"
    using assms by (auto simp: pipeline_def)
  show ?thesis
  proof (cases "le_level e < lg_level cfg \<or> \<not> length q < lg_queue_size cfg")
    case True
    have "subseq (ws @ q) (want @ [e])" using q(2) by (metis append_Nil2 list_emb_append2 subseq_append_iff subseq_order.refl)
    with True q show ?thesis
      by (auto simp: pipeline_def send_entry_def try_send_def)
  next
    case False
    have "subseq ((ws @ q) @ [e]) (want @ [e])" using q(2) by (simp del: append_assoc)
    with False q show ?thesis
      by (auto simp: pipeline_def send_entry_def try_send_def)
  qed
qed

lemma pipeline_turn:
  assumes "pipeline lf cfg want ws ly"
  shows "\<exists>ws'. pipeline lf cfg want ws' (consumer_turn lf ly)"
proof -
  obtain q where q: "ly = \<lparr>ly_current = Some \<lparr>lc_queue = q, lc_capacity = lg_queue_size cfg, lc_config = cfg, lc_running = True\<rparr>,
                ly_closing = [], ly_stderr = map (format_colored lf) ws\<rparr>"
      "subseq (ws @ q) want" "length want \<le> lg_queue_size cfg \<longrightarrow> ws @ q = want"
      "\<forall>e \<in> set (ws @ q). lg_level cfg \<le> le_level e"
    using assms by (auto simp: pipeline_def)
  show ?thesis
  proof (cases q)
    case Nil
    with q show ?thesis by (intro exI [of _ ws]) (simp add: pipeline_def consumer_turn_def)
  next
    case (Cons e q')
    with q show ?thesis by (intro exI [of _ "ws @ [e]"]) (simp add: pipeline_def consumer_turn_def write_entry_def)
  qed
qed

lemma pipeline_run:
  "\<exists>ws. pipeline lf cfg (wanted cfg evs) ws
     (fold (log_apply lf) evs (log_init cfg \<lparr>ly_current = None, ly_closing = [], ly_stderr = []\<rparr>))"
proof (induction evs rule: rev_induct)
  case Nil
  show ?case by (intro exI [of _ "[]"]) (simp add: pipeline_def log_init_def log_shutdown_def)
next
  case (snoc ev evs)
  then obtain ws where ws: "pipeline lf cfg (wanted cfg evs) ws
      (fold (log_apply lf) evs (log_init cfg \<lparr>ly_current = None, ly_closing = [], ly_stderr = []\<rparr>))" ..
  show ?case
  proof (cases ev)
    case (Emit e)
    with pipeline_emit [OF ws, of e] show ?thesis by auto
  next
    case Turn
    with pipeline_turn [OF ws] show ?thesis by simp
  qed
qed

text \<open>
  The logging pipeline keeps order and loses only overflow: whatever calls and consumer turns
  follow \<open>init\<close>, after \<open>shutdown\<close> and the final flush standard error shows, formatted and in the
  order of the calls, only entries at or above the configured level, and all of them when the
  queue has room for as many.
\<close>

theorem log_pipeline:
  "let ly = fold (log_apply lf) evs (log_init cfg \<lparr>ly_current = None, ly_closing = [], ly_stderr = []\<rparr>);
       out = ly_stderr (flush_closing lf (log_shutdown ly));
       want = wanted cfg evs
   in \<exists>es. out = map (format_colored lf) es \<and>
        (if length want \<le> lg_queue_size cfg then es = want else subseq es want)"
proof -
  obtain ws q where q: "fold (log_apply lf) evs (log_init cfg \<lparr>ly_current = None, ly_closing = [], ly_stderr = []\<rparr>) =
      \<lparr>ly_current = Some \<lparr>lc_queue = q, lc_capacity = lg_queue_size cfg, lc_config = cfg, lc_running = True\<rparr>,
       ly_closing = [], ly_stderr = map (format_colored lf) ws\<rparr>"
      "subseq (ws @ q) (wanted cfg evs)" "length (wanted cfg evs) \<le> lg_queue_size cfg \<Longrightarrow> ws @ q = wanted cfg evs"
      "\<forall>e \<in> set (ws @ q). lg_level cfg \<le> le_level e"
    using pipeline_run [of lf cfg evs] by (auto simp: pipeline_def)
  have "filter (\<lambda>e. lg_level cfg \<le> le_level e) q = q" using q(4) by simp
  then have "ly_stderr (flush_closing lf (log_shutdown (fold (log_apply lf) evs
      (log_init cfg \<lparr>ly_current = None, ly_closing = [], ly_stderr = []\<rparr>)))) = map (format_colored lf) (ws @ q)"
    by (simp add: q(1) log_shutdown_def flush_closing_def flush_channel_def flush_written)
  moreover have "if length (wanted cfg evs) \<le> lg_queue_size cfg then ws @ q = wanted cfg evs else subseq (ws @ q) (wanted cfg evs)"
    using q(2,3) by simp
  ultimately show ?thesis unfolding Let_def by blast
qed

text \<open>With the level \<open>Off\<close> only entries of that level, which no caller makes, would pass.\<close>

lemma log_off_silent: "le_level e \<noteq> Off \<Longrightarrow> send_entry e (log_init log_disabled ly) = log_init log_disabled ly"
  by (cases "le_level e") (simp_all add: send_entry_def log_init_def log_disabled_def less_log_level_def)

text \<open>Skipped paths are prefixes of the text, so a skipped path also silences longer names.\<close>

lemma skip_is_textual: "log_request now m ''/_healthy-users'' rid (log_init log_config_default ly) = log_init log_config_default ly"
  by (simp add: log_request_def current_config_def log_init_def should_skip_path_def log_config_default_def starts_with_def)

end
