(* ===== verification/Log_Middleware.thy ===== *)
theory Log_Middleware
  imports Logging Middleware_Chain
begin

text \<open>
  The two request-logging middleware of \<open>src/middleware/builtin.rs\<close> on top of the logging system: the
  one before the handler logs the request and, if configured, its headers, the one after it logs the
  duration. Their shared state is the logging system with the two clocks they read.
\<close>

datatype mw_log_level = MwDebug | MwInfo | MwWarn | MwError

record mw_log_config =
  mlc_level :: mw_log_level
  mlc_log_headers :: bool
  mlc_log_body :: bool
  mlc_max_body_log_size :: nat
  mlc_skip_paths :: "string list"
  mlc_format :: "string option"

definition mw_log_default :: mw_log_config where
  "mw_log_default =
     \<lparr>mlc_level = MwInfo, mlc_log_headers = False, mlc_log_body = False, mlc_max_body_log_size = 1024,
      mlc_skip_paths = [''/health'', ''/favicon.ico''], mlc_format = None\<rparr>"

definition with_level :: "mw_log_level \<Rightarrow> mw_log_config \<Rightarrow> mw_log_config" where
  "with_level l cfg = cfg\<lparr>mlc_level := l\<rparr>"

definition with_headers :: "mw_log_config \<Rightarrow> mw_log_config" where
  "with_headers cfg = cfg\<lparr>mlc_log_headers := True\<rparr>"

definition skip_path :: "string \<Rightarrow> mw_log_config \<Rightarrow> mw_log_config" where
  "skip_path p cfg = cfg\<lparr>mlc_skip_paths := mlc_skip_paths cfg @ [p]\<rparr>"

record log_world =
  lw_now :: instant
  lw_wall :: real
  lw_log :: log_system

definition skips :: "mw_log_config \<Rightarrow> mw_context \<Rightarrow> bool" where
  "skips cfg c = list_ex (\<lambda>p. starts_with (mc_path c) p) (mlc_skip_paths cfg)"

definition log_headers :: "real \<Rightarrow> string \<Rightarrow> (string \<times> string) list \<Rightarrow> log_system \<Rightarrow> log_system" where
  "log_headers wall rid hs ly =
     fold (\<lambda>(k, v). log_message wall Debug (''['' @ rid @ ''] Header: '' @ k @ ''='' @ v)) hs ly"

definition log_execute :: "mw_log_config \<Rightarrow> mw_context \<Rightarrow> log_world \<Rightarrow> mw_result \<times> mw_context \<times> log_world" where
  "log_execute cfg c w =
     (if skips cfg c then (Continue, c, w)
      else
        let rid = mc_request_id c;
            ly = log_request (lw_wall w) (as_str (mc_method c)) (mc_path c) (Some rid) (lw_log w);
            ly = (if mlc_log_headers cfg then log_headers (lw_wall w) rid (mc_headers c) ly else ly);
            c = set_state ''log_start_time'' (SInt (as_i64 (elapsed (lw_now w) c))) c
        in (Continue, c, w\<lparr>lw_log := ly\<rparr>))"

definition log_after_execute :: "mw_log_config \<Rightarrow> mw_context \<Rightarrow> log_world \<Rightarrow> mw_result \<times> mw_context \<times> log_world" where
  "log_after_execute cfg c w =
     (if skips cfg c then (Continue, c, w)
      else
        let message = ''['' @ mc_request_id c @ ''] Request completed in '' @ show_nat (elapsed (lw_now w) c div 1000000) @ ''ms''
        in (Continue, c, w\<lparr>lw_log := log_message (lw_wall w) Info message (lw_log w)\<rparr>))"

definition log_middleware :: "mw_log_config \<Rightarrow> log_world middleware" where
  "log_middleware cfg = mw_default ''logger'' (log_execute cfg)"

definition log_after_middleware :: "mw_log_config \<Rightarrow> log_world middleware" where
  "log_after_middleware cfg = mw_default ''logger_after'' (log_after_execute cfg)"

interpretation log_mw: well_behaved "log_middleware cfg" for cfg
  by unfold_locales (auto simp: log_middleware_def mw_default_def log_execute_def Let_def split: if_splits)

interpretation log_after_mw: well_behaved "log_after_middleware cfg" for cfg
  by unfold_locales (auto simp: log_after_middleware_def mw_default_def log_after_execute_def Let_def split: if_splits)

subsection \<open>Logging is an observer\<close>

text \<open>What logging may change: the queue of the current channel, which it only extends.\<close>

definition queue_of :: "log_system \<Rightarrow> log_entry list" where
  "queue_of ly = (case ly_current ly of None \<Rightarrow> [] | Some ch \<Rightarrow> lc_queue ch)"

definition only_queues :: "log_system \<Rightarrow> log_system \<Rightarrow> bool" where
  "only_queues ly ly' =
     (prefix (queue_of ly) (queue_of ly') \<and> current_config ly' = current_config ly \<and>
      ly_closing ly' = ly_closing ly \<and> ly_stderr ly' = ly_stderr ly)"

lemma only_queues_refl [simp, intro]: "only_queues ly ly"
  by (simp add: only_queues_def)

lemma only_queues_trans: "only_queues a b \<Longrightarrow> only_queues b c \<Longrightarrow> only_queues a c"
  by (auto simp: only_queues_def intro: prefix_order.trans)

lemma only_queues_send [simp, intro]: "only_queues ly (send_entry e ly)"
  by (auto simp: only_queues_def send_entry_def try_send_def queue_of_def current_config_def split: option.split)

lemma only_queues_log [simp, intro]:
  "only_queues ly (log_message t l m ly)" "only_queues ly (log_request t m p r ly)" "only_queues ly (log_response t m p s d r ly)"
  by (auto simp: log_message_def log_request_def log_response_def split: option.split)

lemma only_queues_headers: "only_queues ly (log_headers t r hs ly)"
proof (induction hs arbitrary: ly)
  case (Cons h hs)
  obtain k v where h: "h = (k, v)" by (cases h)
  have "only_queues ly (log_message t Debug (''['' @ r @ ''] Header: '' @ k @ ''='' @ v) ly)" by (rule only_queues_log)
  from only_queues_trans [OF this Cons.IH] show ?case by (simp add: h log_headers_def)
qed (simp add: log_headers_def)

text \<open>
  Request logging only observes: both middleware always let the request continue, keep the
  whole context but for the \<open>log_start_time\<close> entry of its state, and of the logging system only extend
  the queue; a skipped path changes nothing at all.
\<close>

theorem log_observes:
  "let (r, c', w') = log_execute cfg c w; (ra, ca, wa) = log_after_execute cfg c w
   in r = Continue \<and> ra = Continue \<and> ca = c \<and>
      c'\<lparr>mc_state := mc_state c\<rparr> = c \<and>
      (if k = ''log_start_time'' then True else get_state c' k = get_state c k) \<and>
      only_queues (lw_log w) (lw_log w') \<and> only_queues (lw_log w) (lw_log wa) \<and>
      (if skips cfg c then c' = c \<and> w' = w \<and> wa = w else lw_now w' = lw_now w \<and> lw_wall w' = lw_wall w)"
proof -
  have g: "get_state (set_state n v c) k = get_state c k" if "k \<noteq> n" for n v
    using that by (simp add: get_state_def set_state_def ensure_state_def mw_state_default_def Let_def update_conv' split: option.split)
  have s: "(set_state n v c)\<lparr>mc_state := mc_state c\<rparr> = c" for n v
    by (simp add: set_state_def ensure_state_def Let_def split: option.split)
  have h: "only_queues (lw_log w) (log_headers t r hs (log_request t' m p r' (lw_log w)))" for t r hs t' m p r'
    by (rule only_queues_trans [OF only_queues_log(2) only_queues_headers])
  show ?thesis
    by (cases "skips cfg c") (auto simp: log_execute_def log_after_execute_def Let_def g s h)
qed

text \<open>The level, the body options and the format of the configuration have no effect.\<close>

lemma log_config_fields_unused:
  "log_execute (cfg\<lparr>mlc_level := l, mlc_log_body := b, mlc_max_body_log_size := n, mlc_format := f\<rparr>) c w = log_execute cfg c w"
  by (simp add: log_execute_def skips_def)

end
