(* ===== verification/Di_Context.thy ===== *)
theory Di_Context
  imports Registry
begin

text \<open>
  Dependency injection (\<open>src/core/context.rs\<close>): type-erased values and their conversion from and to
  Python objects, the per-request context with its authentication data, and the container of
  singletons and factories that makes contexts. Python objects, the conversions of pyo3 and the
  calls of factories are parameters; \<open>'w\<close> is the state of the Python interpreter.
\<close>

subsection \<open>Values\<close>

datatype 'o di_value =
  DIString string | DIInt int | DIFloat real | DIBool bool | DIBytes string | DIPyObject 'o
| DIDict "(string \<times> 'o di_value) list" | DIList "'o di_value list" | DINone

fun di_as_string :: "'o di_value \<Rightarrow> string option" where
  "di_as_string (DIString s) = Some s"
| "di_as_string _ = None"

fun di_as_int :: "'o di_value \<Rightarrow> int option" where
  "di_as_int (DIInt i) = Some i"
| "di_as_int _ = None"

fun di_as_float :: "'o di_value \<Rightarrow> real option" where
  "di_as_float (DIFloat f) = Some f"
| "di_as_float _ = None"

fun di_as_bool :: "'o di_value \<Rightarrow> bool option" where
  "di_as_bool (DIBool b) = Some b"
| "di_as_bool _ = None"

text \<open>pyo3: \<open>extract\<close> at each type, and the objects built from Rust values.\<close>

record 'o pyo3 =
  ex_none :: "'o \<Rightarrow> bool"
  ex_string :: "'o \<Rightarrow> string option"
  ex_bool :: "'o \<Rightarrow> bool option"
  ex_i64 :: "'o \<Rightarrow> int option"
  ex_f64 :: "'o \<Rightarrow> real option"
  ex_bytes :: "'o \<Rightarrow> string option"
  mk_none :: 'o
  mk_string :: "string \<Rightarrow> 'o"
  mk_bool :: "bool \<Rightarrow> 'o"
  mk_i64 :: "int \<Rightarrow> 'o"
  mk_f64 :: "real \<Rightarrow> 'o"
  mk_bytes :: "string \<Rightarrow> 'o"
  mk_dict :: "(string \<times> 'o) list \<Rightarrow> 'o"
  mk_list :: "'o list \<Rightarrow> 'o"

fun into_py :: "'o pyo3 \<Rightarrow> 'o di_value \<Rightarrow> 'o" where
  "into_py py (DIString s) = mk_string py s"
| "into_py py (DIInt i) = mk_i64 py i"
| "into_py py (DIFloat f) = mk_f64 py f"
| "into_py py (DIBool b) = mk_bool py b"
| "into_py py (DIBytes b) = mk_bytes py b"
| "into_py py (DIPyObject ob) = ob"
| "into_py py (DIDict m) = mk_dict py (map (\<lambda>(k, v). (k, into_py py v)) m)"
| "into_py py (DIList l) = mk_list py (map (into_py py) l)"
| "into_py py DINone = mk_none py"

definition from_py :: "'o pyo3 \<Rightarrow> 'o \<Rightarrow> 'o di_value" where
  "from_py py ob =
     (if ex_none py ob then DINone
      else case ex_string py ob of Some s \<Rightarrow> DIString s | None \<Rightarrow>
      (case ex_bool py ob of Some b \<Rightarrow> DIBool b | None \<Rightarrow>
      (case ex_i64 py ob of Some i \<Rightarrow> DIInt i | None \<Rightarrow>
      (case ex_f64 py ob of Some f \<Rightarrow> DIFloat f | None \<Rightarrow>
      (case ex_bytes py ob of Some b \<Rightarrow> DIBytes b | None \<Rightarrow> DIPyObject ob)))))"

subsection \<open>Contexts\<close>

record 'o di_context =
  cx_values :: "(string \<times> 'o di_value) list"
  cx_user_id :: "string option"
  cx_is_authenticated :: bool
  cx_roles :: "string list"
  cx_request_id :: string
  cx_start_time :: instant

text \<open>\<open>reading\<close> is what \<open>now.elapsed().as_nanos()\<close> gives right after \<open>now\<close> was read, \<open>to_le_bytes\<close> 16 bytes.\<close>

definition le_bytes16 :: "nat \<Rightarrow> string" where
  "le_bytes16 n = map (\<lambda>i. char_of (n div 256 ^ i mod 256)) [0..<16]"

definition di_context_new :: "(string \<Rightarrow> u64) \<Rightarrow> nat \<Rightarrow> instant \<Rightarrow> 'o di_context" where
  "di_context_new xxh3_64 reading now =
     \<lparr>cx_values = [], cx_user_id = None, cx_is_authenticated = False, cx_roles = [],
      cx_request_id = hex_digits 16 (unat (xxh3_64 (le_bytes16 reading))), cx_start_time = now\<rparr>"

definition ctx_set_value :: "string \<Rightarrow> 'o di_value \<Rightarrow> 'o di_context \<Rightarrow> 'o di_context" where
  "ctx_set_value k v c = c\<lparr>cx_values := AList.update k v (cx_values c)\<rparr>"

definition ctx_get_value :: "string \<Rightarrow> 'o di_context \<Rightarrow> 'o di_value option" where
  "ctx_get_value k c = map_of (cx_values c) k"

definition ctx_set :: "'o pyo3 \<Rightarrow> string \<Rightarrow> 'o \<Rightarrow> 'o di_context \<Rightarrow> 'o di_context" where
  "ctx_set py k ob c = ctx_set_value k (from_py py ob) c"

definition ctx_get :: "'o pyo3 \<Rightarrow> string \<Rightarrow> 'o di_context \<Rightarrow> 'o" where
  "ctx_get py k c = (case ctx_get_value k c of Some v \<Rightarrow> into_py py v | None \<Rightarrow> mk_none py)"

definition ctx_has :: "string \<Rightarrow> 'o di_context \<Rightarrow> bool" where
  "ctx_has k c = contains_key k (cx_values c)"

definition ctx_remove :: "string \<Rightarrow> 'o di_context \<Rightarrow> bool \<times> 'o di_context" where
  "ctx_remove k c = (contains_key k (cx_values c), c\<lparr>cx_values := AList.delete k (cx_values c)\<rparr>)"

definition ctx_keys :: "'o di_context \<Rightarrow> string list" where
  "ctx_keys c = map fst (cx_values c)"

definition set_auth :: "string \<Rightarrow> string list \<Rightarrow> 'o di_context \<Rightarrow> 'o di_context" where
  "set_auth uid roles c = c\<lparr>cx_user_id := Some uid, cx_is_authenticated := True, cx_roles := roles\<rparr>"

definition clear_auth :: "'o di_context \<Rightarrow> 'o di_context" where
  "clear_auth c = c\<lparr>cx_user_id := None, cx_is_authenticated := False, cx_roles := []\<rparr>"

definition ctx_has_role :: "string \<Rightarrow> 'o di_context \<Rightarrow> bool" where
  "ctx_has_role role c = (role \<in> set (cx_roles c))"

definition ctx_to_dict :: "'o pyo3 \<Rightarrow> 'o di_context \<Rightarrow> (string \<times> 'o) list" where
  "ctx_to_dict py c =
     AList.update ''request_id'' (mk_string py (cx_request_id c))
       (AList.update ''roles'' (mk_list py (map (mk_string py) (cx_roles c)))
         (AList.update ''is_authenticated'' (mk_bool py (cx_is_authenticated c))
           (AList.update ''user_id'' (case cx_user_id c of None \<Rightarrow> mk_none py | Some u \<Rightarrow> mk_string py u)
             (fold (\<lambda>(k, v). AList.update k (into_py py v)) (cx_values c) []))))"

subsection \<open>The container\<close>

record ('o, 'f) di_container =
  di_singletons :: "(string \<times> 'o di_value) list"
  di_factories :: "(string \<times> 'f) list"

definition container_new :: "('o, 'f) di_container" where
  "container_new = \<lparr>di_singletons = [], di_factories = []\<rparr>"

definition set_singleton :: "string \<Rightarrow> 'o di_value \<Rightarrow> ('o, 'f) di_container \<Rightarrow> ('o, 'f) di_container" where
  "set_singleton n v d = d\<lparr>di_singletons := AList.update n v (di_singletons d)\<rparr>"

definition singleton :: "'o pyo3 \<Rightarrow> string \<Rightarrow> 'o \<Rightarrow> ('o, 'f) di_container \<Rightarrow> ('o, 'f) di_container" where
  "singleton py n ob d = set_singleton n (from_py py ob) d"

definition factory :: "string \<Rightarrow> 'f \<Rightarrow> ('o, 'f) di_container \<Rightarrow> ('o, 'f) di_container" where
  "factory n f d = d\<lparr>di_factories := AList.update n f (di_factories d)\<rparr>"

definition get_singleton_value :: "string \<Rightarrow> ('o, 'f) di_container \<Rightarrow> 'o di_value option" where
  "get_singleton_value n d = map_of (di_singletons d) n"

definition get_singleton :: "'o pyo3 \<Rightarrow> string \<Rightarrow> ('o, 'f) di_container \<Rightarrow> 'o" where
  "get_singleton py n d = (case get_singleton_value n d of Some v \<Rightarrow> into_py py v | None \<Rightarrow> mk_none py)"

definition container_has :: "string \<Rightarrow> ('o, 'f) di_container \<Rightarrow> bool" where
  "container_has n d = (contains_key n (di_singletons d) \<or> contains_key n (di_factories d))"

text \<open>\<open>||\<close> stops at the singletons when the name is there.\<close>

definition container_remove :: "string \<Rightarrow> ('o, 'f) di_container \<Rightarrow> bool \<times> ('o, 'f) di_container" where
  "container_remove n d =
     (if contains_key n (di_singletons d) then (True, d\<lparr>di_singletons := AList.delete n (di_singletons d)\<rparr>)
      else (contains_key n (di_factories d), d\<lparr>di_factories := AList.delete n (di_factories d)\<rparr>))"

fun run_factories ::
  "'o pyo3 \<Rightarrow> ('f \<Rightarrow> 'w \<Rightarrow> ('e + 'o) \<times> 'w) \<Rightarrow> (string \<times> 'f) list \<Rightarrow> 'o di_context \<Rightarrow> 'w \<Rightarrow> ('e + 'o di_context) \<times> 'w" where
  "run_factories py call0 [] c w = (Ok c, w)"
| "run_factories py call0 ((n, f) # fs) c w =
     (case call0 f w of
        (Err e, w') \<Rightarrow> (Err e, w')
      | (Ok ob, w') \<Rightarrow> run_factories py call0 fs (ctx_set_value n (from_py py ob) c) w')"

definition create_context ::
  "'o pyo3 \<Rightarrow> ('f \<Rightarrow> 'w \<Rightarrow> ('e + 'o) \<times> 'w) \<Rightarrow> (string \<Rightarrow> u64) \<Rightarrow> nat \<Rightarrow> instant \<Rightarrow> ('o, 'f) di_container \<Rightarrow> 'w \<Rightarrow>
   ('e + 'o di_context) \<times> 'w" where
  "create_context py call0 xxh3_64 reading now d w =
     run_factories py call0 (di_factories d)
       (fold (\<lambda>(n, v). ctx_set_value n v) (di_singletons d) (di_context_new xxh3_64 reading now)) w"

subsection \<open>Stores\<close>

interpretation ctx_store: store ctx_set_value ctx_get_value
  by unfold_locales (simp add: ctx_set_value_def ctx_get_value_def update_conv')

interpretation singleton_store: store set_singleton get_singleton_value
  by unfold_locales (simp add: set_singleton_def get_singleton_value_def update_conv')

lemma ctx_puts_frame: "(fold (\<lambda>(n, v). ctx_set_value n v) kvs c)\<lparr>cx_values := cx_values c\<rparr> = c"
  by (induction kvs arbitrary: c) (auto simp: ctx_set_value_def, metis di_context.surjective di_context.update_convs(1))

lemma run_factories_frame:
  "run_factories py call0 fs c w = (Ok c', w') \<Longrightarrow> c'\<lparr>cx_values := cx_values c\<rparr> = c"
  by (induction py call0 fs c w rule: run_factories.induct)
    (auto simp: ctx_set_value_def split: prod.splits sum.splits, metis di_context.surjective di_context.update_convs(1))

lemma run_factories_get:
  "run_factories py call0 fs c w = (Ok c', w') \<Longrightarrow> wf_map fs \<Longrightarrow>
   (case map_of fs n of
      None \<Rightarrow> ctx_get_value n c' = ctx_get_value n c
    | Some f \<Rightarrow> \<exists>w1 ob w2. call0 f w1 = (Ok ob, w2) \<and> ctx_get_value n c' = Some (from_py py ob))"
proof (induction py call0 fs c w rule: run_factories.induct)
  case (2 py call0 m f fs c w)
  from 2(2) obtain ob w1 where o: "call0 f w = (Ok ob, w1)"
      "run_factories py call0 fs (ctx_set_value m (from_py py ob) c) w1 = (Ok c', w')"
    by (auto split: prod.splits sum.splits)
  have wf: "wf_map fs" "map_of fs m = None" using 2(3) by (auto simp: wf_map_def map_of_eq_None_iff)
  from 2(1) [OF o(1) [symmetric] refl o(2) wf(1)]
  show ?case
    using o(1) wf(2) by (cases "n = m"; cases "map_of fs n") (simp_all add: ctx_store.get_put, blast)
qed simp

lemma run_factories_ok:
  "(\<And>f w. f \<in> snd ` set fs \<Longrightarrow> \<exists>ob w'. call0 f w = (Ok ob, w')) \<Longrightarrow> \<exists>c' w'. run_factories py call0 fs c w = (Ok c', w')"
proof (induction py call0 fs c w rule: run_factories.induct)
  case (2 py call0 m f fs c w)
  obtain ob w1 where "call0 f w = (Ok ob, w1)" using 2(2) [of f w] by auto
  with 2 show ?case by auto
qed simp

text \<open>
  Contexts are filled as registered: when no factory raises, \<open>create_context\<close> returns a context in
  which every name with a factory holds the converted result of a call of that factory, every other
  name the singleton of that name or nothing, and nobody is authenticated.
\<close>

theorem create_context_injects:
  assumes "wf_map (di_singletons d)" "wf_map (di_factories d)"
    and "\<And>f w. f \<in> snd ` set (di_factories d) \<Longrightarrow> \<exists>ob w'. call0 f w = (Ok ob, w')"
  shows "\<exists>c w'. create_context py call0 xxh reading now d w = (Ok c, w') \<and>
           \<not> cx_is_authenticated c \<and> cx_user_id c = None \<and> cx_roles c = [] \<and>
           (case map_of (di_factories d) n of
              Some f \<Rightarrow> \<exists>w1 ob w2. call0 f w1 = (Ok ob, w2) \<and> ctx_get_value n c = Some (from_py py ob)
            | None \<Rightarrow> ctx_get_value n c = get_singleton_value n d)"
proof -
  let ?c0 = "fold (\<lambda>(n, v). ctx_set_value n v) (di_singletons d) (di_context_new xxh reading now)"
  obtain c w' where r: "run_factories py call0 (di_factories d) ?c0 w = (Ok c, w')"
    using run_factories_ok [of "di_factories d" call0 py ?c0 w] assms(3) by blast
  have f0: "?c0\<lparr>cx_values := []\<rparr> = di_context_new xxh reading now"
    using ctx_puts_frame [of "di_context_new xxh reading now" "di_singletons d"] by (simp add: di_context_new_def)
  have "c\<lparr>cx_values := cx_values ?c0\<rparr> = ?c0" using r by (rule run_factories_frame)
  then have "c\<lparr>cx_values := []\<rparr> = di_context_new xxh reading now" using f0
    by (metis di_context.surjective di_context.update_convs(1))
  then have "\<not> cx_is_authenticated c \<and> cx_user_id c = None \<and> cx_roles c = []"
    by (cases c) (simp add: di_context_new_def)
  moreover have "ctx_get_value n ?c0 = get_singleton_value n d"
    using ctx_store.get_puts_wf [OF assms(1), of n "di_context_new xxh reading now"]
    by (simp add: get_singleton_value_def ctx_get_value_def di_context_new_def split: option.splits)
  ultimately show ?thesis
    using r run_factories_get [OF r assms(2), of n] by (auto simp: create_context_def split: option.splits)
qed

text \<open>Objects as numbers, every conversion failing, and one factory that returns its own number.\<close>

definition opaque_py :: "nat pyo3" where
  "opaque_py =
     \<lparr>ex_none = (\<lambda>_. False), ex_string = (\<lambda>_. None), ex_bool = (\<lambda>_. None), ex_i64 = (\<lambda>_. None), ex_f64 = (\<lambda>_. None),
      ex_bytes = (\<lambda>_. None), mk_none = 0, mk_string = (\<lambda>_. 1), mk_bool = (\<lambda>_. 2), mk_i64 = (\<lambda>_. 3), mk_f64 = (\<lambda>_. 4),
      mk_bytes = (\<lambda>_. 5), mk_dict = (\<lambda>_. 6), mk_list = (\<lambda>_. 7)\<rparr>"

theorem create_context_injects_witness:
  "\<exists>c w'. create_context opaque_py (\<lambda>f w. (Ok f :: string + nat, w + f)) (\<lambda>_. 0) 41 7
       \<lparr>di_singletons = [(''db'', DIInt 5)], di_factories = [(''user'', 12)]\<rparr> (0 :: nat) = (Ok c, w') \<and>
     \<not> cx_is_authenticated c \<and> ctx_get_value ''db'' c = Some (DIInt 5)"
proof -
  let ?d = "\<lparr>di_singletons = [(''db'', DIInt 5)], di_factories = [(''user'', 12)]\<rparr> :: (nat, nat) di_container"
  have "\<exists>c w'. create_context opaque_py (\<lambda>f w. (Ok f :: string + nat, w + f)) (\<lambda>_. 0) 41 7 ?d (0 :: nat) = (Ok c, w') \<and>
     \<not> cx_is_authenticated c \<and> cx_user_id c = None \<and> cx_roles c = [] \<and>
     (case map_of (di_factories ?d) ''db'' of
        Some f \<Rightarrow> \<exists>w1 ob w2. ((Ok f :: string + nat, w1 + f) = (Ok ob, w2 :: nat)) \<and> ctx_get_value ''db'' c = Some (from_py opaque_py ob)
      | None \<Rightarrow> ctx_get_value ''db'' c = get_singleton_value ''db'' ?d)"
    by (rule create_context_injects) (simp_all add: wf_map_def)
  then show ?thesis by (auto simp: get_singleton_value_def)
qed

subsection \<open>Where it differs from what callers expect\<close>

text \<open>Removing a name that is both a singleton and a factory leaves the factory.\<close>

lemma remove_leaves_factory:
  "contains_key n (di_singletons d) \<Longrightarrow> contains_key n (di_factories d) \<Longrightarrow>
   fst (container_remove n d) \<and> container_has n (snd (container_remove n d))"
  by (simp add: container_remove_def container_has_def)

text \<open>An object from which pyo3 extracts bytes, such as a list of small integers, comes back as bytes.\<close>

lemma set_get_bytes:
  "\<not> ex_none py ob \<Longrightarrow> ex_string py ob = None \<Longrightarrow> ex_bool py ob = None \<Longrightarrow> ex_i64 py ob = None \<Longrightarrow> ex_f64 py ob = None \<Longrightarrow>
   ex_bytes py ob = Some b \<Longrightarrow> ctx_get py k (ctx_set py k ob c) = mk_bytes py b"
  by (simp add: ctx_get_def ctx_set_def from_py_def ctx_store.get_put)

text \<open>Contexts made with the same clock reading have the same id.\<close>

lemma request_ids_repeat: "cx_request_id (di_context_new h r now) = cx_request_id (di_context_new h r now')"
  by (simp add: di_context_new_def)

lemma auth_cleared: "clear_auth (set_auth u rs c) = clear_auth c" "ctx_has_role r (clear_auth c) = False"
  "ctx_has_role r (set_auth u rs c) \<longleftrightarrow> r \<in> set rs"
  by (simp_all add: clear_auth_def set_auth_def ctx_has_role_def)

subsection \<open>Typed setters and timing\<close>

definition set_string :: "string \<Rightarrow> string \<Rightarrow> 'o di_context \<Rightarrow> 'o di_context" where
  "set_string k v c = ctx_set_value k (DIString v) c"

definition set_int :: "string \<Rightarrow> int \<Rightarrow> 'o di_context \<Rightarrow> 'o di_context" where
  "set_int k v c = ctx_set_value k (DIInt v) c"

definition set_bool :: "string \<Rightarrow> bool \<Rightarrow> 'o di_context \<Rightarrow> 'o di_context" where
  "set_bool k v c = ctx_set_value k (DIBool v) c"

end
