(* ===== verification/Telemetry.thy ===== *)
theory Telemetry
  imports Registry
begin

text \<open>
  The metrics registry (\<open>src/telemetry/mod.rs\<close>): counters, gauges and histograms under a name and a
  label string, and the Prometheus text they render to. Counters are 64-bit words, an \<open>f64\<close> is a real
  number (so neither NaN nor rounding), the bound \<open>None\<close> of a bucket is infinity. The
  compare-and-exchange loops are single updates: each ends with exactly one successful exchange.
  The \<open>Display\<close> of \<open>f64\<close> is a parameter.
\<close>

subsection \<open>Metrics\<close>

definition counter_inc_by :: "u64 \<Rightarrow> u64 \<Rightarrow> u64" where
  "counter_inc_by n c = c + n"

definition gauge_inc_value :: "real \<Rightarrow> real" where
  "gauge_inc_value g = g + 1"

definition gauge_dec_value :: "real \<Rightarrow> real" where
  "gauge_dec_value g = g - 1"

record histogram =
  hg_buckets :: "(real option \<times> u64) list"
  hg_sum :: real
  hg_count :: u64

definition histogram_new :: "real list \<Rightarrow> histogram" where
  "histogram_new bounds = \<lparr>hg_buckets = map (\<lambda>b. (Some b, 0)) bounds @ [(None, 0)], hg_sum = 0, hg_count = 0\<rparr>"

definition le_bound :: "real \<Rightarrow> real option \<Rightarrow> bool" where
  "le_bound v b = (case b of None \<Rightarrow> True | Some x \<Rightarrow> v \<le> x)"

definition observe :: "real \<Rightarrow> histogram \<Rightarrow> histogram" where
  "observe v h =
     h\<lparr>hg_buckets := map (\<lambda>(b, n). (b, if le_bound v b then n + 1 else n)) (hg_buckets h),
       hg_count := hg_count h + 1, hg_sum := hg_sum h + v\<rparr>"

subsection \<open>The registry\<close>

type_synonym 'm metric_map = "(string \<times> (string \<times> 'm) list) list"

record metrics =
  mt_counters :: "u64 metric_map"
  mt_gauges :: "real metric_map"
  mt_histograms :: "histogram metric_map"
  mt_help_texts :: "(string \<times> string) list"
  mt_histogram_buckets :: "real list"

definition metrics_new :: metrics where
  "metrics_new =
     \<lparr>mt_counters = [], mt_gauges = [], mt_histograms = [], mt_help_texts = [],
      mt_histogram_buckets = [5 / 1000, 1 / 100, 25 / 1000, 5 / 100, 1 / 10, 25 / 100, 5 / 10, 1, 25 / 10, 5, 10]\<rparr>"

text \<open>\<open>entry(name).or_default()\<close> and \<open>entry(label).or_insert_with(f)\<close>, then an update in place.\<close>

definition metric_at :: "'m \<Rightarrow> string \<Rightarrow> string \<Rightarrow> 'm metric_map \<Rightarrow> 'm" where
  "metric_at d name label m =
     (case map_of m name of None \<Rightarrow> d | Some mm \<Rightarrow> (case map_of mm label of None \<Rightarrow> d | Some v \<Rightarrow> v))"

definition with_metric :: "'m \<Rightarrow> ('m \<Rightarrow> 'm) \<Rightarrow> string \<Rightarrow> string \<Rightarrow> 'm metric_map \<Rightarrow> 'm metric_map" where
  "with_metric d f name label m =
     (let mm = (case map_of m name of None \<Rightarrow> [] | Some mm \<Rightarrow> mm);
          v = (case map_of mm label of None \<Rightarrow> d | Some v \<Rightarrow> v)
      in AList.update name (AList.update label (f v) mm) m)"

definition label_key :: "string option \<Rightarrow> string" where
  "label_key labels = (case labels of None \<Rightarrow> [] | Some l \<Rightarrow> l)"

definition counter_inc :: "string \<Rightarrow> string option \<Rightarrow> u64 \<Rightarrow> metrics \<Rightarrow> metrics" where
  "counter_inc name labels v r =
     r\<lparr>mt_counters := with_metric 0 (counter_inc_by v) name (label_key labels) (mt_counters r)\<rparr>"

definition gauge_set :: "string \<Rightarrow> real \<Rightarrow> string option \<Rightarrow> metrics \<Rightarrow> metrics" where
  "gauge_set name v labels r = r\<lparr>mt_gauges := with_metric 0 (\<lambda>_. v) name (label_key labels) (mt_gauges r)\<rparr>"

definition gauge_inc :: "string \<Rightarrow> string option \<Rightarrow> metrics \<Rightarrow> metrics" where
  "gauge_inc name labels r = r\<lparr>mt_gauges := with_metric 0 gauge_inc_value name (label_key labels) (mt_gauges r)\<rparr>"

definition gauge_dec :: "string \<Rightarrow> string option \<Rightarrow> metrics \<Rightarrow> metrics" where
  "gauge_dec name labels r = r\<lparr>mt_gauges := with_metric 0 gauge_dec_value name (label_key labels) (mt_gauges r)\<rparr>"

definition histogram_observe :: "string \<Rightarrow> real \<Rightarrow> string option \<Rightarrow> metrics \<Rightarrow> metrics" where
  "histogram_observe name v labels r =
     r\<lparr>mt_histograms := with_metric (histogram_new (mt_histogram_buckets r)) (observe v) name (label_key labels) (mt_histograms r)\<rparr>"

definition set_help :: "string \<Rightarrow> string \<Rightarrow> metrics \<Rightarrow> metrics" where
  "set_help name help r = r\<lparr>mt_help_texts := AList.update name help (mt_help_texts r)\<rparr>"

subsection \<open>Rendering\<close>

definition nl :: string where
  "nl = [CHR 0x0A]"

definition render_head :: "metrics \<Rightarrow> string \<Rightarrow> string \<Rightarrow> string" where
  "render_head r name kind =
     (case map_of (mt_help_texts r) name of None \<Rightarrow> [] | Some help \<Rightarrow> ''# HELP '' @ name @ '' '' @ help @ nl) @
     ''# TYPE '' @ name @ '' '' @ kind @ nl"

definition braced :: "string \<Rightarrow> string" where
  "braced labels = (if labels = [] then [] else ''{'' @ labels @ ''}'')"

definition render_sample :: "string \<Rightarrow> string \<Rightarrow> string \<Rightarrow> string" where
  "render_sample name labels v = name @ braced labels @ '' '' @ v @ nl"

definition render_histogram :: "(real \<Rightarrow> string) \<Rightarrow> string \<Rightarrow> string \<Rightarrow> histogram \<Rightarrow> string" where
  "render_histogram show_f64 name labels h =
     (let label_prefix = (if labels = [] then [] else labels @ '','') in
      concat (map (\<lambda>(b, n). name @ ''_bucket{'' @ label_prefix @ ''le='' @ [CHR 0x22] @
                     (case b of None \<Rightarrow> ''+Inf'' | Some x \<Rightarrow> show_f64 x) @ [CHR 0x22] @ ''} '' @ show_nat (unat n) @ nl) (hg_buckets h)) @
      name @ ''_sum'' @ braced labels @ '' '' @ show_f64 (hg_sum h) @ nl @
      name @ ''_count'' @ braced labels @ '' '' @ show_nat (unat (hg_count h)) @ nl)"

definition render_group :: "metrics \<Rightarrow> string \<Rightarrow> (string \<Rightarrow> string \<Rightarrow> 'm \<Rightarrow> string) \<Rightarrow> 'm metric_map \<Rightarrow> string" where
  "render_group r kind one m =
     concat (map (\<lambda>(name, mm). render_head r name kind @ concat (map (\<lambda>(labels, v). one name labels v) mm)) m)"

definition render :: "(real \<Rightarrow> string) \<Rightarrow> metrics \<Rightarrow> string" where
  "render show_f64 r =
     render_group r ''counter'' (\<lambda>name labels v. render_sample name labels (show_nat (unat v))) (mt_counters r) @
     render_group r ''gauge'' (\<lambda>name labels v. render_sample name labels (show_f64 v)) (mt_gauges r) @
     render_group r ''histogram'' (render_histogram show_f64) (mt_histograms r)"

subsection \<open>Totals\<close>

lemma metric_at_with [simp]:
  "metric_at d n' l' (with_metric d f n l m) = (if n' = n \<and> l' = l then f (metric_at d n l m) else metric_at d n' l' m)"
  by (auto simp: metric_at_def with_metric_def Let_def update_conv' split: option.splits)

text \<open>
  Counters add up: after any sequence of increments the counter of a name and label string
  holds the sum of the amounts added under exactly that name and those labels, as a 64-bit word,
  and no other metric has changed.
\<close>

theorem counter_totals:
  "let r' = fold (\<lambda>(name, labels, v). counter_inc name labels v) incs r
   in metric_at 0 n l (mt_counters r') =
        metric_at 0 n l (mt_counters r) + sum_list (map (\<lambda>(name, labels, v). v)
          (filter (\<lambda>(name, labels, v). name = n \<and> label_key labels = l) incs)) \<and>
      r'\<lparr>mt_counters := mt_counters r\<rparr> = r"
proof -
  let ?inc = "\<lambda>(name, labels, v). counter_inc name labels v"
  have "metric_at 0 n l (mt_counters (fold ?inc incs r)) =
      metric_at 0 n l (mt_counters r) + sum_list (map (\<lambda>(name, labels, v). v)
        (filter (\<lambda>(name, labels, v). name = n \<and> label_key labels = l) incs))"
    by (induction incs arbitrary: r) (auto simp: counter_inc_def counter_inc_by_def split: if_splits)
  moreover have "(fold ?inc incs r)\<lparr>mt_counters := m\<rparr> = r\<lparr>mt_counters := m\<rparr>" for m
    by (induction incs arbitrary: r) (auto simp: counter_inc_def)
  ultimately show ?thesis by (simp add: Let_def)
qed

lemma observe_buckets:
  "hg_buckets (observe v h) = map (\<lambda>(b, n). (b, n + (if le_bound v b then 1 else 0))) (hg_buckets h)"
  by (auto simp: observe_def)

text \<open>
  Histograms are cumulative and complete: after observing any values, the bucket of each bound
  counts exactly the values up to that bound, the last bucket and the count are the number of
  values, all as 64-bit words, and the sum is their sum.
\<close>

theorem histogram_exact:
  "fold observe vs (histogram_new bounds) =
     \<lparr>hg_buckets = map (\<lambda>b. (b, of_nat (length (filter (\<lambda>v. le_bound v b) vs)))) (map Some bounds @ [None]),
      hg_sum = sum_list vs, hg_count = of_nat (length vs)\<rparr>"
proof (induction vs rule: rev_induct)
  case Nil
  show ?case by (simp add: histogram_new_def comp_def)
next
  case (snoc v vs)
  then show ?case by (simp add: observe_def comp_def le_bound_def add.commute)
qed

text \<open>Under \<open>2\<^sup>6\<^sup>4\<close> observations a larger bound never counts fewer values.\<close>

lemma histogram_monotone:
  assumes "length vs < 2 ^ 64" "b \<le> b'"
  shows "(of_nat (length (filter (\<lambda>v. le_bound v (Some b)) vs)) :: u64) \<le> of_nat (length (filter (\<lambda>v. le_bound v (Some b')) vs))"
proof -
  have sub: "length (filter (\<lambda>v. le_bound v (Some b)) vs) \<le> length (filter (\<lambda>v. le_bound v (Some b')) vs)"
    using assms(2) by (induction vs) (auto simp: le_bound_def)
  have "length (filter (\<lambda>v. le_bound v (Some b')) vs) < 2 ^ 64"
    using length_filter_le [of "\<lambda>v. le_bound v (Some b')" vs] assms(1) by linarith
  with sub show ?thesis by (simp add: word_le_nat_alt unat_of_nat take_bit_eq_mod)
qed

lemma concat_contains: "x \<in> set xs \<Longrightarrow> contains_sub x s \<Longrightarrow> contains_sub (concat xs) s"
proof -
  assume "x \<in> set xs" "contains_sub x s"
  then obtain ys zs a b where "xs = ys @ x # zs" "x = a @ s @ b"
    by (metis split_list contains_sub_iff)
  then have "concat xs = (concat ys @ a) @ s @ (b @ concat zs)" by simp
  then show ?thesis unfolding contains_sub_iff by blast
qed

lemma contains_appendI: "contains_sub x s \<Longrightarrow> contains_sub (x @ y) s" "contains_sub y s \<Longrightarrow> contains_sub (x @ y) s"
  unfolding contains_sub_iff by (metis append.assoc)+

text \<open>
  Rendering reports every counter: the text contains the sample line of each counter of the
  registry, with its name, its labels in braces if there are any, and its current value.
\<close>

theorem render_reports_counter:
  assumes "map_of (mt_counters r) n = Some mm" "map_of mm l = Some v"
  shows "contains_sub (render show_f64 r) (render_sample n l (show_nat (unat v)))"
proof -
  let ?one = "\<lambda>name labels v. render_sample name labels (show_nat (unat v))"
  have "contains_sub (concat (map (\<lambda>(labels, v). ?one n labels v) mm)) (?one n l v)"
    using map_of_SomeD [OF assms(2)] by (intro concat_contains [of "?one n l v"]) (auto simp: contains_sub_starts_with)
  then have "contains_sub (render_head r n ''counter'' @ concat (map (\<lambda>(labels, v). ?one n labels v) mm)) (?one n l v)"
    by (rule contains_appendI)
  then have "contains_sub (render_group r ''counter'' ?one (mt_counters r)) (?one n l v)"
    unfolding render_group_def using map_of_SomeD [OF assms(1)] by (intro concat_contains) (auto intro!: rev_image_eqI)
  then show ?thesis unfolding render_def by (rule contains_appendI)
qed

theorem render_reports_counter_witness:
  "contains_sub (render (\<lambda>_. ''0'') (counter_inc ''hits'' None 3 metrics_new)) (render_sample ''hits'' [] (show_nat (unat (3 :: u64))))"
  by (rule render_reports_counter [where mm = "[([], 3)]"])
    (simp_all add: counter_inc_def with_metric_def metrics_new_def label_key_def counter_inc_by_def)

end
