(* ===== verification/Json_Values.thy ===== *)
theory Json_Values
  imports Utf8
begin

text \<open>
  JSON and Python values (\<open>src/utils/json.rs\<close>): the conversion of a \<open>serde_json\<close> value to Python
  objects and back, with every type test of the code in its order, and parsing and serializing on
  top of a JSON codec that is a parameter. A Python object is a finite tree, so cyclic containers,
  on which the code would not return, are outside the model; a finite \<open>f64\<close> is a real number and
  \<open>None\<close> stands for NaN and the infinities.
\<close>

subsection \<open>Values\<close>

datatype json_value =
  JNull | JBool bool | JInt int | JFloat real | JString string | JArray "json_value list" | JObject "(string \<times> json_value) list"

text \<open>
  Python objects by the type tests of the code. Any other object is known by its number and by what
  \<open>extract::<Vec<u8>>\<close>, \<open>try_iter\<close> (the items, and the exception if iterating raises) and \<open>__dict__\<close>
  give for it.
\<close>

datatype py =
  PyNone | PyBool bool | PyInt int | PyFloat "real option" | PyStr string
| PyDict "(py \<times> py) list" | PyList "py list"
| PyOther nat "string option" "(py list \<times> string option) option" "(py \<times> py) list option"

definition i64_range :: "int \<Rightarrow> bool" where
  "i64_range i = (- (2 ^ 63) \<le> i \<and> i < 2 ^ 63)"

definition u64_range :: "int \<Rightarrow> bool" where
  "u64_range i = (0 \<le> i \<and> i < 2 ^ 64)"

fun json_value_to_py :: "json_value \<Rightarrow> py" where
  "json_value_to_py JNull = PyNone"
| "json_value_to_py (JBool b) = PyBool b"
| "json_value_to_py (JInt i) = (if i64_range i then PyInt i else if u64_range i then PyInt i else PyInt 0)"
| "json_value_to_py (JFloat f) = PyFloat (Some f)"
| "json_value_to_py (JString s) = PyStr s"
| "json_value_to_py (JArray xs) = PyList (map json_value_to_py xs)"
| "json_value_to_py (JObject kvs) = PyDict (map (\<lambda>(k, v). (PyStr k, json_value_to_py v)) kvs)"

text \<open>A loop with \<open>?\<close>: the results in order, or the first error.\<close>

fun all_ok :: "('e + 'a) list \<Rightarrow> 'e + 'a list" where
  "all_ok [] = Ok []"
| "all_ok (r # rs) =
     (case r of Err e \<Rightarrow> Err e | Ok x \<Rightarrow> (case all_ok rs of Err e \<Rightarrow> Err e | Ok xs \<Rightarrow> Ok (x # xs)))"

definition insert_all :: "(string \<times> 'v) list \<Rightarrow> (string \<times> 'v) list" where
  "insert_all kvs = fold (\<lambda>(k, v). AList.update k v) kvs []"

definition key_str :: "(py \<Rightarrow> string + string) \<Rightarrow> py \<Rightarrow> string + string" where
  "key_str str k = (case k of PyStr s \<Rightarrow> Ok s | _ \<Rightarrow> str k)"

text \<open>\<open>str\<close> is Python's \<open>str()\<close>, which may raise.\<close>

fun py_to_json_value :: "(py \<Rightarrow> string + string) \<Rightarrow> py \<Rightarrow> string + json_value" where
  "py_to_json_value str PyNone = Ok JNull"
| "py_to_json_value str (PyBool b) = Ok (JBool b)"
| "py_to_json_value str (PyInt i) =
     (if i64_range i then Ok (JInt i)
      else if u64_range i then Ok (JInt i)
      else map_sum (\<lambda>e. e) JString (str (PyInt i)))"
| "py_to_json_value str (PyFloat f) = Ok (case f of Some r \<Rightarrow> JFloat r | None \<Rightarrow> JNull)"
| "py_to_json_value str (PyStr s) = Ok (JString s)"
| "py_to_json_value str (PyDict kvs) =
     map_sum (\<lambda>e. e) (\<lambda>es. JObject (insert_all es))
       (all_ok (map (\<lambda>(k, v). case key_str str k of
                                Err e \<Rightarrow> Err e
                              | Ok s \<Rightarrow> map_sum (\<lambda>e. e) (\<lambda>j. (s, j)) (py_to_json_value str v)) kvs))"
| "py_to_json_value str (PyList xs) = map_sum (\<lambda>e. e) JArray (all_ok (map (py_to_json_value str) xs))"
| "py_to_json_value str (PyOther n bytes items attrs) =
     (case bytes of
        Some b \<Rightarrow> Ok (JString (if utf8_valid b then b else utf8_lossy b))
      | None \<Rightarrow>
     (case items of
        Some (xs, exn) \<Rightarrow>
          (case all_ok (map (py_to_json_value str) xs) of
             Err e \<Rightarrow> Err e
           | Ok js \<Rightarrow> (case exn of Some e \<Rightarrow> Err e | None \<Rightarrow> Ok (JArray js)))
      | None \<Rightarrow>
     (case attrs of
        Some kvs \<Rightarrow>
          map_sum (\<lambda>e. e) (\<lambda>es. JObject (insert_all (concat es)))
            (all_ok (map (\<lambda>(k, v). case str k of
                                     Err e \<Rightarrow> Err e
                                   | Ok s \<Rightarrow>
                                       if starts_with s ''_'' then Ok []
                                       else map_sum (\<lambda>e. e) (\<lambda>j. [(s, j)]) (py_to_json_value str v)) kvs))
      | None \<Rightarrow> map_sum (\<lambda>e. e) JString (str (PyOther n bytes items attrs)))))"

subsection \<open>Parsing and serializing\<close>

text \<open>The codec: simd-json for parsing and compact output, serde_json for pretty output.\<close>

record json_codec =
  jd_from_slice :: "string \<Rightarrow> string + json_value"
  jd_to_vec :: "json_value \<Rightarrow> string + string"
  jd_to_string_pretty :: "json_value \<Rightarrow> string + string"

definition parse_json_to_py :: "json_codec \<Rightarrow> string \<Rightarrow> string + py" where
  "parse_json_to_py cd bytes =
     (case jd_from_slice cd bytes of Ok v \<Rightarrow> Ok (json_value_to_py v) | Err e \<Rightarrow> Err (''JSON parse error: '' @ e))"

definition serialize_with :: "(json_value \<Rightarrow> string + string) \<Rightarrow> (py \<Rightarrow> string + string) \<Rightarrow> py \<Rightarrow> string + string" where
  "serialize_with write str ob =
     (case py_to_json_value str ob of
        Err e \<Rightarrow> Err e
      | Ok v \<Rightarrow> map_sum (\<lambda>e. ''JSON serialization error: '' @ e) (\<lambda>s. s) (write v))"

definition serialize_py_to_json :: "json_codec \<Rightarrow> (py \<Rightarrow> string + string) \<Rightarrow> py \<Rightarrow> string + string" where
  "serialize_py_to_json cd str ob = serialize_with (jd_to_vec cd) str ob"

definition serialize_py_to_json_pretty :: "json_codec \<Rightarrow> (py \<Rightarrow> string + string) \<Rightarrow> py \<Rightarrow> string + string" where
  "serialize_py_to_json_pretty cd str ob = serialize_with (jd_to_string_pretty cd) str ob"

subsection \<open>Well-formed values\<close>

text \<open>
  The values a \<open>serde_json::Value\<close> can hold: integers of 64 bits, signed or unsigned, and objects
  without repeated keys.
\<close>

fun wf_json :: "json_value \<Rightarrow> bool" where
  "wf_json (JInt i) = (i64_range i \<or> u64_range i)"
| "wf_json (JArray xs) = list_all wf_json xs"
| "wf_json (JObject kvs) = (wf_map kvs \<and> list_all (\<lambda>(k, v). wf_json v) kvs)"
| "wf_json _ = True"

lemma all_ok_Ok [simp]: "all_ok (map Inr xs) = Ok xs"
  by (induction xs) simp_all

lemma all_ok_mem: "all_ok rs = Ok ys \<Longrightarrow> y \<in> set ys \<Longrightarrow> Ok y \<in> set rs"
  by (induction rs arbitrary: ys) (auto split: sum.splits)

lemma all_ok_length: "all_ok rs = Ok ys \<Longrightarrow> length ys = length rs"
  by (induction rs arbitrary: ys rule: all_ok.induct) (auto split: sum.splits simp: map_sum_def)

lemma map_sum_Ok: "map_sum f g r = Ok y \<longleftrightarrow> (\<exists>x. r = Ok x \<and> y = g x)"
  by (cases r) auto

lemma insert_all_fold_wf [kept]: "wf_map m \<Longrightarrow> wf_map (fold (\<lambda>(k, v). AList.update k v) kvs m)"
  by (induction kvs arbitrary: m) auto

lemma insert_all_fold_set: "set (fold (\<lambda>(k, v). AList.update k v) kvs m) \<subseteq> set kvs \<union> set m"
proof (induction kvs arbitrary: m)
  case (Cons kv kvs)
  obtain k v where kv: "kv = (k, v)" by (cases kv)
  show ?case using Cons.IH [of "AList.update k v m"] set_update_subset [of k v m] by (auto simp: kv)
qed simp

lemma insert_all_wf: "wf_map (insert_all kvs)" "set (insert_all kvs) \<subseteq> set kvs"
  using insert_all_fold_wf [of "[]" kvs] insert_all_fold_set [of kvs "[]"] by (simp_all add: insert_all_def)

lemma insert_all_fold_distinct:
  "wf_map (m @ kvs) \<Longrightarrow> fold (\<lambda>(k, v). AList.update k v) kvs m = m @ kvs"
proof (induction kvs arbitrary: m)
  case (Cons kv kvs)
  obtain k v where kv: "kv = (k, v)" by (cases kv)
  have "AList.update k v m = m @ [(k, v)]" using Cons.prems by (intro update_new) (auto simp: wf_map_def kv)
  with Cons.IH [of "m @ [(k, v)]"] Cons.prems show ?case by (simp add: kv)
qed simp

lemma insert_all_distinct: "wf_map kvs \<Longrightarrow> insert_all kvs = kvs"
  using insert_all_fold_distinct [of "[]" kvs] by (simp add: insert_all_def)

lemma wf_array:
  assumes "all_ok (map f xs) = Ok js" "\<And>x j. x \<in> set xs \<Longrightarrow> f x = Ok j \<Longrightarrow> wf_json j"
  shows "wf_json (JArray js)"
proof -
  have "wf_json j" if "j \<in> set js" for j using all_ok_mem [OF assms(1) that] assms(2) by auto
  then show ?thesis by (simp add: list_all_iff)
qed

lemma wf_object:
  assumes "all_ok (map f xs) = Ok es" "\<And>x e k v. x \<in> set xs \<Longrightarrow> f x = Ok e \<Longrightarrow> (k, v) \<in> set (g e) \<Longrightarrow> wf_json v"
  shows "wf_json (JObject (insert_all (concat (map g es))))"
proof -
  have "wf_json v" if kv: "(k, v) \<in> set (concat (map g es))" for k v
  proof -
    obtain e where e: "e \<in> set es" "(k, v) \<in> set (g e)" using kv by auto
    obtain x where "x \<in> set xs" "f x = Ok e" using all_ok_mem [OF assms(1) e(1)] by auto
    with e(2) show ?thesis by (intro assms(2))
  qed
  with insert_all_wf [of "concat (map g es)"] show ?thesis by (auto simp: list_all_iff)
qed

lemma py_to_json_wf: "py_to_json_value str p = Ok j \<Longrightarrow> wf_json j"
proof (induction str p arbitrary: j rule: py_to_json_value.induct)
  case (3 str i)
  then show ?case by (auto simp: map_sum_Ok split: if_splits)
next
  case (6 str kvs)
  let ?f = "\<lambda>(k, v). case key_str str k of Err e \<Rightarrow> Err e
              | Ok s \<Rightarrow> map_sum (\<lambda>e. e) (\<lambda>j. (s, j)) (py_to_json_value str v)"
  from 6(2) obtain es where es: "j = JObject (insert_all es)" "all_ok (map ?f kvs) = Ok es" by (auto simp: map_sum_Ok)
  have "wf_json (JObject (insert_all (concat (map (\<lambda>x. [x]) es))))"
    by (rule wf_object [OF es(2)]) (use 6(1) in \<open>auto simp: map_sum_Ok split: sum.splits\<close>)
  with es(1) show ?case by (simp del: wf_json.simps)
next
  case (7 str xs)
  then obtain js where js: "j = JArray js" "all_ok (map (py_to_json_value str) xs) = Ok js" by (auto simp: map_sum_Ok)
  show ?case unfolding js(1) by (rule wf_array [OF js(2)]) (rule 7(1))
next
  case (8 str n bytes items attrs)
  consider b where "bytes = Some b" | xs exn where "bytes = None" "items = Some (xs, exn)"
    | kvs where "bytes = None" "items = None" "attrs = Some kvs" | "bytes = None" "items = None" "attrs = None"
    by (cases bytes; cases items; cases attrs) auto
  then show ?case
  proof cases
    case 2
    with 8(3) obtain js where js: "j = JArray js" "all_ok (map (py_to_json_value str) xs) = Ok js"
      by (auto split: sum.splits option.splits)
    show ?thesis unfolding js(1) by (rule wf_array [OF js(2)]) (use 8(2) [of "(xs, exn)" xs exn] 2 in auto)
  next
    case 3
    let ?f = "\<lambda>(k, v). case str k of Err e \<Rightarrow> Err e | Ok s \<Rightarrow> if starts_with s ''_'' then Ok []
                else map_sum (\<lambda>e. e) (\<lambda>j. [(s, j)]) (py_to_json_value str v)"
    from 8(3) 3 obtain es where es: "j = JObject (insert_all (concat es))" "all_ok (map ?f kvs) = Ok es"
      by (auto simp: map_sum_Ok)
    have "wf_json (JObject (insert_all (concat (map (\<lambda>e. e) es))))"
      by (rule wf_object [OF es(2)]) (use 8(1) [of kvs] 3 in \<open>auto simp: map_sum_Ok split: sum.splits if_splits\<close>)
    with es(1) show ?thesis by (simp del: wf_json.simps)
  qed (use 8(3) in \<open>auto simp: map_sum_Ok\<close>)
qed (auto split: option.splits)

subsection \<open>Round trips\<close>

lemma json_py_json: "wf_json j \<Longrightarrow> py_to_json_value str (json_value_to_py j) = Ok j"
proof (induction j rule: wf_json.induct)
  case (2 xs)
  then have "map (py_to_json_value str) (map json_value_to_py xs) = map Inr xs" by (simp add: list_all_iff)
  then show ?case by (simp del: map_map)
next
  case (3 kvs)
  have "map (\<lambda>(k, v). case key_str str k of Err e \<Rightarrow> Err e | Ok s \<Rightarrow> map_sum (\<lambda>e. e) (\<lambda>j. (s, j)) (py_to_json_value str v))
      (map (\<lambda>(k, v). (PyStr k, json_value_to_py v)) kvs) = map Inr kvs"
    using 3 by (fastforce simp: list_all_iff key_str_def)
  then show ?case using 3(2) by (simp del: map_map add: insert_all_distinct)
qed auto

text \<open>The Python objects that JSON describes without loss.\<close>

fun plain :: "py \<Rightarrow> bool" where
  "plain PyNone = True"
| "plain (PyBool b) = True"
| "plain (PyInt i) = (i64_range i \<or> u64_range i)"
| "plain (PyFloat f) = (f \<noteq> None)"
| "plain (PyStr s) = True"
| "plain (PyDict kvs) = (list_all (\<lambda>(k, v). (\<exists>s. k = PyStr s) \<and> plain v) kvs \<and> distinct (map fst kvs))"
| "plain (PyList xs) = list_all plain xs"
| "plain (PyOther n bytes items attrs) = False"

lemma plain_to_json: "plain p \<Longrightarrow> \<exists>j. py_to_json_value str p = Ok j \<and> json_value_to_py j = p"
proof (induction p rule: plain.induct)
  case (4 f)
  then show ?case by (cases f) auto
next
  case (6 kvs)
  have "\<exists>k w. fst kv = PyStr k \<and> py_to_json_value str (snd kv) = Ok w \<and> json_value_to_py w = snd kv" if "kv \<in> set kvs" for kv
    using 6 that by (cases kv) (fastforce simp: list_all_iff)
  then obtain g h where gh: "\<And>kv. kv \<in> set kvs \<Longrightarrow> fst kv = PyStr (g kv) \<and>
      py_to_json_value str (snd kv) = Ok (h kv) \<and> json_value_to_py (h kv) = snd kv"
    by metis
  let ?es = "map (\<lambda>kv. (g kv, h kv)) kvs"
  have ok: "map (\<lambda>(k, v). case key_str str k of Err e \<Rightarrow> Err e | Ok s \<Rightarrow> map_sum (\<lambda>e. e) (\<lambda>j. (s, j)) (py_to_json_value str v)) kvs = map Inr ?es"
    unfolding map_map by (rule map_cong [OF refl]) (use gh in \<open>simp add: key_str_def case_prod_unfold\<close>)
  have keys: "map fst kvs = map PyStr (map g kvs)" using gh by simp
  have "distinct (map PyStr (map g kvs))" using 6(2) unfolding keys [symmetric] by simp
  then have "distinct (map g kvs)" unfolding distinct_map by blast
  then have "wf_map ?es" by (simp add: wf_map_def comp_def)
  moreover have "map (\<lambda>(k, v). (PyStr k, json_value_to_py v)) ?es = kvs"
    unfolding map_map by (rule map_idI) (use gh in \<open>auto intro: prod_eqI\<close>)
  ultimately show ?case by (simp add: ok insert_all_distinct del: map_map)
next
  case (7 xs)
  then have "\<exists>j. py_to_json_value str x = Ok j \<and> json_value_to_py j = x" if "x \<in> set xs" for x
    using that by (simp add: list_all_iff)
  then obtain h where h: "\<And>x. x \<in> set xs \<Longrightarrow> py_to_json_value str x = Ok (h x) \<and> json_value_to_py (h x) = x" by metis
  have "map (py_to_json_value str) xs = map Inr (map h xs)" using h by simp
  moreover have "map json_value_to_py (map h xs) = xs" unfolding map_map by (rule map_idI) (simp add: h)
  ultimately show ?case by (simp del: map_map)
qed auto

lemma json_to_plain: "wf_json j \<Longrightarrow> plain (json_value_to_py j)"
proof (induction j rule: wf_json.induct)
  case (3 kvs)
  have "map fst (map (\<lambda>(k, v). (PyStr k, json_value_to_py v)) kvs) = map PyStr (map fst kvs)" by (simp add: case_prod_unfold)
  moreover have "distinct (map PyStr (map fst kvs))" using 3(2) by (simp add: wf_map_def distinct_map inj_on_def)
  ultimately have "distinct (map fst (map (\<lambda>(k, v). (PyStr k, json_value_to_py v)) kvs))" by argo
  with 3 show ?case by (auto simp: list_all_iff)
qed (auto simp: list_all_iff)



text \<open>With a codec that reads what it writes, parsing undoes serializing on plain objects.\<close>

lemma serialize_parse:
  assumes "\<And>j b. jd_to_vec cd j = Ok b \<Longrightarrow> jd_from_slice cd b = Ok j" "plain p" "serialize_py_to_json cd str p = Ok b"
  shows "parse_json_to_py cd b = Ok p"
proof -
  obtain j where j: "py_to_json_value str p = Ok j" "json_value_to_py j = p" using plain_to_json [OF assms(2)] by blast
  with assms(3) have "jd_to_vec cd j = Ok b" by (cases "jd_to_vec cd j") (auto simp: serialize_py_to_json_def serialize_with_def)
  with j assms(1) show ?thesis by (simp add: parse_json_to_py_def)
qed

subsection \<open>What changes on the way\<close>

text \<open>
  An object from which \<open>Vec<u8>\<close> can be extracted, such as a tuple of small integers, is written as a
  string; NaN and the infinities become null, and integers beyond 64 bits strings.
\<close>

lemma small_tuple_is_string:
  "py_to_json_value str (PyOther n (Some [CHR 0x41, CHR 0x42]) (Some ([PyInt 65, PyInt 66], None)) None) = Ok (JString ''AB'')"
  by simp

lemma not_a_number_is_null: "py_to_json_value str (PyFloat None) = Ok JNull"
  by simp

lemma big_int_is_string: "\<not> i64_range i \<Longrightarrow> \<not> u64_range i \<Longrightarrow> str (PyInt i) = Ok s \<Longrightarrow> py_to_json_value str (PyInt i) = Ok (JString s)"
  by simp

end
