(* ===== verification/Row_Converter.thy ===== *)
theory Row_Converter
  imports Json_Values
begin

text \<open>
  Database values (\<open>src/database/row_converter.rs\<close>): Python parameters to the dynamic parameter type,
  the integer and float coercions done when a parameter is written for a column type, and rows to
  Python dictionaries. Rust integers are words; the postgres driver's typed getters, pyo3's
  extractions, Python's \<open>json_value.dumps\<close> and the float and decimal conversions are parameters.
\<close>

subsection \<open>Parameters\<close>

type_synonym date = "int \<times> nat \<times> nat"
type_synonym time_of_day = "nat \<times> nat \<times> nat \<times> nat"

text \<open>Times count nanoseconds in chrono and microseconds in Python; both are hour, minute, second, fraction.\<close>

datatype 'd dyn_param =
  DPNull | DPBool bool | DPI16 "16 word" | DPI32 "32 word" | DPI64 "64 word" | DPF32 real | DPF64 real
| DPDecimal 'd | DPText string | DPBytes string | DPDate date | DPTime time_of_day | DPTimestamp date time_of_day
| DPJson json_value

datatype pg_type =
  BOOL | INT2 | INT4 | INT8 | FLOAT4 | FLOAT8 | NUMERIC | TEXT | VARCHAR | BPCHAR | NAME | BYTEA | DATE | TIME
| TIMESTAMP | TIMESTAMPTZ | JSON_TY | JSONB | OtherType string

text \<open>The typed value handed to the driver's encoder.\<close>

datatype 'd sql_value =
  SqlNull | SqlBool bool | SqlI16 "16 word" | SqlI32 "32 word" | SqlI64 "64 word" | SqlF32 real | SqlF64 real
| SqlDecimal 'd | SqlText string | SqlBytes string | SqlDate date | SqlTime time_of_day | SqlTimestamp date time_of_day
| SqlJson json_value

text \<open>\<open>as f32\<close> and the conversions to \<open>Decimal\<close> that may fail, with its default.\<close>

record 'd float_lib =
  fl_as_f32 :: "real \<Rightarrow> real"
  fl_from_f32 :: "real \<Rightarrow> 'd option"
  fl_from_f64 :: "real \<Rightarrow> 'd option"
  fl_default :: 'd

definition decimal_or_default :: "'d float_lib \<Rightarrow> 'd option \<Rightarrow> 'd" where
  "decimal_or_default fl x = (case x of Some d \<Rightarrow> d | None \<Rightarrow> fl_default fl)"

fun to_sql :: "'d float_lib \<Rightarrow> 'd dyn_param \<Rightarrow> pg_type \<Rightarrow> 'd sql_value" where
  "to_sql fl DPNull ty = SqlNull"
| "to_sql fl (DPBool v) ty = SqlBool v"
| "to_sql fl (DPI16 v) ty =
     (case ty of INT2 \<Rightarrow> SqlI16 v | INT4 \<Rightarrow> SqlI32 (scast v) | INT8 \<Rightarrow> SqlI64 (scast v) | _ \<Rightarrow> SqlI16 v)"
| "to_sql fl (DPI32 v) ty =
     (case ty of INT2 \<Rightarrow> SqlI16 (scast v) | INT4 \<Rightarrow> SqlI32 v | INT8 \<Rightarrow> SqlI64 (scast v) | _ \<Rightarrow> SqlI32 v)"
| "to_sql fl (DPI64 v) ty =
     (case ty of INT2 \<Rightarrow> SqlI16 (scast v) | INT4 \<Rightarrow> SqlI32 (scast v) | INT8 \<Rightarrow> SqlI64 v | _ \<Rightarrow> SqlI64 v)"
| "to_sql fl (DPF32 v) ty =
     (case ty of FLOAT4 \<Rightarrow> SqlF32 v | FLOAT8 \<Rightarrow> SqlF64 v
      | NUMERIC \<Rightarrow> SqlDecimal (decimal_or_default fl (fl_from_f32 fl v)) | _ \<Rightarrow> SqlF32 v)"
| "to_sql fl (DPF64 v) ty =
     (case ty of FLOAT4 \<Rightarrow> SqlF32 (fl_as_f32 fl v) | FLOAT8 \<Rightarrow> SqlF64 v
      | NUMERIC \<Rightarrow> SqlDecimal (decimal_or_default fl (fl_from_f64 fl v)) | _ \<Rightarrow> SqlF64 v)"
| "to_sql fl (DPDecimal v) ty = SqlDecimal v"
| "to_sql fl (DPText v) ty = SqlText v"
| "to_sql fl (DPBytes v) ty = SqlBytes v"
| "to_sql fl (DPDate v) ty = SqlDate v"
| "to_sql fl (DPTime v) ty = SqlTime v"
| "to_sql fl (DPTimestamp d t) ty = SqlTimestamp d t"
| "to_sql fl (DPJson v) ty = SqlJson v"

fun type_name :: "pg_type \<Rightarrow> string" where
  "type_name BOOL = ''bool''" | "type_name INT2 = ''int2''" | "type_name INT4 = ''int4''" | "type_name INT8 = ''int8''"
| "type_name FLOAT4 = ''float4''" | "type_name FLOAT8 = ''float8''" | "type_name NUMERIC = ''numeric''"
| "type_name TEXT = ''text''" | "type_name VARCHAR = ''varchar''" | "type_name BPCHAR = ''bpchar''" | "type_name NAME = ''name''"
| "type_name BYTEA = ''bytea''" | "type_name DATE = ''date''" | "type_name TIME = ''time''" | "type_name TIMESTAMP = ''timestamp''"
| "type_name TIMESTAMPTZ = ''timestamptz''" | "type_name JSON_TY = ''json''" | "type_name JSONB = ''jsonb''"
| "type_name (OtherType n) = n"

definition accepts_type :: "pg_type \<Rightarrow> bool" where
  "accepts_type ty =
     (ty \<in> {BOOL, INT2, INT4, INT8, FLOAT4, FLOAT8, NUMERIC, TEXT, VARCHAR, BYTEA, DATE, TIME, TIMESTAMP, TIMESTAMPTZ, JSON_TY, JSONB} \<or>
      type_name ty = ''text'' \<or> type_name ty = ''varchar'' \<or> type_name ty = ''numeric'')"

text \<open>
  What the code asks of a Python parameter: extraction at each type, the date types, whether it is a
  dictionary or list, \<open>json_value.dumps\<close> followed by extracting the string (both may raise), and \<open>str()\<close>.
\<close>

record 'o param_py =
  pp_is_none :: "'o \<Rightarrow> bool"
  pp_bool :: "'o \<Rightarrow> bool option"
  pp_i64 :: "'o \<Rightarrow> int option"
  pp_f64 :: "'o \<Rightarrow> real option"
  pp_string :: "'o \<Rightarrow> string option"
  pp_datetime :: "'o \<Rightarrow> (date \<times> time_of_day) option"
  pp_date :: "'o \<Rightarrow> date option"
  pp_time :: "'o \<Rightarrow> time_of_day option"
  pp_container :: "'o \<Rightarrow> bool"
  pp_dumps :: "'o \<Rightarrow> string + string"
  pp_bytes :: "'o \<Rightarrow> string option"
  pp_str :: "'o \<Rightarrow> string + string"

definition micros_to_nanos :: "time_of_day \<Rightarrow> time_of_day" where
  "micros_to_nanos t = (case t of (h, m, s, us) \<Rightarrow> (h, m, s, us * 1000))"

definition convert_param :: "'o param_py \<Rightarrow> (string \<Rightarrow> string + json_value) \<Rightarrow> 'o \<Rightarrow> string + 'd dyn_param" where
  "convert_param py from_str ob =
     (if pp_is_none py ob then Ok DPNull
      else case pp_bool py ob of Some b \<Rightarrow> Ok (DPBool b) | None \<Rightarrow>
      (case pp_i64 py ob of Some i \<Rightarrow> Ok (DPI64 (of_int i)) | None \<Rightarrow>
      (case pp_f64 py ob of Some f \<Rightarrow> Ok (DPF64 f) | None \<Rightarrow>
      (case pp_string py ob of Some s \<Rightarrow> Ok (DPText s) | None \<Rightarrow>
      (case pp_datetime py ob of Some (d, t) \<Rightarrow> Ok (DPTimestamp d (micros_to_nanos t)) | None \<Rightarrow>
      (case pp_date py ob of Some d \<Rightarrow> Ok (DPDate d) | None \<Rightarrow>
      (case pp_time py ob of Some t \<Rightarrow> Ok (DPTime (micros_to_nanos t)) | None \<Rightarrow>
       if pp_container py ob then
         (case pp_dumps py ob of
            Err e \<Rightarrow> Err e
          | Ok s \<Rightarrow> Ok (DPJson (case from_str s of Ok v \<Rightarrow> v | Err _ \<Rightarrow> JNull)))
       else
      (case pp_bytes py ob of Some b \<Rightarrow> Ok (DPBytes b) | None \<Rightarrow> map_sum (\<lambda>e. e) DPText (pp_str py ob)))))))))"

definition convert_params_from_py ::
  "'o param_py \<Rightarrow> (string \<Rightarrow> string + json_value) \<Rightarrow> 'o list \<Rightarrow> string + 'd dyn_param list" where
  "convert_params_from_py py from_str params = all_ok (map (convert_param py from_str) params)"

subsection \<open>Rows\<close>

text \<open>
  The value of a cell read at a Rust type: \<open>None\<close> when the driver refuses the conversion,
  \<open>Some None\<close> for SQL's NULL.
\<close>

record ('d, 'c) pg_row =
  pr_bool :: "'c \<Rightarrow> bool option option"
  pr_i16 :: "'c \<Rightarrow> 16 word option option"
  pr_i32 :: "'c \<Rightarrow> 32 word option option"
  pr_i64 :: "'c \<Rightarrow> 64 word option option"
  pr_f32 :: "'c \<Rightarrow> real option option"
  pr_f64 :: "'c \<Rightarrow> real option option"
  pr_string :: "'c \<Rightarrow> string option option"
  pr_bytes :: "'c \<Rightarrow> string option option"
  pr_date :: "'c \<Rightarrow> date option option"
  pr_time :: "'c \<Rightarrow> time_of_day option option"
  pr_timestamp :: "'c \<Rightarrow> (date \<times> time_of_day) option option"
  pr_json :: "'c \<Rightarrow> json_value option option"
  pr_decimal :: "'c \<Rightarrow> 'd option option"
  pr_decimal_string :: "'d \<Rightarrow> string"

datatype db_value =
  DbNone | DbBool bool | DbInt int | DbFloat real | DbStr string | DbBytes string | DbDate date | DbTime time_of_day
| DbDateTime date time_of_day | DbDecimal string | DbJson py | DbStrs "string list" | DbInts "int list"

definition nanos_to_micros :: "time_of_day \<Rightarrow> time_of_day" where
  "nanos_to_micros t = (case t of (h, m, s, ns) \<Rightarrow> (h, m, s, ns div 1000))"

text \<open>
  The constructors of Python's \<open>date\<close>, \<open>time\<close> and \<open>datetime\<close> raise outside their range: years 1 to
  9999, and fewer than a million microseconds, which a leap second of the driver exceeds.
\<close>

definition py_date_new :: "date \<Rightarrow> string + db_value" where
  "py_date_new d = (if 1 \<le> fst d \<and> fst d \<le> 9999 then Ok (DbDate d) else Err ''year is out of range'')"

definition py_time_new :: "time_of_day \<Rightarrow> string + db_value" where
  "py_time_new t =
     (if snd (snd (snd t)) < 1000000 then Ok (DbTime t) else Err ''microsecond must be in 0..999999'')"

definition py_datetime_new :: "date \<Rightarrow> time_of_day \<Rightarrow> string + db_value" where
  "py_datetime_new d t =
     (case py_date_new d of
        Err e \<Rightarrow> Err e
      | Ok _ \<Rightarrow> (case py_time_new t of Err e \<Rightarrow> Err e | Ok _ \<Rightarrow> Ok (DbDateTime d t)))"

text \<open>\<open>Ok(Some(v))\<close> gives the object, or what building it raises; \<open>Ok(None)\<close> and every error give \<open>None\<close>.\<close>

definition or_none :: "('a \<Rightarrow> string + db_value) \<Rightarrow> 'a option option \<Rightarrow> string + db_value" where
  "or_none f r = (case r of Some (Some v) \<Rightarrow> f v | _ \<Rightarrow> Ok DbNone)"

fun json_to_py :: "json_value \<Rightarrow> py" where
  "json_to_py JNull = PyNone"
| "json_to_py (JBool b) = PyBool b"
| "json_to_py (JInt i) = (if i64_range i then PyInt i else PyFloat (Some (real_of_int i)))"
| "json_to_py (JFloat f) = PyFloat (Some f)"
| "json_to_py (JString s) = PyStr s"
| "json_to_py (JArray xs) = PyList (map json_to_py xs)"
| "json_to_py (JObject kvs) = PyDict (map (\<lambda>(k, v). (PyStr k, json_to_py v)) kvs)"

definition cell_to_py :: "('d, 'c) pg_row \<Rightarrow> pg_type \<Rightarrow> 'c \<Rightarrow> string + db_value" where
  "cell_to_py pg ty c =
     (case ty of
        BOOL \<Rightarrow> or_none (\<lambda>v. Ok (DbBool v)) (pr_bool pg c)
      | INT2 \<Rightarrow> or_none (\<lambda>v. Ok (DbInt (sint v))) (pr_i16 pg c)
      | INT4 \<Rightarrow> or_none (\<lambda>v. Ok (DbInt (sint v))) (pr_i32 pg c)
      | INT8 \<Rightarrow> or_none (\<lambda>v. Ok (DbInt (sint v))) (pr_i64 pg c)
      | FLOAT4 \<Rightarrow> or_none (\<lambda>v. Ok (DbFloat v)) (pr_f32 pg c)
      | FLOAT8 \<Rightarrow> or_none (\<lambda>v. Ok (DbFloat v)) (pr_f64 pg c)
      | TEXT \<Rightarrow> or_none (\<lambda>v. Ok (DbStr v)) (pr_string pg c)
      | VARCHAR \<Rightarrow> or_none (\<lambda>v. Ok (DbStr v)) (pr_string pg c)
      | BPCHAR \<Rightarrow> or_none (\<lambda>v. Ok (DbStr v)) (pr_string pg c)
      | NAME \<Rightarrow> or_none (\<lambda>v. Ok (DbStr v)) (pr_string pg c)
      | BYTEA \<Rightarrow> or_none (\<lambda>v. Ok (DbBytes v)) (pr_bytes pg c)
      | DATE \<Rightarrow> or_none py_date_new (pr_date pg c)
      | TIME \<Rightarrow> or_none (\<lambda>t. py_time_new (nanos_to_micros t)) (pr_time pg c)
      | TIMESTAMP \<Rightarrow> or_none (\<lambda>(d, t). py_datetime_new d (nanos_to_micros t)) (pr_timestamp pg c)
      | TIMESTAMPTZ \<Rightarrow> or_none (\<lambda>(d, t). py_datetime_new d (nanos_to_micros t)) (pr_timestamp pg c)
      | JSON_TY \<Rightarrow> or_none (\<lambda>j. Ok (DbJson (json_to_py j))) (pr_json pg c)
      | JSONB \<Rightarrow> or_none (\<lambda>j. Ok (DbJson (json_to_py j))) (pr_json pg c)
      | NUMERIC \<Rightarrow>
          (case pr_decimal pg c of
             Some (Some d) \<Rightarrow> Ok (DbDecimal (pr_decimal_string pg d))
           | Some None \<Rightarrow> Ok DbNone
           | None \<Rightarrow> or_none (\<lambda>v. Ok (DbStr v)) (pr_string pg c))
      | OtherType n \<Rightarrow> or_none (\<lambda>v. Ok (DbStr v)) (pr_string pg c))"

text \<open>A value that cannot be built ends the conversion of the row.\<close>

definition row_to_py_dict :: "('d, 'c) pg_row \<Rightarrow> (string \<times> pg_type \<times> 'c) list \<Rightarrow> string + (string \<times> db_value) list" where
  "row_to_py_dict pg cols =
     map_sum (\<lambda>e. e) insert_all
       (all_ok (map (\<lambda>(name, ty, c). map_sum (\<lambda>e. e) (Pair name) (cell_to_py pg ty c)) cols))"

subsection \<open>Integers at their width\<close>

definition int_of_sql :: "'d sql_value \<Rightarrow> int option" where
  "int_of_sql v = (case v of SqlI16 w \<Rightarrow> Some (sint w) | SqlI32 w \<Rightarrow> Some (sint w) | SqlI64 w \<Rightarrow> Some (sint w) | _ \<Rightarrow> None)"

text \<open>The number of bits of an integer column.\<close>

fun int_width :: "pg_type \<Rightarrow> nat" where
  "int_width INT2 = 16"
| "int_width INT4 = 32"
| "int_width _ = 64"

lemma sint_scast: "sint (scast (v :: 'a::len word) :: 'b::len word) = signed_take_bit (LENGTH('b) - 1) (sint v)"
  by (simp add: signed_scast_eq)

lemma sint_range64: "- (2 ^ 63) \<le> sint (v :: 64 word)" "sint (v :: 64 word) < 2 ^ 63"
  using sint_ge [of v] sint_lt [of v] by simp_all

text \<open>
  An integer parameter is written at the width of its column: what reaches an \<open>int2\<close>, \<open>int4\<close>
  or \<open>int8\<close> column (any other type gets 64 bits) is the number reduced to that width, and it is the
  number itself exactly when it lies in the column's range.
\<close>

theorem int_param_width:
  "\<exists>i. int_of_sql (to_sql fl (DPI64 v) ty) = Some i \<and>
     i = signed_take_bit (int_width ty - 1) (sint v) \<and>
     (i = sint v \<longleftrightarrow> - (2 ^ (int_width ty - 1)) \<le> sint v \<and> sint v < 2 ^ (int_width ty - 1))"
proof -
  have self: "signed_take_bit 63 (sint v) = sint v"
    using sint_range64 [of v] by (simp add: signed_take_bit_int_eq_self_iff)
  have "int_of_sql (to_sql fl (DPI64 v) ty) = Some (signed_take_bit (int_width ty - 1) (sint v))"
    by (cases ty) (simp_all add: int_of_sql_def sint_scast self)
  then show ?thesis by (auto simp: signed_take_bit_int_eq_self_iff)
qed

text \<open>So a number outside the column's range is silently changed.\<close>

lemma int_param_truncated: "int_of_sql (to_sql fl (DPI64 70000) INT2) = Some 4464"
  by (simp add: int_of_sql_def sint_scast)

subsection \<open>Reading rows\<close>

text \<open>The integers of a JSON column that fit 64 signed bits.\<close>

fun small_ints :: "json_value \<Rightarrow> bool" where
  "small_ints (JInt i) = i64_range i"
| "small_ints (JArray xs) = list_all small_ints xs"
| "small_ints (JObject kvs) = list_all (\<lambda>(k, v). small_ints v) kvs"
| "small_ints _ = True"

lemma json_to_py_agrees: "small_ints j \<Longrightarrow> json_to_py j = json_value_to_py j"
  by (induction j rule: small_ints.induct) (auto simp: list_all_iff)

lemma json_to_py_big: "json_to_py (JInt (2 ^ 63)) = PyFloat (Some (2 ^ 63))" "json_value_to_py (JInt (2 ^ 63)) = PyInt (2 ^ 63)"
  by (simp_all add: i64_range_def u64_range_def)

text \<open>Pairing names with converted cells succeeds when all conversions do.\<close>

lemma all_ok_named:
  "all_ok (map (\<lambda>(name, x). map_sum (\<lambda>e. e) (Pair name) (conv x)) cols)
   = map_sum (\<lambda>e. e) (zip (map fst cols)) (all_ok (map (\<lambda>(name, x). conv x) cols))"
proof (induction cols)
  case (Cons c cols)
  obtain n x where c: "c = (n, x)" by force
  with Cons.IH show ?case
    by (cases "conv x"; cases "all_ok (map (\<lambda>(name, x). conv x) cols)") simp_all
qed simp

lemma named_insert_all:
  assumes "distinct (map fst cols)"
  shows "map_sum (\<lambda>e. e) insert_all (all_ok (map (\<lambda>(name, x). map_sum (\<lambda>e. e) (Pair name) (conv x)) cols))
       = map_sum (\<lambda>e. e) (zip (map fst cols)) (all_ok (map (\<lambda>(name, x). conv x) cols))"
proof (cases "all_ok (map (\<lambda>(name, x). conv x) cols)")
  case (Inr vs)
  then have "length vs = length cols" by (auto dest: all_ok_length)
  with assms have "wf_map (zip (map fst cols) vs)" by (simp add: wf_map_def)
  with Inr show ?thesis by (simp add: all_ok_named insert_all_distinct)
qed (simp add: all_ok_named)

text \<open>
  A row becomes a dictionary with one entry per column, in the order of the columns, each the
  conversion of its own cell, provided the column names differ; the only failures are values that
  Python's date and time types cannot hold, and then the whole row fails with the first of them.
\<close>

theorem row_to_py_dict_columns:
  assumes "distinct (map fst cols)"
  shows "row_to_py_dict pg cols
       = map_sum (\<lambda>e. e) (zip (map fst cols)) (all_ok (map (\<lambda>(name, ty, c). cell_to_py pg ty c) cols))"
  using named_insert_all [OF assms, of "\<lambda>(ty, c). cell_to_py pg ty c"]
  by (simp add: row_to_py_dict_def case_prod_unfold)

definition sample_row :: "(unit, nat) pg_row" where
  "sample_row =
     \<lparr>pr_bool = (\<lambda>_. None), pr_i16 = (\<lambda>_. None), pr_i32 = (\<lambda>c. Some (Some (of_nat c))), pr_i64 = (\<lambda>_. None),
      pr_f32 = (\<lambda>_. None), pr_f64 = (\<lambda>_. None), pr_string = (\<lambda>_. Some None), pr_bytes = (\<lambda>_. None), pr_date = (\<lambda>_. None),
      pr_time = (\<lambda>_. None), pr_timestamp = (\<lambda>_. None), pr_json = (\<lambda>_. None), pr_decimal = (\<lambda>_. None),
      pr_decimal_string = (\<lambda>_. [])\<rparr>"

theorem row_to_py_dict_columns_witness:
  "row_to_py_dict sample_row [(''id'', INT4, 7), (''name'', TEXT, 8)] = Ok [(''id'', DbInt 7), (''name'', DbNone)]"
  using row_to_py_dict_columns [of "[(''id'', INT4, 7), (''name'', TEXT, 8)]" sample_row]
  by (simp add: cell_to_py_def or_none_def sample_row_def)

text \<open>
  The driver converts a timestamp with time zone only to types with a zone; read as the code does it,
  the column is always \<open>None\<close>. The same holds for every type that is not text, such as \<open>uuid\<close>.
\<close>

lemma timestamptz_is_none: "pr_timestamp pg c = None \<Longrightarrow> cell_to_py pg TIMESTAMPTZ c = Ok DbNone"
  by (simp add: cell_to_py_def or_none_def)

lemma unknown_type_is_none: "pr_string pg c = None \<Longrightarrow> cell_to_py pg (OtherType ''uuid'') c = Ok DbNone"
  by (simp add: cell_to_py_def or_none_def)

text \<open>One date beyond the year 9999, which the database accepts, makes its whole row unreadable.\<close>

lemma far_date_fails:
  "pr_date pg c = Some (Some (10000, 1, 1)) \<Longrightarrow>
   row_to_py_dict pg [(''id'', TEXT, c0), (''until'', DATE, c)] = Err ''year is out of range''"
  by (simp add: row_to_py_dict_def cell_to_py_def or_none_def py_date_new_def split: option.split)

text \<open>Python integers beyond 64 bits reach the database as floating-point numbers.\<close>

lemma big_int_param_is_float:
  "\<not> pp_is_none py ob \<Longrightarrow> pp_bool py ob = None \<Longrightarrow> pp_i64 py ob = None \<Longrightarrow> pp_f64 py ob = Some f \<Longrightarrow>
   convert_param py from_str ob = Ok (DPF64 f)"
  by (simp add: convert_param_def)

lemma time_roundtrip: "nanos_to_micros (micros_to_nanos t) = t"
  by (cases t) (simp add: nanos_to_micros_def micros_to_nanos_def)

subsection \<open>Rows of the multi-driver pool\<close>

text \<open>
  \<open>src/database/any_pool.rs\<close> reads a cell by the name of its type; here NULL and a refused conversion
  are both an error of the getter, and both become \<open>None\<close>.
\<close>

record 'c any_row =
  ar_bool :: "'c \<Rightarrow> bool option"
  ar_i64 :: "'c \<Rightarrow> 64 word option"
  ar_f64 :: "'c \<Rightarrow> real option"
  ar_string :: "'c \<Rightarrow> string option"
  ar_bytes :: "'c \<Rightarrow> string option"

definition some_or_none :: "('a \<Rightarrow> db_value) \<Rightarrow> 'a option \<Rightarrow> db_value" where
  "some_or_none f r = (case r of Some v \<Rightarrow> f v | None \<Rightarrow> DbNone)"

definition any_cell_to_py :: "'c any_row \<Rightarrow> string \<Rightarrow> 'c \<Rightarrow> db_value" where
  "any_cell_to_py ar ty c =
     (if ty \<in> {''BOOLEAN'', ''BOOL''} then some_or_none DbBool (ar_bool ar c)
      else if ty \<in> {''INT2'', ''SMALLINT'', ''TINYINT'', ''INT'', ''INTEGER'', ''INT4'', ''INT8'', ''BIGINT''}
        then some_or_none (\<lambda>v. DbInt (sint v)) (ar_i64 ar c)
      else if ty \<in> {''FLOAT4'', ''FLOAT8'', ''REAL'', ''DOUBLE'', ''FLOAT''} then some_or_none DbFloat (ar_f64 ar c)
      else if ty \<in> {''TEXT'', ''VARCHAR'', ''CHAR'', ''BPCHAR'', ''NAME'', ''TINYTEXT'', ''MEDIUMTEXT'', ''LONGTEXT''}
        then some_or_none DbStr (ar_string ar c)
      else if ty \<in> {''BLOB'', ''BYTEA'', ''BINARY'', ''VARBINARY'', ''TINYBLOB'', ''MEDIUMBLOB'', ''LONGBLOB''}
        then some_or_none DbBytes (ar_bytes ar c)
      else some_or_none DbStr (ar_string ar c))"

definition any_row_to_dict :: "'c any_row \<Rightarrow> (string \<times> string \<times> 'c) list \<Rightarrow> (string \<times> db_value) list" where
  "any_row_to_dict ar cols = insert_all (map (\<lambda>(name, ty, c). (name, any_cell_to_py ar ty c)) cols)"

lemma any_row_columns:
  "distinct (map fst cols) \<Longrightarrow> any_row_to_dict ar cols = map (\<lambda>(name, ty, c). (name, any_cell_to_py ar ty c)) cols"
  unfolding any_row_to_dict_def
  by (rule insert_all_distinct) (simp add: wf_map_def comp_def case_prod_unfold)

text \<open>
  The pool's operations: the driver binds the strings in order and answers with an error or rows; \<open>'b\<close>
  is the database.
\<close>

record ('b, 'c) any_driver =
  ad_fetch_all :: "string \<Rightarrow> string list \<Rightarrow> 'b \<Rightarrow> (string + (string \<times> string \<times> 'c) list list) \<times> 'b"
  ad_fetch_one :: "string \<Rightarrow> string list \<Rightarrow> 'b \<Rightarrow> (string + (string \<times> string \<times> 'c) list) \<times> 'b"
  ad_execute :: "string \<Rightarrow> string list \<Rightarrow> 'b \<Rightarrow> (string + u64) \<times> 'b"
  ad_row :: "'c any_row"

definition any_params :: "string list option \<Rightarrow> string list" where
  "any_params ps = (case ps of Some xs \<Rightarrow> xs | None \<Rightarrow> [])"

definition any_query ::
  "('b, 'c) any_driver \<Rightarrow> string \<Rightarrow> string list option \<Rightarrow> 'b \<Rightarrow> (string + (string \<times> db_value) list list) \<times> 'b" where
  "any_query ad sql ps b =
     (case ad_fetch_all ad sql (any_params ps) b of
        (Err e, b') \<Rightarrow> (Err e, b')
      | (Ok rows, b') \<Rightarrow> (Ok (map (any_row_to_dict (ad_row ad)) rows), b'))"

definition any_query_one ::
  "('b, 'c) any_driver \<Rightarrow> string \<Rightarrow> string list option \<Rightarrow> 'b \<Rightarrow> (string + (string \<times> db_value) list) \<times> 'b" where
  "any_query_one ad sql ps b =
     (case ad_fetch_one ad sql (any_params ps) b of
        (Err e, b') \<Rightarrow> (Err e, b')
      | (Ok row, b') \<Rightarrow> (Ok (any_row_to_dict (ad_row ad) row), b'))"

definition any_execute :: "('b, 'c) any_driver \<Rightarrow> string \<Rightarrow> string list option \<Rightarrow> 'b \<Rightarrow> (string + u64) \<times> 'b" where
  "any_execute ad sql ps b = ad_execute ad sql (any_params ps) b"

text \<open>A query returns one dictionary per row, in the order of the rows.\<close>

lemma any_query_rows:
  "ad_fetch_all ad sql (any_params ps) b = (Ok rows, b') \<Longrightarrow>
   \<exists>ds. any_query ad sql ps b = (Ok ds, b') \<and> length ds = length rows \<and> (\<forall>i < length rows. ds ! i = any_row_to_dict (ad_row ad) (rows ! i))"
  by (simp add: any_query_def)

end
