(* ===== verification/Db_Operations.thy ===== *)
theory Db_Operations
  imports Row_Converter
begin

text \<open>
  Operations inside a database transaction (\<open>src/database/operation.rs\<close>, \<open>transaction.rs\<close>): binding
  Python parameters, executing and fetching, streaming rows in chunks, bulk changes, commit and
  rollback. The transaction is an option that some operations empty; unwrapping it when it is empty is
  a panic. The driver is a parameter; \<open>'b\<close> is the state of the database seen by the transaction.
\<close>

subsection \<open>Outcomes and the driver\<close>

datatype 'a outcome = Done 'a | Raise string | Panic string

text \<open>
  What the binder asks of a parameter: \<open>is_instance_of\<close> at each type with the result of the extraction
  (which may raise), the text of a dictionary or list, and the name of the type.
\<close>

record 'o bind_py =
  bp_is_none :: "'o \<Rightarrow> bool"
  bp_str :: "'o \<Rightarrow> (string + string) option"
  bp_bool :: "'o \<Rightarrow> (string + bool) option"
  bp_int :: "'o \<Rightarrow> (string + int) option"
  bp_float :: "'o \<Rightarrow> (string + real) option"
  bp_datetime :: "'o \<Rightarrow> (date \<times> time_of_day) option"
  bp_date :: "'o \<Rightarrow> date option"
  bp_time :: "'o \<Rightarrow> time_of_day option"
  bp_dict_text :: "'o \<Rightarrow> string option"
  bp_list_text :: "'o \<Rightarrow> string option"
  bp_type_name :: "'o \<Rightarrow> string"

definition json_or_null :: "(string \<Rightarrow> string + json_value) \<Rightarrow> string \<Rightarrow> json_value" where
  "json_or_null from_str s = (case from_str s of Ok v \<Rightarrow> v | Err _ \<Rightarrow> JNull)"

definition bind_parameter :: "'o bind_py \<Rightarrow> (string \<Rightarrow> string + json_value) \<Rightarrow> 'o \<Rightarrow> string + unit dyn_param" where
  "bind_parameter py from_str p =
     (if bp_is_none py p then Ok DPNull
      else case bp_str py p of Some r \<Rightarrow> map_sum (\<lambda>e. e) DPText r | None \<Rightarrow>
      (case bp_bool py p of Some r \<Rightarrow> map_sum (\<lambda>e. e) DPBool r | None \<Rightarrow>
      (case bp_int py p of Some r \<Rightarrow> map_sum (\<lambda>e. e) (\<lambda>i. DPI64 (of_int i)) r | None \<Rightarrow>
      (case bp_float py p of Some r \<Rightarrow> map_sum (\<lambda>e. e) DPF64 r | None \<Rightarrow>
      (case bp_datetime py p of Some (d, t) \<Rightarrow> Ok (DPTimestamp d (micros_to_nanos t)) | None \<Rightarrow>
      (case bp_date py p of Some d \<Rightarrow> Ok (DPDate d) | None \<Rightarrow>
      (case bp_time py p of Some t \<Rightarrow> Ok (DPTime (micros_to_nanos t)) | None \<Rightarrow>
      (case bp_dict_text py p of Some s \<Rightarrow> Ok (DPJson (json_or_null from_str s)) | None \<Rightarrow>
      (case bp_list_text py p of Some s \<Rightarrow> Ok (DPJson (json_or_null from_str s)) | None \<Rightarrow>
         Err (''Unsupported parameter type: '' @ bp_type_name py p))))))))))"

definition bind_parameters :: "'o bind_py \<Rightarrow> (string \<Rightarrow> string + json_value) \<Rightarrow> 'o list \<Rightarrow> string + unit dyn_param list" where
  "bind_parameters py from_str ps = all_ok (map (bind_parameter py from_str) ps)"

text \<open>
  What a row says of a cell: whether its raw value can be read and is NULL, its value at each Rust type
  the driver can convert it to, and the text of a JSON value.
\<close>

record 'c pg_cell =
  pc_raw :: "'c \<Rightarrow> bool option"
  pc_i32 :: "'c \<Rightarrow> 32 word option"
  pc_i64 :: "'c \<Rightarrow> 64 word option"
  pc_string :: "'c \<Rightarrow> string option"
  pc_f64 :: "'c \<Rightarrow> real option"
  pc_bool :: "'c \<Rightarrow> bool option"
  pc_datetime :: "'c \<Rightarrow> (date \<times> time_of_day) option"
  pc_date :: "'c \<Rightarrow> date option"
  pc_time :: "'c \<Rightarrow> time_of_day option"
  pc_json :: "'c \<Rightarrow> json_value option"
  pc_strings :: "'c \<Rightarrow> string list option"
  pc_ints :: "'c \<Rightarrow> 32 word list option"
  pc_to_string :: "json_value \<Rightarrow> string + string"

text \<open>The conversions in the order \<open>bind_result\<close> tries them; a value none of them takes is \<open>None\<close>.\<close>

definition bind_cell :: "'c pg_cell \<Rightarrow> 'c \<Rightarrow> string + db_value" where
  "bind_cell pc c =
     (case pc_raw pc c of None \<Rightarrow> Ok DbNone | Some is_null \<Rightarrow>
      if is_null then Ok DbNone
      else case pc_i32 pc c of Some v \<Rightarrow> Ok (DbInt (sint v)) | None \<Rightarrow>
      (case pc_i64 pc c of Some v \<Rightarrow> Ok (DbInt (sint v)) | None \<Rightarrow>
      (case pc_string pc c of Some v \<Rightarrow> Ok (DbStr v) | None \<Rightarrow>
      (case pc_f64 pc c of Some v \<Rightarrow> Ok (DbFloat v) | None \<Rightarrow>
      (case pc_bool pc c of Some v \<Rightarrow> Ok (DbBool v) | None \<Rightarrow>
      (case pc_datetime pc c of Some (d, t) \<Rightarrow> py_datetime_new d (nanos_to_micros t) | None \<Rightarrow>
      (case pc_date pc c of Some d \<Rightarrow> py_date_new d | None \<Rightarrow>
      (case pc_time pc c of Some t \<Rightarrow> py_time_new (nanos_to_micros t) | None \<Rightarrow>
      (case pc_json pc c of Some j \<Rightarrow> map_sum (\<lambda>e. e) DbStr (pc_to_string pc j) | None \<Rightarrow>
      (case pc_strings pc c of Some v \<Rightarrow> Ok (DbStrs v) | None \<Rightarrow>
      (case pc_ints pc c of Some v \<Rightarrow> Ok (DbInts (map sint v)) | None \<Rightarrow> Ok DbNone)))))))))))"

type_synonym db_dict = "(string \<times> db_value) list"

definition bind_result :: "'c pg_cell \<Rightarrow> (string \<times> 'c) list \<Rightarrow> string + db_dict" where
  "bind_result pc row =
     map_sum (\<lambda>e. e) insert_all (all_ok (map (\<lambda>(name, c). map_sum (\<lambda>e. e) (Pair name) (bind_cell pc c)) row))"

text \<open>
  The driver: executing, fetching all rows or a stream of them that may end in an error, reading the
  cells of a row, and what commit, rollback and dropping the transaction (a rollback) do to the database.
\<close>

record ('b, 'c) sqlx =
  sx_execute :: "string \<Rightarrow> unit dyn_param list \<Rightarrow> 'b \<Rightarrow> (string + u64) \<times> 'b"
  sx_fetch_all :: "string \<Rightarrow> unit dyn_param list \<Rightarrow> 'b \<Rightarrow> (string + (string \<times> 'c) list list) \<times> 'b"
  sx_fetch :: "string \<Rightarrow> unit dyn_param list \<Rightarrow> 'b \<Rightarrow> (string \<times> 'c) list list \<times> string option \<times> 'b"
  sx_cells :: "'c pg_cell"
  sx_commit :: "'b \<Rightarrow> bool \<times> 'b"
  sx_rollback :: "'b \<Rightarrow> bool \<times> 'b"
  sx_drop :: "'b \<Rightarrow> 'b"

text \<open>The shared option: the transaction, or nothing once it was taken out; then \<open>'b\<close> is the database.\<close>

record 'b tx_slot =
  tx_open :: bool
  tx_base :: 'b

subsection \<open>Operations\<close>

definition tx_execute ::
  "'o bind_py \<Rightarrow> (string \<Rightarrow> string + json_value) \<Rightarrow> ('b, 'c) sqlx \<Rightarrow> string \<Rightarrow> 'o list \<Rightarrow> 'b tx_slot \<Rightarrow> u64 outcome \<times> 'b tx_slot" where
  "tx_execute py fs sx query params t =
     (case bind_parameters py fs params of
        Err e \<Rightarrow> (Raise e, t)
      | Ok args \<Rightarrow>
          if \<not> tx_open t then (Panic ''unwrap on None'', t)
          else case sx_execute sx query args (tx_base t) of
                 (Err e, b) \<Rightarrow> (Raise e, t\<lparr>tx_base := b\<rparr>)
               | (Ok n, b) \<Rightarrow> (Done n, t\<lparr>tx_base := b\<rparr>))"

definition tx_fetch_all ::
  "'o bind_py \<Rightarrow> (string \<Rightarrow> string + json_value) \<Rightarrow> ('b, 'c) sqlx \<Rightarrow> string \<Rightarrow> 'o list \<Rightarrow> 'b tx_slot \<Rightarrow>
   db_dict list outcome \<times> 'b tx_slot" where
  "tx_fetch_all py fs sx query params t =
     (case bind_parameters py fs params of
        Err e \<Rightarrow> (Raise e, t)
      | Ok args \<Rightarrow>
          if \<not> tx_open t then (Panic ''unwrap on None'', t)
          else case sx_fetch_all sx query args (tx_base t) of
                 (Err e, b) \<Rightarrow> (Raise e, t\<lparr>tx_base := b\<rparr>)
               | (Ok rows, b) \<Rightarrow>
                   (case all_ok (map (bind_result (sx_cells sx)) rows) of
                      Err e \<Rightarrow> (Raise e, t\<lparr>tx_base := b\<rparr>)
                    | Ok vs \<Rightarrow> (Done vs, t\<lparr>tx_base := b\<rparr>)))"

text \<open>The loop of \<open>stream_data\<close>: finished chunks and the one being filled.\<close>

fun push_rows :: "('row \<Rightarrow> string + 'v) \<Rightarrow> nat \<Rightarrow> 'row list \<Rightarrow> 'v list list \<Rightarrow> 'v list \<Rightarrow> string + 'v list list \<times> 'v list" where
  "push_rows conv csize [] chunks current = Ok (chunks, current)"
| "push_rows conv csize (r # rows) chunks current =
     (case conv r of
        Err e \<Rightarrow> Err e
      | Ok v \<Rightarrow>
          (let current = current @ [v] in
           if length current \<ge> csize then push_rows conv csize rows (chunks @ [current]) []
           else push_rows conv csize rows chunks current))"

record 'v row_stream =
  rs_chunks :: "'v list list"
  rs_index :: nat
  rs_exhausted :: bool

definition row_stream_new :: "'v list list \<Rightarrow> 'v row_stream" where
  "row_stream_new cs = \<lparr>rs_chunks = cs, rs_index = 0, rs_exhausted = False\<rparr>"

definition row_stream_next :: "'v row_stream \<Rightarrow> 'v list option \<times> 'v row_stream" where
  "row_stream_next rs =
     (if rs_index rs \<ge> length (rs_chunks rs) then (None, rs\<lparr>rs_exhausted := True\<rparr>)
      else (Some (rs_chunks rs ! rs_index rs), rs\<lparr>rs_index := Suc (rs_index rs)\<rparr>))"

definition chunk_count :: "'v row_stream \<Rightarrow> nat" where
  "chunk_count rs = length (rs_chunks rs)"

text \<open>\<open>stream_data\<close> takes the transaction out of the option and drops it at its end, error or not.\<close>

definition stream_data ::
  "'o bind_py \<Rightarrow> (string \<Rightarrow> string + json_value) \<Rightarrow> ('b, 'c) sqlx \<Rightarrow> string \<Rightarrow> 'o list \<Rightarrow> nat \<Rightarrow> 'b tx_slot \<Rightarrow>
   db_dict row_stream outcome \<times> 'b tx_slot" where
  "stream_data py fs sx query params chunk_size t =
     (case bind_parameters py fs params of
        Err e \<Rightarrow> (Raise e, t)
      | Ok args \<Rightarrow>
          if \<not> tx_open t then (Panic ''unwrap on None'', t)
          else case sx_fetch sx query args (tx_base t) of
                 (rows, err, b) \<Rightarrow>
                   ((case push_rows (bind_result (sx_cells sx)) chunk_size rows [] [] of
                       Err e \<Rightarrow> Raise e
                     | Ok (chunks, current) \<Rightarrow>
                         (case err of
                            Some e \<Rightarrow> Raise e
                          | None \<Rightarrow> Done (row_stream_new (if current = [] then chunks else chunks @ [current])))),
                    \<lparr>tx_open = False, tx_base = sx_drop sx b\<rparr>))"

fun bulk_loop ::
  "'o bind_py \<Rightarrow> (string \<Rightarrow> string + json_value) \<Rightarrow> ('b, 'c) sqlx \<Rightarrow> string \<Rightarrow> 'o list list \<Rightarrow> u64 \<Rightarrow> 'b \<Rightarrow> (string + u64) \<times> 'b" where
  "bulk_loop py fs sx query [] acc b = (Ok acc, b)"
| "bulk_loop py fs sx query (ps # pss) acc b =
     (case bind_parameters py fs ps of
        Err e \<Rightarrow> (Err e, b)
      | Ok args \<Rightarrow>
          (case sx_execute sx query args b of
             (Err e, b') \<Rightarrow> (Err e, b')
           | (Ok n, b') \<Rightarrow> bulk_loop py fs sx query pss (acc + n) b'))"

fun batch_loop ::
  "'o bind_py \<Rightarrow> (string \<Rightarrow> string + json_value) \<Rightarrow> ('b, 'c) sqlx \<Rightarrow> string \<Rightarrow> 'o list list list \<Rightarrow> u64 \<Rightarrow> 'b \<Rightarrow> (string + u64) \<times> 'b" where
  "batch_loop py fs sx query [] acc b = (Ok acc, b)"
| "batch_loop py fs sx query (batch # batches) acc b =
     (case bulk_loop py fs sx query batch acc b of
        (Err e, b') \<Rightarrow> (Err e, b')
      | (Ok acc', b') \<Rightarrow> batch_loop py fs sx query batches acc' b')"

function slice_chunks :: "nat \<Rightarrow> 'x list \<Rightarrow> 'x list list" where
  "slice_chunks k xs = (if xs = [] \<or> k = 0 then [] else take k xs # slice_chunks k (drop k xs))"
  by pat_completeness auto
termination
  by (relation "measure (\<lambda>(k, xs). length xs)") auto

declare slice_chunks.simps [simp del]

definition bulk_change ::
  "'o bind_py \<Rightarrow> (string \<Rightarrow> string + json_value) \<Rightarrow> ('b, 'c) sqlx \<Rightarrow> string \<Rightarrow> 'o list list \<Rightarrow> nat \<Rightarrow> 'b tx_slot \<Rightarrow>
   u64 outcome \<times> 'b tx_slot" where
  "bulk_change py fs sx query params batch_size t =
     (if \<not> tx_open t then (Raise ''No active transaction'', t)
      else if batch_size = 0 then (Panic ''chunk size must be non-zero'', t)
      else case batch_loop py fs sx query (slice_chunks batch_size params) 0 (tx_base t) of
             (Err e, b) \<Rightarrow> (Raise e, t\<lparr>tx_base := b\<rparr>)
           | (Ok n, b) \<Rightarrow> (Done n, t\<lparr>tx_base := b\<rparr>))"

text \<open>The results of commit and rollback are discarded.\<close>

definition tx_commit :: "('b, 'c) sqlx \<Rightarrow> 'b tx_slot \<Rightarrow> unit outcome \<times> 'b tx_slot" where
  "tx_commit sx t =
     (if \<not> tx_open t then (Panic ''unwrap on None'', t)
      else (Done (), \<lparr>tx_open = False, tx_base = snd (sx_commit sx (tx_base t))\<rparr>))"

definition tx_rollback :: "('b, 'c) sqlx \<Rightarrow> 'b tx_slot \<Rightarrow> unit outcome \<times> 'b tx_slot" where
  "tx_rollback sx t =
     (if \<not> tx_open t then (Panic ''unwrap on None'', t)
      else (Done (), \<lparr>tx_open = False, tx_base = snd (sx_rollback sx (tx_base t))\<rparr>))"

subsection \<open>Streaming in chunks\<close>

text \<open>A list cut as \<open>stream_data\<close> cuts it: full pieces, and a rest shorter than a piece.\<close>

definition well_chunked :: "nat \<Rightarrow> 'v list list \<Rightarrow> 'v list \<Rightarrow> bool" where
  "well_chunked csize cs rest = (list_all (\<lambda>c. length c = max 1 csize) cs \<and> length rest < max 1 csize)"

lemma push_rows_chunks:
  "push_rows conv csize rows cs cur = Ok (cs', cur') \<Longrightarrow> well_chunked csize cs cur \<Longrightarrow>
   well_chunked csize cs' cur' \<and> (\<exists>vs. all_ok (map conv rows) = Ok vs \<and> concat cs' @ cur' = concat cs @ cur @ vs)"
proof (induction conv csize rows cs cur rule: push_rows.induct)
  case (2 conv csize r rows chunks current)
  then obtain v where v: "conv r = Ok v" by (auto split: sum.splits)
  show ?case
  proof (cases "length (current @ [v]) \<ge> csize")
    case True
    have "well_chunked csize (chunks @ [current @ [v]]) []"
      using 2(4) True by (auto simp: well_chunked_def)
    with 2(1) [OF v refl True] 2(3) True v show ?thesis by (auto simp: Let_def)
  next
    case False
    have "well_chunked csize chunks (current @ [v])" using 2(4) False by (auto simp: well_chunked_def)
    with 2(2) [OF v refl False] 2(3) False v show ?thesis by (auto simp: Let_def)
  qed
qed simp

lemma push_rows_Ok: "all_ok (map conv rows) = Ok vs \<Longrightarrow> \<exists>cs' cur'. push_rows conv csize rows cs cur = Ok (cs', cur')"
  by (induction conv csize rows cs cur arbitrary: vs rule: push_rows.induct) (auto simp: Let_def split: sum.splits)

text \<open>What iterating over a stream yields.\<close>

fun stream_take :: "nat \<Rightarrow> 'v row_stream \<Rightarrow> 'v list option list" where
  "stream_take 0 rs = []"
| "stream_take (Suc n) rs = (case row_stream_next rs of (r, rs') \<Rightarrow> r # stream_take n rs')"

lemma stream_take_index:
  "stream_take n rs = map (\<lambda>i. if i < length (rs_chunks rs) then Some (rs_chunks rs ! i) else None) [rs_index rs..<rs_index rs + n]"
proof (induction n arbitrary: rs)
  case (Suc n)
  show ?case
  proof (cases "rs_index rs \<ge> length (rs_chunks rs)")
    case True
    have none: "map (\<lambda>i. if i < length (rs_chunks rs) then Some (rs_chunks rs ! i) else None) [m..<m + n] = replicate n None"
      if "length (rs_chunks rs) \<le> m" for m n
      using that by (intro nth_equalityI) auto
    have "stream_take n (rs\<lparr>rs_exhausted := True\<rparr>) = replicate n None"
      using Suc.IH [of "rs\<lparr>rs_exhausted := True\<rparr>"] none [OF True, of n] by (simp cong: if_cong)
    then show ?thesis using True none [OF True, of "Suc n"] by (simp add: row_stream_next_def del: upt_Suc)
  next
    case False
    have "[rs_index rs..<rs_index rs + Suc n] = rs_index rs # [Suc (rs_index rs)..<Suc (rs_index rs) + n]"
      by (subst upt_conv_Cons) simp_all
    with False Suc.IH [of "rs\<lparr>rs_index := Suc (rs_index rs)\<rparr>"] show ?thesis
      by (simp add: row_stream_next_def del: upt_Suc cong: if_cong)
  qed
qed simp

text \<open>
  Streaming loses and reorders nothing: when every row converts, \<open>stream_data\<close> returns a stream
  whose chunks joined together are the converted rows in order, every chunk but the last holding
  exactly \<open>chunk_size\<close> of them (one each if it is 0) and none empty; iterating yields the chunks one
  after the other and then nothing, as often as it is asked.
\<close>

theorem stream_data_chunks:
  assumes "bind_parameters py fs params = Ok args" "tx_open t"
    and "sx_fetch sx query args (tx_base t) = (rows, None, b)" "all_ok (map (bind_result (sx_cells sx)) rows) = Ok vs"
  shows "\<exists>rs t'. stream_data py fs sx query params csize t = (Done rs, t') \<and> concat (rs_chunks rs) = vs \<and>
           list_all (\<lambda>c. c \<noteq> []) (rs_chunks rs) \<and> list_all (\<lambda>c. length c = max 1 csize) (butlast (rs_chunks rs)) \<and>
           stream_take (length (rs_chunks rs) + n) rs = map Some (rs_chunks rs) @ replicate n None"
proof -
  obtain cs cur where p: "push_rows (bind_result (sx_cells sx)) csize rows [] [] = Ok (cs, cur)"
    using push_rows_Ok [OF assms(4)] by blast
  have "well_chunked csize [] ([] :: db_dict list)" by (simp add: well_chunked_def)
  from push_rows_chunks [OF p this] assms(4)
  have w: "well_chunked csize cs cur" "concat cs @ cur = vs" by auto
  let ?cs = "if cur = [] then cs else cs @ [cur]"
  have take: "stream_take (length ?cs + n) (row_stream_new ?cs) = map Some ?cs @ replicate n None"
    by (rule nth_equalityI) (auto simp: stream_take_index row_stream_new_def nth_append)
  have ne: "list_all (\<lambda>c. c \<noteq> []) ?cs" using w(1) by (auto simp: well_chunked_def list_all_iff)
  have full: "list_all (\<lambda>c. length c = max 1 csize) (butlast ?cs)"
    using w(1) by (auto simp: well_chunked_def list_all_iff dest: in_set_butlastD)
  have "stream_data py fs sx query params csize t = (Done (row_stream_new ?cs), \<lparr>tx_open = False, tx_base = sx_drop sx b\<rparr>)"
    using assms(1-3) p by (simp add: stream_data_def)
  moreover have "concat ?cs = vs" using w(2) by auto
  ultimately show ?thesis using take ne full by (intro exI [of _ "row_stream_new ?cs"] exI) (simp add: row_stream_new_def)
qed

text \<open>A driver that counts statements: it returns two rows of one integer and changes one row per statement.\<close>

definition demo_cells :: "nat pg_cell" where
  "demo_cells =
     \<lparr>pc_raw = (\<lambda>_. Some False), pc_i32 = (\<lambda>c. Some (of_nat c)), pc_i64 = (\<lambda>_. None), pc_string = (\<lambda>_. None),
      pc_f64 = (\<lambda>_. None), pc_bool = (\<lambda>_. None), pc_datetime = (\<lambda>_. None), pc_date = (\<lambda>_. None), pc_time = (\<lambda>_. None),
      pc_json = (\<lambda>_. None), pc_strings = (\<lambda>_. None), pc_ints = (\<lambda>_. None), pc_to_string = (\<lambda>_. Inr [])\<rparr>"

definition demo_sqlx :: "(nat, nat) sqlx" where
  "demo_sqlx =
     \<lparr>sx_execute = (\<lambda>q args b. (Ok 1, Suc b)), sx_fetch_all = (\<lambda>q args b. (Ok [[(''n'', 10)], [(''n'', 11)]], b)),
      sx_fetch = (\<lambda>q args b. ([[(''n'', 10)], [(''n'', 11)]], None, b)), sx_cells = demo_cells, sx_commit = (\<lambda>b. (True, b)),
      sx_rollback = (\<lambda>b. (True, 0)), sx_drop = (\<lambda>b. 0)\<rparr>"

definition demo_py :: "unit bind_py" where
  "demo_py =
     \<lparr>bp_is_none = (\<lambda>_. True), bp_str = (\<lambda>_. None), bp_bool = (\<lambda>_. None), bp_int = (\<lambda>_. None), bp_float = (\<lambda>_. None),
      bp_datetime = (\<lambda>_. None), bp_date = (\<lambda>_. None), bp_time = (\<lambda>_. None), bp_dict_text = (\<lambda>_. None),
      bp_list_text = (\<lambda>_. None), bp_type_name = (\<lambda>_. [])\<rparr>"

theorem stream_data_chunks_witness:
  "\<exists>rs t'. stream_data demo_py (\<lambda>_. Inl []) demo_sqlx ''SELECT'' [()] 1 \<lparr>tx_open = True, tx_base = 5\<rparr> = (Done rs, t') \<and>
     concat (rs_chunks rs) = [[(''n'', DbInt 10)], [(''n'', DbInt 11)]] \<and> list_all (\<lambda>c. c \<noteq> []) (rs_chunks rs) \<and>
     list_all (\<lambda>c. length c = max 1 1) (butlast (rs_chunks rs)) \<and>
     stream_take (length (rs_chunks rs) + 2) rs = map Some (rs_chunks rs) @ replicate 2 None"
  by (rule stream_data_chunks [where args = "[DPNull]" and rows = "[[(''n'', 10)], [(''n'', 11)]]" and b = 5])
    (simp_all add: demo_py_def demo_sqlx_def demo_cells_def bind_parameters_def bind_parameter_def bind_result_def
      bind_cell_def insert_all_def)

subsection \<open>Bulk changes\<close>

lemma bulk_loop_append:
  "bulk_loop py fs sx query (xs @ ys) n b =
     (case bulk_loop py fs sx query xs n b of (Err e, b') \<Rightarrow> (Err e, b') | (Ok n', b') \<Rightarrow> bulk_loop py fs sx query ys n' b')"
  by (induction py fs sx query xs n b rule: bulk_loop.induct) (auto split: sum.split prod.split)

lemma batch_loop_chunks:
  "0 < k \<Longrightarrow> batch_loop py fs sx query (slice_chunks k xs) n b = bulk_loop py fs sx query xs n b"
proof (induction k xs arbitrary: n b rule: slice_chunks.induct)
  case (1 k xs)
  show ?case
  proof (cases "xs = []")
    case False
    then have "slice_chunks k xs = take k xs # slice_chunks k (drop k xs)"
      using 1(2) by (subst slice_chunks.simps) simp
    moreover have "batch_loop py fs sx query (slice_chunks k (drop k xs)) m c = bulk_loop py fs sx query (drop k xs) m c" for m c
      using 1(1) False 1(2) by simp
    ultimately show ?thesis
      using bulk_loop_append [of py fs sx query "take k xs" "drop k xs" n b] by (simp split: sum.split prod.split)
  qed (simp add: slice_chunks.simps)
qed

text \<open>
  Batching is invisible: with an open transaction and a positive batch size, \<open>bulk_change\<close> has
  the same result and the same effect on the database as executing the statement for one parameter
  set after the other, stopping at the first error, whatever the batch size; a batch size of 0
  panics and a finished transaction is reported.
\<close>

theorem bulk_change_sequential:
  "bulk_change py fs sx query params k t =
     (if \<not> tx_open t then (Raise ''No active transaction'', t)
      else if k = 0 then (Panic ''chunk size must be non-zero'', t)
      else case bulk_loop py fs sx query params 0 (tx_base t) of
             (Err e, b) \<Rightarrow> (Raise e, t\<lparr>tx_base := b\<rparr>)
           | (Ok n, b) \<Rightarrow> (Done n, t\<lparr>tx_base := b\<rparr>))"
  by (simp add: bulk_change_def batch_loop_chunks)

subsection \<open>The transaction after streaming\<close>

text \<open>
  Streaming ends the transaction: after \<open>stream_data\<close> reached the database, with rows or with an
  error, the transaction is gone and rolled back, so commit and rollback panic, further statements
  panic, and the changes made earlier in the transaction are lost.
\<close>

theorem stream_ends_transaction:
  assumes "bind_parameters py fs params = Ok args" "tx_open t"
  shows "let t' = snd (stream_data py fs sx query params k t)
         in tx_base t' = sx_drop sx (snd (snd (sx_fetch sx query args (tx_base t)))) \<and>
            fst (tx_commit sx t') = Panic ''unwrap on None'' \<and> fst (tx_rollback sx t') = Panic ''unwrap on None'' \<and>
            fst (tx_execute py fs sx q2 params t') = Panic ''unwrap on None''"
  using assms
  by (auto simp: stream_data_def tx_commit_def tx_rollback_def tx_execute_def Let_def split: prod.split)

theorem stream_ends_transaction_witness:
  "let t' = snd (stream_data demo_py (\<lambda>_. Inl []) demo_sqlx ''SELECT'' [()] 1 \<lparr>tx_open = True, tx_base = 5\<rparr>)
   in tx_base t' = sx_drop demo_sqlx (snd (snd (sx_fetch demo_sqlx ''SELECT'' [DPNull] 5))) \<and>
      fst (tx_commit demo_sqlx t') = Panic ''unwrap on None'' \<and> fst (tx_rollback demo_sqlx t') = Panic ''unwrap on None'' \<and>
      fst (tx_execute demo_py (\<lambda>_. Inl []) demo_sqlx ''INSERT'' [()] t') = Panic ''unwrap on None''"
  using stream_ends_transaction [of demo_py "\<lambda>_. Inl []" "[()]" "[DPNull]" "\<lparr>tx_open = True, tx_base = 5\<rparr>" demo_sqlx "''SELECT''" 1 "''INSERT''"]
  by (simp add: demo_py_def bind_parameters_def bind_parameter_def)

text \<open>A failed commit is reported as a success.\<close>

lemma failed_commit_hidden: "tx_open t \<Longrightarrow> fst (sx_commit sx (tx_base t)) = False \<Longrightarrow> fst (tx_commit sx t) = Done ()"
  by (simp add: tx_commit_def)

text \<open>The text of a Python dictionary that is not JSON, as with its single quotes, binds null.\<close>

lemma dict_binds_null:
  "\<not> bp_is_none py p \<Longrightarrow> bp_str py p = None \<Longrightarrow> bp_bool py p = None \<Longrightarrow> bp_int py p = None \<Longrightarrow> bp_float py p = None \<Longrightarrow>
   bp_datetime py p = None \<Longrightarrow> bp_date py p = None \<Longrightarrow> bp_time py p = None \<Longrightarrow> bp_dict_text py p = Some s \<Longrightarrow>
   fs s = Err e \<Longrightarrow> bind_parameter py fs p = Ok (DPJson JNull)"
  by (simp add: bind_parameter_def json_or_null_def)

text \<open>
  A cell at a type outside the list of \<open>bind_result\<close> (a small integer, a number, a timestamp with time
  zone, bytes: the driver converts each only to its own Rust type) is read as \<open>None\<close>.
\<close>

lemma unlisted_type_is_none:
  "pc_i32 pc c = None \<Longrightarrow> pc_i64 pc c = None \<Longrightarrow> pc_string pc c = None \<Longrightarrow> pc_f64 pc c = None \<Longrightarrow> pc_bool pc c = None \<Longrightarrow>
   pc_datetime pc c = None \<Longrightarrow> pc_date pc c = None \<Longrightarrow> pc_time pc c = None \<Longrightarrow> pc_json pc c = None \<Longrightarrow>
   pc_strings pc c = None \<Longrightarrow> pc_ints pc c = None \<Longrightarrow> bind_cell pc c = Ok DbNone"
  by (simp add: bind_cell_def split: option.split)

lemma bind_result_columns:
  "distinct (map fst row) \<Longrightarrow>
   bind_result pc row = map_sum (\<lambda>e. e) (zip (map fst row)) (all_ok (map (\<lambda>(name, c). bind_cell pc c) row))"
  by (simp add: bind_result_def named_insert_all)

end
