(* ===== verification/Db_Config.thy ===== *)
theory Db_Config
  imports Db_Operations
begin

text \<open>
  The sqlx side of the database (\<open>src/database/config.rs\<close>, \<open>src/database/connection.rs\<close>): the
  configuration, the pool options it stands for, and the connection that starts the transactions of
  \<open>Db_Operations\<close>. The driver is a parameter: parsing the URL, connecting a pool and beginning a
  transaction on it may fail. An \<open>unwrap\<close> on a failure is a panic.
\<close>

record db_config =
  dcf_url :: string
  dcf_max_connections :: nat
  dcf_min_connections :: nat
  dcf_idle_timeout :: nat
  dcf_options :: "params option"

definition db_config_new :: "string \<Rightarrow> nat \<Rightarrow> nat \<Rightarrow> nat \<Rightarrow> params option \<Rightarrow> db_config" where
  "db_config_new url max_connections min_connections idle_timeout options =
     \<lparr>dcf_url = url, dcf_max_connections = max_connections, dcf_min_connections = min_connections,
      dcf_idle_timeout = idle_timeout, dcf_options = options\<rparr>"

definition default_postgres :: "string \<Rightarrow> db_config" where
  "default_postgres url =
     \<lparr>dcf_url = url, dcf_max_connections = 10, dcf_min_connections = 1, dcf_idle_timeout = 600, dcf_options = None\<rparr>"

record pool_options =
  po_max_connections :: nat
  po_min_connections :: nat
  po_idle_timeout :: "duration option"
  po_acquire_timeout :: duration

text \<open>\<open>pd_parse\<close> reads a URL, \<open>pd_connect\<close> opens a pool on it, \<open>pd_begin\<close> begins a transaction on the pool.\<close>

record ('u, 'pool, 'b) pool_driver =
  pd_parse :: "string \<Rightarrow> string + 'u"
  pd_connect :: "pool_options \<Rightarrow> 'u \<Rightarrow> 'b \<Rightarrow> (string + 'pool) \<times> 'b"
  pd_begin :: "'pool \<Rightarrow> 'b \<Rightarrow> (string + unit) \<times> 'b"

definition pool_options_of :: "db_config \<Rightarrow> pool_options" where
  "pool_options_of c =
     \<lparr>po_max_connections = dcf_max_connections c, po_min_connections = dcf_min_connections c,
      po_idle_timeout = Some (secs (dcf_idle_timeout c)), po_acquire_timeout = secs (dcf_idle_timeout c)\<rparr>"

definition create_postgres_pool :: "('u, 'pool, 'b) pool_driver \<Rightarrow> db_config \<Rightarrow> 'b \<Rightarrow> (string + 'pool) \<times> 'b" where
  "create_postgres_pool pd c b =
     (case pd_parse pd (dcf_url c) of
        Err e \<Rightarrow> (Err e, b)
      | Ok u \<Rightarrow> pd_connect pd (pool_options_of c) u b)"

definition create_pool :: "('u, 'pool, 'b) pool_driver \<Rightarrow> db_config \<Rightarrow> 'b \<Rightarrow> (string + 'pool) \<times> 'b" where
  "create_pool pd c b = (case create_postgres_pool pd c b of (Err e, b) \<Rightarrow> (Err e, b) | (Ok p, b) \<Rightarrow> (Ok p, b))"

definition db_connection_new :: "('u, 'pool, 'b) pool_driver \<Rightarrow> db_config \<Rightarrow> 'b \<Rightarrow> 'pool outcome \<times> 'b" where
  "db_connection_new pd c b =
     (case create_postgres_pool pd c b of (Err e, b) \<Rightarrow> (Panic e, b) | (Ok p, b) \<Rightarrow> (Done p, b))"

text \<open>The transaction of a pool, ready for the operations on its shared slot.\<close>

definition db_transaction :: "('u, 'pool, 'b) pool_driver \<Rightarrow> 'pool \<Rightarrow> 'b \<Rightarrow> 'b tx_slot outcome \<times> 'b" where
  "db_transaction pd p b =
     (case pd_begin pd p b of (Err e, b) \<Rightarrow> (Panic e, b) | (Ok _, b) \<Rightarrow> (Done \<lparr>tx_open = True, tx_base = b\<rparr>, b))"

definition begin_transaction :: "('u, 'pool, 'b) pool_driver \<Rightarrow> 'pool \<Rightarrow> 'b \<Rightarrow> unit option \<times> 'b" where
  "begin_transaction pd p b = (case pd_begin pd p b of (Err e, b) \<Rightarrow> (None, b) | (Ok u, b) \<Rightarrow> (Some u, b))"

text \<open>
  The time a caller waits for a connection is the idle timeout, ten minutes by default, and
  the map of options is never read. A database that cannot be reached ends the process: neither
  creating a connection nor beginning a transaction returns an error.
\<close>

lemma acquire_waits_idle_timeout: "po_acquire_timeout (pool_options_of (default_postgres url)) = secs 600"
  by (simp add: pool_options_of_def default_postgres_def)

lemma options_never_read: "create_pool pd (c\<lparr>dcf_options := x\<rparr>) b = create_pool pd c b"
proof -
  have eq: "pool_options_of (c\<lparr>dcf_options := x\<rparr>) = pool_options_of c" by (simp add: pool_options_of_def)
  show ?thesis unfolding create_pool_def create_postgres_pool_def eq by simp
qed

lemma connection_fails_by_panic:
  "fst (db_connection_new pd c b) \<noteq> Raise e" "fst (db_transaction pd p b) \<noteq> Raise e"
  by (auto simp: db_connection_new_def db_transaction_def split: prod.split sum.split)

text \<open>
  A connection that was opened gives transactions whose first statement reaches the database: until
  the slot is emptied by commit, rollback or a stream, no statement panics.
\<close>

lemma fresh_transaction_executes:
  assumes "db_transaction pd p b = (Done t, b1)" "bind_parameters py fs ps = Ok args"
  shows "tx_execute py fs sx query ps t =
     (case sx_execute sx query args b1 of
        (Err e, b2) \<Rightarrow> (Raise e, t\<lparr>tx_base := b2\<rparr>) | (Ok n, b2) \<Rightarrow> (Done n, t\<lparr>tx_base := b2\<rparr>))"
  using assms by (auto simp: db_transaction_def tx_execute_def split: prod.splits sum.splits)

end
