(* ===== verification/Db_Session.thy ===== *)
theory Db_Session
  imports Db_Context Row_Converter
begin

text \<open>
  The session object of Python (\<open>DbSession\<close> of \<open>src/database/request_context.rs\<close>): every method
  converts its parameters, runs the operation on the shared context and converts the rows. This ties
  the contexts to the converters of \<open>src/database/row_converter.rs\<close>; the theorems say what is left in
  the database when one of the steps raises.
\<close>

subsection \<open>Error texts\<close>

record db_error =
  de_message :: string
  de_code :: string
  de_detail :: "string option"
  de_hint :: "string option"
  de_position :: "string option"

text \<open>
  An error of the driver is an error of the database with its fields or another one with its text;
  \<open>de_position\<close> is the \<open>Debug\<close> text of the position.
\<close>

definition format_db_error :: "string + db_error \<Rightarrow> string" where
  "format_db_error e =
     (case e of
        Ok d \<Rightarrow>
          (let msg = ''PostgreSQL error: '' @ de_message d @ '' (SQLSTATE '' @ de_code d @ '')'';
               msg = (case de_detail d of Some x \<Rightarrow> msg @ [CHR 0x0A] @ ''Detail: '' @ x | None \<Rightarrow> msg);
               msg = (case de_hint d of Some x \<Rightarrow> msg @ [CHR 0x0A] @ ''Hint: '' @ x | None \<Rightarrow> msg);
               msg = (case de_position d of Some x \<Rightarrow> msg @ [CHR 0x0A] @ ''Position: '' @ x | None \<Rightarrow> msg)
           in msg)
      | Err s \<Rightarrow> s)"

subsection \<open>The session's methods\<close>

text \<open>The Python side of the conversions.\<close>

record ('o, 'n, 'cell) session_libs =
  sl_py :: "'o param_py"
  sl_json :: "string \<Rightarrow> string + json_value"
  sl_cells :: "('n, 'cell) pg_row"

type_synonym ('c, 'n, 'cell, 'd) session_pg = "('c, 'n dyn_param, (string \<times> pg_type \<times> 'cell) list, 'd) postgres"

definition sess_request_id :: "nat \<Rightarrow> ('c, 'd) db_system \<Rightarrow> string" where
  "sess_request_id a ds = dc_request_id (ds_store ds ! a)"

definition sess_begin :: "('c, 'n, 'cell, 'd) session_pg \<Rightarrow> nat \<Rightarrow> ('c, 'd) db_system \<Rightarrow> (string + unit) \<times> ('c, 'd) db_system" where
  "sess_begin pg a ds = on_context a (begin_tx pg) ds"

definition sess_commit :: "('c, 'n, 'cell, 'd) session_pg \<Rightarrow> nat \<Rightarrow> ('c, 'd) db_system \<Rightarrow> (string + unit) \<times> ('c, 'd) db_system" where
  "sess_commit pg a ds = on_context a (commit pg) ds"

definition sess_rollback :: "('c, 'n, 'cell, 'd) session_pg \<Rightarrow> nat \<Rightarrow> ('c, 'd) db_system \<Rightarrow> (string + unit) \<times> ('c, 'd) db_system" where
  "sess_rollback pg a ds = on_context a (rollback pg) ds"

definition unwrap_params :: "'o list option \<Rightarrow> 'o list" where
  "unwrap_params ps = (case ps of Some xs \<Rightarrow> xs | None \<Rightarrow> [])"

definition sess_query ::
  "('o, 'n, 'cell) session_libs \<Rightarrow> ('c, 'n, 'cell, 'd) session_pg \<Rightarrow> nat \<Rightarrow> string \<Rightarrow> 'o list option \<Rightarrow>
   ('c, 'd) db_system \<Rightarrow> (string + (string \<times> db_value) list list) \<times> ('c, 'd) db_system" where
  "sess_query sl pg a sql params ds =
     (case convert_params_from_py (sl_py sl) (sl_json sl) (unwrap_params params) of
        Err e \<Rightarrow> (Err e, ds)
      | Ok ps \<Rightarrow>
          (case on_context a (db_query pg sql ps) ds of
             (Err e, ds) \<Rightarrow> (Err e, ds)
           | (Ok rows, ds) \<Rightarrow> (all_ok (map (row_to_py_dict (sl_cells sl)) rows), ds)))"

definition sess_query_one ::
  "('o, 'n, 'cell) session_libs \<Rightarrow> ('c, 'n, 'cell, 'd) session_pg \<Rightarrow> nat \<Rightarrow> string \<Rightarrow> 'o list option \<Rightarrow>
   ('c, 'd) db_system \<Rightarrow> (string + (string \<times> db_value) list) \<times> ('c, 'd) db_system" where
  "sess_query_one sl pg a sql params ds =
     (case convert_params_from_py (sl_py sl) (sl_json sl) (unwrap_params params) of
        Err e \<Rightarrow> (Err e, ds)
      | Ok ps \<Rightarrow>
          (case on_context a (db_query pg sql ps) ds of
             (Err e, ds) \<Rightarrow> (Err e, ds)
           | (Ok [], ds) \<Rightarrow> (Err ''No rows returned'', ds)
           | (Ok (row # _), ds) \<Rightarrow> (row_to_py_dict (sl_cells sl) row, ds)))"

definition sess_execute ::
  "('o, 'n, 'cell) session_libs \<Rightarrow> ('c, 'n, 'cell, 'd) session_pg \<Rightarrow> nat \<Rightarrow> string \<Rightarrow> 'o list option \<Rightarrow>
   ('c, 'd) db_system \<Rightarrow> (string + u64) \<times> ('c, 'd) db_system" where
  "sess_execute sl pg a sql params ds =
     (case convert_params_from_py (sl_py sl) (sl_json sl) (unwrap_params params) of
        Err e \<Rightarrow> (Err e, ds)
      | Ok ps \<Rightarrow> on_context a (db_execute pg sql ps) ds)"

text \<open>The loop of \<open>execute_many\<close>: each list of parameters is converted when its turn comes.\<close>

fun sess_execute_many ::
  "('o, 'n, 'cell) session_libs \<Rightarrow> ('c, 'n, 'cell, 'd) session_pg \<Rightarrow> nat \<Rightarrow> string \<Rightarrow> 'o list list \<Rightarrow> u64 \<Rightarrow>
   ('c, 'd) db_system \<Rightarrow> (string + u64) \<times> ('c, 'd) db_system" where
  "sess_execute_many sl pg a sql [] total_affected ds = (Ok total_affected, ds)"
| "sess_execute_many sl pg a sql (params # rest) total_affected ds =
     (case convert_params_from_py (sl_py sl) (sl_json sl) params of
        Err e \<Rightarrow> (Err e, ds)
      | Ok ps \<Rightarrow>
          (case on_context a (db_execute pg sql ps) ds of
             (Err e, ds) \<Rightarrow> (Err e, ds)
           | (Ok affected, ds) \<Rightarrow> sess_execute_many sl pg a sql rest (total_affected + affected) ds))"

definition sess_set_auto_commit :: "nat \<Rightarrow> bool \<Rightarrow> ('c, 'd) db_system \<Rightarrow> (string + unit) \<times> ('c, 'd) db_system" where
  "sess_set_auto_commit a b ds = on_context a (\<lambda>(ctx, db). (Ok (), set_auto_commit b ctx, db)) ds"

definition sess_set_error :: "nat \<Rightarrow> ('c, 'd) db_system \<Rightarrow> (string + unit) \<times> ('c, 'd) db_system" where
  "sess_set_error a ds = on_context a (\<lambda>(ctx, db). (Ok (), set_error ctx, db)) ds"

fun state_debug :: "context_state \<Rightarrow> string" where
  "state_debug Idle = ''Idle''"
| "state_debug Connected = ''Connected''"
| "state_debug InTransaction = ''InTransaction''"
| "state_debug Committed = ''Committed''"
| "state_debug RolledBack = ''RolledBack''"
| "state_debug Closed = ''Closed''"

definition sess_state :: "nat \<Rightarrow> ('c, 'd) db_system \<Rightarrow> string" where
  "sess_state a ds = state_debug (dc_state (ds_store ds ! a))"

definition sess_repr :: "nat \<Rightarrow> ('c, 'd) db_system \<Rightarrow> string" where
  "sess_repr a ds =
     ''DbSession(request_id='' @ [CHR 0x27] @ dc_request_id (ds_store ds ! a) @ [CHR 0x27] @ '', alias='' @
     [CHR 0x27] @ dc_alias (ds_store ds ! a) @ [CHR 0x27] @ '')''"

subsection \<open>Consistency\<close>

text \<open>What every method of a session leaves: a consistent system with as many contexts.\<close>

definition keeps :: "('c, 'd) db_system \<Rightarrow> ('c, 'd) db_system \<Rightarrow> bool" where
  "keeps ds ds' = (ds_inv ds' \<and> length (ds_store ds') = length (ds_store ds))"

lemma keeps_refl: "ds_inv ds \<Longrightarrow> keeps ds ds"
  by (simp add: keeps_def)

lemma on_context_keeps:
  assumes "context_op f" "ds_inv ds" "a < length (ds_store ds)"
  shows "keeps ds (snd (on_context a f ds))"
  using context_op.on_context_ds_inv [OF assms] context_op.on_context_ident [OF assms(1,3)] by (simp add: keeps_def)

lemmas session_ops = begin_tx.context_op_axioms commit.context_op_axioms rollback.context_op_axioms
  query.context_op_axioms execute.context_op_axioms auto_commit.context_op_axioms error_flag.context_op_axioms

lemma execute_many_keeps:
  "ds_inv ds \<Longrightarrow> a < length (ds_store ds) \<Longrightarrow> keeps ds (snd (sess_execute_many sl pg a sql pss n ds))"
proof (induction pss arbitrary: n ds)
  case (Cons params rest)
  show ?case
  proof (cases "convert_params_from_py (sl_py sl) (sl_json sl) params :: string + 'd dyn_param list")
    case (Inr ps)
    obtain r ds' where o: "on_context a (db_execute pg sql ps) ds = (r, ds')" by (cases "on_context a (db_execute pg sql ps) ds")
    with on_context_keeps [OF execute.context_op_axioms Cons.prems, of pg sql ps] have k: "keeps ds ds'" by simp
    then show ?thesis using Cons.IH [of ds'] Cons.prems Inr o by (cases r) (auto simp: keeps_def)
  qed (use Cons.prems in \<open>simp add: keeps_refl\<close>)
qed (simp add: keeps_refl)

text \<open>
  No method of a session breaks the contexts, whatever Python passes and whatever the database
  answers: each leaves every context in a consistent state and the table pointing to the contexts
  of its requests.
\<close>

theorem session_methods_consistent:
  assumes "ds_inv ds" "a < length (ds_store ds)"
  shows "ds_inv (snd (sess_begin pg a ds)) \<and> ds_inv (snd (sess_commit pg a ds)) \<and> ds_inv (snd (sess_rollback pg a ds)) \<and>
    ds_inv (snd (sess_query sl pg a sql params ds)) \<and> ds_inv (snd (sess_query_one sl pg a sql params ds)) \<and>
    ds_inv (snd (sess_execute sl pg a sql params ds)) \<and> ds_inv (snd (sess_execute_many sl pg a sql pss n ds)) \<and>
    ds_inv (snd (sess_set_auto_commit a b ds)) \<and> ds_inv (snd (sess_set_error a ds))"
proof -
  have on: "ds_inv (snd (on_context a f ds))" if "context_op f" for f :: "'a db_context \<times> 'b \<Rightarrow> 'x \<times> 'a db_context \<times> 'b"
    using context_op.on_context_ds_inv [OF that assms] .
  have q: "ds_inv (snd (on_context a (db_query pg sql ps) ds))" for ps by (rule on) (rule query.context_op_axioms)
  have e: "ds_inv (snd (on_context a (db_execute pg sql ps) ds))" for ps by (rule on) (rule execute.context_op_axioms)
  have "ds_inv (snd (sess_query sl pg a sql params ds))"
    using assms(1) q by (auto simp: sess_query_def split: sum.splits prod.splits) (metis snd_conv)+
  moreover have "ds_inv (snd (sess_query_one sl pg a sql params ds))"
    using assms(1) q by (auto simp: sess_query_one_def split: sum.splits prod.splits list.splits) (metis snd_conv)+
  moreover have "ds_inv (snd (sess_execute sl pg a sql params ds))"
    using assms(1) e by (auto simp: sess_execute_def split: sum.splits)
  moreover have "ds_inv (snd (sess_execute_many sl pg a sql pss n ds))"
    using execute_many_keeps [OF assms, of sl pg sql pss n] by (simp add: keeps_def)
  ultimately show ?thesis
    unfolding sess_begin_def sess_commit_def sess_rollback_def sess_set_auto_commit_def sess_set_error_def
    by (intro conjI on session_ops)
qed

theorem session_methods_consistent_witness:
  "let ds = snd (get_db ''r'' ''default'' \<lparr>ds_contexts = [], ds_store = [], ds_db = []\<rparr>) :: (unit, string list) db_system
   in ds_inv (snd (sess_set_error 0 ds)) \<and> dc_has_error (ds_store (snd (sess_set_error 0 ds)) ! 0)"
proof -
  let ?ds = "snd (get_db ''r'' ''default'' \<lparr>ds_contexts = [], ds_store = [], ds_db = []\<rparr>) :: (unit, string list) db_system"
  have "ds_inv ?ds" "0 < length (ds_store ?ds)"
    by (auto simp: get_db_def get_request_context_def create_request_context_def db_context_new_def ds_inv_def store_inv_def
        table_inv_def rows_wf_def ctx_inv_def wf_map_def split: if_splits)
  from session_methods_consistent [OF this] have "ds_inv (snd (sess_set_error 0 ?ds))" by blast
  then show ?thesis
    by (simp add: sess_set_error_def on_context_def set_error_def get_db_def get_request_context_def
        create_request_context_def)
qed

subsection \<open>Partial effects\<close>

text \<open>
  A call with a parameter that cannot be converted raises before anything happens, and a row
  that cannot be converted raises after everything has happened.
\<close>

lemma bad_parameter_no_effect:
  assumes "convert_params_from_py (sl_py sl) (sl_json sl) (unwrap_params params) = (Err e :: string + 'n dyn_param list)"
  shows "sess_query sl (pg :: ('c, 'n, 'cell, 'd) session_pg) a sql params ds = (Err e, ds)"
    "sess_execute sl pg a sql params ds = (Err e, ds)"
  using assms by (simp_all add: sess_query_def sess_execute_def)

lemma sess_execute_many_append:
  "sess_execute_many sl pg a sql (xs @ ys) n ds =
     (case sess_execute_many sl pg a sql xs n ds of
        (Err e, ds) \<Rightarrow> (Err e, ds)
      | (Ok m, ds) \<Rightarrow> sess_execute_many sl pg a sql ys m ds)"
  by (induction xs arbitrary: n ds) (auto split: sum.split prod.split)

text \<open>
  \<open>execute_many\<close> is not all or nothing. The parameters of a statement are converted only when
  the statements before it have been executed, so when a later list of parameters is unusable,
  the call raises that error and the database keeps what the earlier statements did.
\<close>

theorem execute_many_keeps_earlier_statements:
  assumes "sess_execute_many sl (pg :: ('c, 'n, 'cell, 'd) session_pg) a sql earlier 0 ds = (Ok m, ds')"
    and "convert_params_from_py (sl_py sl) (sl_json sl) bad = (Err e :: string + 'n dyn_param list)"
  shows "sess_execute_many sl pg a sql (earlier @ bad # later) 0 ds = (Err e, ds')"
  using assms by (simp add: sess_execute_many_append)

text \<open>A client that records the statements and Python objects that are text (\<open>Inr\<close>) or raise in \<open>str()\<close>.\<close>

definition text_params :: "(string + string) param_py" where
  "text_params =
     \<lparr>pp_is_none = (\<lambda>_. False), pp_bool = (\<lambda>_. None), pp_i64 = (\<lambda>_. None), pp_f64 = (\<lambda>_. None),
      pp_string = (\<lambda>ob. case ob of Ok s \<Rightarrow> Some s | Err _ \<Rightarrow> None), pp_datetime = (\<lambda>_. None), pp_date = (\<lambda>_. None),
      pp_time = (\<lambda>_. None), pp_container = (\<lambda>_. False), pp_dumps = (\<lambda>_. Ok []), pp_bytes = (\<lambda>_. None), pp_str = (\<lambda>ob. ob)\<rparr>"

definition recording_pg :: "(unit, unit, nat, string list) session_pg" where
  "recording_pg =
     \<lparr>pg_pool = (\<lambda>al d. True), pg_get = (\<lambda>al d. (Ok (), d)),
      pg_execute = (\<lambda>c sql ps d. (Ok 1, d @ map (\<lambda>p. case p of DPText s \<Rightarrow> sql @ s | _ \<Rightarrow> sql) ps)),
      pg_query = (\<lambda>c sql ps d. (Ok [], d))\<rparr>"

theorem execute_many_keeps_earlier_statements_witness:
  "let sl = \<lparr>sl_py = text_params, sl_json = (\<lambda>_. Err []), sl_cells = sample_row\<rparr>;
       ds = \<lparr>ds_contexts = [], ds_store = [db_context_new ''r'' ''default''], ds_db = []\<rparr>
   in \<exists>ds'. sess_execute_many sl recording_pg 0 ''insert '' ([[Ok ''a'']] @ [Err ''bad''] # [[Ok ''b'']]) 0 ds = (Err ''bad'', ds') \<and>
        ds_db ds' = [''insert a'']"
proof -
  let ?sl = "\<lparr>sl_py = text_params, sl_json = (\<lambda>_. Err []), sl_cells = sample_row\<rparr> :: (string + string, unit, nat) session_libs"
  let ?ds = "\<lparr>ds_contexts = [], ds_store = [db_context_new ''r'' ''default''], ds_db = []\<rparr> :: (unit, string list) db_system"
  let ?ds' = "snd (sess_execute_many ?sl recording_pg 0 ''insert '' [[Ok ''a'']] 0 ?ds)"
  note eval = convert_params_from_py_def convert_param_def text_params_def on_context_def db_execute_def ensure_connection_def
    with_connection_def db_context_new_def recording_pg_def
  have a: "sess_execute_many ?sl recording_pg 0 ''insert '' [[Ok ''a'']] 0 ?ds = (Ok 1, ?ds')" by (simp add: eval)
  have b: "convert_params_from_py (sl_py ?sl) (sl_json ?sl) [Err ''bad''] = (Err ''bad'' :: string + unit dyn_param list)"
    by (simp add: eval)
  have "ds_db ?ds' = [''insert a'']" by (simp add: eval)
  with execute_many_keeps_earlier_statements [OF a b, of "[[Ok ''b'']]"] show ?thesis by (auto simp: Let_def)
qed

end
