(* ===== verification/Socket.thy ===== *)
theory Socket
  imports Prelude
begin

text \<open>
  The listening socket (\<open>SocketHeld\<close> of \<open>src/core/socket.rs\<close>). Opening it is a sequence of system
  calls whose first failure raises, except for two tuning calls whose result is ignored. The
  operating system is a parameter: it answers each call and changes its state \<open>'s\<close>.
\<close>

datatype domain = IPV4 | IPV6

record ip_addr =
  ip_v4 :: bool
  ip_text :: string

datatype sock_call =
  SetReusePort bool | SetNodelay bool | SetReuseAddress bool | SetKeepalive bool | SetTcpKeepalive nat
| SetLinger nat | SetRecvBuffer nat | SetSendBuffer nat | TcpFastopen nat | TcpQuickack nat
| SetNonblocking bool | BindTo ip_addr nat | Listen nat

record 's sock_os =
  os_parse_ip :: "string \<Rightarrow> string + ip_addr"
  os_open :: "domain \<Rightarrow> 's \<Rightarrow> (string + nat) \<times> 's"
  os_call :: "nat \<Rightarrow> sock_call \<Rightarrow> 's \<Rightarrow> (string + unit) \<times> 's"

text \<open>The calls on the socket in the order of the code on Linux; \<open>True\<close> where the result is checked with \<open>?\<close>.\<close>

definition setup_calls :: "ip_addr \<Rightarrow> nat \<Rightarrow> (bool \<times> sock_call) list" where
  "setup_calls ip port =
     [(True, SetReusePort True), (True, SetNodelay True), (True, SetReuseAddress True), (True, SetKeepalive True),
      (True, SetTcpKeepalive 60), (True, SetLinger 1), (True, SetRecvBuffer (256 * 1024)), (True, SetSendBuffer (256 * 1024)),
      (False, TcpFastopen 5), (False, TcpQuickack 1), (True, SetNonblocking True), (True, BindTo ip port), (True, Listen 8192)]"

fun run_calls :: "'s sock_os \<Rightarrow> nat \<Rightarrow> (bool \<times> sock_call) list \<Rightarrow> 's \<Rightarrow> (string + unit) \<times> 's" where
  "run_calls os fd [] s = (Ok (), s)"
| "run_calls os fd ((checked, c) # cs) s =
     (case os_call os fd c s of
        (Ok _, s') \<Rightarrow> run_calls os fd cs s'
      | (Err e, s') \<Rightarrow> if checked then (Err e, s') else run_calls os fd cs s')"

definition socket_held_new :: "'s sock_os \<Rightarrow> string \<Rightarrow> nat \<Rightarrow> 's \<Rightarrow> (string + nat) \<times> 's" where
  "socket_held_new os ip port s =
     (case os_parse_ip os ip of
        Err e \<Rightarrow> (Err e, s)
      | Ok addr \<Rightarrow>
          (case os_open os (if ip_v4 addr then IPV4 else IPV6) s of
             (Err e, s) \<Rightarrow> (Err e, s)
           | (Ok fd, s) \<Rightarrow>
               (case run_calls os fd (setup_calls addr port) s of
                  (Err e, s) \<Rightarrow> (Err e, s)
                | (Ok _, s) \<Rightarrow> (Ok fd, s))))"

subsection \<open>Which calls are made\<close>

text \<open>The states of the system after each call of a list, made one after the other.\<close>

fun after_calls :: "'s sock_os \<Rightarrow> nat \<Rightarrow> sock_call list \<Rightarrow> 's \<Rightarrow> 's" where
  "after_calls os fd [] s = s"
| "after_calls os fd (c # cs) s = after_calls os fd cs (snd (os_call os fd c s))"

definition call_ok :: "'s sock_os \<Rightarrow> nat \<Rightarrow> sock_call list \<Rightarrow> sock_call \<Rightarrow> 's \<Rightarrow> bool" where
  "call_ok os fd before c s = (\<exists>u. fst (os_call os fd c (after_calls os fd before s)) = Ok u)"

lemma after_calls_append: "after_calls os fd (xs @ ys) s = after_calls os fd ys (after_calls os fd xs s)"
  by (induction xs arbitrary: s) auto

lemma run_calls_cases:
  "(\<exists>u. run_calls os fd cs s = (Ok u, after_calls os fd (map snd cs) s)) \<and>
     (\<forall>pre c post. cs = pre @ (True, c) # post \<longrightarrow> call_ok os fd (map snd pre) c s) \<or>
   (\<exists>pre c post e. cs = pre @ (True, c) # post \<and> \<not> call_ok os fd (map snd pre) c s \<and>
      run_calls os fd cs s = (Err e, after_calls os fd (map snd pre @ [c]) s))"
  (is "?good cs s \<or> ?bad cs s")
proof (induction cs arbitrary: s)
  case (Cons x cs)
  obtain b c where x: "x = (b, c)" by (cases x)
  obtain r s' where o: "os_call os fd c s = (r, s')" by (cases "os_call os fd c s")
  show ?case
  proof (cases "b \<and> (\<exists>e. r = Err e)")
    case True
    then obtain e where e: "r = Err e" "b" by blast
    have "x # cs = [] @ (True, c) # cs \<and> \<not> call_ok os fd (map snd []) c s \<and>
        run_calls os fd (x # cs) s = (Err e, after_calls os fd (map snd [] @ [c]) s)"
      using o e by (simp add: x call_ok_def)
    then show ?thesis by blast
  next
    case False
    then have run: "run_calls os fd (x # cs) s = run_calls os fd cs s'" using o by (cases r) (auto simp: x)
    have shift: "call_ok os fd (map snd (x # pre)) d s = call_ok os fd (map snd pre) d s'" for pre d
      using o by (simp add: call_ok_def x)
    show ?thesis
    proof (cases "?good cs s'")
      case True
      have "call_ok os fd (map snd pre) d s" if "x # cs = pre @ (True, d) # post" for pre d post
      proof (cases pre)
        case Nil
        with that False o show ?thesis by (cases r) (auto simp: x call_ok_def)
      next
        case (Cons y ys)
        with that True shift [of ys d] show ?thesis by auto
      qed
      moreover have "\<exists>u. run_calls os fd (x # cs) s = (Ok u, after_calls os fd (map snd (x # cs)) s)"
        unfolding run using True o by (simp add: x)
      ultimately show ?thesis by blast
    next
      case no: False
      with Cons.IH [of s'] obtain pre d post e where bad: "cs = pre @ (True, d) # post" "\<not> call_ok os fd (map snd pre) d s'"
        "run_calls os fd cs s' = (Err e, after_calls os fd (map snd pre @ [d]) s')" by blast
      have "x # cs = (x # pre) @ (True, d) # post \<and> \<not> call_ok os fd (map snd (x # pre)) d s \<and>
          run_calls os fd (x # cs) s = (Err e, after_calls os fd (map snd (x # pre) @ [d]) s)"
        unfolding run shift using bad o by (simp add: x)
      then show ?thesis by blast
    qed
  qed
qed simp

text \<open>
  Opening the listening socket is all or nothing up to the first failing call. If it succeeds, every
  checked call succeeded, the address was bound and then listened on with a backlog of 8192, as the
  last two calls; if it fails after the socket was opened, exactly the calls up to the failing one
  were made, so the address is never listened on. A failure of the two TCP tuning calls never fails
  it.
\<close>

theorem socket_listens_last:
  assumes "os_parse_ip os ip = Ok addr" "os_open os (if ip_v4 addr then IPV4 else IPV6) s = (Ok fd, s1)"
  shows "(case socket_held_new os ip port s of
     (Ok fd', s') \<Rightarrow>
       fd' = fd \<and> s' = after_calls os fd (map snd (setup_calls addr port)) s1 \<and>
       (\<forall>pre c post. setup_calls addr port = pre @ (True, c) # post \<longrightarrow> call_ok os fd (map snd pre) c s1) \<and>
       (\<exists>pre. map snd (setup_calls addr port) = pre @ [BindTo addr port, Listen 8192])
   | (Err e, s') \<Rightarrow>
       (\<exists>pre c post. setup_calls addr port = pre @ (True, c) # post \<and> \<not> call_ok os fd (map snd pre) c s1 \<and>
          s' = after_calls os fd (map snd pre @ [c]) s1 \<and> Listen 8192 \<notin> set (map snd pre)))"
proof -
  have last: "map snd (setup_calls addr port) = butlast (butlast (map snd (setup_calls addr port))) @ [BindTo addr port, Listen 8192]"
    by (simp add: setup_calls_def)
  have nolisten: "Listen 8192 \<notin> set (map snd pre)" if "setup_calls addr port = pre @ x # post" for pre x post
  proof -
    have "butlast (setup_calls addr port) = pre @ butlast (x # post)" by (simp add: that butlast_append)
    then have "set (map snd pre) \<subseteq> set (map snd (butlast (setup_calls addr port)))" by auto
    then show ?thesis by (auto simp: setup_calls_def)
  qed
  show ?thesis
    using run_calls_cases [of os fd "setup_calls addr port" s1]
  proof
    assume "(\<exists>u. run_calls os fd (setup_calls addr port) s1 = (Ok u, after_calls os fd (map snd (setup_calls addr port)) s1)) \<and>
      (\<forall>pre c post. setup_calls addr port = pre @ (True, c) # post \<longrightarrow> call_ok os fd (map snd pre) c s1)"
    then show ?thesis using last by (auto simp: socket_held_new_def assms simp del: butlast.simps)
  next
    assume "\<exists>pre c post e. setup_calls addr port = pre @ (True, c) # post \<and> \<not> call_ok os fd (map snd pre) c s1 \<and>
      run_calls os fd (setup_calls addr port) s1 = (Err e, after_calls os fd (map snd pre @ [c]) s1)"
    then obtain pre c post e where *: "setup_calls addr port = pre @ (True, c) # post" "\<not> call_ok os fd (map snd pre) c s1"
      "run_calls os fd (setup_calls addr port) s1 = (Err e, after_calls os fd (map snd pre @ [c]) s1)" by blast
    have "socket_held_new os ip port s = (Err e, after_calls os fd (map snd pre @ [c]) s1)"
      using *(3) by (simp add: socket_held_new_def assms)
    then show ?thesis using *(1,2) nolisten [OF *(1)] by (simp, blast)
  qed
qed

text \<open>A system on which the address is in use: it records the calls and refuses to bind.\<close>

definition busy_os :: "sock_call list sock_os" where
  "busy_os =
     \<lparr>os_parse_ip = (\<lambda>s. Ok \<lparr>ip_v4 = True, ip_text = s\<rparr>), os_open = (\<lambda>d s. (Ok 3, s)),
      os_call = (\<lambda>fd c s. (case c of BindTo a p \<Rightarrow> Err ''Address already in use'' | _ \<Rightarrow> Ok (), s @ [c]))\<rparr>"

theorem socket_listens_last_witness:
  "\<exists>e s'. socket_held_new busy_os ''0.0.0.0'' 8000 [] = (Err e, s') \<and> Listen 8192 \<notin> set s'"
proof -
  let ?a = "\<lparr>ip_v4 = True, ip_text = ''0.0.0.0''\<rparr>"
  have p: "os_parse_ip busy_os ''0.0.0.0'' = Ok ?a" "os_open busy_os (if ip_v4 ?a then IPV4 else IPV6) [] = (Ok 3, [])"
    by (simp_all add: busy_os_def)
  have tr: "after_calls busy_os fd cs s = s @ cs" for fd cs s by (induction cs arbitrary: s) (auto simp: busy_os_def)
  have ok: "call_ok busy_os fd pre (Listen 8192) s" for fd pre s by (simp add: call_ok_def busy_os_def)
  have err: "\<exists>e s'. socket_held_new busy_os ''0.0.0.0'' 8000 [] = (Err e, s')"
    by (simp add: socket_held_new_def busy_os_def setup_calls_def)
  then obtain e s' where e: "socket_held_new busy_os ''0.0.0.0'' 8000 [] = (Err e, s')" by blast
  from socket_listens_last [OF p, of 8000] have "\<exists>pre c post. setup_calls ?a 8000 = pre @ (True, c) # post \<and>
      \<not> call_ok busy_os 3 (map snd pre) c [] \<and> s' = after_calls busy_os 3 (map snd pre @ [c]) [] \<and> Listen 8192 \<notin> set (map snd pre)"
    by (simp add: e)
  then have "Listen 8192 \<notin> set s'" using ok by (auto simp: tr)
  with e show ?thesis by blast
qed

end
