(* ===== verification/Grpc.thy ===== *)
theory Grpc
  imports Prelude
begin

text \<open>
  The gRPC server object (\<open>src/grpc/mod.rs\<close>). It holds an address and a flag; the module has no
  operation that starts a server.
\<close>

record grpc_config =
  gr_host :: string
  gr_port :: nat

definition grpc_config_new :: "string option \<Rightarrow> nat option \<Rightarrow> grpc_config" where
  "grpc_config_new host port =
     \<lparr>gr_host = (case host of Some h \<Rightarrow> h | None \<Rightarrow> ''0.0.0.0''), gr_port = (case port of Some p \<Rightarrow> p | None \<Rightarrow> 50051)\<rparr>"

definition grpc_config_repr :: "grpc_config \<Rightarrow> string" where
  "grpc_config_repr c =
     ''GrpcConfig(host='' @ [CHR 0x27] @ gr_host c @ [CHR 0x27] @ '', port='' @ show_nat (gr_port c) @ '')''"

record grpc_server =
  gs_config :: grpc_config
  gs_running :: bool

definition grpc_server_new :: "grpc_config option \<Rightarrow> grpc_server" where
  "grpc_server_new config =
     \<lparr>gs_config = (case config of Some c \<Rightarrow> c | None \<Rightarrow> grpc_config_new (Some ''0.0.0.0'') (Some 50051)), gs_running = False\<rparr>"

definition grpc_address :: "grpc_server \<Rightarrow> string" where
  "grpc_address s = gr_host (gs_config s) @ '':'' @ show_nat (gr_port (gs_config s))"

definition grpc_is_running :: "grpc_server \<Rightarrow> bool" where
  "grpc_is_running s = gs_running s"

definition grpc_repr :: "grpc_server \<Rightarrow> string" where
  "grpc_repr s =
     ''GrpcServer(address='' @ [CHR 0x27] @ grpc_address s @ [CHR 0x27] @ '', running='' @
     (if grpc_is_running s then ''true'' else ''false'') @ '')''"

text \<open>A server object never reports that it runs, although the class is documented to be started.\<close>

lemma grpc_never_running: "\<not> grpc_is_running (grpc_server_new config)"
  by (simp add: grpc_is_running_def grpc_server_new_def)

text \<open>The address determines the host and the port when the host has no colon.\<close>

lemma grpc_address_inj:
  assumes "CHR '':'' \<notin> set (gr_host c)" "CHR '':'' \<notin> set (gr_host d)"
    and "grpc_address (grpc_server_new (Some c)) = grpc_address (grpc_server_new (Some d))"
  shows "c = d"
  using assms append_sep_eq [of "CHR '':''" "gr_host c" "gr_host d" "show_nat (gr_port c)" "show_nat (gr_port d)"]
  by (simp add: grpc_address_def grpc_server_new_def show_nat_inject)

end
