(* ===== verification/Supervisor.thy ===== *)
theory Supervisor
  imports Reload
begin

text \<open>
  The parent process (\<open>src/core/server.rs\<close>, \<open>start\<close>, and the Unix part of
  \<open>src/core/multiprocess.rs\<close>): forking workers, the loop that answers signals and worker exits,
  graceful and hot reload, shutdown, and waiting for workers with a deadline. Times are
  milliseconds. The operating system is a clock, a pid counter and the history of the signals sent;
  when signals arrive and when a worker is gone are parameters, the latter depending on the signals it
  was sent.
\<close>

subsection \<open>Processes\<close>

datatype signal = SIGTERM | SIGKILL | SIGUSR1 | SIGUSR2

record os =
  os_clock :: nat
  os_next_pid :: nat
  os_signals :: "(nat \<times> signal \<times> nat) list"

text \<open>
  \<open>gone sent pid t\<close>: the worker has exited (or was reaped before) at time \<open>t\<close>, when the signals
  \<open>sent\<close> were sent to it, each at its time; then \<open>waitpid\<close> returns its pid or -1.
\<close>

type_synonym worker_exit = "(signal \<times> nat) list \<Rightarrow> nat \<Rightarrow> nat \<Rightarrow> bool"

definition sent_to :: "nat \<Rightarrow> os \<Rightarrow> (signal \<times> nat) list" where
  "sent_to pid s = map snd (filter (\<lambda>(p, sg). p = pid) (os_signals s))"

definition is_gone :: "worker_exit \<Rightarrow> nat \<Rightarrow> os \<Rightarrow> bool" where
  "is_gone gone pid s = gone (sent_to pid s) pid (os_clock s)"

definition kill :: "nat \<Rightarrow> signal \<Rightarrow> os \<Rightarrow> os" where
  "kill pid sg s = s\<lparr>os_signals := os_signals s @ [(pid, sg, os_clock s)]\<rparr>"

definition kill_all :: "signal \<Rightarrow> nat list \<Rightarrow> os \<Rightarrow> os" where
  "kill_all sg pids s = fold (\<lambda>pid. kill pid sg) pids s"

definition sleep :: "nat \<Rightarrow> os \<Rightarrow> os" where
  "sleep ms s = s\<lparr>os_clock := os_clock s + ms\<rparr>"

text \<open>
  What the parent depends on: whether \<open>fork\<close> succeeds, whether the listening socket can be opened at
  a time, and when a worker is gone.
\<close>

record host =
  h_fork :: "os \<Rightarrow> bool"
  h_bind :: "nat \<Rightarrow> bool"
  h_gone :: worker_exit

datatype start_error = Socket_Error | Fork_Panic nat

text \<open>\<open>spawn_workers\<close>: one \<open>fork\<close> per worker; a failed one panics, whatever was forked before.\<close>

fun spawn_loop :: "host \<Rightarrow> nat \<Rightarrow> nat \<Rightarrow> nat list \<Rightarrow> os \<Rightarrow> (start_error + nat list) \<times> os" where
  "spawn_loop h worker_id 0 child_pids s = (Inr child_pids, s)"
| "spawn_loop h worker_id (Suc n) child_pids s =
     (if h_fork h s
      then spawn_loop h (worker_id + 1) n (child_pids @ [os_next_pid s]) (s\<lparr>os_next_pid := os_next_pid s + 1\<rparr>)
      else (Inl (Fork_Panic worker_id), s))"

definition spawn_workers :: "host \<Rightarrow> nat \<Rightarrow> os \<Rightarrow> (start_error + nat list) \<times> os" where
  "spawn_workers h num_workers s = spawn_loop h 0 num_workers [] s"

definition terminate_workers :: "nat list \<Rightarrow> os \<Rightarrow> os" where
  "terminate_workers pids s = kill_all SIGTERM pids s"

text \<open>The inner loop of \<open>wait_for_workers\<close>: poll every 10 ms for at most \<open>remaining\<close>.\<close>

function poll_worker :: "worker_exit \<Rightarrow> nat \<Rightarrow> nat \<Rightarrow> nat \<Rightarrow> os \<Rightarrow> bool \<times> os" where
  "poll_worker gone pid check_start remaining s =
     (if os_clock s - check_start < remaining then
        (if is_gone gone pid s then (True, s)
         else poll_worker gone pid check_start remaining (sleep 10 s))
      else (False, s))"
  by pat_completeness auto
termination
  by (relation "measure (\<lambda>(gone, pid, st, remaining, s). st + remaining - os_clock s)") (auto simp: sleep_def)

declare poll_worker.simps [simp del]

definition wait_one :: "worker_exit \<Rightarrow> nat \<Rightarrow> nat \<Rightarrow> os \<Rightarrow> os" where
  "wait_one gone begun pid s =
     (let remaining = 5000 - (os_clock s - begun) in
      if remaining = 0 then kill pid SIGKILL s
      else case poll_worker gone pid (os_clock s) remaining s of
             (waited, s') \<Rightarrow> if waited then s' else kill pid SIGKILL s')"

definition wait_for_workers :: "worker_exit \<Rightarrow> nat list \<Rightarrow> os \<Rightarrow> os" where
  "wait_for_workers gone pids s = fold (wait_one gone (os_clock s)) pids s"

subsection \<open>The loop of the parent\<close>

text \<open>When each signal has been received by the parent: the three flags its handler sets.\<close>

record received =
  rv_graceful :: "nat \<Rightarrow> bool"
  rv_hot :: "nat \<Rightarrow> bool"
  rv_shutdown :: "nat \<Rightarrow> bool"

text \<open>What the parent keeps: its configuration, the reload manager and the operating system.\<close>

record parent =
  pa_config :: reload_config
  pa_manager :: reload_manager
  pa_os :: os

text \<open>
  A new reload manager, a new socket and new workers; the new manager replaces the old one, and the
  parent waits for the new workers.
\<close>

definition respawn :: "host \<Rightarrow> nat \<Rightarrow> parent \<Rightarrow> (start_error + nat list) \<times> parent" where
  "respawn h num pa =
     (let new_rm = rm_new (os_clock (pa_os pa)) (pa_config pa) in
      if \<not> h_bind h (os_clock (pa_os pa)) then (Inl Socket_Error, pa)
      else case spawn_workers h num (pa_os pa) of
             (Inl e, s) \<Rightarrow> (Inl e, pa\<lparr>pa_os := s\<rparr>)
           | (Inr new_pids, s) \<Rightarrow>
               (Inr new_pids, pa\<lparr>pa_manager := reset_after_reload new_rm,
                                pa_os := wait_for_workers (h_gone h) new_pids s\<rparr>))"

definition graceful_branch :: "host \<Rightarrow> nat \<Rightarrow> nat list \<Rightarrow> parent \<Rightarrow> (start_error + nat list) \<times> parent" where
  "graceful_branch h num pids pa =
     (let pa = pa\<lparr>pa_manager := signal_graceful_reload (pa_manager pa)\<rparr>;
          s = kill_all SIGUSR1 pids (pa_os pa);
          s = sleep (rd_drain_timeout_secs (rm_config (pa_manager pa)) * 1000) s;
          s = wait_for_workers (h_gone h) pids (terminate_workers pids s)
      in respawn h num (pa\<lparr>pa_os := s\<rparr>))"

definition hot_branch :: "host \<Rightarrow> nat \<Rightarrow> nat list \<Rightarrow> parent \<Rightarrow> (start_error + nat list) \<times> parent" where
  "hot_branch h num pids pa =
     (let pa = pa\<lparr>pa_manager := signal_hot_reload (pa_manager pa)\<rparr>;
          s = wait_for_workers (h_gone h) pids (kill_all SIGKILL pids (pa_os pa))
      in respawn h num (pa\<lparr>pa_os := s\<rparr>))"

definition shutdown_branch :: "nat list \<Rightarrow> parent \<Rightarrow> parent" where
  "shutdown_branch pids pa =
     pa\<lparr>pa_os := terminate_workers pids (sleep 2000 (kill_all SIGUSR1 pids (pa_os pa)))\<rparr>"

text \<open>\<open>waitpid(-1, WNOHANG)\<close> finds a worker that exited.\<close>

definition some_exited :: "worker_exit \<Rightarrow> nat list \<Rightarrow> os \<Rightarrow> bool" where
  "some_exited gone pids s = list_ex (\<lambda>pid. is_gone gone pid s) pids"

text \<open>
  The loop ends with an error or with the pids it spawned in a reload, and with the parent; it may also
  run forever, which is \<open>None\<close>.
\<close>

partial_function (option) supervise ::
  "host \<Rightarrow> received \<Rightarrow> nat \<Rightarrow> nat list \<Rightarrow> parent \<Rightarrow> ((start_error + nat list) \<times> parent) option" where
  "supervise h rv num pids pa =
     (if rv_graceful rv (os_clock (pa_os pa)) then Some (graceful_branch h num pids pa)
      else if rv_hot rv (os_clock (pa_os pa)) then Some (hot_branch h num pids pa)
      else if rv_shutdown rv (os_clock (pa_os pa)) then Some (Inr [], shutdown_branch pids pa)
      else if some_exited (h_gone h) pids (pa_os pa)
      then Some (Inr [], pa\<lparr>pa_os := terminate_workers pids (pa_os pa)\<rparr>)
      else supervise h rv num pids (pa\<lparr>pa_os := sleep 50 (pa_os pa)\<rparr>))"

text \<open>\<open>start\<close>: the first workers, the loop, and the final wait for the first workers.\<close>

definition server_start ::
  "host \<Rightarrow> received \<Rightarrow> nat \<Rightarrow> reload_config \<Rightarrow> os \<Rightarrow> ((start_error + nat list \<times> nat list) \<times> os) option" where
  "server_start h rv num cfg s =
     (if \<not> h_bind h (os_clock s) then Some (Inl Socket_Error, s)
      else let rm = rm_new (os_clock s) cfg in
        case spawn_workers h num s of
          (Inl e, s') \<Rightarrow> Some (Inl e, s')
        | (Inr pids, s') \<Rightarrow>
            (case supervise h rv num pids \<lparr>pa_config = cfg, pa_manager = rm, pa_os = s'\<rparr> of
               None \<Rightarrow> None
             | Some (Inl e, pa) \<Rightarrow> Some (Inl e, pa_os pa)
             | Some (Inr new_pids, pa) \<Rightarrow>
                 Some (Inr (pids, new_pids), wait_for_workers (h_gone h) pids (pa_os pa))))"

subsection \<open>Signals are never forgotten\<close>

lemma os_kill_all: "kill_all sg pids s = s\<lparr>os_signals := os_signals s @ map (\<lambda>p. (p, sg, os_clock s)) pids\<rparr>"
  by (induction pids arbitrary: s) (simp_all add: kill_all_def kill_def)

lemma sent_to_simps [simp]:
  "sent_to pid (kill p sg s) = (if p = pid then sent_to pid s @ [(sg, os_clock s)] else sent_to pid s)"
  "sent_to pid (sleep ms s) = sent_to pid s"
  "sent_to pid (s\<lparr>os_next_pid := n\<rparr>) = sent_to pid s"
  by (auto simp: sent_to_def kill_def sleep_def)

lemma clock_simps [simp]:
  "os_clock (kill p sg s) = os_clock s" "os_clock (sleep ms s) = os_clock s + ms"
  "os_next_pid (kill p sg s) = os_next_pid s" "os_next_pid (sleep ms s) = os_next_pid s"
  by (simp_all add: kill_def sleep_def)

lemma poll_worker_frame:
  "poll_worker gone pid st rem s = (w, s') \<Longrightarrow>
   os_signals s' = os_signals s \<and> os_next_pid s' = os_next_pid s \<and> os_clock s \<le> os_clock s' \<and> (w \<longrightarrow> is_gone gone pid s')"
proof (induction gone pid st rem s rule: poll_worker.induct)
  case (1 gone pid st rem s)
  show ?case
  proof (cases "os_clock s - st < rem \<and> \<not> is_gone gone pid s")
    case True
    with 1(2) have "poll_worker gone pid st rem (sleep 10 s) = (w, s')" by (subst (asm) poll_worker.simps) simp
    from 1(1) [OF _ _ this] True show ?thesis by (auto simp: sleep_def)
  next
    case False
    with 1(2) show ?thesis by (subst (asm) poll_worker.simps) (auto split: if_splits)
  qed
qed

text \<open>After waiting for a worker it is gone or was killed, and other workers got no signal.\<close>

definition accounted :: "worker_exit \<Rightarrow> nat \<Rightarrow> os \<Rightarrow> bool" where
  "accounted gone pid s = (SIGKILL \<in> fst ` set (sent_to pid s) \<or> (\<exists>t \<le> os_clock s. gone (sent_to pid s) pid t))"

text \<open>The two ways \<open>wait_one\<close> ends.\<close>

lemma wait_one_cases:
  obtains (gone) "is_gone gone pid (wait_one gone b pid s)" "os_signals (wait_one gone b pid s) = os_signals s"
      "os_next_pid (wait_one gone b pid s) = os_next_pid s" "os_clock s \<le> os_clock (wait_one gone b pid s)"
  | (killed) s' where "wait_one gone b pid s = kill pid SIGKILL s'" "os_signals s' = os_signals s"
      "os_next_pid s' = os_next_pid s" "os_clock s \<le> os_clock s'"
proof (cases "5000 - (os_clock s - b) = 0")
  case True
  then show ?thesis using killed [of s] by (simp add: wait_one_def)
next
  case False
  obtain w s' where p: "poll_worker gone pid (os_clock s) (5000 - (os_clock s - b)) s = (w, s')" by force
  note f = poll_worker_frame [OF p]
  show ?thesis
  proof (cases w)
    case True
    with False p have "wait_one gone b pid s = s'" by (simp add: wait_one_def Let_def)
    with f True gone show ?thesis by simp
  next
    case False
    with \<open>5000 - (os_clock s - b) \<noteq> 0\<close> p have "wait_one gone b pid s = kill pid SIGKILL s'" by (simp add: wait_one_def Let_def)
    with f killed show ?thesis by blast
  qed
qed

lemma wait_one_frame:
  "os_next_pid (wait_one gone b pid s) = os_next_pid s" "os_clock s \<le> os_clock (wait_one gone b pid s)"
  "p \<noteq> pid \<Longrightarrow> sent_to p (wait_one gone b pid s) = sent_to p s"
proof -
  have "os_next_pid (wait_one gone b pid s) = os_next_pid s \<and> os_clock s \<le> os_clock (wait_one gone b pid s) \<and>
      (p \<noteq> pid \<longrightarrow> sent_to p (wait_one gone b pid s) = sent_to p s)"
    by (rule wait_one_cases [of gone pid b s]) (simp_all add: sent_to_def kill_def)
  then show "os_next_pid (wait_one gone b pid s) = os_next_pid s" "os_clock s \<le> os_clock (wait_one gone b pid s)"
    "p \<noteq> pid \<Longrightarrow> sent_to p (wait_one gone b pid s) = sent_to p s" by simp_all
qed

lemma wait_one_accounts: "accounted gone pid (wait_one gone b pid s)"
  by (rule wait_one_cases [of gone pid b s]) (auto simp: accounted_def is_gone_def)

text \<open>A worker that does not exit before the deadline unless it gets one more signal is killed.\<close>

lemma poll_not_gone:
  "\<forall>t < st + rem. \<not> gone (sent_to pid s) pid t \<Longrightarrow> fst (poll_worker gone pid st rem s) = False"
proof (induction gone pid st rem s rule: poll_worker.induct)
  case (1 gone pid st rem s)
  show ?case
  proof (cases "os_clock s - st < rem")
    case True
    with 1(2) have "\<not> is_gone gone pid s" by (simp add: is_gone_def)
    with True 1(1) 1(2) show ?thesis by (subst poll_worker.simps) simp
  qed (subst poll_worker.simps, simp)
qed

lemma wait_one_kills:
  assumes "b \<le> os_clock s" "\<forall>t < b + 5000. \<not> gone (sent_to pid s) pid t"
  shows "map fst (sent_to pid (wait_one gone b pid s)) = map fst (sent_to pid s) @ [SIGKILL]"
proof (cases "5000 - (os_clock s - b) = 0")
  case True
  then show ?thesis by (simp add: wait_one_def)
next
  case False
  obtain w s' where p: "poll_worker gone pid (os_clock s) (5000 - (os_clock s - b)) s = (w, s')" by force
  from False assms poll_not_gone [of "os_clock s" "5000 - (os_clock s - b)" gone pid s] p have "\<not> w" by simp
  with False p poll_worker_frame [OF p] show ?thesis by (simp add: wait_one_def sent_to_def kill_def)
qed

lemma accounted_kept:
  "accounted gone p s \<Longrightarrow> p \<noteq> pid \<Longrightarrow> accounted gone p (wait_one gone b pid s)"
  using wait_one_frame(2) [of s gone b pid] wait_one_frame(3) [of p pid gone b s]
  by (auto simp: accounted_def intro: order.trans)

lemma wait_fold:
  "distinct pids \<Longrightarrow> p \<in> set pids \<or> accounted gone p s \<Longrightarrow> accounted gone p (fold (wait_one gone b) pids s)"
proof (induction pids arbitrary: s)
  case (Cons pid pids)
  have "p \<in> set pids \<or> accounted gone p (wait_one gone b pid s)"
  proof (cases "p = pid")
    case True
    then show ?thesis by (simp add: wait_one_accounts)
  next
    case False
    with Cons.prems(2) show ?thesis by (auto intro: accounted_kept)
  qed
  with Cons show ?case by simp
qed simp

lemma wait_for_workers_accounts: "distinct pids \<Longrightarrow> p \<in> set pids \<or> accounted gone p s \<Longrightarrow> accounted gone p (wait_for_workers gone pids s)"
  unfolding wait_for_workers_def by (rule wait_fold)

lemma wait_fold_frame:
  "os_next_pid (fold (wait_one gone b) pids s) = os_next_pid s" "os_clock s \<le> os_clock (fold (wait_one gone b) pids s)"
  "p \<notin> set pids \<Longrightarrow> sent_to p (fold (wait_one gone b) pids s) = sent_to p s"
proof (induction pids arbitrary: s)
  case (Cons pid pids)
  { case 1 show ?case using Cons.IH(1) [of "wait_one gone b pid s"] by (simp add: wait_one_frame(1)) }
  { case 2 show ?case using Cons.IH(2) [of "wait_one gone b pid s"] wait_one_frame(2) [of s gone b pid] by simp }
  { case 3 then show ?case using Cons.IH(3) [of "wait_one gone b pid s"] wait_one_frame(3) [of p pid gone b s] by simp }
qed simp_all

lemma wait_for_workers_frame:
  "os_next_pid (wait_for_workers gone pids s) = os_next_pid s" "os_clock s \<le> os_clock (wait_for_workers gone pids s)"
  "p \<notin> set pids \<Longrightarrow> sent_to p (wait_for_workers gone pids s) = sent_to p s"
  by (simp_all add: wait_for_workers_def wait_fold_frame)

lemma wait_fold_kills:
  "distinct pids \<Longrightarrow> p \<in> set pids \<Longrightarrow> b \<le> os_clock s \<Longrightarrow> \<forall>t < b + 5000. \<not> gone (sent_to p s) p t
   \<Longrightarrow> map fst (sent_to p (fold (wait_one gone b) pids s)) = map fst (sent_to p s) @ [SIGKILL]"
proof (induction pids arbitrary: s)
  case (Cons pid pids)
  show ?case
  proof (cases "p = pid")
    case True
    with Cons.prems have "p \<notin> set pids" by simp
    from wait_fold_frame(3) [OF this] True Cons.prems(3,4) show ?thesis by (simp add: wait_one_kills)
  next
    case False
    then have "sent_to p (wait_one gone b pid s) = sent_to p s" by (rule wait_one_frame(3))
    moreover have "b \<le> os_clock (wait_one gone b pid s)" using Cons.prems(3) wait_one_frame(2) [of s gone b pid] by linarith
    ultimately show ?thesis using Cons False by simp
  qed
qed simp

lemma wait_for_workers_kills:
  "distinct pids \<Longrightarrow> p \<in> set pids \<Longrightarrow> \<forall>t < os_clock s + 5000. \<not> gone (sent_to p s) p t
   \<Longrightarrow> map fst (sent_to p (wait_for_workers gone pids s)) = map fst (sent_to p s) @ [SIGKILL]"
  unfolding wait_for_workers_def by (rule wait_fold_kills) simp_all

subsection \<open>The deadline\<close>

lemma poll_worker_clock:
  "poll_worker gone pid st rem s = (w, s') \<Longrightarrow> os_clock s' \<le> max (os_clock s) (st + rem + 10)"
proof (induction gone pid st rem s rule: poll_worker.induct)
  case (1 gone pid st rem s)
  show ?case
  proof (cases "os_clock s - st < rem \<and> \<not> is_gone gone pid s")
    case True
    with 1(2) have "poll_worker gone pid st rem (sleep 10 s) = (w, s')" by (subst (asm) poll_worker.simps) simp
    from 1(1) [OF _ _ this] True show ?thesis by auto
  next
    case False
    with 1(2) show ?thesis by (subst (asm) poll_worker.simps) (auto split: if_splits)
  qed
qed

lemma wait_one_clock:
  assumes "b \<le> os_clock s" and "os_clock s \<le> b + 5010"
  shows "os_clock (wait_one gone b pid s) \<le> b + 5010"
proof (cases "5000 - (os_clock s - b) = 0")
  case True
  with assms show ?thesis by (simp add: wait_one_def)
next
  case False
  obtain w s' where p: "poll_worker gone pid (os_clock s) (5000 - (os_clock s - b)) s = (w, s')" by force
  from poll_worker_clock [OF p] assms False have "os_clock s' \<le> b + 5010" by simp
  with False p show ?thesis by (cases w) (simp_all add: wait_one_def Let_def)
qed

lemma wait_fold_clock:
  "b \<le> os_clock s \<Longrightarrow> os_clock s \<le> b + 5010 \<Longrightarrow> os_clock (fold (wait_one gone b) pids s) \<le> b + 5010"
proof (induction pids arbitrary: s)
  case (Cons pid pids)
  have "b \<le> os_clock (wait_one gone b pid s)" using wait_one_frame(2) [of s gone b pid] Cons.prems by linarith
  with Cons wait_one_clock [of b s gone pid] show ?case by simp
qed simp

text \<open>
  Waiting for workers is bounded: however many there are and however they behave,
  \<open>wait_for_workers\<close> returns within its 5 s timeout and one polling step of 10 ms.
\<close>

theorem wait_for_workers_deadline:
  "os_clock s \<le> os_clock (wait_for_workers gone pids s) \<and> os_clock (wait_for_workers gone pids s) \<le> os_clock s + 5010"
  using wait_fold_clock [of "os_clock s" s gone pids] by (simp add: wait_for_workers_def wait_fold_frame(2))

subsection \<open>Spawning\<close>

lemma spawn_loop_ok:
  "spawn_loop h i n acc s = (Inr pids, s') \<Longrightarrow>
   pids = acc @ [os_next_pid s..<os_next_pid s + n] \<and> s' = s\<lparr>os_next_pid := os_next_pid s + n\<rparr>"
  by (induction h i n acc s rule: spawn_loop.induct) (auto simp: upt_rec [of "os_next_pid _"] split: if_splits)

lemma spawn_workers_ok:
  "spawn_workers h n s = (Inr pids, s') \<Longrightarrow>
   pids = [os_next_pid s..<os_next_pid s + n] \<and> s' = s\<lparr>os_next_pid := os_next_pid s + n\<rparr>"
  using spawn_loop_ok [of h 0 n "[]"] by (simp add: spawn_workers_def)

text \<open>No signal was sent to a process that does not exist yet.\<close>

definition unsignalled :: "os \<Rightarrow> bool" where
  "unsignalled s = list_all (\<lambda>(p, sg). p < os_next_pid s) (os_signals s)"

lemma unsignalled_iff: "unsignalled s = (\<forall>p \<ge> os_next_pid s. sent_to p s = [])"
proof -
  have "sent_to p s = [] \<longleftrightarrow> (\<forall>x \<in> set (os_signals s). fst x \<noteq> p)" for p
    by (auto simp: sent_to_def filter_empty_conv split: prod.splits)
  moreover have "unsignalled s \<longleftrightarrow> (\<forall>x \<in> set (os_signals s). fst x < os_next_pid s)"
    by (auto simp: unsignalled_def list_all_iff)
  ultimately show ?thesis by (simp; metis linorder_not_less)
qed

lemma sent_to_kill_all: "sent_to p (kill_all sg pids s) = sent_to p s @ map (\<lambda>_. (sg, os_clock s)) (filter ((=) p) pids)"
proof (induction pids arbitrary: s)
  case (Cons pid pids)
  have "kill_all sg (pid # pids) s = kill_all sg pids (kill pid sg s)" by (simp add: kill_all_def)
  with Cons show ?case by simp
qed (simp add: kill_all_def)

lemma kill_all_frame [simp]:
  "os_clock (kill_all sg pids s) = os_clock s" "os_next_pid (kill_all sg pids s) = os_next_pid s"
  by (simp_all add: os_kill_all)

lemma kill_all_other [simp]: "p \<notin> set pids \<Longrightarrow> sent_to p (kill_all sg pids s) = sent_to p s"
  by (simp add: sent_to_kill_all filter_empty_conv) blast

lemma respawn_ok:
  assumes "respawn h num pa = (Inr new, pa')"
  shows "new = [os_next_pid (pa_os pa)..<os_next_pid (pa_os pa) + num]"
    "pa_os pa' = wait_for_workers (h_gone h) new (pa_os pa\<lparr>os_next_pid := os_next_pid (pa_os pa) + num\<rparr>)"
proof -
  from assms have b: "h_bind h (os_clock (pa_os pa))" by (simp add: respawn_def split: if_splits)
  obtain r s where sp: "spawn_workers h num (pa_os pa) = (r, s)" by force
  with assms b obtain pids where "r = Inr pids" by (cases r) (auto simp: respawn_def Let_def)
  with assms b sp spawn_workers_ok [of h num "pa_os pa" pids s]
  show "new = [os_next_pid (pa_os pa)..<os_next_pid (pa_os pa) + num]"
    "pa_os pa' = wait_for_workers (h_gone h) new (pa_os pa\<lparr>os_next_pid := os_next_pid (pa_os pa) + num\<rparr>)"
    by (auto simp: respawn_def Let_def)
qed

lemma respawn_accounts: "respawn h num pa = (Inr new, pa') \<Longrightarrow> p \<in> set new \<Longrightarrow> accounted (h_gone h) p (pa_os pa')"
  using respawn_ok [of h num pa new pa'] by (simp add: wait_for_workers_accounts)

lemma respawn_kills:
  assumes "respawn h num pa = (Inr new, pa')" "p \<in> set new" "unsignalled (pa_os pa)" "\<forall>pid t. \<not> h_gone h [] pid t"
  shows "map fst (sent_to p (pa_os pa')) = [SIGKILL] \<and> os_next_pid (pa_os pa) \<le> p"
proof -
  note r = respawn_ok [OF assms(1)]
  with assms(2) have "os_next_pid (pa_os pa) \<le> p" by simp
  moreover from this assms(3) have "sent_to p (pa_os pa) = []" by (simp add: unsignalled_iff)
  ultimately show ?thesis using assms(2,4) r by (simp add: wait_for_workers_kills)
qed

text \<open>What the loop does before it ends leaves processes that do not exist yet alone.\<close>

definition quiet :: "nat list \<Rightarrow> os \<Rightarrow> os \<Rightarrow> bool" where
  "quiet pids s s' \<longleftrightarrow> os_next_pid s' = os_next_pid s \<and> (\<forall>p. p \<notin> set pids \<longrightarrow> sent_to p s' = sent_to p s)"

lemma quiet_unsignalled: "quiet pids s s' \<Longrightarrow> unsignalled s \<Longrightarrow> \<forall>p \<in> set pids. p < os_next_pid s \<Longrightarrow> unsignalled s'"
  unfolding quiet_def unsignalled_iff by (metis linorder_not_less)

lemma graceful_quiet:
  "\<exists>pa0. graceful_branch h num pids pa = respawn h num pa0 \<and> quiet pids (pa_os pa) (pa_os pa0)"
  unfolding graceful_branch_def Let_def
  by (intro exI conjI, rule refl) (simp add: quiet_def terminate_workers_def wait_for_workers_frame)

lemma hot_quiet:
  "\<exists>pa0. hot_branch h num pids pa = respawn h num pa0 \<and> quiet pids (pa_os pa) (pa_os pa0)"
  unfolding hot_branch_def Let_def
  by (intro exI conjI, rule refl) (simp add: quiet_def wait_for_workers_frame)

text \<open>How the loop ends: after a reload, or without new workers.\<close>

lemma supervise_ends:
  assumes "supervise h rv num pids pa = Some (r, pa')"
  shows "(\<exists>pa0. (r, pa') = respawn h num pa0 \<and> quiet pids (pa_os pa) (pa_os pa0)) \<or> r = Inr []"
proof -
  have "case y of (r, pa') \<Rightarrow> (\<exists>pa0. (r, pa') = respawn h num pa0 \<and> quiet pids (pa_os pa) (pa_os pa0)) \<or> r = Inr []"
    if "supervise h rv num pids pa = Some y" for y
    using that
  proof (rule supervise.raw_induct [where P = "\<lambda>h rv num pids pa y. case y of (r, pa') \<Rightarrow>
      (\<exists>pa0. (r, pa') = respawn h num pa0 \<and> quiet pids (pa_os pa) (pa_os pa0)) \<or> r = Inr []", rotated], goal_cases)
    case (1 sup h rv num pids pa y)
    show ?case
    proof (cases "rv_graceful rv (os_clock (pa_os pa)) \<or> rv_hot rv (os_clock (pa_os pa))")
      case True
      with 1(2) have "y = graceful_branch h num pids pa \<or> y = hot_branch h num pids pa" by (auto split: if_splits)
      then obtain pa0 where "y = respawn h num pa0" "quiet pids (pa_os pa) (pa_os pa0)"
        using graceful_quiet [of h num pids pa] hot_quiet [of h num pids pa] by metis
      then show ?thesis by (cases y) blast
    next
      case False
      show ?thesis
      proof (cases "rv_shutdown rv (os_clock (pa_os pa)) \<or> some_exited (h_gone h) pids (pa_os pa)")
        case True
        with False 1(2) show ?thesis by (auto split: if_splits)
      next
        case no: False
        with False 1(2) have "sup h rv num pids (pa\<lparr>pa_os := sleep 50 (pa_os pa)\<rparr>) = Some y" by simp
        from 1(1) [OF this] show ?thesis by (simp add: quiet_def)
      qed
    qed
  qed
  with assms show ?thesis by fastforce
qed

lemma supervise_accounts:
  "supervise h rv num pids pa = Some (Inr new, pa') \<Longrightarrow> p \<in> set new \<Longrightarrow> accounted (h_gone h) p (pa_os pa')"
  using supervise_ends [of h rv num pids pa "Inr new" pa'] respawn_accounts by (auto simp: eq_commute [of "(Inr new, pa')"])

lemma supervise_kills:
  assumes "supervise h rv num pids pa = Some (Inr new, pa')" "p \<in> set new" "unsignalled (pa_os pa)"
    "\<forall>q \<in> set pids. q < os_next_pid (pa_os pa)" "\<forall>pid t. \<not> h_gone h [] pid t"
  shows "map fst (sent_to p (pa_os pa')) = [SIGKILL] \<and> p \<notin> set pids"
proof -
  from supervise_ends [OF assms(1)] assms(2) obtain pa0
    where r: "respawn h num pa0 = (Inr new, pa')" and q: "quiet pids (pa_os pa) (pa_os pa0)" by auto
  from quiet_unsignalled [OF q assms(3,4)] have "unsignalled (pa_os pa0)" .
  from respawn_kills [OF r assms(2) this assms(5)] q assms(4) show ?thesis by (auto simp: quiet_def)
qed

lemma server_start_cases:
  assumes "server_start h rv num cfg s = Some (Inr (pids, new), s')"
  obtains pa where "pids = [os_next_pid s..<os_next_pid s + num]"
    "supervise h rv num pids \<lparr>pa_config = cfg, pa_manager = rm_new (os_clock s) cfg,
       pa_os = s\<lparr>os_next_pid := os_next_pid s + num\<rparr>\<rparr> = Some (Inr new, pa)"
    "s' = wait_for_workers (h_gone h) pids (pa_os pa)"
proof -
  obtain r s0 where sp: "spawn_workers h num s = (r, s0)" by force
  with assms obtain q where q: "r = Inr q"
    by (cases r) (auto simp: server_start_def Let_def split: if_splits)
  with assms sp obtain pa where
    "supervise h rv num q \<lparr>pa_config = cfg, pa_manager = rm_new (os_clock s) cfg, pa_os = s0\<rparr> = Some (Inr new, pa)"
    "pids = q" "s' = wait_for_workers (h_gone h) pids (pa_os pa)"
    by (auto simp: server_start_def Let_def split: if_splits option.splits sum.splits)
  with that sp q spawn_workers_ok [of h num s q s0] show thesis by simp
qed

subsection \<open>No worker is left behind\<close>

text \<open>A host on which everything succeeds and workers exit on \<open>SIGTERM\<close> or \<open>SIGKILL\<close> only, at once.\<close>

definition obedient :: host where
  "obedient = \<lparr>h_fork = \<lambda>_. True, h_bind = \<lambda>_. True, h_gone = \<lambda>sent pid t. SIGTERM \<in> fst ` set sent \<or> SIGKILL \<in> fst ` set sent\<rparr>"

definition reload_at_once :: received where
  "reload_at_once = \<lparr>rv_graceful = \<lambda>_. False, rv_hot = \<lambda>_. True, rv_shutdown = \<lambda>_. False\<rparr>"

definition first_os :: os where
  "first_os = \<lparr>os_clock = 0, os_next_pid = 100, os_signals = []\<rparr>"

lemma obedient_reload: "\<exists>s'. server_start obedient reload_at_once 1 reload_default first_os = Some (Inr ([100], [101]), s')"
  by (simp add: server_start_def spawn_workers_def obedient_def reload_at_once_def first_os_def supervise.simps
      hot_branch_def respawn_def wait_for_workers_frame Let_def)

text \<open>
  \<^bold>\<open>C15\<close> No orphans: when \<open>start\<close> returns, every worker it ever forked, at first or in a reload, was
  sent SIGKILL or was seen to have exited, whatever signals the parent received and however the workers
  behave.
\<close>

theorem no_orphan_workers:
  assumes "server_start h rv num cfg s = Some (Inr (pids, new_pids), s')"
    and "pid \<in> set pids \<union> set new_pids"
  shows "accounted (h_gone h) pid s'"
proof -
  from assms(1) obtain pa where "pids = [os_next_pid s..<os_next_pid s + num]"
    "supervise h rv num pids \<lparr>pa_config = cfg, pa_manager = rm_new (os_clock s) cfg,
       pa_os = s\<lparr>os_next_pid := os_next_pid s + num\<rparr>\<rparr> = Some (Inr new_pids, pa)"
    "s' = wait_for_workers (h_gone h) pids (pa_os pa)" by (rule server_start_cases)
  with assms(2) show ?thesis by (auto intro!: wait_for_workers_accounts dest: supervise_accounts)
qed

theorem no_orphan_workers_witness:
  "\<exists>s'. server_start obedient reload_at_once 1 reload_default first_os = Some (Inr ([100], [101]), s')
     \<and> accounted (h_gone obedient) 100 s' \<and> accounted (h_gone obedient) 101 s'"
proof -
  from obedient_reload obtain s' where s: "server_start obedient reload_at_once 1 reload_default first_os = Some (Inr ([100], [101]), s')" ..
  with no_orphan_workers [OF s, of 100] no_orphan_workers [OF s, of 101] show ?thesis by simp
qed

text \<open>
  A reload never leaves a running server: workers forked in a graceful or hot reload that
  would serve until signalled are all killed with SIGKILL, because the parent waits for them with the
  five-second deadline of \<open>wait_for_workers\<close> and then returns.
\<close>

theorem reload_kills_new_workers:
  assumes "server_start h rv num cfg s = Some (Inr (pids, new_pids), s')" and "pid \<in> set new_pids"
    and "unsignalled s" and "\<forall>pid t. \<not> h_gone h [] pid t"
  shows "map fst (sent_to pid s') = [SIGKILL]"
proof -
  from assms(1) obtain pa where p: "pids = [os_next_pid s..<os_next_pid s + num]"
    "supervise h rv num pids \<lparr>pa_config = cfg, pa_manager = rm_new (os_clock s) cfg,
       pa_os = s\<lparr>os_next_pid := os_next_pid s + num\<rparr>\<rparr> = Some (Inr new_pids, pa)"
    "s' = wait_for_workers (h_gone h) pids (pa_os pa)" by (rule server_start_cases)
  have "unsignalled (s\<lparr>os_next_pid := os_next_pid s + num\<rparr>)" using assms(3) by (simp add: unsignalled_iff)
  with supervise_kills [OF p(2) assms(2)] p(1) assms(4)
  have "map fst (sent_to pid (pa_os pa)) = [SIGKILL] \<and> pid \<notin> set pids" by simp
  then show ?thesis by (simp add: p(3) wait_for_workers_frame)
qed

theorem reload_kills_new_workers_witness:
  "\<exists>s'. server_start obedient reload_at_once 1 reload_default first_os = Some (Inr ([100], [101]), s')
     \<and> map fst (sent_to 101 s') = [SIGKILL]"
proof -
  from obedient_reload obtain s' where s: "server_start obedient reload_at_once 1 reload_default first_os = Some (Inr ([100], [101]), s')" ..
  have "unsignalled first_os" "\<forall>pid t. \<not> h_gone obedient [] pid t" by (simp_all add: unsignalled_def first_os_def obedient_def)
  with s reload_kills_new_workers [OF s, of 101] show ?thesis by simp
qed

text \<open>A \<open>fork\<close> that fails after others succeeded panics, and the workers forked before get no signal.\<close>

lemma fork_failure_orphans:
  "server_start (obedient\<lparr>h_fork := \<lambda>s. os_next_pid s < 101\<rparr>) rv 2 cfg first_os
   = Some (Inl (Fork_Panic 1), \<lparr>os_clock = 0, os_next_pid = 101, os_signals = []\<rparr>)"
  by (simp add: server_start_def spawn_workers_def obedient_def first_os_def numeral_2_eq_2)

subsection \<open>Shutdown\<close>

lemma supervise_returns:
  "\<forall>t \<ge> deadline. rv_shutdown rv t \<Longrightarrow> \<exists>r pa'. supervise h rv num pids pa = Some (r, pa')"
proof (induction "deadline - os_clock (pa_os pa)" arbitrary: pa rule: less_induct)
  case less
  show ?case
  proof (cases "rv_shutdown rv (os_clock (pa_os pa))")
    case True
    then show ?thesis by (subst supervise.simps) (simp add: prod_eq_iff [symmetric])
  next
    case False
    with less.prems have "os_clock (pa_os pa) < deadline" by (meson leI)
    then have "\<exists>r pa'. supervise h rv num pids (pa\<lparr>pa_os := sleep 50 (pa_os pa)\<rparr>) = Some (r, pa')"
      using less.prems by (intro less.hyps) simp_all
    then show ?thesis by (subst supervise.simps) (simp add: prod_eq_iff [symmetric])
  qed
qed

text \<open>
  \<^bold>\<open>C35\<close> The parent stops when it is told to: if the shutdown flag is set from some time on,
  \<open>start\<close> returns, whatever else the parent receives and however the workers behave.
\<close>

theorem server_start_stops:
  assumes "\<forall>t \<ge> deadline. rv_shutdown rv t"
  shows "server_start h rv num cfg s \<noteq> None"
proof -
  obtain r s' where sp: "spawn_workers h num s = (r, s')" by force
  show ?thesis
  proof (cases r)
    case (Inr pids)
    obtain q pa' where "supervise h rv num pids \<lparr>pa_config = cfg, pa_manager = rm_new (os_clock s) cfg, pa_os = s'\<rparr> = Some (q, pa')"
      using supervise_returns [OF assms] by blast
    with Inr sp show ?thesis by (cases q) (simp_all add: server_start_def Let_def)
  qed (simp add: server_start_def Let_def sp)
qed

theorem server_start_stops_witness:
  "server_start obedient (reload_at_once\<lparr>rv_hot := \<lambda>_. False, rv_shutdown := \<lambda>t. 70 \<le> t\<rparr>) 1 reload_default first_os \<noteq> None"
  by (rule server_start_stops [of 70]) (simp add: reload_at_once_def)

end
