(* ===== verification/Worker_Process.thy ===== *)
theory Worker_Process
  imports Supervisor
begin

text \<open>
  When a worker process ends (\<open>run_worker\<close> in \<open>src/core/worker.rs\<close>): its signal thread looks at a flag
  every 50 ms, reads the last signal when the flag is set, drains for a time that depends on that
  signal, tells the server to stop and, 100 ms later, stops the event loop, after which the process
  exits. Before the thread has installed the handlers a signal meets what the process was forked with: the default action
  for the first workers, which ends them, and the parent's handler, which sets a flag nobody reads, for
  workers forked by a reload. Together with the parent of theory \<open>Supervisor\<close> this gives the life of the whole server.
\<close>

subsection \<open>The signal thread\<close>

text \<open>The first look at the flag at or after the time \<open>t\<close> of a signal, for a thread that began at \<open>begun\<close>.\<close>

definition noticed :: "nat \<Rightarrow> nat \<Rightarrow> nat" where
  "noticed begun t = begun + (t - begun + 49) div 50 * 50"

text \<open>
  The signals that reach the worker's own handlers, which are installed at \<open>begun\<close>, and
  \<open>LAST_SIGNAL\<close> at a time.
\<close>

definition handled :: "nat \<Rightarrow> (signal \<times> nat) list \<Rightarrow> (signal \<times> nat) list" where
  "handled begun sent = filter (\<lambda>(sg, t). sg \<noteq> SIGKILL \<and> begun \<le> t) sent"

definition last_signal :: "nat \<Rightarrow> (signal \<times> nat) list \<Rightarrow> nat \<Rightarrow> signal" where
  "last_signal begun sent now = fst (last (filter (\<lambda>(sg, t). t \<le> now) (handled begun sent)))"

definition drain_ms :: "reload_config \<Rightarrow> signal \<Rightarrow> nat" where
  "drain_ms cfg sg =
     (if sg = SIGUSR1 then rd_drain_timeout_secs cfg * 1000 else if sg = SIGUSR2 then 0 else 2000)"

definition exit_time :: "reload_config \<Rightarrow> nat \<Rightarrow> (signal \<times> nat) list \<Rightarrow> nat option" where
  "exit_time cfg begun sent =
     (case handled begun sent of
        [] \<Rightarrow> None
      | (sg, t) # _ \<Rightarrow> (let now = noticed begun t in Some (now + drain_ms cfg (last_signal begun sent now) + 100)))"

text \<open>
  A worker is gone when it was killed, when a signal met its default action before the handlers were
  there, or when its own exit has come. \<open>inherited pid\<close>: the process was forked with the parent's handlers.
\<close>

definition worker_gone :: "reload_config \<Rightarrow> (nat \<Rightarrow> bool) \<Rightarrow> (nat \<Rightarrow> nat) \<Rightarrow> worker_exit" where
  "worker_gone cfg inherited begun sent pid t =
     (list_ex (\<lambda>(sg, k). sg = SIGKILL \<and> k \<le> t) sent \<or>
      \<not> inherited pid \<and> list_ex (\<lambda>(sg, k). k < begun pid \<and> k \<le> t) sent \<or>
      (case exit_time cfg (begun pid) sent of Some e \<Rightarrow> e \<le> t | None \<Rightarrow> False))"

lemma noticed_bounds: "t \<le> noticed begun t" "begun \<le> t \<Longrightarrow> noticed begun t < t + 50" "t \<le> begun \<Longrightarrow> noticed begun t = begun"
proof -
  have q: "n \<le> (n + 49) div 50 * 50 \<and> (n + 49) div 50 * 50 < n + 50" for n :: nat by presburger
  show "t \<le> noticed begun t" "begun \<le> t \<Longrightarrow> noticed begun t < t + 50" using q [of "t - begun"] by (auto simp: noticed_def)
  show "t \<le> begun \<Longrightarrow> noticed begun t = begun" by (simp add: noticed_def)
qed

lemma not_gone_unsignalled [simp]: "\<not> worker_gone cfg inherited begun [] pid t"
  by (simp add: worker_gone_def exit_time_def handled_def)

subsection \<open>Shutting the server down\<close>

lemma filter_eq_distinct: "distinct xs \<Longrightarrow> p \<in> set xs \<Longrightarrow> filter ((=) p) xs = [p]"
  by (induction xs) (auto simp: filter_empty_conv)

text \<open>While nothing is received, workers that serve until signalled keep the loop waiting.\<close>

lemma supervise_waits:
  assumes "\<forall>t < T. \<not> rv_graceful rv t \<and> \<not> rv_hot rv t \<and> \<not> rv_shutdown rv t"
    and "h_gone h = worker_gone cfg inherited begun" "\<forall>pid \<in> set pids. sent_to pid (pa_os pa) = []"
  shows "\<exists>c. os_clock (pa_os pa) \<le> c \<and> T \<le> c \<and>
    supervise h rv num pids pa = supervise h rv num pids (pa\<lparr>pa_os := (pa_os pa)\<lparr>os_clock := c\<rparr>\<rparr>)"
  using assms(3)
proof (induction "T - os_clock (pa_os pa)" arbitrary: pa rule: less_induct)
  case less
  show ?case
  proof (cases "T \<le> os_clock (pa_os pa)")
    case True
    then show ?thesis by (intro exI [of _ "os_clock (pa_os pa)"]) simp
  next
    case False
    have "\<not> some_exited (h_gone h) pids (pa_os pa)"
      using less.prems by (simp add: some_exited_def list_ex_iff is_gone_def assms(2))
    with False have eq: "supervise h rv num pids pa = supervise h rv num pids (pa\<lparr>pa_os := sleep 50 (pa_os pa)\<rparr>)"
      using assms(1) by (subst supervise.simps) simp
    have "T - os_clock (pa_os (pa\<lparr>pa_os := sleep 50 (pa_os pa)\<rparr>)) < T - os_clock (pa_os pa)" using False by simp
    from less.hyps [OF this] less.prems obtain c where "os_clock (pa_os pa) + 50 \<le> c" "T \<le> c"
        "supervise h rv num pids (pa\<lparr>pa_os := sleep 50 (pa_os pa)\<rparr>) =
         supervise h rv num pids (pa\<lparr>pa_os := (sleep 50 (pa_os pa))\<lparr>os_clock := c\<rparr>\<rparr>)" by auto
    then show ?thesis unfolding eq by (intro exI [of _ c]) (simp add: sleep_def)
  qed
qed

text \<open>The first workers of a server, as the loop finds them when the first signal arrives.\<close>

lemma server_start_signal:
  assumes "server_start h rv num cfg s = Some (Inr (pids, new_pids), s')" "h_gone h = worker_gone cfg inherited begun" "unsignalled s"
    and "\<forall>t < T. \<not> rv_graceful rv t \<and> \<not> rv_hot rv t \<and> \<not> rv_shutdown rv t"
  obtains c pa pa' where "os_clock s \<le> c" "T \<le> c" "pids = [os_next_pid s..<os_next_pid s + num]"
    "pa_os pa = s\<lparr>os_next_pid := os_next_pid s + num, os_clock := c\<rparr>" "pa_config pa = cfg" "rm_config (pa_manager pa) = cfg"
    "\<forall>pid \<in> set pids. sent_to pid (pa_os pa) = []"
    "supervise h rv num pids pa = Some (Inr new_pids, pa')" "s' = wait_for_workers (h_gone h) pids (pa_os pa')"
proof -
  from assms(1) obtain pa' where p: "pids = [os_next_pid s..<os_next_pid s + num]"
    "supervise h rv num pids \<lparr>pa_config = cfg, pa_manager = rm_new (os_clock s) cfg,
       pa_os = s\<lparr>os_next_pid := os_next_pid s + num\<rparr>\<rparr> = Some (Inr new_pids, pa')"
    "s' = wait_for_workers (h_gone h) pids (pa_os pa')" by (rule server_start_cases)
  have un: "\<forall>q \<in> set pids. sent_to q s = []" using assms(3) p(1) by (simp add: unsignalled_iff)
  let ?pa = "\<lparr>pa_config = cfg, pa_manager = rm_new (os_clock s) cfg, pa_os = s\<lparr>os_next_pid := os_next_pid s + num\<rparr>\<rparr>"
  from supervise_waits [OF assms(4,2), of pids ?pa num] un obtain c where "os_clock s \<le> c" "T \<le> c"
    "supervise h rv num pids ?pa = supervise h rv num pids (?pa\<lparr>pa_os := (pa_os ?pa)\<lparr>os_clock := c\<rparr>\<rparr>)" by auto
  with p un show thesis by (intro that [of c "?pa\<lparr>pa_os := (pa_os ?pa)\<lparr>os_clock := c\<rparr>\<rparr>" pa']) (simp_all add: rm_new_def sent_to_def)
qed

text \<open>A worker that was asked to drain at \<open>c\<close> and to stop two seconds later keeps to its drain time.\<close>

lemma draining_not_gone:
  assumes "begun pid \<le> c" "8 \<le> rd_drain_timeout_secs cfg" "t < c + 7000"
  shows "\<not> worker_gone cfg inherited begun [(SIGUSR1, c), (SIGTERM, c + 2000)] pid t"
proof -
  let ?d = "noticed (begun pid) c"
  have d: "c \<le> ?d" "?d < c + 50"
    using noticed_bounds(1) [of c "begun pid"] noticed_bounds(2) [OF assms(1)] by blast+
  then have "last_signal (begun pid) [(SIGUSR1, c), (SIGTERM, c + 2000)] ?d = SIGUSR1"
    using assms(1) by (simp add: last_signal_def handled_def)
  then have "exit_time cfg (begun pid) [(SIGUSR1, c), (SIGTERM, c + 2000)] = Some (?d + rd_drain_timeout_secs cfg * 1000 + 100)"
    using assms(1) by (simp add: exit_time_def handled_def drain_ms_def Let_def)
  with d assms show ?thesis by (simp add: worker_gone_def)
qed

text \<open>A first worker that is signalled before it has installed its handlers ends at once, without any drain.\<close>

lemma early_signal_ends_worker:
  "c < begun pid \<Longrightarrow> \<not> inherited pid \<Longrightarrow> c \<le> t \<Longrightarrow> worker_gone cfg inherited begun ((sg, c) # sent) pid t"
  by (simp add: worker_gone_def)

text \<open>
  \<^bold>\<open>C16\<close> Stopping the server kills its workers: on SIGINT or SIGTERM the parent sends SIGUSR1 and two
  seconds later SIGTERM, but a worker that received SIGUSR1 drains for its whole drain timeout and
  ignores the SIGTERM; with a timeout of eight seconds or more, such as the default of thirty, every
  worker is still there when the parent's five seconds are over and gets SIGKILL. The workers are
  assumed to have installed their handlers by the time of the request; one that has not is
  ended by SIGUSR1 itself.
\<close>

theorem shutdown_kills_workers:
  assumes "server_start h rv num cfg s = Some (Inr (pids, new_pids), s')" "pid \<in> set pids"
    and "h_gone h = worker_gone cfg inherited begun" "\<forall>pid. begun pid \<le> T" "8 \<le> rd_drain_timeout_secs cfg"
    and "rv_graceful rv = (\<lambda>_. False)" "rv_hot rv = (\<lambda>_. False)" "rv_shutdown rv = (\<lambda>t. T \<le> t)" "unsignalled s"
  shows "map fst (sent_to pid s') = [SIGUSR1, SIGTERM, SIGKILL]"
proof -
  have q: "\<forall>t < T. \<not> rv_graceful rv t \<and> \<not> rv_hot rv t \<and> \<not> rv_shutdown rv t" by (simp add: assms(6-8))
  obtain c pa pa' where c: "os_clock s \<le> c" "T \<le> c"
    and p: "pids = [os_next_pid s..<os_next_pid s + num]" "pa_os pa = s\<lparr>os_next_pid := os_next_pid s + num, os_clock := c\<rparr>"
    and "pa_config pa = cfg" "rm_config (pa_manager pa) = cfg" and un: "\<forall>pid \<in> set pids. sent_to pid (pa_os pa) = []"
    and r: "supervise h rv num pids pa = Some (Inr new_pids, pa')" "s' = wait_for_workers (h_gone h) pids (pa_os pa')"
    by (rule server_start_signal [OF assms(1,3,9) q])
  have "pa' = shutdown_branch pids pa"
    using r(1) c(2) by (subst (asm) supervise.simps) (simp add: assms(6-8) p(2))
  then have os: "pa_os pa' = terminate_workers pids (sleep 2000 (kill_all SIGUSR1 pids (pa_os pa)))"
    by (simp add: shutdown_branch_def)
  have sent: "sent_to pid (pa_os pa') = [(SIGUSR1, c), (SIGTERM, c + 2000)]"
    using assms(2) un p by (simp add: os terminate_workers_def sent_to_kill_all filter_eq_distinct)
  have clock: "os_clock (pa_os pa') = c + 2000" by (simp add: os terminate_workers_def p(2))
  have "\<not> worker_gone cfg inherited begun (sent_to pid (pa_os pa')) pid t" if "t < os_clock (pa_os pa') + 5000" for t
    using that c assms(4,5) unfolding sent clock by (intro draining_not_gone) (auto intro: order.trans)
  with wait_for_workers_kills [of pids pid "pa_os pa'" "h_gone h"] assms(2,3) p r(2) sent show ?thesis by simp
qed

subsection \<open>Graceful reload lets workers finish\<close>

text \<open>A worker that is gone from \<open>e\<close> on, before the deadline, is waited for and not killed.\<close>

lemma poll_gone:
  "os_clock s < st + rem \<Longrightarrow> st \<le> os_clock s \<Longrightarrow> e + 10 \<le> st + rem \<Longrightarrow> \<forall>t \<ge> e. gone (sent_to pid s) pid t \<Longrightarrow>
   \<exists>s'. poll_worker gone pid st rem s = (True, s') \<and> os_signals s' = os_signals s \<and> os_next_pid s' = os_next_pid s \<and>
        os_clock s \<le> os_clock s' \<and> os_clock s' \<le> max (os_clock s) (e + 10)"
proof (induction gone pid st rem s rule: poll_worker.induct)
  case (1 gone pid st rem s)
  have r: "os_clock s - st < rem" using 1(2,3) by linarith
  show ?case
  proof (cases "is_gone gone pid s")
    case True
    with r show ?thesis by (subst poll_worker.simps) simp
  next
    case False
    then have e: "os_clock s < e" using 1(5) by (metis is_gone_def leI)
    have "\<exists>s'. poll_worker gone pid st rem (sleep 10 s) = (True, s') \<and> os_signals s' = os_signals (sleep 10 s) \<and>
        os_next_pid s' = os_next_pid (sleep 10 s) \<and> os_clock (sleep 10 s) \<le> os_clock s' \<and> os_clock s' \<le> max (os_clock (sleep 10 s)) (e + 10)"
      using 1(1) [OF r False] 1(3-5) e by simp
    with False r e show ?thesis by (subst poll_worker.simps) (auto simp: sleep_def)
  qed
qed

lemma wait_one_spares:
  assumes "b \<le> os_clock s" "os_clock s < b + 5000" "e + 10 < b + 5000" "\<forall>t \<ge> e. gone (sent_to pid s) pid t"
  shows "os_signals (wait_one gone b pid s) = os_signals s \<and> b \<le> os_clock (wait_one gone b pid s) \<and>
         os_clock (wait_one gone b pid s) < b + 5000"
proof -
  let ?rem = "5000 - (os_clock s - b)"
  have rem: "os_clock s + ?rem = b + 5000" using assms(1,2) by simp
  have "\<exists>s'. poll_worker gone pid (os_clock s) ?rem s = (True, s') \<and> os_signals s' = os_signals s \<and> os_next_pid s' = os_next_pid s \<and>
      os_clock s \<le> os_clock s' \<and> os_clock s' \<le> max (os_clock s) (e + 10)"
    by (rule poll_gone) (use assms rem in simp_all)
  then obtain s' where p: "poll_worker gone pid (os_clock s) ?rem s = (True, s')" "os_signals s' = os_signals s"
    "os_clock s \<le> os_clock s'" "os_clock s' \<le> max (os_clock s) (e + 10)" by blast
  have "?rem \<noteq> 0" using assms(1,2) by simp
  then have "wait_one gone b pid s = s'" using p(1) by (simp add: wait_one_def Let_def)
  with p assms show ?thesis by (auto simp: max_def split: if_splits)
qed

lemma wait_fold_spares:
  "b \<le> os_clock s \<Longrightarrow> os_clock s < b + 5000 \<Longrightarrow> e + 10 < b + 5000 \<Longrightarrow> \<forall>p \<in> set pids. \<forall>t \<ge> e. gone (sent_to p s) p t \<Longrightarrow>
   os_signals (fold (wait_one gone b) pids s) = os_signals s"
proof (induction pids arbitrary: s)
  case (Cons pid pids)
  from Cons.prems have w: "os_signals (wait_one gone b pid s) = os_signals s" "b \<le> os_clock (wait_one gone b pid s)"
    "os_clock (wait_one gone b pid s) < b + 5000" using wait_one_spares [of b s e gone pid] by auto
  then have "sent_to p (wait_one gone b pid s) = sent_to p s" for p by (simp add: sent_to_def)
  with Cons.IH [OF w(2,3) Cons.prems(3)] Cons.prems(4) w(1) show ?case by simp
qed simp

lemma wait_for_workers_spares:
  "e + 10 < os_clock s + 5000 \<Longrightarrow> \<forall>p \<in> set pids. \<forall>t \<ge> e. gone (sent_to p s) p t \<Longrightarrow>
   os_signals (wait_for_workers gone pids s) = os_signals s"
  unfolding wait_for_workers_def by (rule wait_fold_spares) simp_all

lemma drained_gone:
  assumes "begun pid \<le> c" "D = rd_drain_timeout_secs cfg * 1000" "c + D + 3200 \<le> t"
  shows "worker_gone cfg inherited begun [(SIGUSR1, c), (SIGTERM, c + D)] pid t"
proof -
  let ?d = "noticed (begun pid) c"
  have d: "c \<le> ?d" "?d < c + 50"
    using noticed_bounds(1) [of c "begun pid"] noticed_bounds(2) [OF assms(1)] by blast+
  show ?thesis
  proof (cases "c + D \<le> ?d")
    case True
    then have "last_signal (begun pid) [(SIGUSR1, c), (SIGTERM, c + D)] ?d = SIGTERM"
      using assms(1) by (simp add: last_signal_def handled_def)
    with d assms(1,3) show ?thesis by (simp add: worker_gone_def exit_time_def handled_def drain_ms_def Let_def)
  next
    case False
    with d have "last_signal (begun pid) [(SIGUSR1, c), (SIGTERM, c + D)] ?d = SIGUSR1"
      using assms(1) by (simp add: last_signal_def handled_def)
    with d assms show ?thesis by (simp add: worker_gone_def exit_time_def handled_def drain_ms_def Let_def)
  qed
qed

text \<open>
  A graceful reload kills no old worker: on SIGUSR1 every worker is asked to drain, has its whole
  drain timeout for the requests in flight and then exits by itself, before the parent would kill it,
  whatever the timeout is. Again the handlers are installed before the request.
\<close>

theorem graceful_reload_spares_old_workers:
  assumes "server_start h rv num cfg s = Some (Inr (pids, new_pids), s')" "pid \<in> set pids"
    and "h_gone h = worker_gone cfg inherited begun" "\<forall>pid. begun pid \<le> T"
    and "rv_graceful rv = (\<lambda>t. T \<le> t)" "rv_hot rv = (\<lambda>_. False)" "rv_shutdown rv = (\<lambda>_. False)" "unsignalled s"
  shows "map fst (sent_to pid s') = [SIGUSR1, SIGTERM]"
proof -
  have q: "\<forall>t < T. \<not> rv_graceful rv t \<and> \<not> rv_hot rv t \<and> \<not> rv_shutdown rv t" by (simp add: assms(5-7))
  obtain c pa pa' where c: "os_clock s \<le> c" "T \<le> c"
    and p: "pids = [os_next_pid s..<os_next_pid s + num]" "pa_os pa = s\<lparr>os_next_pid := os_next_pid s + num, os_clock := c\<rparr>"
    and cf: "pa_config pa = cfg" "rm_config (pa_manager pa) = cfg" and un: "\<forall>pid \<in> set pids. sent_to pid (pa_os pa) = []"
    and r: "supervise h rv num pids pa = Some (Inr new_pids, pa')" "s' = wait_for_workers (h_gone h) pids (pa_os pa')"
    by (rule server_start_signal [OF assms(1,3,8) q])
  let ?D = "rd_drain_timeout_secs cfg * 1000"
  let ?s1 = "terminate_workers pids (sleep ?D (kill_all SIGUSR1 pids (pa_os pa)))"
  let ?pa1 = "pa\<lparr>pa_manager := signal_graceful_reload (pa_manager pa), pa_os := wait_for_workers (h_gone h) pids ?s1\<rparr>"
  have "(Inr new_pids, pa') = graceful_branch h num pids pa"
    using r(1) c(2) by (subst (asm) supervise.simps) (simp add: assms(5) p(2))
  then have g: "respawn h num ?pa1 = (Inr new_pids, pa')" by (simp add: graceful_branch_def signal_graceful_reload_def cf Let_def)
  have sent: "sent_to p ?s1 = [(SIGUSR1, c), (SIGTERM, c + ?D)]" if "p \<in> set pids" for p
    using that un p by (simp add: terminate_workers_def sent_to_kill_all filter_eq_distinct)
  have clock: "os_clock ?s1 = c + ?D" by (simp add: terminate_workers_def p(2))
  have begun: "begun p \<le> c" for p using assms(4) c(2) order.trans by blast
  have gone: "\<forall>p \<in> set pids. \<forall>t \<ge> c + ?D + 3200. h_gone h (sent_to p s2) p t" if "\<forall>p \<in> set pids. sent_to p s2 = sent_to p ?s1" for s2
    using that sent drained_gone [of begun _ c _ cfg _ inherited, OF begun refl] by (simp add: assms(3))
  have s2: "os_signals (wait_for_workers (h_gone h) pids ?s1) = os_signals ?s1"
    by (rule wait_for_workers_spares [where e = "c + ?D + 3200"]) (use gone [of ?s1] in \<open>simp_all add: clock\<close>)
  note new = respawn_ok [OF g]
  have old: "\<forall>p \<in> set pids. sent_to p (pa_os pa') = sent_to p ?s1"
  proof
    fix q
    assume "q \<in> set pids"
    then have "q \<notin> set new_pids" using new(1) p by (simp add: wait_for_workers_frame terminate_workers_def)
    then show "sent_to q (pa_os pa') = sent_to q ?s1" using new(2) s2 by (simp add: wait_for_workers_frame) (simp add: sent_to_def)
  qed
  let ?s2 = "wait_for_workers (h_gone h) pids ?s1"
  have "os_clock ?s1 \<le> os_clock ?s2" by (rule wait_for_workers_frame(2))
  also have "\<dots> \<le> os_clock (wait_for_workers (h_gone h) new_pids (?s2\<lparr>os_next_pid := os_next_pid ?s2 + num\<rparr>))"
    using wait_for_workers_frame(2) [of "?s2\<lparr>os_next_pid := os_next_pid ?s2 + num\<rparr>" "h_gone h" new_pids] by simp
  also have "\<dots> = os_clock (pa_os pa')" unfolding new(2) by simp
  finally have "os_clock ?s1 \<le> os_clock (pa_os pa')" .
  then have "os_signals s' = os_signals (pa_os pa')"
    unfolding r(2) by (intro wait_for_workers_spares [where e = "c + ?D + 3200"]) (use gone [OF old] in \<open>simp_all add: clock\<close>)
  then have "sent_to pid s' = sent_to pid (pa_os pa')" by (simp add: sent_to_def)
  with old sent [OF assms(2)] assms(2) show ?thesis by simp
qed

subsection \<open>Witnesses for the whole server\<close>

definition real_host :: host where
  "real_host = \<lparr>h_fork = \<lambda>_. True, h_bind = \<lambda>_. True, h_gone = worker_gone reload_default (\<lambda>_. False) (\<lambda>_. 0)\<rparr>"

definition stop_at_second :: received where
  "stop_at_second = \<lparr>rv_graceful = \<lambda>_. False, rv_hot = \<lambda>_. False, rv_shutdown = \<lambda>t. 1000 \<le> t\<rparr>"

lemma server_start_real:
  assumes "supervise real_host rv 1 [100] \<lparr>pa_config = reload_default, pa_manager = rm_new 0 reload_default,
      pa_os = first_os\<lparr>os_next_pid := 101\<rparr>\<rparr> = Some (Inr new, pa)"
  shows "\<exists>s'. server_start real_host rv 1 reload_default first_os = Some (Inr ([100], new), s')"
  using assms by (simp add: server_start_def spawn_workers_def real_host_def first_os_def)

lemma stopped_server: "\<exists>s'. server_start real_host stop_at_second 1 reload_default first_os = Some (Inr ([100], []), s')"
proof -
  let ?pa = "\<lparr>pa_config = reload_default, pa_manager = rm_new 0 reload_default, pa_os = first_os\<lparr>os_next_pid := 101\<rparr>\<rparr>"
  have "\<forall>t < 1000. \<not> rv_graceful stop_at_second t \<and> \<not> rv_hot stop_at_second t \<and> \<not> rv_shutdown stop_at_second t"
    by (simp add: stop_at_second_def)
  from supervise_waits [OF this, of real_host reload_default "\<lambda>_. False" "\<lambda>_. 0" "[100]" ?pa 1] obtain c where "1000 \<le> c"
    "supervise real_host stop_at_second 1 [100] ?pa =
     supervise real_host stop_at_second 1 [100] (?pa\<lparr>pa_os := (pa_os ?pa)\<lparr>os_clock := c\<rparr>\<rparr>)"
    by (auto simp: real_host_def first_os_def sent_to_def)
  then have "\<exists>pa. supervise real_host stop_at_second 1 [100] ?pa = Some (Inr [], pa)"
    by (subst (asm) (2) supervise.simps) (simp add: stop_at_second_def)
  then show ?thesis using server_start_real by blast
qed

theorem shutdown_kills_workers_witness:
  "\<exists>s'. server_start real_host stop_at_second 1 reload_default first_os = Some (Inr ([100], []), s') \<and>
     map fst (sent_to 100 s') = [SIGUSR1, SIGTERM, SIGKILL]"
proof -
  obtain s' where s: "server_start real_host stop_at_second 1 reload_default first_os = Some (Inr ([100], []), s')"
    using stopped_server by blast
  from shutdown_kills_workers [OF s, of 100 "\<lambda>_. False" "\<lambda>_. 0" 1000] s show ?thesis
    by (simp add: real_host_def stop_at_second_def reload_default_def first_os_def unsignalled_def)
qed

definition reload_at_second :: received where
  "reload_at_second = \<lparr>rv_graceful = \<lambda>t. 1000 \<le> t, rv_hot = \<lambda>_. False, rv_shutdown = \<lambda>_. False\<rparr>"

lemma reloaded_server: "\<exists>s'. server_start real_host reload_at_second 1 reload_default first_os = Some (Inr ([100], [101]), s')"
proof -
  let ?pa = "\<lparr>pa_config = reload_default, pa_manager = rm_new 0 reload_default, pa_os = first_os\<lparr>os_next_pid := 101\<rparr>\<rparr>"
  have "\<forall>t < 1000. \<not> rv_graceful reload_at_second t \<and> \<not> rv_hot reload_at_second t \<and> \<not> rv_shutdown reload_at_second t"
    by (simp add: reload_at_second_def)
  from supervise_waits [OF this, of real_host reload_default "\<lambda>_. False" "\<lambda>_. 0" "[100]" ?pa 1] obtain c where "1000 \<le> c"
    "supervise real_host reload_at_second 1 [100] ?pa =
     supervise real_host reload_at_second 1 [100] (?pa\<lparr>pa_os := (pa_os ?pa)\<lparr>os_clock := c\<rparr>\<rparr>)"
    by (auto simp: real_host_def first_os_def sent_to_def)
  then have "supervise real_host reload_at_second 1 [100] ?pa =
      Some (graceful_branch real_host 1 [100] (?pa\<lparr>pa_os := (pa_os ?pa)\<lparr>os_clock := c\<rparr>\<rparr>))"
    by (subst (asm) (2) supervise.simps) (simp add: reload_at_second_def)
  moreover have "\<exists>pa. graceful_branch real_host 1 [100] (?pa\<lparr>pa_os := (pa_os ?pa)\<lparr>os_clock := c\<rparr>\<rparr>) = (Inr [101], pa)"
    by (simp add: graceful_branch_def respawn_def spawn_workers_def real_host_def Let_def wait_for_workers_frame terminate_workers_def)
  ultimately have "\<exists>pa. supervise real_host reload_at_second 1 [100] ?pa = Some (Inr [101], pa)" by auto
  then show ?thesis using server_start_real by blast
qed

theorem graceful_reload_spares_old_workers_witness:
  "\<exists>s'. server_start real_host reload_at_second 1 reload_default first_os = Some (Inr ([100], [101]), s') \<and>
     map fst (sent_to 100 s') = [SIGUSR1, SIGTERM]"
proof -
  obtain s' where s: "server_start real_host reload_at_second 1 reload_default first_os = Some (Inr ([100], [101]), s')"
    using reloaded_server by blast
  from graceful_reload_spares_old_workers [OF s, of 100 "\<lambda>_. False" "\<lambda>_. 0" 1000] s show ?thesis
    by (simp add: real_host_def reload_at_second_def first_os_def unsignalled_def)
qed

end
