(* ===== verification/Server_Config.thy ===== *)
theory Server_Config
  imports Cors Rate_Limit Header_Middleware Basic_Auth Circuit_Breaker Cache_Middleware Log_Middleware Reload Routing
begin

text \<open>
  What Python configures: the middleware objects with their constructors
  (\<open>src/middleware/mod.rs\<close>) and the server object with its setters and \<open>use_middleware\<close>
  (\<open>src/core/server.rs\<close>). The middleware keep state of different kinds; on a server they share one
  world, in which every rate limiter finds its own clients.
\<close>

subsection \<open>Constructors called from Python\<close>

abbreviation in_quotes :: "string \<Rightarrow> string" where
  "in_quotes s \<equiv> CHR 0x27 # s @ [CHR 0x27]"

definition py_cors_new ::
  "string list option \<Rightarrow> string list option \<Rightarrow> string list option \<Rightarrow> string list option \<Rightarrow> bool \<Rightarrow> nat \<Rightarrow> cors_config" where
  "py_cors_new allowed_origins allowed_methods allowed_headers expose_headers credentials age =
     (let config = cors_default;
          config = (case allowed_origins of Some os \<Rightarrow> config\<lparr>co_allowed_origins := os\<rparr> | None \<Rightarrow> config);
          config = (case allowed_methods of
                      Some ms \<Rightarrow> config\<lparr>co_allowed_methods := List.map_filter from_str ms\<rparr> | None \<Rightarrow> config);
          config = (case allowed_headers of Some hs \<Rightarrow> config\<lparr>co_allowed_headers := hs\<rparr> | None \<Rightarrow> config);
          config = (case expose_headers of Some hs \<Rightarrow> config\<lparr>co_expose_headers := hs\<rparr> | None \<Rightarrow> config)
      in config\<lparr>co_allow_credentials := credentials, co_max_age := age\<rparr>)"

text \<open>
  The algorithm by its name. With a window of 0 seconds the refill rate of a token bucket is an
  infinite floating-point number, which the limiter's model has not: \<open>None\<close>.
\<close>

definition parse_algorithm :: "string \<Rightarrow> u32 \<Rightarrow> nat \<Rightarrow> string + rate_algorithm option" where
  "parse_algorithm algorithm max_requests window_secs =
     (let s = to_lower algorithm in
      if s = ''fixed'' \<or> s = ''fixed_window'' then Ok (Some FixedWindow)
      else if s = ''sliding'' \<or> s = ''sliding_window'' then Ok (Some SlidingWindow)
      else if s = ''token'' \<or> s = ''token_bucket''
      then Ok (if window_secs = 0 then None
               else Some (TokenBucket max_requests (f64_round (real (unat max_requests) / f64_round (real window_secs)))))
      else Err (''Invalid algorithm. Use '' @ in_quotes ''fixed'' @ '', '' @ in_quotes ''sliding'' @ '', or '' @ in_quotes ''token_bucket''))"

definition py_rate_limit_new ::
  "u32 \<Rightarrow> nat \<Rightarrow> string \<Rightarrow> string option \<Rightarrow> string list option \<Rightarrow> string + rate_config option" where
  "py_rate_limit_new max_requests window_secs algorithm key_header skip_paths =
     map_sum (\<lambda>e. e) (map_option (\<lambda>algo.
       let config = with_algorithm algo (rate_new max_requests window_secs);
           config = (case key_header of Some h \<Rightarrow> with_key_header h config | None \<Rightarrow> config)
       in case skip_paths of Some ps \<Rightarrow> config\<lparr>rl_skip_paths := ps\<rparr> | None \<Rightarrow> config))
       (parse_algorithm algorithm max_requests window_secs)"

definition py_security_new ::
  "bool \<Rightarrow> nat \<Rightarrow> string \<Rightarrow> bool \<Rightarrow> bool \<Rightarrow> string option \<Rightarrow> security_config" where
  "py_security_new hsts hsts_max_age frame_options content_type_options xss_protection csp =
     \<lparr>se_content_type_options = content_type_options, se_frame_options = Some frame_options,
      se_xss_protection = xss_protection,
      se_hsts = (if hsts then Some (''max-age='' @ show_nat hsts_max_age @ ''; includeSubDomains'') else None),
      se_csp = csp, se_referrer_policy = Some ''strict-origin-when-cross-origin'', se_permissions_policy = None\<rparr>"

definition py_security_strict :: security_config where
  "py_security_strict =
     \<lparr>se_content_type_options = True, se_frame_options = Some ''DENY'', se_xss_protection = True,
      se_hsts = Some ''max-age=31536000; includeSubDomains'', se_csp = Some (''default-src '' @ in_quotes ''self''),
      se_referrer_policy = Some ''no-referrer'',
      se_permissions_policy = Some ''geolocation=(), microphone=(), camera=()''\<rparr>"

definition py_timeout_new :: "nat \<Rightarrow> duration" where
  "py_timeout_new timeout_secs = secs timeout_secs"

definition py_compression_new :: "nat \<Rightarrow> compression_mw" where
  "py_compression_new min_size = with_min_size min_size compression_new"

definition py_request_id_new :: "string \<Rightarrow> request_id_mw" where
  "py_request_id_new header_name = ri_with_header header_name request_id_new"

definition py_log_new :: "string \<Rightarrow> bool \<Rightarrow> string list option \<Rightarrow> mw_log_config" where
  "py_log_new level log_hdrs skip_paths =
     (let s = to_lower level;
          log_level = (if s = ''debug'' then MwDebug else if s = ''warn'' \<or> s = ''warning'' then MwWarn
                       else if s = ''error'' then MwError else MwInfo);
          config = with_level log_level mw_log_default;
          config = (if log_hdrs then with_headers config else config)
      in case skip_paths of Some ps \<Rightarrow> fold skip_path ps config | None \<Rightarrow> config)"

definition py_basic_auth_new :: "string \<Rightarrow> params option \<Rightarrow> basic_auth" where
  "py_basic_auth_new realm users =
     (case users of Some us \<Rightarrow> fold (\<lambda>(u, p). add_user u p) us (basic_auth_new realm) | None \<Rightarrow> basic_auth_new realm)"

definition py_breaker_new :: "u32 \<Rightarrow> u32 \<Rightarrow> nat \<Rightarrow> string list option \<Rightarrow> breaker_config" where
  "py_breaker_new failure_threshold success_threshold timeout_secs paths =
     (let config = breaker_config_new failure_threshold success_threshold timeout_secs
      in case paths of Some p \<Rightarrow> config\<lparr>cb_paths := p\<rparr> | None \<Rightarrow> config)"

definition py_breaker_state :: "string \<Rightarrow> circuits \<Rightarrow> string" where
  "py_breaker_state path cs =
     (case breaker_get_state path cs of Closed \<Rightarrow> ''closed'' | Open \<Rightarrow> ''open'' | HalfOpen \<Rightarrow> ''half_open'')"

definition py_cache_new :: "nat \<Rightarrow> bool \<Rightarrow> nat \<Rightarrow> string list option \<Rightarrow> cache_config" where
  "py_cache_new ttl_seconds cache_control_respect max_cache_size paths =
     (let config = (cache_config_new ttl_seconds)\<lparr>cc_cache_control_respect := cache_control_respect,
                                                  cc_max_cache_size := max_cache_size\<rparr>
      in case paths of Some p \<Rightarrow> config\<lparr>cc_paths := p\<rparr> | None \<Rightarrow> config)"

definition py_cache_repr :: "cache_config \<Rightarrow> string" where
  "py_cache_repr config =
     ''CacheMiddleware(ttl='' @ show_nat (cc_ttl_seconds config) @ ''s, max_size='' @ show_nat (cc_max_cache_size config) @ '')''"

subsection \<open>Python objects offered to the server\<close>

text \<open>
  An object is of one of the middleware classes or of another class. Rate limiters keep their clients
  in the object, so they carry its identity.
\<close>

datatype py_middleware =
  PyRequestId request_id_mw | PyCors cors_config | PySecurity security_config | PyCompression compression_mw
| PyRateLimit nat rate_config | PyTimeout duration | PyLog mw_log_config | PyBasicAuth basic_auth
| PyCircuitBreaker breaker_config | PyCache cache_config | PyOther

text \<open>The world of a server: the clocks, the log and the clients of every rate limiter.\<close>

record server_world =
  sw_log :: log_world
  sw_clients :: "nat \<Rightarrow> rate_clients"

definition focus :: "('s \<Rightarrow> 'w) \<Rightarrow> ('w \<Rightarrow> 's \<Rightarrow> 's) \<Rightarrow> 'w middleware \<Rightarrow> 's middleware" where
  "focus get put m =
     \<lparr>mw_name = mw_name m,
      mw_execute = (\<lambda>c s. case mw_execute m c (get s) of (r, c', w') \<Rightarrow> (r, c', put w' s)),
      mw_applies_to = mw_applies_to m, mw_applies_to_method = mw_applies_to_method m\<rparr>"

definition rate_focus :: "nat \<Rightarrow> (instant \<times> rate_clients) middleware \<Rightarrow> server_world middleware" where
  "rate_focus i =
     focus (\<lambda>s. (lw_now (sw_log s), sw_clients s i)) (\<lambda>(now, cl) s. s\<lparr>sw_clients := (sw_clients s)(i := cl)\<rparr>)"

text \<open>The classes \<open>use_middleware\<close> recognizes, and what it registers for an object of each.\<close>

fun rust_middleware :: "py_middleware \<Rightarrow> server_world middleware option" where
  "rust_middleware (PyRequestId m) = Some (request_id_middleware m)"
| "rust_middleware (PyCors cfg) = Some (cors_middleware cfg)"
| "rust_middleware (PySecurity cfg) = Some (security_middleware cfg)"
| "rust_middleware (PyCompression m) = Some (compression_middleware m)"
| "rust_middleware (PyRateLimit i cfg) = Some (rate_focus i (rate_limit_middleware cfg))"
| "rust_middleware (PyTimeout d) = Some (focus (\<lambda>s. lw_now (sw_log s)) (\<lambda>_ s. s) (timeout_middleware d))"
| "rust_middleware (PyLog cfg) = Some (focus sw_log (\<lambda>w s. s\<lparr>sw_log := w\<rparr>) (log_middleware cfg))"
| "rust_middleware (PyBasicAuth b) = Some (basic_auth_middleware b)"
| "rust_middleware _ = None"

subsection \<open>The server object\<close>

record ('m, 'f) server =
  sv_router :: "('m, 'f) router"
  sv_http2 :: bool
  sv_middleware :: "server_world chain"
  sv_reload_config :: reload_config
  sv_reload_manager :: "reload_manager option"
  sv_log_config :: log_config

definition server_new :: "('m, 'f route) matchit \<Rightarrow> ('m, 'f) server" where
  "server_new mt =
     \<lparr>sv_router = router_new mt [], sv_http2 = False, sv_middleware = chain_new, sv_reload_config = reload_default,
      sv_reload_manager = None, sv_log_config = log_config_default\<rparr>"

definition set_log_config :: "log_config \<Rightarrow> ('m, 'f) server \<Rightarrow> ('m, 'f) server" where
  "set_log_config cfg sv = sv\<lparr>sv_log_config := cfg\<rparr>"

definition set_router :: "('m, 'f) router \<Rightarrow> ('m, 'f) server \<Rightarrow> ('m, 'f) server" where
  "set_router r sv = sv\<lparr>sv_router := r\<rparr>"

definition enable_http2 :: "('m, 'f) server \<Rightarrow> ('m, 'f) server" where
  "enable_http2 sv = sv\<lparr>sv_http2 := True\<rparr>"

definition set_reload_config :: "reload_config \<Rightarrow> ('m, 'f) server \<Rightarrow> ('m, 'f) server" where
  "set_reload_config cfg sv = sv\<lparr>sv_reload_config := cfg\<rparr>"

definition get_health_check :: "('m, 'f) server \<Rightarrow> health_check option" where
  "get_health_check sv = map_option rm_health (sv_reload_manager sv)"

text \<open>The manager is shared with whoever holds it; before \<open>start\<close> there is none and nothing happens.\<close>

definition graceful_reload :: "('m, 'f) server \<Rightarrow> ('m, 'f) server" where
  "graceful_reload sv = sv\<lparr>sv_reload_manager := map_option signal_graceful_reload (sv_reload_manager sv)\<rparr>"

definition hot_reload :: "('m, 'f) server \<Rightarrow> ('m, 'f) server" where
  "hot_reload sv = sv\<lparr>sv_reload_manager := map_option signal_hot_reload (sv_reload_manager sv)\<rparr>"

text \<open>
  The chain is in an \<open>Arc\<close> that is cloned only inside \<open>start\<close>, which borrows the server, so the
  exclusive access that the setters ask for is always granted.
\<close>

definition register_boxed_middleware :: "server_world middleware \<Rightarrow> ('m, 'f) server \<Rightarrow> ('m, 'f) server" where
  "register_boxed_middleware m sv = sv\<lparr>sv_middleware := use_before m (sv_middleware sv)\<rparr>"

definition use_rust_middleware_after :: "server_world middleware \<Rightarrow> ('m, 'f) server \<Rightarrow> ('m, 'f) server" where
  "use_rust_middleware_after m sv = sv\<lparr>sv_middleware := use_after m (sv_middleware sv)\<rparr>"

definition set_rust_middleware_chain :: "server_world chain \<Rightarrow> ('m, 'f) server \<Rightarrow> ('m, 'f) server" where
  "set_rust_middleware_chain ch sv = sv\<lparr>sv_middleware := ch\<rparr>"

definition middleware_stats :: "('m, 'f) server \<Rightarrow> nat \<times> nat \<times> nat" where
  "middleware_stats sv = chain_stats (sv_middleware sv)"

definition use_middleware :: "py_middleware \<Rightarrow> ('m, 'f) server \<Rightarrow> (string + unit) \<times> ('m, 'f) server" where
  "use_middleware ob sv =
     (case rust_middleware ob of
        Some m \<Rightarrow> (Ok (), register_boxed_middleware m sv)
      | None \<Rightarrow> (Err ''Middleware must be a Rust middleware type (CORS, SecurityHeaders, RequestId, etc.)'', sv))"

subsection \<open>What a configured server runs\<close>

lemma focus_well_behaved:
  assumes "well_behaved m"
  shows "well_behaved (focus get put m)"
proof (unfold_locales)
  fix c s r c' s'
  assume "mw_execute (focus get put m) c s = (r, c', s')"
  then obtain w' where "mw_execute m c (get s) = (r, c', w')" by (auto simp: focus_def split: prod.splits)
  then show "ctx_ext c c'" by (rule well_behaved.frame [OF assms])
qed

lemma rust_middleware_well_behaved: "rust_middleware ob = Some m \<Longrightarrow> well_behaved m"
  by (induction ob rule: rust_middleware.induct)
    (auto simp: rate_focus_def cors.well_behaved_axioms basic.well_behaved_axioms request_id.well_behaved_axioms
      security.well_behaved_axioms compression.well_behaved_axioms rate.well_behaved_axioms timeout.well_behaved_axioms
      log_mw.well_behaved_axioms intro!: focus_well_behaved)

text \<open>A program offers its middleware one after the other and ignores the exceptions.\<close>

definition use_all :: "py_middleware list \<Rightarrow> ('m, 'f) server \<Rightarrow> ('m, 'f) server" where
  "use_all obs sv = fold (\<lambda>ob sv. snd (use_middleware ob sv)) obs sv"

lemma use_all_chain:
  "use_all obs sv = sv\<lparr>sv_middleware := (sv_middleware sv)\<lparr>ch_before := ch_before (sv_middleware sv) @ List.map_filter rust_middleware obs\<rparr>\<rparr>"
proof (induction obs arbitrary: sv)
  case (Cons ob obs)
  then show ?case
    by (cases "rust_middleware ob")
      (simp_all add: use_all_def use_middleware_def register_boxed_middleware_def use_before_def)
qed (simp add: use_all_def)

text \<open>
  A server runs the middleware it was given, in the order it was given them: each object of one of
  the eight recognized classes is registered once, objects of other classes are refused without a
  trace, nothing else of the server changes, and whatever the chain does to a request, its method, id
  and start time stay and no response header is taken back.
\<close>

theorem configured_server_runs:
  "let sv' = use_all obs sv; (r, c', w') = execute_before (sv_middleware (use_all obs (server_new mt))) c w
   in sv' = sv\<lparr>sv_middleware := (sv_middleware sv)\<lparr>ch_before := ch_before (sv_middleware sv) @ List.map_filter rust_middleware obs\<rparr>\<rparr> \<and>
      mc_method c' = mc_method c \<and> mc_request_id c' = mc_request_id c \<and> mc_start_time c' = mc_start_time c \<and>
      prefix (mc_response_headers c) (mc_response_headers c')"
proof -
  let ?ch = "sv_middleware (use_all obs (server_new mt))"
  have ch: "ch_before ?ch = List.map_filter rust_middleware obs" by (simp add: use_all_chain server_new_def chain_new_def)
  obtain r c' w' where e: "execute_before ?ch c w = (r, c', w')" by (rule prod_cases3)
  have "ctx_ext c c'"
  proof (cases "ch_before ?ch = []")
    case True
    with e show ?thesis by (simp add: execute_before_def)
  next
    case False
    with e have "run_chain (mc_path c) (mc_method c) (ch_before ?ch) c w = (r, c', w')" by (simp add: execute_before_def)
    then show ?thesis
      by (rule run_chain_ctx_ext [rotated]) (auto simp: ch List.map_filter_def rust_middleware_well_behaved)
  qed
  then have "case execute_before ?ch c w of (r, c', w') \<Rightarrow> mc_method c' = mc_method c \<and> mc_request_id c' = mc_request_id c \<and>
      mc_start_time c' = mc_start_time c \<and> prefix (mc_response_headers c) (mc_response_headers c')"
    by (simp add: e ctx_ext_def)
  then show ?thesis unfolding Let_def case_prod_unfold by (intro conjI use_all_chain) auto
qed

text \<open>Circuit breakers and caches are not among the recognized classes.\<close>

lemma breaker_and_cache_refused:
  "fst (use_middleware (PyCircuitBreaker cb) sv) = Err ''Middleware must be a Rust middleware type (CORS, SecurityHeaders, RequestId, etc.)''"
  "use_all [PyCircuitBreaker cb, PyCache cc] sv = sv"
  by (simp_all add: use_middleware_def use_all_def)

subsection \<open>Passwords given in Python protect the server\<close>

lemma py_basic_auth_users: "map_of (ba_credentials (fold (\<lambda>(u, p). add_user u p) us b)) = map_of (ba_credentials b) ++ map_of (rev us)"
  by (induction us arbitrary: b) (auto simp: add_user_def update_conv' map_add_def fun_eq_iff split: option.splits)

text \<open>
  A server whose program registers \<open>BasicAuthMiddleware(realm, users)\<close> first answers 401 to every
  request whose \<open>Authorization\<close> header does not decode to one of the users with that user's password,
  whatever else is registered, before any other middleware runs and without changing anything.
\<close>

theorem python_users_protect_server:
  assumes "wf_map users"
    and "\<not> (\<exists>h u pw. get_header c ''authorization'' = Some h \<and> decode_basic_auth h = Some (u, pw) \<and> map_of users u = Some pw)"
  shows "\<exists>r. mr_status r = 401 \<and>
     execute_before (sv_middleware (use_all (PyBasicAuth (py_basic_auth_new realm (Some users)) # obs) (server_new mt))) c w
     = (Response r, c, w)"
proof -
  let ?b = "py_basic_auth_new realm (Some users)"
  have "map_of (ba_credentials ?b) = map_of users"
    using assms(1) by (simp add: py_basic_auth_new_def py_basic_auth_users basic_auth_new_def wf_map_def map_of_distinct_rev)
  with assms(2) have "\<exists>r. mr_status r = 401 \<and>
      run_chain (mc_path c) (mc_method c) (basic_auth_middleware ?b # List.map_filter rust_middleware obs) c w = (Response r, c, w)"
    by (intro run_chain_basic_rejects) simp
  then show ?thesis by (simp add: execute_before_def use_all_chain server_new_def chain_new_def)
qed

theorem python_users_protect_server_witness:
  "let c = context_new (\<lambda>_. 0) (\<lambda>_. []) 0 ''/admin'' GET [] [] None;
       sv = use_all (PyBasicAuth (py_basic_auth_new ''Area'' (Some [(''ann'', ''pw'')])) # [PyTimeout 5]) (server_new exact_matchit)
   in \<forall>w. \<exists>r. mr_status r = 401 \<and> execute_before (sv_middleware sv) c w = (Response r, c, w)"
  unfolding Let_def
  by (intro allI, rule python_users_protect_server) (simp_all add: wf_map_def get_header_def context_new_def)

subsection \<open>Names Python may give\<close>

text \<open>
  The rate limiter's algorithm is chosen by name, in any case: exactly six names,
  two for each algorithm, are accepted, each giving its own algorithm, and every other name is refused
  before a limiter exists.
\<close>

theorem rate_limit_names:
  "py_rate_limit_new n secs0 algorithm None None =
     (let name = to_lower algorithm; config = rate_new n secs0 in
      if name \<in> {''fixed'', ''fixed_window''} then Ok (Some (config\<lparr>rl_algorithm := FixedWindow\<rparr>))
      else if name \<in> {''sliding'', ''sliding_window''} then Ok (Some (config\<lparr>rl_algorithm := SlidingWindow\<rparr>))
      else if name \<in> {''token'', ''token_bucket''}
      then Ok (if secs0 = 0 then None
               else Some (config\<lparr>rl_algorithm := TokenBucket n (f64_round (real (unat n) / f64_round (real secs0)))\<rparr>))
      else Err (''Invalid algorithm. Use '' @ in_quotes ''fixed'' @ '', '' @ in_quotes ''sliding'' @ '', or '' @ in_quotes ''token_bucket''))"
  by (simp add: py_rate_limit_new_def parse_algorithm_def with_algorithm_def Let_def)

text \<open>A misspelt method is dropped from a CORS configuration without an error.\<close>

lemma misspelt_method_dropped:
  "co_allowed_methods (py_cors_new None (Some [''GET'', ''PSOT'']) None None False 60) = [GET]"
proof -
  have "from_str ''GET'' = Some GET" "from_str ''PSOT'' = None"
    by (simp_all add: from_str_def from_bytes_def str_simps)
  then show ?thesis by (simp add: py_cors_new_def List.map_filter_def)
qed

text \<open>An unknown level of the request logger means \<open>info\<close>.\<close>

lemma unknown_level_is_info: "mlc_level (py_log_new ''verbose'' False None) = MwInfo"
  by (simp add: py_log_new_def with_level_def to_lower_def lower_char_def)

text \<open>Rate limiters of different objects never touch each other's clients.\<close>

lemma limiters_independent:
  "i \<noteq> j \<Longrightarrow> mw_execute (rate_focus i m) c w = (r, c', w') \<Longrightarrow> sw_clients w' j = sw_clients w j \<and> sw_log w' = sw_log w"
  by (auto simp: rate_focus_def focus_def split: prod.splits)

end
