(* ===== verification/Response_Api.thy ===== *)
theory Response_Api
  imports Http_Response Multipart
begin

text \<open>
  The rest of the Response API: events taken from Python generators (\<open>collect_sse_from_generator\<close> in
  \<open>src/http/streaming.rs\<close>, \<open>sse_collect\<close> and \<open>sse_stream\<close> in \<open>src/http/response.rs\<close>), files sent by path,
  and the awaitable that is ready at once. What the code asks of a Python object is a parameter.
\<close>

subsection \<open>Events from Python objects\<close>

text \<open>
  The questions asked of an item: whether it is an \<open>SSEEvent\<close>, a string, a dictionary (with its
  lookup), the extraction of a string or an unsigned integer (which may raise), the attribute of a
  name, the value of an attribute as an optional string or integer, and \<open>str()\<close>.
\<close>

record 'o sse_py =
  sp_event :: "'o \<Rightarrow> sse_event option"
  sp_string :: "'o \<Rightarrow> string + string"
  sp_dict :: "'o \<Rightarrow> (string \<Rightarrow> 'o option) option"
  sp_u64 :: "'o \<Rightarrow> string + nat"
  sp_attr :: "'o \<Rightarrow> string \<Rightarrow> 'o option"
  sp_opt_string :: "'o \<Rightarrow> string option option"
  sp_opt_u64 :: "'o \<Rightarrow> nat option option"
  sp_str :: "'o \<Rightarrow> string + string"

text \<open>\<open>get_item(k)?.map(extract).transpose()?\<close>: a missing key is fine, a value of another type raises.\<close>

definition dict_field :: "('o \<Rightarrow> string + 'a) \<Rightarrow> (string \<Rightarrow> 'o option) \<Rightarrow> string \<Rightarrow> string + 'a option" where
  "dict_field extract d k =
     (case d k of None \<Rightarrow> Ok None | Some v \<Rightarrow> map_sum (\<lambda>e. e) Some (extract v))"

definition dict_event :: "'o sse_py \<Rightarrow> (string \<Rightarrow> 'o option) \<Rightarrow> string + sse_event" where
  "dict_event py d =
     (case dict_field (sp_string py) d ''data'' of Err e \<Rightarrow> Err e | Ok data \<Rightarrow>
      (case dict_field (sp_string py) d ''event'' of Err e \<Rightarrow> Err e | Ok event_type \<Rightarrow>
      (case dict_field (sp_string py) d ''id'' of Err e \<Rightarrow> Err e | Ok i \<Rightarrow>
      (case dict_field (sp_u64 py) d ''retry'' of Err e \<Rightarrow> Err e | Ok retry \<Rightarrow>
         Ok \<lparr>ev_id = i, ev_event = event_type, ev_data = (case data of Some s \<Rightarrow> s | None \<Rightarrow> []), ev_retry = retry\<rparr>))))"

text \<open>An optional attribute: absent, or of another type, counts as not given.\<close>

definition attr_field :: "('o \<Rightarrow> 'a option option) \<Rightarrow> 'o option \<Rightarrow> 'a option" where
  "attr_field extract a = (case a of None \<Rightarrow> None | Some v \<Rightarrow> (case extract v of None \<Rightarrow> None | Some r \<Rightarrow> r))"

definition last_resort :: "'o sse_py \<Rightarrow> 'o \<Rightarrow> string + sse_event" where
  "last_resort py ob = map_sum (\<lambda>e. e) sse_data (sp_str py ob)"

text \<open>One item of \<open>collect_sse_from_generator\<close>: event, dictionary, string, object with \<open>data\<close>, anything.\<close>

definition collected_event :: "'o sse_py \<Rightarrow> 'o \<Rightarrow> string + sse_event" where
  "collected_event py ob =
     (case sp_event py ob of Some ev \<Rightarrow> Ok ev | None \<Rightarrow>
      (case sp_dict py ob of Some d \<Rightarrow> dict_event py d | None \<Rightarrow>
      (case sp_string py ob of Ok s \<Rightarrow> Ok (sse_data s) | Err _ \<Rightarrow>
      (case sp_attr py ob ''data'' of
         Some a \<Rightarrow>
           map_sum (\<lambda>e. e) (\<lambda>data.
             \<lparr>ev_id = attr_field (sp_opt_string py) (sp_attr py ob ''id''),
              ev_event = attr_field (sp_opt_string py) (sp_attr py ob ''event''), ev_data = data,
              ev_retry = attr_field (sp_opt_u64 py) (sp_attr py ob ''retry'')\<rparr>) (sp_string py a)
       | None \<Rightarrow> last_resort py ob))))"

text \<open>One item of \<open>sse_stream\<close>: event, string, dictionary, anything.\<close>

definition streamed_event :: "'o sse_py \<Rightarrow> 'o \<Rightarrow> string + sse_event" where
  "streamed_event py ob =
     (case sp_event py ob of Some ev \<Rightarrow> Ok ev | None \<Rightarrow>
      (case sp_string py ob of Ok s \<Rightarrow> Ok (sse_data s) | Err _ \<Rightarrow>
      (case sp_dict py ob of Some d \<Rightarrow> dict_event py d | None \<Rightarrow> last_resort py ob)))"

text \<open>
  The loop over a Python iterator: asking for an item may raise, and after each item \<open>check_signals\<close>
  may, which is the second component.
\<close>

type_synonym 'o py_iter = "((string + 'o) \<times> string option) list"

fun gather :: "('o \<Rightarrow> string + sse_event) \<Rightarrow> 'o py_iter \<Rightarrow> string list \<Rightarrow> string + string list" where
  "gather conv [] events = Ok events"
| "gather conv ((item, interrupt) # rest) events =
     (case item of Err e \<Rightarrow> Err e
      | Ok ob \<Rightarrow>
          (case conv ob of Err e \<Rightarrow> Err e
           | Ok ev \<Rightarrow>
               (case interrupt of Some e \<Rightarrow> Err e | None \<Rightarrow> gather conv rest (events @ [sse_format ev]))))"

definition collect_sse_from_generator :: "'o sse_py \<Rightarrow> string + 'o py_iter \<Rightarrow> string + string list" where
  "collect_sse_from_generator py it =
     (case it of Err e \<Rightarrow> Err e | Ok items \<Rightarrow> gather (collected_event py) items [])"

definition sse_collect :: "'o sse_py \<Rightarrow> string + 'o py_iter \<Rightarrow> 'q response_slot \<Rightarrow> (string + unit) \<times> 'q response_slot" where
  "sse_collect py it r =
     (case collect_sse_from_generator py it of
        Err e \<Rightarrow> (Err e, r)
      | Ok events \<Rightarrow> (Ok (), mark_ready (sl_set_body (concat events) (add_sse_headers r))))"

text \<open>
  \<open>sse_stream\<close> collects as well, then spawns a task that sends the events through a channel of 128;
  \<open>spawned\<close> is the receiving end of such a channel. The loop does not check for signals.
\<close>

definition rs_sse_stream ::
  "(string list \<Rightarrow> 'q) \<Rightarrow> 'o sse_py \<Rightarrow> string + 'o py_iter \<Rightarrow> 'q response_slot \<Rightarrow> (string + unit) \<times> 'q response_slot" where
  "rs_sse_stream spawned py it r =
     (case it of
        Err e \<Rightarrow> (Err e, r)
      | Ok items \<Rightarrow>
          (case gather (streamed_event py) (map (\<lambda>(item, _). (item, None)) items) [] of
             Err e \<Rightarrow> (Err e, r)
           | Ok events \<Rightarrow> (Ok (), mark_ready (set_streaming_body (spawned events) (add_sse_headers r)))))"

subsection \<open>Files\<close>

text \<open>What \<open>exists\<close> says of a path and what \<open>fs::read\<close> returns.\<close>

record disk =
  dk_exists :: "string \<Rightarrow> bool"
  dk_read :: "string \<Rightarrow> string + string"

definition file_mime :: "string \<Rightarrow> string" where
  "file_mime path =
     (case path_extension path of
        None \<Rightarrow> ''application/octet-stream''
      | Some e \<Rightarrow>
          if e = ''html'' \<or> e = ''htm'' then ''text/html'' else if e = ''css'' then ''text/css''
          else if e = ''js'' then ''application/javascript'' else if e = ''json'' then ''application/json''
          else if e = ''xml'' then ''application/xml'' else if e = ''txt'' then ''text/plain''
          else if e = ''png'' then ''image/png'' else if e = ''jpg'' \<or> e = ''jpeg'' then ''image/jpeg''
          else if e = ''gif'' then ''image/gif'' else if e = ''svg'' then ''image/svg+xml''
          else if e = ''pdf'' then ''application/pdf'' else if e = ''zip'' then ''application/zip''
          else if e = ''mp3'' then ''audio/mpeg'' else if e = ''mp4'' then ''video/mp4''
          else if e = ''webp'' then ''image/webp'' else if e = ''woff'' then ''font/woff''
          else if e = ''woff2'' then ''font/woff2'' else ''application/octet-stream'')"

definition send_file ::
  "disk \<Rightarrow> string \<Rightarrow> string option \<Rightarrow> string option \<Rightarrow> 'q response_slot \<Rightarrow> (string + unit) \<times> 'q response_slot" where
  "send_file dk path filename ctype r =
     (if \<not> dk_exists dk path then (Err (''File not found: '' @ path), r)
      else case dk_read dk path of
             Err e \<Rightarrow> (Err e, r)
           | Ok contents \<Rightarrow>
               (let mime_type = (case ctype of Some t \<Rightarrow> t | None \<Rightarrow> file_mime path);
                    download_name = (case filename of Some n \<Rightarrow> n
                                     | None \<Rightarrow> (case path_file_name path of Some n \<Rightarrow> n | None \<Rightarrow> ''download''));
                    r = add_header ''Content-Type'' mime_type r;
                    r = add_header ''Content-Disposition''
                          (''attachment; filename='' @ [CHR 0x22] @ download_name @ [CHR 0x22]) r
                in (Ok (), mark_ready (sl_set_body contents r))))"

definition download :: "disk \<Rightarrow> string \<Rightarrow> string option \<Rightarrow> 'q response_slot \<Rightarrow> (string + unit) \<times> 'q response_slot" where
  "download dk path filename r = send_file dk path filename None r"

subsection \<open>All or nothing\<close>

lemma slot_frame [simp]:
  "sl_ready (mark_ready r)" "sl_body (mark_ready r) = sl_body r" "sl_headers (mark_ready r) = sl_headers r"
  "sl_body (sl_set_body b r) = Buffered b" "sl_headers (sl_set_body b r) = sl_headers r"
  "sl_body (set_streaming_body q r) = Streaming q" "sl_headers (set_streaming_body q r) = sl_headers r"
  by (simp_all add: mark_ready_def sl_set_body_def set_streaming_body_def)

text \<open>A method that may raise: on an exception the response is as it was, otherwise it is ready.\<close>

definition all_or_nothing :: "('q response_slot \<Rightarrow> (string + unit) \<times> 'q response_slot) \<Rightarrow> bool" where
  "all_or_nothing f = (\<forall>r. case f r of (Err e, r') \<Rightarrow> r' = r | (Ok u, r') \<Rightarrow> sl_ready r')"

text \<open>
  A method of the Response API that raises leaves the response untouched, so the handler can still
  answer with an error page; one that does not raise leaves it ready to be sent. This holds for
  \<open>send\<close>, \<open>json\<close>, \<open>sse_collect\<close>, \<open>sse_stream\<close>, \<open>send_file\<close> and \<open>download\<close>.
\<close>

theorem response_methods_all_or_nothing:
  "all_or_nothing (send body) \<and> all_or_nothing (json json_of) \<and> all_or_nothing (sse_collect py it) \<and>
   all_or_nothing (rs_sse_stream spawned py it) \<and> all_or_nothing (send_file dk path filename ctype) \<and>
   all_or_nothing (download dk path filename)"
proof (intro conjI)
  show "all_or_nothing (send body)" by (auto simp: all_or_nothing_def send_def split: py_value.split sum.split)
  show "all_or_nothing (json json_of)" by (auto simp: all_or_nothing_def json_def split: sum.split)
  show "all_or_nothing (sse_collect py it)" by (auto simp: all_or_nothing_def sse_collect_def split: sum.split)
  show "all_or_nothing (rs_sse_stream spawned py it)" by (auto simp: all_or_nothing_def rs_sse_stream_def split: sum.split)
  show s: "all_or_nothing (send_file dk path filename ctype)" for ctype :: "string option"
    by (auto simp: all_or_nothing_def send_file_def Let_def split: sum.split)
  show "all_or_nothing (download dk path filename)" using s [of None] by (simp add: all_or_nothing_def download_def)
qed

subsection \<open>Two ways to stream the same events\<close>

text \<open>An item both routines read alike: an event, a string, a dictionary, or an object without \<open>data\<close>.\<close>

definition plain_item :: "'o sse_py \<Rightarrow> 'o \<Rightarrow> bool" where
  "plain_item py ob =
     (sp_event py ob \<noteq> None \<or>
      (case sp_string py ob of Ok s \<Rightarrow> sp_dict py ob = None | Err e \<Rightarrow> sp_dict py ob \<noteq> None \<or> sp_attr py ob ''data'' = None))"

lemma plain_item_same: "plain_item py ob \<Longrightarrow> collected_event py ob = streamed_event py ob"
  by (auto simp: plain_item_def collected_event_def streamed_event_def split: sum.splits option.splits)

definition plain_items :: "'o sse_py \<Rightarrow> 'o py_iter \<Rightarrow> bool" where
  "plain_items py items =
     list_all (\<lambda>(item, interrupt). interrupt = None \<and> (case item of Ok ob \<Rightarrow> plain_item py ob | Err e \<Rightarrow> True)) items"

lemma gather_same:
  "plain_items py items \<Longrightarrow>
   gather (streamed_event py) (map (\<lambda>(item, _). (item, None)) items) events = gather (collected_event py) items events"
proof (induction items arbitrary: events)
  case (Cons x items)
  obtain item interrupt where x: "x = (item, interrupt)" by force
  from Cons.prems x have i: "interrupt = None" and rest: "plain_items py items" by (simp_all add: plain_items_def)
  show ?case
  proof (cases item)
    case (Inr ob)
    with Cons.prems x have "collected_event py ob = streamed_event py ob"
      by (simp add: plain_items_def plain_item_same)
    with Inr x i Cons.IH [OF rest] show ?thesis by (simp split: sum.split)
  qed (simp add: x)
qed simp

text \<open>
  \<open>sse_stream\<close> and \<open>sse_collect\<close> deliver the same events: for a generator of events, strings,
  dictionaries and objects without a \<open>data\<close> attribute, both raise the same exception or both succeed,
  with the same headers, and the chunks sent through the channel are exactly the pieces whose
  concatenation is the collected body.
\<close>

theorem sse_stream_delivers_collected:
  assumes "plain_items py items"
  shows "case sse_collect py (Ok items) r of
           (Err e, _) \<Rightarrow> fst (rs_sse_stream spawned py (Ok items) r) = Err e
         | (Ok u, r') \<Rightarrow>
             (\<exists>events. rs_sse_stream spawned py (Ok items) r =
                (Ok (), mark_ready (set_streaming_body (spawned events) (add_sse_headers r))) \<and>
              sl_body r' = Buffered (concat events) \<and> sl_headers r' = sl_headers (add_sse_headers r))"
  using gather_same [OF assms, of "[]"]
  by (cases "gather (collected_event py) items []")
    (auto simp: sse_collect_def collect_sse_from_generator_def rs_sse_stream_def)

text \<open>Objects that are just strings.\<close>

definition string_py :: "string sse_py" where
  "string_py =
     \<lparr>sp_event = (\<lambda>_. None), sp_string = Inr, sp_dict = (\<lambda>_. None), sp_u64 = (\<lambda>_. Inl ''TypeError''), sp_attr = (\<lambda>_ _. None),
      sp_opt_string = (\<lambda>_. None), sp_opt_u64 = (\<lambda>_. None), sp_str = Inr\<rparr>"

theorem sse_stream_delivers_collected_witness:
  "let items = [(Inr ''a'', None), (Inr ''b'', None)]
   in plain_items string_py items \<and>
      (case sse_collect string_py (Ok items) (slot_new :: string list response_slot) of
         (Err e, _) \<Rightarrow> fst (rs_sse_stream (\<lambda>cs. cs) string_py (Ok items) slot_new) = Err e
       | (Ok u, r') \<Rightarrow>
           (\<exists>events. rs_sse_stream (\<lambda>cs. cs) string_py (Ok items) slot_new =
              (Ok (), mark_ready (set_streaming_body events (add_sse_headers slot_new))) \<and>
            sl_body r' = Buffered (concat events) \<and> sl_headers r' = sl_headers (add_sse_headers (slot_new :: string list response_slot))))"
proof -
  have p: "plain_items string_py [(Inr ''a'', None), (Inr ''b'', None)]"
    by (simp add: plain_items_def plain_item_def string_py_def)
  from sse_stream_delivers_collected [OF p, where r = slot_new and spawned = "\<lambda>cs. cs"] p show ?thesis unfolding Let_def by simp
qed

text \<open>
  An object with a \<open>data\<close> attribute is an event for \<open>sse_collect\<close> and its \<open>str()\<close> for \<open>sse_stream\<close>.
\<close>

lemma duck_typed_event_differs:
  "sp_event py ob = None \<Longrightarrow> sp_dict py ob = None \<Longrightarrow> sp_string py ob = Err e \<Longrightarrow> sp_attr py ob ''data'' = Some a \<Longrightarrow>
   sp_string py a = Ok d \<Longrightarrow> sp_str py ob = Ok s \<Longrightarrow>
   (\<exists>ev. collected_event py ob = Ok ev \<and> ev_data ev = d) \<and> streamed_event py ob = Ok (sse_data s)"
  by (simp add: collected_event_def streamed_event_def last_resort_def)

text \<open>Upper-case extensions are not recognized.\<close>

lemma file_mime_case: "file_mime ''/srv/a.PNG'' = ''application/octet-stream''" "file_mime ''/srv/a.png'' = ''image/png''"
  by (simp_all add: file_mime_def path_extension_def path_file_name_def)

end
