(* ===== verification/Json_Api.thy ===== *)
theory Json_Api
  imports Http_Request Http_Response Json_Values
begin

text \<open>
  JSON on its way through a handler: \<open>Request::json\<close> (\<open>src/http/request.rs\<close>) reads the body with the
  converter of \<open>src/utils/json.rs\<close>, \<open>Response::json\<close> (\<open>src/http/response.rs\<close>) writes a Python object
  into the response slot. The codec (simd-json) is a parameter.
\<close>

definition req_body_bytes :: "request \<Rightarrow> string" where
  "req_body_bytes r = (case rq_body r of Some b \<Rightarrow> b | None \<Rightarrow> [])"

definition req_json :: "json_codec \<Rightarrow> request \<Rightarrow> string + py" where
  "req_json cd r = (case rq_body r of Some b \<Rightarrow> parse_json_to_py cd b | None \<Rightarrow> Ok Json_Values.PyNone)"

definition py_headers :: "request \<Rightarrow> (string \<times> string) list" where
  "py_headers r = fold (\<lambda>(k, v) d. AList.update k v d) (rq_headers r) []"

definition rs_json :: "json_codec \<Rightarrow> (py \<Rightarrow> string + string) \<Rightarrow> py \<Rightarrow> 'q response_slot \<Rightarrow> (string + unit) \<times> 'q response_slot" where
  "rs_json cd str ob r = Http_Response.json (serialize_py_to_json cd str ob) r"

text \<open>What is relied on of the codec: it reads back what it wrote, and what it read is a JSON value it can write.\<close>

definition codec_law :: "json_codec \<Rightarrow> bool" where
  "codec_law cd =
     ((\<forall>j b. jd_to_vec cd j = Ok b \<longrightarrow> jd_from_slice cd b = Ok j) \<and>
      (\<forall>b j. jd_from_slice cd b = Ok j \<longrightarrow> wf_json j \<and> (\<exists>b'. jd_to_vec cd j = Ok b')))"

text \<open>
  \<^bold>\<open>C27\<close> A handler that answers with the JSON it was sent loses nothing. If the body of a request is JSON,
  \<open>req.json()\<close> succeeds, passing its result to \<open>res.json\<close> succeeds, and the response has status 200,
  the JSON content type and a body that reads as the same JSON value; if the body is not JSON, reading
  it raises and no response is written.
\<close>

theorem json_echo:
  assumes "codec_law cd" "rq_body r = Some b"
  shows "case jd_from_slice cd b of
           Ok j \<Rightarrow>
             (\<exists>ob slot b'. req_json cd r = Ok ob \<and> rs_json cd str ob slot_new = (Ok (), slot) \<and>
                hr_status (fst (into_response lib slot)) = 200 \<and> hr_body (fst (into_response lib slot)) = FullBody b' \<and>
                rs_get slot ''content-type'' = Some ''application/json'' \<and> jd_from_slice cd b' = Ok j)
         | Err e \<Rightarrow> req_json cd r = Err (''JSON parse error: '' @ e)"
proof (cases "jd_from_slice cd b")
  case (Inl e)
  then show ?thesis by (simp add: req_json_def assms(2) parse_json_to_py_def)
next
  case (Inr j)
  with assms(1) have wf: "wf_json j" by (auto simp: codec_law_def)
  from Inr assms(1) obtain b' where b': "jd_to_vec cd j = Ok b'" "jd_from_slice cd b' = Ok j"
    unfolding codec_law_def by blast
  have "serialize_py_to_json cd str (json_value_to_py j) = Ok b'"
    using b' by (simp add: serialize_py_to_json_def serialize_with_def json_py_json [OF wf])
  then have w: "rs_json cd str (json_value_to_py j) slot_new =
      (Ok (), mark_ready (sl_set_body b' (add_header ''Content-Type'' ''application/json'' slot_new)))"
    by (simp add: rs_json_def Http_Response.json_def)
  have r: "req_json cd r = Ok (json_value_to_py j)" using Inr by (simp add: req_json_def assms(2) parse_json_to_py_def)
  show ?thesis
    using Inr b' w r
    by (auto simp: into_response_def Let_def mark_ready_def sl_set_body_def add_header_def slot_new_def valid_status_def
        rs_get_def sl_get_header_def str_simps)
qed

text \<open>A codec of two values, for a closed example.\<close>

definition tiny_codec :: json_codec where
  "tiny_codec =
     \<lparr>jd_from_slice = (\<lambda>b. if b = ''null'' then Ok JNull else if b = ''[true]'' then Ok (JArray [JBool True]) else Err ''expected value''),
      jd_to_vec = (\<lambda>j. if j = JNull then Ok ''null'' else if j = JArray [JBool True] then Ok ''[true]'' else Err ''unsupported''),
      jd_to_string_pretty = (\<lambda>j. Err ''unsupported'')\<rparr>"

lemma tiny_codec_law: "codec_law tiny_codec"
  by (auto simp: codec_law_def tiny_codec_def split: if_splits)

theorem json_echo_witness:
  "let r = request_new (\<lambda>_. 0) ''/echo'' POST [] [] (Some ''[true]'')
   in \<exists>ob slot b'. req_json tiny_codec r = Ok ob \<and> rs_json tiny_codec (\<lambda>_. Err []) ob slot_new = (Ok (), slot) \<and>
        hr_body (fst (into_response \<lparr>name_ok = (\<lambda>_. True), value_ok = (\<lambda>_. True)\<rparr> slot)) = FullBody b' \<and>
        jd_from_slice tiny_codec b' = Ok (JArray [JBool True])"
proof -
  let ?r = "request_new (\<lambda>_. 0) ''/echo'' POST [] [] (Some ''[true]'')"
  have body: "rq_body ?r = Some ''[true]''" by (simp add: request_new_def)
  have read: "jd_from_slice tiny_codec ''[true]'' = Ok (JArray [JBool True])" by (simp add: tiny_codec_def)
  from json_echo [OF tiny_codec_law body, of "\<lambda>_. Err []" "\<lparr>name_ok = (\<lambda>_. True), value_ok = (\<lambda>_. True)\<rparr>"]
  show ?thesis unfolding read Let_def by auto
qed

end
