(* ===== verification/Websocket.thy ===== *)
theory Websocket
  imports Utf8 Machines
begin

text \<open>
  WebSocket connections as Python sees them (\<open>src/http/websocket.rs\<close>): sending and receiving through
  two channels, and closing. Tokio's unbounded channels are a parameter over a world that holds both
  ends; the object keeps whether it still has its halves.
\<close>

datatype ws_message_type = TextMsg | BinaryMsg | PingMsg | PongMsg | CloseMsg

record ws_message =
  wm_type :: ws_message_type
  wm_data :: string

definition ws_text :: "ws_message \<Rightarrow> string option" where
  "ws_text m = (if utf8_valid (wm_data m) then Some (wm_data m) else None)"

text \<open>\<open>loads\<close> is Python's \<open>json.loads\<close>, which may raise.\<close>

definition ws_json :: "(string \<Rightarrow> string + 'p) \<Rightarrow> ws_message \<Rightarrow> string + 'p" where
  "ws_json loads m = (if utf8_valid (wm_data m) then loads (wm_data m) else Err ''Message is not valid UTF-8'')"

text \<open>A string may be cut where a character starts; cutting elsewhere panics.\<close>

definition char_boundary :: "string \<Rightarrow> nat \<Rightarrow> bool" where
  "char_boundary s n = (n = length s \<or> n < length s \<and> \<not> (128 \<le> (of_char (s ! n) :: nat) \<and> (of_char (s ! n) :: nat) < 192))"

fun type_dbg :: "ws_message_type \<Rightarrow> string" where
  "type_dbg TextMsg = ''Text''"
| "type_dbg BinaryMsg = ''Binary''"
| "type_dbg PingMsg = ''Ping''"
| "type_dbg PongMsg = ''Pong''"
| "type_dbg CloseMsg = ''Close''"

text \<open>\<open>__repr__\<close>, \<open>None\<close> when it panics; \<open>dbg\<close> is the \<open>Debug\<close> form of a string.\<close>

definition ws_message_repr :: "(string \<Rightarrow> string) \<Rightarrow> ws_message \<Rightarrow> string option" where
  "ws_message_repr dbg m =
     (let preview = utf8_lossy (wm_data m);
          shown = (if 50 < length preview
                   then (if char_boundary preview 50 then Some (take 50 preview @ ''...'') else None)
                   else Some preview)
      in map_option (\<lambda>p. ''WsMessage('' @ type_dbg (wm_type m) @ '', '' @ dbg p @ '')'') shown)"

datatype ws_outgoing = OutText string | OutBinary string | OutPing string | OutClose

datatype try_recv = Got ws_message | Nothing_Yet | Disconnected

record 'w ws_lib =
  wc_send :: "ws_outgoing \<Rightarrow> 'w \<Rightarrow> bool \<times> 'w"
  wc_try_recv :: "'w \<Rightarrow> try_recv \<times> 'w"

record ws_inner =
  wi_tx :: bool
  wi_rx :: bool
  wi_closed :: bool

definition ws_new :: ws_inner where
  "ws_new = \<lparr>wi_tx = True, wi_rx = True, wi_closed = False\<rparr>"

definition ws_send :: "'w ws_lib \<Rightarrow> ws_outgoing \<Rightarrow> ws_inner \<times> 'w \<Rightarrow> (string + unit) \<times> ws_inner \<times> 'w" where
  "ws_send lib m s =
     (case s of (i, w) \<Rightarrow>
        if wi_closed i then (Err ''WebSocket is closed'', i, w)
        else if wi_tx i then
          (case wc_send lib m w of
             (True, w') \<Rightarrow> (Ok (), i, w')
           | (False, w') \<Rightarrow> (Err ''WebSocket send channel closed'', i, w'))
        else (Ok (), i, w))"

definition send_text :: "'w ws_lib \<Rightarrow> string \<Rightarrow> ws_inner \<times> 'w \<Rightarrow> (string + unit) \<times> ws_inner \<times> 'w" where
  "send_text lib t s = ws_send lib (OutText t) s"

definition send_bytes :: "'w ws_lib \<Rightarrow> string \<Rightarrow> ws_inner \<times> 'w \<Rightarrow> (string + unit) \<times> ws_inner \<times> 'w" where
  "send_bytes lib d s = ws_send lib (OutBinary d) s"

text \<open>\<open>dumps\<close> is Python's \<open>json.dumps\<close> of the value, which may raise.\<close>

definition send_json :: "'w ws_lib \<Rightarrow> (string + string) \<Rightarrow> ws_inner \<times> 'w \<Rightarrow> (string + unit) \<times> ws_inner \<times> 'w" where
  "send_json lib dumps s = (case dumps of Err e \<Rightarrow> (Err e, s) | Ok t \<Rightarrow> send_text lib t s)"

definition send_ping :: "'w ws_lib \<Rightarrow> string option \<Rightarrow> ws_inner \<times> 'w \<Rightarrow> (string + unit) \<times> ws_inner \<times> 'w" where
  "send_ping lib d s = ws_send lib (OutPing (case d of Some x \<Rightarrow> x | None \<Rightarrow> [])) s"

definition receive :: "'w ws_lib \<Rightarrow> ws_inner \<times> 'w \<Rightarrow> ws_message option \<times> ws_inner \<times> 'w" where
  "receive lib s =
     (case s of (i, w) \<Rightarrow>
        if wi_closed i then (None, i, w)
        else if wi_rx i then
          (case wc_try_recv lib w of
             (Got m, w') \<Rightarrow> (Some m, i, w')
           | (Nothing_Yet, w') \<Rightarrow> (None, i, w')
           | (Disconnected, w') \<Rightarrow> (None, i\<lparr>wi_closed := True\<rparr>, w'))
        else (None, i, w))"

definition receive_text :: "'w ws_lib \<Rightarrow> ws_inner \<times> 'w \<Rightarrow> string option \<times> ws_inner \<times> 'w" where
  "receive_text lib s = (case receive lib s of (Some m, s') \<Rightarrow> (ws_text m, s') | (None, s') \<Rightarrow> (None, s'))"

definition receive_json :: "(string \<Rightarrow> string + 'p) \<Rightarrow> 'w ws_lib \<Rightarrow> ws_inner \<times> 'w \<Rightarrow> (string + 'p option) \<times> ws_inner \<times> 'w" where
  "receive_json loads lib s =
     (case receive lib s of
        (Some m, s') \<Rightarrow> (map_sum (\<lambda>e. e) Some (ws_json loads m), s')
      | (None, s') \<Rightarrow> (Ok None, s'))"

definition ws_close :: "'w ws_lib \<Rightarrow> ws_inner \<times> 'w \<Rightarrow> ws_inner \<times> 'w" where
  "ws_close lib s =
     (case s of (i, w) \<Rightarrow>
        if \<not> wi_closed i
        then (i\<lparr>wi_closed := True, wi_tx := False, wi_rx := False\<rparr>, if wi_tx i then snd (wc_send lib OutClose w) else w)
        else (i, w))"

subsection \<open>The connection as a state machine\<close>

datatype ws_op = SendText string | SendBytes string | SendPing "string option" | SendJson "string + string" | Receive | CloseWs

fun ws_apply :: "'w ws_lib \<Rightarrow> ws_op \<Rightarrow> ws_inner \<times> 'w \<Rightarrow> ws_inner \<times> 'w" where
  "ws_apply lib (SendText t) s = snd (send_text lib t s)"
| "ws_apply lib (SendBytes d) s = snd (send_bytes lib d s)"
| "ws_apply lib (SendPing d) s = snd (send_ping lib d s)"
| "ws_apply lib (SendJson j) s = snd (send_json lib j s)"
| "ws_apply lib Receive s = snd (receive lib s)"
| "ws_apply lib CloseWs s = ws_close lib s"

text \<open>Both halves are there until the connection is closed.\<close>

definition ws_inv :: "ws_inner \<Rightarrow> bool" where
  "ws_inv i = (wi_closed i \<or> wi_tx i \<and> wi_rx i)"

text \<open>The channel's promise: a send that succeeds queues its message, one that fails and a receive queue nothing.\<close>

definition queue_law :: "'w ws_lib \<Rightarrow> ('w \<Rightarrow> ws_outgoing list) \<Rightarrow> bool" where
  "queue_law lib out \<longleftrightarrow>
     (\<forall>m w ok w'. wc_send lib m w = (ok, w') \<longrightarrow> out w' = (if ok then out w @ [m] else out w)) \<and>
     (\<forall>w r w'. wc_try_recv lib w = (r, w') \<longrightarrow> out w' = out w)"

definition closing_ok :: "('w \<Rightarrow> ws_outgoing list) \<Rightarrow> ws_inner \<times> 'w \<Rightarrow> bool" where
  "closing_ok out s =
     (ws_inv (fst s) \<and> OutClose \<notin> set (butlast (out (snd s))) \<and>
      (out (snd s) \<noteq> [] \<and> last (out (snd s)) = OutClose \<longrightarrow> wi_closed (fst s)))"

lemma ws_send_closing:
  assumes "queue_law lib out" "closing_ok out s" "m \<noteq> OutClose"
  shows "closing_ok out (snd (ws_send lib m s))"
proof -
  obtain i w where s: "s = (i, w)" by force
  obtain ok w' where c: "wc_send lib m w = (ok, w')" by force
  with assms(1) have o: "out w' = (if ok then out w @ [m] else out w)" by (simp add: queue_law_def)
  have "OutClose \<notin> set (out w)" if "\<not> wi_closed i"
    using assms(2) that by (cases "out w" rule: rev_cases) (auto simp: closing_ok_def s)
  with assms(2,3) c o show ?thesis by (cases ok) (auto simp: ws_send_def s closing_ok_def)
qed

lemma ws_close_closing:
  assumes "queue_law lib out" "closing_ok out s"
  shows "closing_ok out (ws_close lib s)"
proof -
  obtain i w where s: "s = (i, w)" by force
  obtain ok w' where c: "wc_send lib OutClose w = (ok, w')" by force
  with assms(1) have o: "out w' = (if ok then out w @ [OutClose] else out w)" by (simp add: queue_law_def)
  have "OutClose \<notin> set (out w)" if "\<not> wi_closed i"
    using assms(2) that by (cases "out w" rule: rev_cases) (auto simp: closing_ok_def s)
  with assms(2) c o show ?thesis by (cases ok) (auto simp: ws_close_def s closing_ok_def ws_inv_def dest: in_set_butlastD)
qed

lemma receive_closing:
  assumes "queue_law lib out" "closing_ok out s"
  shows "closing_ok out (snd (receive lib s))"
proof -
  obtain i w where s: "s = (i, w)" by force
  obtain r w' where c: "wc_try_recv lib w = (r, w')" by force
  with assms(1) have "out w' = out w" by (simp add: queue_law_def)
  with assms(2) c show ?thesis by (cases r) (auto simp: receive_def s closing_ok_def ws_inv_def)
qed

lemma ws_apply_closing:
  assumes "queue_law lib out" "closing_ok out s"
  shows "closing_ok out (ws_apply lib op s)"
  using assms
  by (cases op) (auto simp: send_text_def send_bytes_def send_ping_def send_json_def ws_send_closing ws_close_closing
      receive_closing split: sum.split)

lemma closed_frozen: "wi_closed (fst s) \<Longrightarrow> ws_apply lib op s = s"
  by (cases op; cases s)
    (auto simp: send_text_def send_bytes_def send_ping_def send_json_def ws_send_def receive_def ws_close_def split: sum.split)

lemma fold_frozen: "wi_closed (fst s) \<Longrightarrow> fold (ws_apply lib) ops s = s"
  by (induction ops) (simp_all add: closed_frozen)

interpretation connection: machine "ws_apply lib" "\<lambda>s. queue_law lib out \<and> closing_ok out s" for lib out
  by unfold_locales (blast intro: ws_apply_closing)

lemma close_closes: "wi_closed (fst (ws_close lib s))"
  by (cases s) (auto simp: ws_close_def)

text \<open>
  The close frame is the last thing a connection sends, and it is sent at most once: whatever
  calls a program makes on a new connection, in any order, no message follows a close frame in the
  outgoing channel, the connection keeps both channel halves until it is closed, and after a call of
  \<open>close\<close> no call changes or sends anything.
\<close>

theorem close_frame_is_last:
  assumes "queue_law lib out" and "out w = []"
  shows "(let (i, w') = fold (ws_apply lib) ops (ws_new, w)
          in ws_inv i \<and> OutClose \<notin> set (butlast (out w')) \<and> (OutClose \<in> set (out w') \<longrightarrow> wi_closed i)) \<and>
         fold (ws_apply lib) (ops @ CloseWs # later) (ws_new, w) = fold (ws_apply lib) (ops @ [CloseWs]) (ws_new, w)"
proof
  have "closing_ok out (ws_new, w)" by (simp add: closing_ok_def assms(2) ws_new_def ws_inv_def)
  with assms(1) have ok: "closing_ok out (fold (ws_apply lib) ops (ws_new, w))"
    using connection.inv_run [of lib out "(ws_new, w)" ops] by blast
  obtain i w' where f: "fold (ws_apply lib) ops (ws_new, w) = (i, w')" by force
  from ok f have "OutClose \<in> set (out w') \<Longrightarrow> wi_closed i"
    by (cases "out w'" rule: rev_cases) (auto simp: closing_ok_def)
  with ok f show "let (i, w') = fold (ws_apply lib) ops (ws_new, w)
      in ws_inv i \<and> OutClose \<notin> set (butlast (out w')) \<and> (OutClose \<in> set (out w') \<longrightarrow> wi_closed i)"
    by (simp add: closing_ok_def)
  show "fold (ws_apply lib) (ops @ CloseWs # later) (ws_new, w) = fold (ws_apply lib) (ops @ [CloseWs]) (ws_new, w)"
    by (simp add: fold_frozen close_closes)
qed

text \<open>Channels as two lists, the outgoing and the incoming messages.\<close>

definition list_lib :: "(ws_outgoing list \<times> ws_message list) ws_lib" where
  "list_lib =
     \<lparr>wc_send = (\<lambda>m (q, r). (True, q @ [m], r)),
      wc_try_recv = (\<lambda>(q, r). case r of [] \<Rightarrow> (Nothing_Yet, q, r) | m # r' \<Rightarrow> (Got m, q, r'))\<rparr>"

lemma list_lib_law: "queue_law list_lib fst"
  by (auto simp: queue_law_def list_lib_def split: list.splits)

theorem close_frame_is_last_witness:
  "(let (i, w') = fold (ws_apply list_lib) [SendText ''hi'', CloseWs] (ws_new, [], [])
    in ws_inv i \<and> OutClose \<notin> set (butlast (fst w')) \<and> (OutClose \<in> set (fst w') \<longrightarrow> wi_closed i)) \<and>
   fold (ws_apply list_lib) ([SendText ''hi'', CloseWs] @ CloseWs # [Receive]) (ws_new, [], [])
   = fold (ws_apply list_lib) ([SendText ''hi'', CloseWs] @ [CloseWs]) (ws_new, [], [])"
  by (rule close_frame_is_last [OF list_lib_law]) simp

subsection \<open>Surprises\<close>

text \<open>
  \<open>receive\<close> is documented to block and to return \<open>None\<close> when the connection is closed; it returns \<open>None\<close>
  on an open connection whenever no message is waiting.
\<close>

lemma receive_does_not_block: "receive list_lib (ws_new, [], []) = (None, ws_new, [], [])"
  by (simp add: receive_def list_lib_def ws_new_def)

text \<open>The text of a message whose fiftieth byte is inside a character cannot be shown: \<open>__repr__\<close> panics.\<close>

lemma repr_panics:
  "ws_message_repr dbg \<lparr>wm_type = TextMsg, wm_data = replicate 49 CHR ''a'' @ [CHR 0xC3, CHR 0xA9] @ ''b''\<rparr> = None"
proof -
  let ?s = "replicate 49 CHR ''a'' @ [CHR 0xC3, CHR 0xA9] @ ''b''"
  have "utf8_valid ?s" by (simp add: numeral_eq_Suc utf8_cont_def)
  then have "utf8_lossy ?s = ?s" by (rule utf8_lossy_valid)
  then show ?thesis by (simp add: ws_message_repr_def char_boundary_def nth_append)
qed

end
