(* ===== verification/Str_Utils.thy ===== *)
theory Str_Utils
  imports Prelude
begin

text \<open>
  Text helpers (\<open>src/utils/str_utils.rs\<close>). Here a string is the list of its characters, each a Unicode
  scalar value; the Unicode tables of the standard library are a parameter, of which the properties use
  only what they say about ASCII.
\<close>

type_synonym uchar = nat
type_synonym ustring = "uchar list"

record unicode =
  uc_alphabetic :: "uchar \<Rightarrow> bool"
  uc_uppercase :: "uchar \<Rightarrow> bool"
  uc_lowercase :: "uchar \<Rightarrow> bool"
  uc_whitespace :: "uchar \<Rightarrow> bool"
  uc_to_upper :: "uchar \<Rightarrow> ustring"
  uc_to_lower :: "uchar \<Rightarrow> ustring"

definition is_digit :: "uchar \<Rightarrow> bool" where
  "is_digit c = (48 \<le> c \<and> c \<le> 57)"

definition is_ascii_lower :: "uchar \<Rightarrow> bool" where
  "is_ascii_lower c = (97 \<le> c \<and> c \<le> 122)"

definition is_ascii_upper :: "uchar \<Rightarrow> bool" where
  "is_ascii_upper c = (65 \<le> c \<and> c \<le> 90)"

definition is_alnum :: "uchar \<Rightarrow> bool" where
  "is_alnum c = (is_digit c \<or> is_ascii_lower c \<or> is_ascii_upper c)"

definition ascii_lower :: "uchar \<Rightarrow> uchar" where
  "ascii_lower c = (if is_ascii_upper c then c + 32 else c)"

abbreviation chars_of :: "string \<Rightarrow> ustring" where
  "chars_of s \<equiv> map of_char s"

text \<open>The length of a string in bytes of UTF-8.\<close>

definition byte_len :: "ustring \<Rightarrow> nat" where
  "byte_len s = sum_list (map (\<lambda>c. if c < 128 then 1 else if c < 2048 then 2 else if c < 65536 then 3 else 4) s)"

subsection \<open>Slugs\<close>

text \<open>The accented letters, by code point.\<close>

definition transliterate_char :: "uchar \<Rightarrow> ustring" where
  "transliterate_char c =
     (if 0xE0 \<le> c \<and> c \<le> 0xE5 \<or> 0xC0 \<le> c \<and> c \<le> 0xC5 then chars_of ''a''
      else if c = 0xE6 \<or> c = 0xC6 then chars_of ''ae''
      else if c = 0xE7 \<or> c = 0xC7 then chars_of ''c''
      else if 0xE8 \<le> c \<and> c \<le> 0xEB \<or> 0xC8 \<le> c \<and> c \<le> 0xCB then chars_of ''e''
      else if 0xEC \<le> c \<and> c \<le> 0xEF \<or> 0xCC \<le> c \<and> c \<le> 0xCF then chars_of ''i''
      else if c = 0xF0 \<or> c = 0xD0 then chars_of ''d''
      else if c = 0xF1 \<or> c = 0xD1 then chars_of ''n''
      else if 0xF2 \<le> c \<and> c \<le> 0xF6 \<or> c = 0xF8 \<or> 0xD2 \<le> c \<and> c \<le> 0xD6 \<or> c = 0xD8 then chars_of ''o''
      else if 0xF9 \<le> c \<and> c \<le> 0xFC \<or> 0xD9 \<le> c \<and> c \<le> 0xDC then chars_of ''u''
      else if c = 0xFD \<or> c = 0xFF \<or> c = 0xDD \<or> c = 0x178 then chars_of ''y''
      else if c = 0xFE \<or> c = 0xDE then chars_of ''th''
      else if c = 0xDF then chars_of ''ss''
      else if c = 0x111 \<or> c = 0x110 then chars_of ''d''
      else [])"

fun slug_loop :: "unicode \<Rightarrow> ustring \<Rightarrow> ustring \<Rightarrow> ustring \<Rightarrow> bool \<Rightarrow> ustring" where
  "slug_loop uc sep [] result last_was_sep = result"
| "slug_loop uc sep (c # text) result last_was_sep =
     (if is_alnum c then slug_loop uc sep text (result @ [ascii_lower c]) False
      else if uc_alphabetic uc c then
        (if transliterate_char c \<noteq> [] then slug_loop uc sep text (result @ transliterate_char c) False
         else slug_loop uc sep text result last_was_sep)
      else if \<not> last_was_sep \<and> result \<noteq> [] then slug_loop uc sep text (result @ sep) True
      else slug_loop uc sep text result last_was_sep)"

definition ends_with :: "ustring \<Rightarrow> ustring \<Rightarrow> bool" where
  "ends_with s t = (length t \<le> length s \<and> drop (length s - length t) s = t)"

definition slugify :: "unicode \<Rightarrow> ustring \<Rightarrow> ustring \<Rightarrow> ustring" where
  "slugify uc text sep =
     (let result = slug_loop uc sep text [] True
      in if ends_with result sep then take (length result - length sep) result else result)"

definition truncate_text :: "ustring \<Rightarrow> nat \<Rightarrow> ustring \<Rightarrow> ustring" where
  "truncate_text text max_len suff =
     (if length text \<le> max_len then text else take (max_len - length suff) text @ suff)"

subsection \<open>Masking\<close>

text \<open>Positions are 64-bit numbers, and their sum and difference wrap around.\<close>

definition mask_inner :: "ustring \<Rightarrow> nat \<Rightarrow> nat \<Rightarrow> ustring" where
  "mask_inner s keep_start keep_end =
     (let n = length s in
      if n \<le> (keep_start + keep_end) mod 2 ^ 64 then replicate n 42
      else map (\<lambda>i. if i < keep_start \<or> (n + 2 ^ 64 - keep_end) mod 2 ^ 64 \<le> i then s ! i else 42) [0..<n])"

definition mask_string :: "ustring \<Rightarrow> nat \<Rightarrow> nat \<Rightarrow> ustring" where
  "mask_string text keep_start keep_end = mask_inner text keep_start keep_end"

definition mask_email :: "ustring \<Rightarrow> ustring" where
  "mask_email email =
     (case split_once 64 email of
        None \<Rightarrow> replicate (byte_len email) 42
      | Some (local, domain) \<Rightarrow> mask_inner local 1 1 @ [64] @ domain)"

definition mask_phone :: "ustring \<Rightarrow> nat \<Rightarrow> ustring" where
  "mask_phone phone keep_last =
     (let digits = filter is_digit phone in
      if length digits \<le> keep_last then digits
      else let n = length digits - keep_last in replicate n 42 @ drop n digits)"

subsection \<open>Case conversion\<close>

fun camel_loop :: "unicode \<Rightarrow> ustring \<Rightarrow> bool \<Rightarrow> ustring" where
  "camel_loop uc [] cap_next = []"
| "camel_loop uc (c # text) cap_next =
     (if c = 95 then camel_loop uc text True
      else if cap_next then uc_to_upper uc c @ camel_loop uc text False
      else c # camel_loop uc text False)"

definition snake_to_camel :: "unicode \<Rightarrow> ustring \<Rightarrow> bool \<Rightarrow> ustring" where
  "snake_to_camel uc text upper_first = camel_loop uc text upper_first"

text \<open>\<open>prev\<close> is the character before, none at the start.\<close>

fun snake_loop :: "unicode \<Rightarrow> uchar option \<Rightarrow> ustring \<Rightarrow> ustring" where
  "snake_loop uc prev [] = []"
| "snake_loop uc prev (c # text) =
     (if uc_uppercase uc c then
        let prev_lower = (case prev of Some p \<Rightarrow> uc_lowercase uc p | None \<Rightarrow> False);
            next_lower = (case text of d # _ \<Rightarrow> uc_lowercase uc d | [] \<Rightarrow> False)
        in (if prev \<noteq> None \<and> (prev_lower \<or> next_lower) then [95] else []) @ uc_to_lower uc c @ snake_loop uc (Some c) text
      else c # snake_loop uc (Some c) text)"

definition camel_to_snake :: "unicode \<Rightarrow> ustring \<Rightarrow> ustring" where
  "camel_to_snake uc text = snake_loop uc None text"

text \<open>A flat dictionary; a key that is not a string raises.\<close>

definition map_keys :: "(ustring \<Rightarrow> ustring) \<Rightarrow> ((string + ustring) \<times> 'v) list \<Rightarrow> string + (ustring \<times> 'v) list" where
  "map_keys f data =
     fold (\<lambda>(key, v) r. case r of Err e \<Rightarrow> Err e | Ok m \<Rightarrow>
             (case key of Err e \<Rightarrow> Err e | Ok k \<Rightarrow> Ok (AList.update (f k) v m))) data (Ok [])"

definition keys_to_camel :: "unicode \<Rightarrow> ((string + ustring) \<times> 'v) list \<Rightarrow> bool \<Rightarrow> string + (ustring \<times> 'v) list" where
  "keys_to_camel uc data upper_first = map_keys (\<lambda>k. snake_to_camel uc k upper_first) data"

definition keys_to_snake :: "unicode \<Rightarrow> ((string + ustring) \<times> 'v) list \<Rightarrow> string + (ustring \<times> 'v) list" where
  "keys_to_snake uc data = map_keys (camel_to_snake uc) data"

subsection \<open>Padding and counting\<close>

definition pad_of :: "ustring \<Rightarrow> uchar" where
  "pad_of pad_char = (case pad_char of c # _ \<Rightarrow> c | [] \<Rightarrow> 32)"

definition str_pad_left :: "ustring \<Rightarrow> nat \<Rightarrow> ustring \<Rightarrow> ustring" where
  "str_pad_left text width pad_char =
     (if length text \<ge> width then text else replicate (width - length text) (pad_of pad_char) @ text)"

definition str_pad_right :: "ustring \<Rightarrow> nat \<Rightarrow> ustring \<Rightarrow> ustring" where
  "str_pad_right text width pad_char =
     (if length text \<ge> width then text else text @ replicate (width - length text) (pad_of pad_char))"

text \<open>\<open>split_whitespace\<close>: a word starts at every character that is not white space and follows one or nothing.\<close>

fun count_words :: "unicode \<Rightarrow> bool \<Rightarrow> ustring \<Rightarrow> nat" where
  "count_words uc in_word [] = 0"
| "count_words uc in_word (c # s) =
     (if uc_whitespace uc c then count_words uc False s
      else (if in_word then 0 else 1) + count_words uc True s)"

definition word_count :: "unicode \<Rightarrow> ustring \<Rightarrow> nat" where
  "word_count uc text = count_words uc False text"

definition is_url_safe :: "ustring \<Rightarrow> bool" where
  "is_url_safe text = list_all (\<lambda>c. is_alnum c \<or> c = 45 \<or> c = 95 \<or> c = 46 \<or> c = 126) text"

subsection \<open>What the Unicode tables say about ASCII\<close>

definition ascii_law :: "unicode \<Rightarrow> bool" where
  "ascii_law uc \<longleftrightarrow>
     \<not> uc_alphabetic uc 45 \<and>
     (\<forall>c. is_ascii_lower c \<longrightarrow> uc_lowercase uc c \<and> \<not> uc_uppercase uc c \<and> uc_to_upper uc c = [c - 32]) \<and>
     (\<forall>c. is_ascii_upper c \<longrightarrow> uc_uppercase uc c \<and> \<not> uc_lowercase uc c \<and> uc_to_lower uc c = [c + 32])"

definition ascii_unicode :: unicode where
  "ascii_unicode =
     \<lparr>uc_alphabetic = (\<lambda>c. is_ascii_lower c \<or> is_ascii_upper c), uc_uppercase = is_ascii_upper, uc_lowercase = is_ascii_lower,
      uc_whitespace = (\<lambda>c. c = 32 \<or> 9 \<le> c \<and> c \<le> 13), uc_to_upper = (\<lambda>c. [if is_ascii_lower c then c - 32 else c]),
      uc_to_lower = (\<lambda>c. [ascii_lower c])\<rparr>"

lemma ascii_unicode_law: "ascii_law ascii_unicode"
  by (auto simp: ascii_law_def ascii_unicode_def is_ascii_lower_def is_ascii_upper_def ascii_lower_def)

subsection \<open>Slugs are clean and stay\<close>

definition slug_char :: "uchar \<Rightarrow> bool" where
  "slug_char c = (is_digit c \<or> is_ascii_lower c)"

text \<open>Slug characters with single hyphens between them; the flag tells whether a hyphen came before.\<close>

fun clean_slug :: "bool \<Rightarrow> ustring \<Rightarrow> bool" where
  "clean_slug l [] = True"
| "clean_slug l (c # s) = (if slug_char c then clean_slug False s else c = 45 \<and> \<not> l \<and> clean_slug True s)"

definition after_sep :: "ustring \<Rightarrow> bool" where
  "after_sep s = (s = [] \<or> last s = 45)"

lemma slug_char_simps [simp]: "\<not> slug_char 45" "\<not> is_alnum 45" "slug_char c \<Longrightarrow> is_alnum c" "slug_char c \<Longrightarrow> ascii_lower c = c"
  "is_alnum c \<Longrightarrow> slug_char (ascii_lower c)" "slug_char c \<Longrightarrow> c \<noteq> 45"
  by (auto simp: slug_char_def is_alnum_def ascii_lower_def is_digit_def is_ascii_lower_def is_ascii_upper_def)

lemma clean_slug_snoc:
  "clean_slug l (s @ [c]) \<longleftrightarrow> clean_slug l s \<and> (slug_char c \<or> c = 45 \<and> \<not> (if s = [] then l else last s = 45))"
  by (induction l s rule: clean_slug.induct) auto

lemma clean_slug_append: "clean_slug l s \<Longrightarrow> list_all slug_char t \<Longrightarrow> clean_slug l (s @ t)"
proof (induction t arbitrary: s)
  case (Cons c t)
  from Cons.IH [of "s @ [c]"] Cons.prems show ?case by (simp add: clean_slug_snoc)
qed simp

lemma transliterate_slug: "list_all slug_char (transliterate_char c)"
  by (simp add: transliterate_char_def slug_char_def is_ascii_lower_def)

lemma slug_loop_clean:
  "clean_slug True result \<Longrightarrow> l = after_sep result \<Longrightarrow> clean_slug True (slug_loop uc [45] tx result l)"
proof (induction uc "[45] :: ustring" tx result l rule: slug_loop.induct)
  case (2 uc c tx result l)
  have tr: "after_sep (result @ transliterate_char c) = False" if "transliterate_char c \<noteq> []"
    using that transliterate_slug [of c] by (auto simp: after_sep_def list_all_iff dest: last_in_set)
  show ?case
    using 2 tr by (auto simp: clean_slug_snoc clean_slug_append transliterate_slug after_sep_def)
qed simp

lemma slug_loop_id:
  "clean_slug l s \<Longrightarrow> \<not> uc_alphabetic uc 45 \<Longrightarrow> result \<noteq> [] \<or> l \<Longrightarrow> slug_loop uc [45] s result l = result @ s"
  by (induction uc "[45] :: ustring" s result l rule: slug_loop.induct) (auto split: if_splits)

lemma ends_with_hyphen: "ends_with s [45] \<longleftrightarrow> s \<noteq> [] \<and> last s = 45"
  by (cases s rule: rev_cases) (auto simp: ends_with_def)

lemma slugify_hyphen:
  "slugify uc tx [45] = (let r = slug_loop uc [45] tx [] True in if r \<noteq> [] \<and> last r = 45 then butlast r else r)"
  by (simp add: slugify_def ends_with_hyphen butlast_conv_take Let_def)

lemma slugify_clean: "clean_slug True (slugify uc tx [45]) \<and> (slugify uc tx [45] = [] \<or> last (slugify uc tx [45]) \<noteq> 45)"
proof -
  let ?r = "slug_loop uc [45] tx [] True"
  have c: "clean_slug True ?r" by (rule slug_loop_clean) (simp_all add: after_sep_def)
  show ?thesis
  proof (cases "?r" rule: rev_cases)
    case (snoc s x)
    with c show ?thesis by (cases "x = 45") (auto simp: slugify_hyphen clean_slug_snoc split: if_splits)
  qed (simp add: slugify_hyphen)
qed

lemma clean_url_safe: "clean_slug l s \<Longrightarrow> is_url_safe s"
  by (induction l s rule: clean_slug.induct) (auto simp: is_url_safe_def split: if_splits)

text \<open>
  Slugs are safe in a URL and final: with the default separator every slug consists of lower-case
  ASCII letters, digits and single inner hyphens, and making a slug of a slug gives it back.
\<close>

theorem slugify_safe_and_idempotent:
  assumes "ascii_law uc"
  shows "let s = slugify uc tx (chars_of ''-'')
         in is_url_safe s \<and> clean_slug True s \<and> (s = [] \<or> last s \<noteq> 45) \<and> slugify uc s (chars_of ''-'') = s"
proof -
  let ?s = "slugify uc tx [45]"
  have c: "clean_slug True ?s" "?s = [] \<or> last ?s \<noteq> 45" using slugify_clean [of uc tx] by auto
  have "slug_loop uc [45] ?s [] True = ?s"
    using slug_loop_id [OF c(1), of uc "[]"] assms by (simp add: ascii_law_def)
  with c(2) have "slugify uc ?s [45] = ?s" unfolding slugify_hyphen [of uc ?s] by (auto simp: Let_def)
  with c show ?thesis by (simp add: clean_url_safe Let_def)
qed

theorem slugify_safe_and_idempotent_witness:
  "let s = slugify ascii_unicode (chars_of ''  Hello World!  2026 '') (chars_of ''-'')
   in is_url_safe s \<and> clean_slug True s \<and> (s = [] \<or> last s \<noteq> 45) \<and> slugify ascii_unicode s (chars_of ''-'') = s"
  by (rule slugify_safe_and_idempotent [OF ascii_unicode_law])

text \<open>A separator that ends the last word takes its letters with it.\<close>

lemma separator_eats_letters: "slugify ascii_unicode (chars_of ''box'') (chars_of ''x'') = chars_of ''bo''"
  by (simp add: slugify_def ends_with_def is_alnum_def is_digit_def is_ascii_lower_def is_ascii_upper_def ascii_lower_def)

subsection \<open>Masking hides\<close>

lemma mask_inner_length [simp]: "length (mask_inner s a b) = length s"
  by (simp add: mask_inner_def Let_def)

text \<open>
  Masking shows exactly the ends that were asked for: unless the numbers of characters to keep
  overflow, a masked text has the length of the original and at each position either the original
  character, when the text is longer than what is kept and the position is in the kept ends, or a
  star; a text no longer than what is kept is starred completely.
\<close>

theorem mask_string_hides:
  assumes "keep_start + keep_end < 2 ^ 64" "length s < 2 ^ 64" "i < length s"
  shows "length (mask_string s keep_start keep_end) = length s \<and>
         mask_string s keep_start keep_end ! i =
           (if keep_start + keep_end < length s \<and> (i < keep_start \<or> length s - keep_end \<le> i) then s ! i else 42)"
proof (cases "length s \<le> keep_start + keep_end")
  case True
  with assms show ?thesis by (simp add: mask_string_def mask_inner_def)
next
  case False
  then have "keep_end \<le> length s" by simp
  then have "(length s + 2 ^ 64 - keep_end) mod 2 ^ 64 = length s - keep_end"
    using assms(2) by (simp add: mod_if)
  with False assms show ?thesis by (simp add: mask_string_def mask_inner_def not_le Let_def)
qed

theorem mask_string_hides_witness:
  "length (mask_string (chars_of ''secret-value'') 2 2) = 12 \<and> mask_string (chars_of ''secret-value'') 2 2 ! 5 = 42"
  using mask_string_hides [of 2 2 "chars_of ''secret-value''" 5] by simp

text \<open>The documented results of two examples have more stars than the code writes.\<close>

lemma mask_examples:
  "mask_string (chars_of ''secret-value'') 2 2 = chars_of ''se********ue''"
  "mask_phone (chars_of ''+1-800-555-1234'') 4 = chars_of ''*******1234''"
  by (simp_all add: mask_string_def mask_inner_def mask_phone_def is_digit_def upt_rec)

text \<open>With overflowing numbers the text is shown in full.\<close>

lemma mask_overflow_reveals: "length s < 2 ^ 64 \<Longrightarrow> mask_string s (2 ^ 64 - 1) 1 = s"
proof (rule nth_equalityI)
  fix i
  assume s: "length s < 2 ^ 64" and i: "i < length (mask_string s (2 ^ 64 - 1) 1)"
  then have "i < 2 ^ 64 - 1" "0 < length s" by (auto simp: mask_string_def)
  then show "mask_string s (2 ^ 64 - 1) 1 ! i = s ! i"
    using i by (simp add: mask_string_def mask_inner_def Let_def del: mask_inner_length split: if_splits)
qed (simp add: mask_string_def)

text \<open>\<open>truncate\<close> may be longer than \<open>max_len\<close>: its suffix is kept whole.\<close>

lemma truncate_length: "length (truncate_text s n suff) \<le> max n (length suff)"
  unfolding truncate_text_def by (cases "length s \<le> n") auto

lemma truncate_longer: "length (truncate_text (chars_of ''abcd'') 2 (chars_of ''...'')) = 3"
  by (simp add: truncate_text_def)

subsection \<open>Snake case to camel case and back\<close>

text \<open>A word that survives: at least two lower-case ASCII letters.\<close>

definition plain_word :: "ustring \<Rightarrow> bool" where
  "plain_word w = (2 \<le> length w \<and> list_all is_ascii_lower w)"

fun capital :: "ustring \<Rightarrow> ustring" where
  "capital [] = []"
| "capital (c # w) = (c - 32) # w"

lemma camel_loop_lower: "list_all is_ascii_lower w \<Longrightarrow> camel_loop uc (w @ s) False = w @ camel_loop uc s False"
  by (induction w) (auto simp: is_ascii_lower_def)

lemma camel_loop_words:
  "ascii_law uc \<Longrightarrow> list_all plain_word ws \<Longrightarrow> camel_loop uc (concat (map (\<lambda>w. 95 # w) ws)) False = concat (map capital ws)"
proof (induction ws)
  case (Cons w ws)
  then obtain c v where w: "w = c # v" "is_ascii_lower c" "list_all is_ascii_lower v" by (cases w) (auto simp: plain_word_def)
  with Cons show ?case
    by (simp add: camel_loop_lower ascii_law_def) (auto simp: is_ascii_lower_def)
qed simp

lemma snake_loop_lower:
  "ascii_law uc \<Longrightarrow> list_all is_ascii_lower w \<Longrightarrow> w \<noteq> [] \<Longrightarrow> snake_loop uc p (w @ s) = w @ snake_loop uc (Some (last w)) s"
proof (induction w arbitrary: p)
  case (Cons c w)
  then show ?case by (cases "w = []") (simp_all add: ascii_law_def)
qed simp

lemma snake_loop_words:
  "ascii_law uc \<Longrightarrow> list_all plain_word ws \<Longrightarrow> is_ascii_lower p \<Longrightarrow>
   snake_loop uc (Some p) (concat (map capital ws)) = concat (map (\<lambda>w. 95 # w) ws)"
proof (induction ws arbitrary: p)
  case (Cons w ws)
  then obtain c v where w: "w = c # v" "v \<noteq> []" "is_ascii_lower c" "list_all is_ascii_lower v"
    by (cases w) (auto simp: plain_word_def Suc_le_length_iff)
  have up: "is_ascii_upper (c - 32)" "c - 32 + 32 = c" using w(3) by (auto simp: is_ascii_lower_def is_ascii_upper_def)
  have lp: "is_ascii_lower (last v)" using w(2,4) by (simp add: list_all_iff)
  have "snake_loop uc (Some p) ((c - 32) # v @ concat (map capital ws)) =
      95 # c # snake_loop uc (Some (c - 32)) (v @ concat (map capital ws))"
    using Cons.prems(1,3) up by (simp add: ascii_law_def)
  also have "\<dots> = 95 # c # v @ concat (map (\<lambda>w. 95 # w) ws)"
    using Cons.IH [OF Cons.prems(1) _ lp] Cons.prems(1,2) w by (simp add: snake_loop_lower)
  finally show ?case by (simp add: w)
qed simp

lemma join_words: "w # ws = wss \<Longrightarrow> join_with [95] wss = w @ concat (map (\<lambda>v. 95 # v) ws)"
  by (induction ws arbitrary: w wss) (auto simp del: split_paired_All)

text \<open>
  Converting keys to camel case loses nothing for ordinary names: a name made of words of two or
  more lower-case letters joined by underscores comes back from \<open>snake_to_camel\<close> through
  \<open>camel_to_snake\<close>.
\<close>

theorem snake_camel_roundtrip:
  assumes "ascii_law uc" "list_all plain_word ws" "ws \<noteq> []"
  shows "camel_to_snake uc (snake_to_camel uc (join_with (chars_of ''_'') ws) False) = join_with (chars_of ''_'') ws"
proof -
  obtain w vs where ws: "ws = w # vs" using assms(3) by (cases ws) auto
  have j: "join_with [95] ws = w @ concat (map (\<lambda>v. 95 # v) vs)" by (rule join_words) (simp add: ws)
  from assms(2) ws have w: "list_all is_ascii_lower w" "w \<noteq> []" "list_all plain_word vs" by (auto simp: plain_word_def)
  have "snake_to_camel uc (join_with [95] ws) False = w @ concat (map capital vs)"
    using assms(1) w by (simp add: snake_to_camel_def j camel_loop_lower camel_loop_words)
  moreover have "is_ascii_lower (last w)" using w by (simp add: list_all_iff)
  ultimately show ?thesis using assms(1) w
    by (simp add: camel_to_snake_def snake_loop_lower snake_loop_words j)
qed

theorem snake_camel_roundtrip_witness:
  "camel_to_snake ascii_unicode (snake_to_camel ascii_unicode (join_with (chars_of ''_'') [chars_of ''user'', chars_of ''name'']) False)
   = join_with (chars_of ''_'') [chars_of ''user'', chars_of ''name'']"
  by (rule snake_camel_roundtrip [OF ascii_unicode_law]) (simp_all add: plain_word_def is_ascii_lower_def)

text \<open>Words of one letter do not come back, and two keys may become one.\<close>

lemma short_word_lost:
  "camel_to_snake ascii_unicode (snake_to_camel ascii_unicode (chars_of ''plan_a_b'') False) = chars_of ''plan_ab''"
  by (simp add: camel_to_snake_def snake_to_camel_def ascii_unicode_def is_ascii_lower_def is_ascii_upper_def ascii_lower_def)

lemma keys_collide:
  "keys_to_camel ascii_unicode [(Inr (chars_of ''a_b''), 1), (Inr (chars_of ''a__b''), 2)] False = Ok [(chars_of ''aB'', 2)]"
  by (simp add: keys_to_camel_def map_keys_def snake_to_camel_def ascii_unicode_def is_ascii_lower_def is_ascii_upper_def)

end
