(* ===== verification/Time_Utils.thy ===== *)
theory Time_Utils
  imports Prelude "HOL-Library.Signed_Division"
begin

text \<open>
  Time helpers (\<open>src/utils/time_utils.rs\<close>) over signed 64-bit seconds and milliseconds. The system
  clock and chrono's formats are parameters; a clock before 1970 is \<open>None\<close>.
\<close>

type_synonym i64 = "64 word"

definition now_ms :: "nat option \<Rightarrow> i64" where
  "now_ms since_epoch = (case since_epoch of Some ns \<Rightarrow> of_nat (ns div 1000000) | None \<Rightarrow> 0)"

definition now_sec :: "nat option \<Rightarrow> i64" where
  "now_sec since_epoch = (case since_epoch of Some ns \<Rightarrow> of_nat (ns div 1000000000) | None \<Rightarrow> 0)"

record chrono =
  ch_format :: "i64 \<Rightarrow> string option"
  ch_rfc3339 :: "string \<Rightarrow> i64 option"
  ch_naive :: "string \<Rightarrow> string \<Rightarrow> i64 option"
  ch_date :: "string \<Rightarrow> i64 option"

text \<open>\<open>ch_format\<close> is the ISO text of a timestamp that chrono can represent.\<close>

definition format_timestamp :: "chrono \<Rightarrow> i64 \<Rightarrow> string" where
  "format_timestamp ch ts = (case ch_format ch ts of Some s \<Rightarrow> s | None \<Rightarrow> ''invalid timestamp'')"

fun first_some :: "('a \<Rightarrow> 'b option) \<Rightarrow> 'a list \<Rightarrow> 'b option" where
  "first_some f [] = None"
| "first_some f (x # xs) = (case f x of Some y \<Rightarrow> Some y | None \<Rightarrow> first_some f xs)"

definition parse_iso :: "chrono \<Rightarrow> string \<Rightarrow> i64 option" where
  "parse_iso ch s =
     (case ch_rfc3339 ch s of Some t \<Rightarrow> Some t | None \<Rightarrow>
      (case first_some (\<lambda>fmt. ch_naive ch fmt s)
              [''%Y-%m-%dT%H:%M:%S%.f'', ''%Y-%m-%dT%H:%M:%S'', ''%Y-%m-%d %H:%M:%S''] of
         Some t \<Rightarrow> Some t
       | None \<Rightarrow> ch_date ch s))"

definition elapsed_ms :: "nat option \<Rightarrow> i64 \<Rightarrow> i64" where
  "elapsed_ms since_epoch start_ms = now_ms since_epoch - start_ms"

definition ms_to_sec :: "i64 \<Rightarrow> i64" where
  "ms_to_sec ms = of_int (sint ms sdiv 1000)"

definition sec_to_ms :: "i64 \<Rightarrow> i64" where
  "sec_to_ms sec = sec * 1000"

definition counted :: "nat \<Rightarrow> string \<Rightarrow> string" where
  "counted n unit = (if n = 1 then ''1 '' @ unit else show_nat n @ '' '' @ unit @ ''s'')"

definition relative_label :: "nat \<Rightarrow> string" where
  "relative_label n =
     (if n < 60 then show_nat n @ '' seconds''
      else if n < 3600 then counted (n div 60) ''minute''
      else if n < 86400 then counted (n div 3600) ''hour''
      else if n < 86400 * 30 then counted (n div 86400) ''day''
      else if n < 86400 * 365 then counted (n div (86400 * 30)) ''month''
      else counted (n div (86400 * 365)) ''year'')"

definition format_relative :: "i64 \<Rightarrow> string" where
  "format_relative diff_secs =
     (let n = nat \<bar>sint diff_secs\<bar> in
      if n < 10 then ''just now''
      else (if 0 < sint diff_secs then relative_label n @ '' ago'' else ''in '' @ relative_label n))"

definition relative_time :: "nat option \<Rightarrow> i64 \<Rightarrow> string" where
  "relative_time since_epoch ts_secs = format_relative (now_sec since_epoch - ts_secs)"

subsection \<open>Seconds and milliseconds\<close>

lemma sint_i64_of_int: "- (2 ^ 63) \<le> i \<Longrightarrow> i < 2 ^ 63 \<Longrightarrow> sint (of_int i :: i64) = i"
  by (simp add: sint_sbintrunc' signed_take_bit_int_eq_self_iff)

text \<open>
  Converting seconds to milliseconds and back is the identity exactly for the seconds whose
  milliseconds fit in 64 signed bits; beyond them the product wraps around.
\<close>

theorem seconds_roundtrip:
  "ms_to_sec (sec_to_ms s) = s \<longleftrightarrow> - (2 ^ 63) \<le> sint s * 1000 \<and> sint s * 1000 < 2 ^ 63"
proof
  assume fits: "- (2 ^ 63) \<le> sint s * 1000 \<and> sint s * 1000 < 2 ^ 63"
  have "sec_to_ms s = of_int (sint s * 1000)" by (simp add: sec_to_ms_def)
  with fits have "sint (sec_to_ms s) = sint s * 1000" by (simp only: sint_i64_of_int)
  moreover have "sint s * 1000 sdiv 1000 = sint s"
    by (simp add: signed_divide_int_def abs_mult sgn_mult mult_sgn_abs)
  ultimately show "ms_to_sec (sec_to_ms s) = s" by (simp add: ms_to_sec_def)
next
  assume rt: "ms_to_sec (sec_to_ms s) = s"
  define m where "m = sint (sec_to_ms s)"
  have m: "- (2 ^ 63) \<le> m" "m < 2 ^ 63" using sint_ge [of "sec_to_ms s"] sint_lt [of "sec_to_ms s"] by (simp_all add: m_def)
  define q where "q = m sdiv 1000"
  have q: "q * 1000 = sgn m * (\<bar>m\<bar> div 1000 * 1000)" by (simp add: q_def signed_divide_int_def)
  define a where "a = \<bar>m\<bar> div 1000 * 1000"
  have a: "0 \<le> a" "a \<le> \<bar>m\<bar>" by (simp_all add: a_def)
  consider "0 < m" | "m = 0" | "m < 0" by linarith
  then have b: "- (2 ^ 63) \<le> q * 1000 \<and> q * 1000 < 2 ^ 63"
  proof cases
    case 1
    with q a m show ?thesis unfolding a_def [symmetric] by simp
  next
    case 3
    with q a m show ?thesis unfolding a_def [symmetric] by simp
  qed (use q in simp)
  then have "sint (of_int q :: i64) = q" by (intro sint_i64_of_int) linarith+
  with rt have "sint s = q" by (simp add: ms_to_sec_def m_def q_def)
  with b show "- (2 ^ 63) \<le> sint s * 1000 \<and> sint s * 1000 < 2 ^ 63" by simp
qed

text \<open>Division truncates towards zero, so half a second before 1970 is second 0.\<close>

lemma before_epoch: "ms_to_sec (of_int (- 500)) = 0"
  by (simp add: ms_to_sec_def signed_divide_int_def)

subsection \<open>Relative times\<close>

text \<open>The units with their sizes in seconds.\<close>

definition time_units :: "(string \<times> nat) list" where
  "time_units = [(''second'', 1), (''minute'', 60), (''hour'', 3600), (''day'', 86400), (''month'', 2592000), (''year'', 31536000)]"

lemma counted_units: "counted (n div u) name = (let k = n div u in if k = 1 then ''1 '' @ name else show_nat k @ '' '' @ name @ ''s'')"
  by (simp add: counted_def Let_def)

lemma relative_label_brackets:
  assumes "10 \<le> n"
  shows "\<exists>name u k. (name, u) \<in> set time_units \<and> k * u \<le> n \<and> n < (k + 1) * u \<and> 1 \<le> k \<and> relative_label n = counted k name"
proof -
  have bracket: "n div u * u \<le> n \<and> n < (n div u + 1) * u \<and> 1 \<le> n div u" if "0 < u" "u \<le> n" for u
    using that by (simp add: dividend_less_div_times Suc_leI div_greater_zero_iff)
  have pick: "\<exists>name u k. (name, u) \<in> set time_units \<and> k * u \<le> n \<and> n < (k + 1) * u \<and> 1 \<le> k \<and> relative_label n = counted k name"
    if "(name, u) \<in> set time_units" "0 < u" "u \<le> n" "relative_label n = counted (n div u) name" for name u
    using that bracket by blast
  consider "n < 60" | "60 \<le> n" "n < 3600" | "3600 \<le> n" "n < 86400" | "86400 \<le> n" "n < 86400 * 30"
    | "86400 * 30 \<le> n" "n < 86400 * 365" | "86400 * 365 \<le> n" by linarith
  then show ?thesis
  proof cases
    case 1
    then show ?thesis by (rule_tac pick [of "''second''" 1]) (use assms in \<open>simp_all add: time_units_def relative_label_def counted_def\<close>)
  qed (rule pick; simp add: time_units_def relative_label_def)+
qed

text \<open>
  Relative times tell the truth: a difference of fewer than ten seconds is \<open>just now\<close>, any other
  is named with one of six units and the number of whole units it contains, with \<open>ago\<close> for the past
  and \<open>in\<close> for the future.
\<close>

theorem format_relative_truth:
  "let n = nat \<bar>sint d\<bar> in
   if n < 10 then format_relative d = ''just now''
   else \<exists>name u k. (name, u) \<in> set time_units \<and> k * u \<le> n \<and> n < (k + 1) * u \<and> 1 \<le> k \<and>
          format_relative d = (if 0 < sint d then counted k name @ '' ago'' else ''in '' @ counted k name)"
proof (cases "nat \<bar>sint d\<bar> < 10")
  case True
  then show ?thesis by (simp add: format_relative_def Let_def)
next
  case False
  then obtain name u k where "(name, u) \<in> set time_units" "k * u \<le> nat \<bar>sint d\<bar>" "nat \<bar>sint d\<bar> < (k + 1) * u" "1 \<le> k"
    "relative_label (nat \<bar>sint d\<bar>) = counted k name"
    using relative_label_brackets [of "nat \<bar>sint d\<bar>"] by auto
  with False show ?thesis unfolding format_relative_def Let_def by (simp only: if_False) blast
qed

end
