(* ===== verification/Db_Pool.thy ===== *)
theory Db_Pool
  imports Registry
begin

text \<open>
  Connection pools by alias (\<open>src/database/pool.rs\<close>): reading a PostgreSQL URL, creating a pool for an
  alias, looking it up and closing it. Pools are handles, because closing one closes every copy of it;
  whether deadpool accepts a configuration is a parameter.
\<close>

subsection \<open>Configuration\<close>

record pool_config =
  pc_url :: string
  pc_max_size :: nat
  pc_min_idle :: "nat option"
  pc_connect_timeout_secs :: nat
  pc_idle_timeout_secs :: "nat option"
  pc_max_lifetime_secs :: "nat option"
  pc_test_before_acquire :: bool
  pc_keepalive_secs :: "nat option"

definition pool_config_default :: pool_config where
  "pool_config_default =
     \<lparr>pc_url = [], pc_max_size = 16, pc_min_idle = Some 2, pc_connect_timeout_secs = 30, pc_idle_timeout_secs = Some 600,
      pc_max_lifetime_secs = Some 1800, pc_test_before_acquire = False, pc_keepalive_secs = None\<rparr>"

definition pool_config_new ::
  "string \<Rightarrow> nat \<Rightarrow> nat option \<Rightarrow> nat \<Rightarrow> nat option \<Rightarrow> nat option \<Rightarrow> bool \<Rightarrow> nat option \<Rightarrow> pool_config" where
  "pool_config_new url max_size min_idle connect_timeout idle_timeout max_lifetime test_before_acquire keepalive =
     \<lparr>pc_url = url, pc_max_size = max_size, pc_min_idle = min_idle, pc_connect_timeout_secs = connect_timeout,
      pc_idle_timeout_secs = idle_timeout, pc_max_lifetime_secs = max_lifetime,
      pc_test_before_acquire = test_before_acquire, pc_keepalive_secs = keepalive\<rparr>"

datatype recycling = Fast | Verified

text \<open>The part of deadpool's configuration the code sets; \<open>pg_pool\<close> is the size and the three timeouts in seconds.\<close>

record pg_config =
  pg_user :: string
  pg_password :: "string option"
  pg_host :: string
  pg_port :: "nat option"
  pg_dbname :: string
  pg_recycling :: recycling
  pg_pool :: "(nat \<times> nat \<times> nat \<times> nat) option"
  pg_keepalive :: "nat option"

definition parse_u16 :: "string \<Rightarrow> nat option" where
  "parse_u16 s =
     (let d = (case strip_prefix s ''+'' of Some t \<Rightarrow> t | None \<Rightarrow> s) in
      if d \<noteq> [] \<and> list_all (\<lambda>c. 48 \<le> (of_char c :: nat) \<and> of_char c \<le> (57 :: nat)) d \<and> read_dec d < 2 ^ 16
      then Some (read_dec d) else None)"

definition parse_url :: "string \<Rightarrow> string + pg_config" where
  "parse_url url =
     (case (case strip_prefix url ''postgresql://'' of Some u \<Rightarrow> Some u | None \<Rightarrow> strip_prefix url ''postgres://'') of
        None \<Rightarrow> Err ''Invalid PostgreSQL URL format''
      | Some u \<Rightarrow>
          (case split_once (CHR ''@'') u of
             None \<Rightarrow> Err ''Missing @ in URL''
           | Some (auth, rest) \<Rightarrow>
               (let (user, password) =
                      (case split_once (CHR '':'') auth of Some (u, p) \<Rightarrow> (u, Some p) | None \<Rightarrow> (auth, None))
                in case split_once (CHR ''/'') rest of
                     None \<Rightarrow> Err ''Missing database name in URL''
                   | Some (host_port, dbname) \<Rightarrow>
                       (let dbname = hd (split_on (CHR ''?'') dbname);
                            (host, port) =
                              (case split_once (CHR '':'') host_port of
                                 Some (h, p) \<Rightarrow> (h, parse_u16 p)
                               | None \<Rightarrow> (host_port, Some 5432))
                        in Ok \<lparr>pg_user = user, pg_password = password, pg_host = host, pg_port = port, pg_dbname = dbname,
                               pg_recycling = Fast, pg_pool = None, pg_keepalive = None\<rparr>))))"

subsection \<open>The global table of pools\<close>

record pool_world =
  pw_pools :: "(string \<times> nat) list"
  pw_configs :: "nat \<Rightarrow> pg_config option"
  pw_closed :: "nat list"
  pw_next :: nat

definition no_pools :: pool_world where
  "no_pools = \<lparr>pw_pools = [], pw_configs = (\<lambda>_. None), pw_closed = [], pw_next = 0\<rparr>"

definition full_config :: "pool_config \<Rightarrow> pg_config \<Rightarrow> pg_config" where
  "full_config config cfg =
     cfg\<lparr>pg_recycling := (if pc_test_before_acquire config then Verified else Fast),
         pg_pool := Some (pc_max_size config, pc_connect_timeout_secs config, pc_connect_timeout_secs config, 5),
         pg_keepalive := pc_keepalive_secs config\<rparr>"

text \<open>
  Initialization takes the lock twice: first to look, then, after the pool was created, to insert.
\<close>

definition init_check :: "string \<Rightarrow> pool_world \<Rightarrow> string + unit" where
  "init_check alias w =
     (if contains_key alias (pw_pools w)
      then Err (''Connection pool for alias '' @ [CHR 0x27] @ alias @ [CHR 0x27] @ '' already initialized'') else Ok ())"

definition init_create :: "(pg_config \<Rightarrow> string + unit) \<Rightarrow> pool_config \<Rightarrow> pool_world \<Rightarrow> (string + nat) \<times> pool_world" where
  "init_create create_ok config w =
     (case parse_url (pc_url config) of
        Err e \<Rightarrow> (Err e, w)
      | Ok cfg \<Rightarrow>
          (let cfg = full_config config cfg in
           case create_ok cfg of
             Err e \<Rightarrow> (Err (''Failed to create pool: '' @ e), w)
           | Ok u \<Rightarrow> (Ok (pw_next w), w\<lparr>pw_configs := (pw_configs w)(pw_next w := Some cfg), pw_next := Suc (pw_next w)\<rparr>)))"

definition init_insert :: "string \<Rightarrow> nat \<Rightarrow> pool_world \<Rightarrow> pool_world" where
  "init_insert alias pool w = w\<lparr>pw_pools := AList.update alias pool (pw_pools w)\<rparr>"

definition initialize_sync_with_alias ::
  "(pg_config \<Rightarrow> string + unit) \<Rightarrow> pool_config \<Rightarrow> string \<Rightarrow> pool_world \<Rightarrow> (string + unit) \<times> pool_world" where
  "initialize_sync_with_alias create_ok config alias w =
     (case init_check alias w of
        Err e \<Rightarrow> (Err e, w)
      | Ok u \<Rightarrow>
          (case init_create create_ok config w of
             (Err e, w') \<Rightarrow> (Err e, w')
           | (Ok pool, w') \<Rightarrow> (Ok (), init_insert alias pool w')))"

definition initialize_sync :: "(pg_config \<Rightarrow> string + unit) \<Rightarrow> pool_config \<Rightarrow> pool_world \<Rightarrow> (string + unit) \<times> pool_world" where
  "initialize_sync create_ok config w = initialize_sync_with_alias create_ok config ''default'' w"

definition get_pool_by_alias :: "string \<Rightarrow> pool_world \<Rightarrow> nat option" where
  "get_pool_by_alias alias w = map_of (pw_pools w) alias"

text \<open>The status of a pool is deadpool's.\<close>

definition pool_status_by_alias :: "(nat \<Rightarrow> nat \<times> nat \<times> nat) \<Rightarrow> string \<Rightarrow> pool_world \<Rightarrow> (nat \<times> nat \<times> nat) option" where
  "pool_status_by_alias status alias w = map_option status (get_pool_by_alias alias w)"

definition pool_status_repr :: "nat \<times> nat \<times> nat \<Rightarrow> string" where
  "pool_status_repr st =
     (case st of (n, available, limit) \<Rightarrow>
        ''PoolStatus(size='' @ show_nat n @ '', available='' @ show_nat available @ '', max_size='' @ show_nat limit @ '')'')"

definition close_alias :: "string \<Rightarrow> pool_world \<Rightarrow> pool_world" where
  "close_alias alias w =
     (case map_of (pw_pools w) alias of
        None \<Rightarrow> w
      | Some pool \<Rightarrow> w\<lparr>pw_pools := AList.delete alias (pw_pools w), pw_closed := pool # pw_closed w\<rparr>)"

definition close_all :: "pool_world \<Rightarrow> pool_world" where
  "close_all w = w\<lparr>pw_pools := [], pw_closed := map snd (pw_pools w) @ pw_closed w\<rparr>"

text \<open>
  The class \<open>ConnectionPool\<close> of Python, one call per method; the methods without an alias mean the alias
  \<open>default\<close>. \<open>status\<close> is deadpool's report on a pool.
\<close>

datatype pool_call =
  InitializePool pool_config | InitializeAlias pool_config string | StatusOf | StatusForAlias string
  | IsInitialized | IsInitializedAlias string | ClosePool | CloseAlias string | CloseAll

datatype pool_answer = PoolError string | PoolUnit | PoolStatus "(nat \<times> nat \<times> nat) option" | PoolBool bool

definition raise_or_unit :: "(string + unit) \<times> pool_world \<Rightarrow> pool_answer \<times> pool_world" where
  "raise_or_unit rw = (case rw of (Err e, w) \<Rightarrow> (PoolError e, w) | (Ok u, w) \<Rightarrow> (PoolUnit, w))"

fun connection_pool ::
  "(pg_config \<Rightarrow> string + unit) \<Rightarrow> (nat \<Rightarrow> nat \<times> nat \<times> nat) \<Rightarrow> pool_call \<Rightarrow> pool_world \<Rightarrow> pool_answer \<times> pool_world" where
  "connection_pool ok status (InitializePool config) w = raise_or_unit (initialize_sync ok config w)"
| "connection_pool ok status (InitializeAlias config alias) w = raise_or_unit (initialize_sync_with_alias ok config alias w)"
| "connection_pool ok status StatusOf w = (PoolStatus (pool_status_by_alias status ''default'' w), w)"
| "connection_pool ok status (StatusForAlias alias) w = (PoolStatus (pool_status_by_alias status alias w), w)"
| "connection_pool ok status IsInitialized w = (PoolBool (get_pool_by_alias ''default'' w \<noteq> None), w)"
| "connection_pool ok status (IsInitializedAlias alias) w = (PoolBool (get_pool_by_alias alias w \<noteq> None), w)"
| "connection_pool ok status ClosePool w = (PoolUnit, close_alias ''default'' w)"
| "connection_pool ok status (CloseAlias alias) w = (PoolUnit, close_alias alias w)"
| "connection_pool ok status CloseAll w = (PoolUnit, close_all w)"

definition pool_apply ::
  "(pg_config \<Rightarrow> string + unit) \<Rightarrow> (nat \<Rightarrow> nat \<times> nat \<times> nat) \<Rightarrow> pool_call \<Rightarrow> pool_world \<Rightarrow> pool_world" where
  "pool_apply ok status call w = snd (connection_pool ok status call w)"

subsection \<open>URLs\<close>

definition show_url :: "string \<Rightarrow> string \<Rightarrow> string \<Rightarrow> nat \<Rightarrow> string \<Rightarrow> string" where
  "show_url user password host port db =
     ''postgresql://'' @ user @ '':'' @ password @ ''@'' @ host @ '':'' @ show_nat port @ ''/'' @ db"

lemma parse_u16_show: "n < 2 ^ 16 \<Longrightarrow> parse_u16 (show_nat n) = Some n"
proof -
  assume n: "n < 2 ^ 16"
  obtain c cs where s: "show_nat n = c # cs" by (cases "show_nat n") auto
  have "48 \<le> (of_char c :: nat)" using show_nat_digits [of c n] s by simp
  then have "c \<noteq> CHR ''+''" by auto
  then have "strip_prefix (show_nat n) ''+'' = None" by (simp add: strip_prefix_def starts_with_def s)
  with n show_nat_digits [of _ n] show ?thesis by (simp add: parse_u16_def list_all_iff)
qed

lemma show_nat_no_slash: "CHR ''/'' \<notin> set (show_nat n)"
  using show_nat_digits [of "CHR ''/''" n] by auto

lemma hd_split_on: "c \<notin> set s \<Longrightarrow> hd (split_on c s) = s"
  by (induction s) (auto split: list.split)

text \<open>
  A PostgreSQL URL is read back part by part: for a user without \<open>:\<close> and \<open>@\<close>, a password without
  \<open>@\<close>, a host without \<open>:\<close> and \<open>/\<close>, a port and a database name without \<open>?\<close>, parsing the written URL
  gives exactly these parts.
\<close>

theorem parse_url_roundtrip:
  assumes "CHR '':'' \<notin> set user" "CHR ''@'' \<notin> set user" "CHR ''@'' \<notin> set password"
    and "CHR '':'' \<notin> set host" "CHR ''/'' \<notin> set host" "port < 2 ^ 16" "CHR ''?'' \<notin> set db"
  shows "parse_url (show_url user password host port db) =
     Ok \<lparr>pg_user = user, pg_password = Some password, pg_host = host, pg_port = Some port, pg_dbname = db,
         pg_recycling = Fast, pg_pool = None, pg_keepalive = None\<rparr>"
proof -
  let ?rest = "host @ '':'' @ show_nat port @ ''/'' @ db"
  have a: "split_once (CHR ''@'') (user @ '':'' @ password @ ''@'' @ ?rest) = Some (user @ '':'' @ password, ?rest)"
    using assms by (simp add: split_once_Some)
  have b: "split_once (CHR '':'') (user @ '':'' @ password) = Some (user, password)"
    using assms by (simp add: split_once_Some)
  have c: "split_once (CHR ''/'') ?rest = Some (host @ '':'' @ show_nat port, db)"
    using assms show_nat_no_slash [of port] by (simp add: split_once_Some)
  have d: "split_once (CHR '':'') (host @ '':'' @ show_nat port) = Some (host, show_nat port)"
    using assms by (simp add: split_once_Some)
  have p: "strip_prefix (show_url user password host port db) ''postgresql://'' = Some (user @ '':'' @ password @ ''@'' @ ?rest)"
    by (simp add: show_url_def strip_prefix_def starts_with_def)
  show ?thesis unfolding parse_url_def p option.case a b c d prod.case Let_def
    by (simp add: parse_u16_show [OF assms(6)] hd_split_on [OF assms(7)])
qed

theorem parse_url_roundtrip_witness:
  "parse_url (show_url ''app'' ''p:w/1'' ''db.local'' 6432 ''main'') =
     Ok \<lparr>pg_user = ''app'', pg_password = Some ''p:w/1'', pg_host = ''db.local'', pg_port = Some 6432, pg_dbname = ''main'',
         pg_recycling = Fast, pg_pool = None, pg_keepalive = None\<rparr>"
  by (rule parse_url_roundtrip) simp_all

text \<open>
  A password with an \<open>@\<close> is cut there, and what follows becomes the host; a port that is no number is
  forgotten without an error, so the driver's default is used.
\<close>

lemma at_sign_in_password:
  "map_sum (\<lambda>e. e) (\<lambda>c. (pg_password c, pg_host c)) (parse_url ''postgres://u:p@ss@host/db'') = Ok (Some ''p'', ''ss@host'')"
  by (simp add: parse_url_def strip_prefix_def starts_with_def)

lemma bad_port_forgotten: "map_sum (\<lambda>e. e) pg_port (parse_url ''postgres://u:p@host:99999/db'') = Ok None"
  by (simp add: parse_url_def strip_prefix_def starts_with_def parse_u16_def read_dec_def)

text \<open>The idle and lifetime limits of a configuration have no effect on the pool.\<close>

lemma limits_unused:
  "full_config (config\<lparr>pc_min_idle := a, pc_idle_timeout_secs := b, pc_max_lifetime_secs := c\<rparr>) cfg = full_config config cfg"
  by (simp add: full_config_def)

subsection \<open>No pool is forgotten\<close>

text \<open>Every pool ever created is in the table under one alias and open, or closed.\<close>

definition pools_inv :: "pool_world \<Rightarrow> bool" where
  "pools_inv w \<longleftrightarrow>
     wf_map (pw_pools w) \<and> distinct (map snd (pw_pools w)) \<and> snd ` set (pw_pools w) \<inter> set (pw_closed w) = {} \<and>
     snd ` set (pw_pools w) \<union> set (pw_closed w) = {..<pw_next w}"

lemma snd_delete: "wf_map m \<Longrightarrow> distinct (map snd m) \<Longrightarrow> map_of m k = Some v \<Longrightarrow> snd ` set (AList.delete k m) = snd ` set m - {v}"
proof -
  assume w: "wf_map m" and d: "distinct (map snd m)" and k: "map_of m k = Some v"
  from k have kv: "(k, v) \<in> set m" by (rule map_of_SomeD)
  have "set (AList.delete k m) = {p \<in> set m. fst p \<noteq> k}" by (auto simp: AList.delete_eq)
  moreover have "fst p \<noteq> k \<longleftrightarrow> snd p \<noteq> v" if "p \<in> set m" for p
  proof -
    have "inj_on fst (set m)" "inj_on snd (set m)" using w d by (auto simp: wf_map_def distinct_map)
    with that kv show ?thesis by (metis fst_conv inj_onD snd_conv)
  qed
  ultimately show ?thesis by auto
qed

lemma init_inv: "pools_inv w \<Longrightarrow> pools_inv (snd (initialize_sync_with_alias ok cfg alias w))"
proof (cases "init_check alias w")
  case (Inr u)
  assume inv: "pools_inv w"
  obtain r w' where c: "init_create ok cfg w = (r, w')" by force
  show ?thesis
  proof (cases r)
    case (Inl e)
    with c have "w' = w" by (auto simp: init_create_def Let_def split: sum.splits)
    with Inl c Inr inv show ?thesis by (simp add: initialize_sync_with_alias_def)
  next
    case r: (Inr pool)
    with c have w': "pool = pw_next w" "pw_pools w' = pw_pools w" "pw_closed w' = pw_closed w" "pw_next w' = Suc (pw_next w)"
      by (auto simp: init_create_def Let_def split: sum.splits)
    from Inr have "alias \<notin> fst ` set (pw_pools w)"
      by (auto simp: init_check_def contains_key_iff keys_def split: if_splits)
    then have u: "AList.update alias pool (pw_pools w) = pw_pools w @ [(alias, pool)]" by (rule update_new)
    from inv have "pool \<notin> snd ` set (pw_pools w)" "pool \<notin> set (pw_closed w)" by (auto simp: pools_inv_def w'(1))
    with inv u w' \<open>alias \<notin> fst ` set (pw_pools w)\<close> have "pools_inv (init_insert alias pool w')"
      by (auto simp: pools_inv_def init_insert_def wf_map_def lessThan_Suc)
    with Inr r c show ?thesis by (simp add: initialize_sync_with_alias_def)
  qed
qed (simp add: initialize_sync_with_alias_def)

lemma close_alias_inv: "pools_inv w \<Longrightarrow> pools_inv (close_alias alias w)"
proof (cases "map_of (pw_pools w) alias")
  case (Some pool)
  assume inv: "pools_inv w"
  then have w: "wf_map (pw_pools w)" "distinct (map snd (pw_pools w))" by (simp_all add: pools_inv_def)
  have "pool \<in> snd ` set (pw_pools w)" using map_of_SomeD [OF Some] by force
  moreover have "distinct (map snd (AList.delete alias (pw_pools w)))" using w(2) by (simp add: AList.delete_eq distinct_map_filter)
  ultimately show ?thesis using inv snd_delete [OF w Some]
    by (auto simp: pools_inv_def close_alias_def Some wf_map_def distinct_delete)
qed (simp add: close_alias_def)

lemma close_all_inv: "pools_inv w \<Longrightarrow> pools_inv (close_all w)"
  by (auto simp: pools_inv_def close_all_def wf_map_def)

lemma raise_or_unit_world [simp]: "snd (raise_or_unit rw) = snd rw"
  by (auto simp: raise_or_unit_def split: prod.split sum.split)

interpretation pools: machine "pool_apply ok status" pools_inv for ok status
proof
  show "pools_inv w \<Longrightarrow> pools_inv (pool_apply ok status call w)" for w call
    by (cases call) (simp_all add: pool_apply_def initialize_sync_def init_inv close_alias_inv close_all_inv)
qed

text \<open>
  No pool is forgotten: after any sequence of calls of the class \<open>ConnectionPool\<close>, every pool ever created
  is either open and registered under exactly one alias, or closed; and asking for an alias tells the truth
  about it.
\<close>

theorem pools_accounted:
  "let w = fold (pool_apply ok status) calls no_pools
   in pools_inv w \<and>
      (case connection_pool ok status (IsInitializedAlias alias) w of
         (PoolBool b, w') \<Rightarrow> w' = w \<and> b = (\<exists>p. p < pw_next w \<and> p \<notin> set (pw_closed w) \<and> (alias, p) \<in> set (pw_pools w))
       | _ \<Rightarrow> False)"
proof -
  let ?w = "fold (pool_apply ok status) calls no_pools"
  have inv: "pools_inv ?w" by (rule pools.inv_run) (simp add: pools_inv_def no_pools_def wf_map_def)
  have "get_pool_by_alias alias ?w \<noteq> None \<longleftrightarrow> (\<exists>p. (alias, p) \<in> set (pw_pools ?w))"
    by (auto simp: get_pool_by_alias_def map_of_eq_None_iff image_iff dest: map_of_SomeD) force
  moreover have "p < pw_next ?w \<and> p \<notin> set (pw_closed ?w)" if "(alias, p) \<in> set (pw_pools ?w)" for p
    using that inv by (force simp: pools_inv_def)
  ultimately show ?thesis using inv by (auto simp: Let_def)
qed

text \<open>
  Two threads that initialize the same alias can both pass the check before either inserts; then the
  first thread's pool is neither registered nor closed.
\<close>

lemma init_race_leaks:
  assumes "init_check alias w = Ok ()" "pools_inv w"
    and "init_create ok cfg w = (Ok p, w1)" "init_create ok cfg w1 = (Ok q, w2)"
  shows "let w3 = init_insert alias q (init_insert alias p w2)
         in init_check alias w2 = Ok () \<and> p < pw_next w3 \<and> p \<notin> snd ` set (pw_pools w3) \<and> p \<notin> set (pw_closed w3)"
proof -
  from assms(3,4) have pq: "p = pw_next w" "q = Suc (pw_next w)" "pw_pools w2 = pw_pools w" "pw_closed w2 = pw_closed w"
      "pw_next w2 = Suc (Suc (pw_next w))"
    by (auto simp: init_create_def Let_def split: sum.splits)
  have new: "alias \<notin> fst ` set (pw_pools w)"
    using assms(1) by (auto simp: init_check_def contains_key_iff keys_def split: if_splits)
  have "AList.update alias q (AList.update alias p (pw_pools w)) = pw_pools w @ [(alias, q)]"
    using new by (simp add: update_new update_last)
  with assms(1,2) pq show ?thesis
    by (auto simp: Let_def init_insert_def init_check_def pools_inv_def)
qed

end
