(* ===== verification/Memory_Pool.thy ===== *)
theory Memory_Pool
  imports Machines
begin

text \<open>
  Object pools (\<open>src/memory/pool.rs\<close>): a stack of objects for reuse with a limit, and the buffer pools
  for requests and responses built on it. A buffer is its content; capacities are not observable.
\<close>

record 'x object_pool =
  op_pool :: "'x list"
  op_max_size :: nat
  op_create :: "unit \<Rightarrow> 'x"

definition object_pool_new :: "nat \<Rightarrow> (unit \<Rightarrow> 'x) \<Rightarrow> 'x object_pool" where
  "object_pool_new max_size create_fn = \<lparr>op_pool = [], op_max_size = max_size, op_create = create_fn\<rparr>"

text \<open>The vector is a list whose last element is on top.\<close>

definition pool_get :: "'x object_pool \<Rightarrow> 'x \<times> 'x object_pool" where
  "pool_get p =
     (if op_pool p = [] then (op_create p (), p) else (last (op_pool p), p\<lparr>op_pool := butlast (op_pool p)\<rparr>))"

definition pool_put :: "'x \<Rightarrow> 'x object_pool \<Rightarrow> 'x object_pool" where
  "pool_put ob p = (if length (op_pool p) < op_max_size p then p\<lparr>op_pool := op_pool p @ [ob]\<rparr> else p)"

definition pool_size :: "'x object_pool \<Rightarrow> nat" where
  "pool_size p = length (op_pool p)"

text \<open>The subtraction of 64-bit numbers wraps around when the pool is over its limit.\<close>

definition pool_warm :: "nat \<Rightarrow> 'x object_pool \<Rightarrow> 'x object_pool" where
  "pool_warm count p =
     (let room = (op_max_size p + 2 ^ 64 - length (op_pool p)) mod 2 ^ 64
      in p\<lparr>op_pool := op_pool p @ replicate (min count room) (op_create p ())\<rparr>)"

subsection \<open>Buffers\<close>

definition request_pool_new :: "nat \<Rightarrow> string object_pool" where
  "request_pool_new max_size = object_pool_new max_size (\<lambda>_. [])"

definition get_buffer :: "'c list object_pool \<Rightarrow> 'c list \<times> 'c list object_pool" where
  "get_buffer p = (let (buf, p') = pool_get p in ([], p'))"

definition return_buffer :: "'c list \<Rightarrow> 'c list object_pool \<Rightarrow> 'c list object_pool" where
  "return_buffer buf p = pool_put buf p"

record response_pool =
  rp_buffers :: "string object_pool"
  rp_header_buffers :: "(string \<times> string) list object_pool"

definition response_pool_new :: "nat \<Rightarrow> response_pool" where
  "response_pool_new max_size =
     \<lparr>rp_buffers = object_pool_new max_size (\<lambda>_. []), rp_header_buffers = object_pool_new max_size (\<lambda>_. [])\<rparr>"

definition get_body_buffer :: "response_pool \<Rightarrow> string \<times> response_pool" where
  "get_body_buffer rp = (let (buf, p) = pool_get (rp_buffers rp) in ([], rp\<lparr>rp_buffers := p\<rparr>))"

definition return_body_buffer :: "string \<Rightarrow> response_pool \<Rightarrow> response_pool" where
  "return_body_buffer buf rp = rp\<lparr>rp_buffers := pool_put buf (rp_buffers rp)\<rparr>"

definition get_header_buffer :: "response_pool \<Rightarrow> (string \<times> string) list \<times> response_pool" where
  "get_header_buffer rp = (let (buf, p) = pool_get (rp_header_buffers rp) in ([], rp\<lparr>rp_header_buffers := p\<rparr>))"

definition return_header_buffer :: "(string \<times> string) list \<Rightarrow> response_pool \<Rightarrow> response_pool" where
  "return_header_buffer buf rp = rp\<lparr>rp_header_buffers := pool_put buf (rp_header_buffers rp)\<rparr>"

subsection \<open>The pools of the process\<close>

text \<open>\<open>src/core/global.rs\<close>: both pools are created at first use, or at start-up with given sizes, and then stay.\<close>

record global_pools =
  gp_request :: "string object_pool option"
  gp_response :: "response_pool option"

definition warm_response :: "nat \<Rightarrow> response_pool \<Rightarrow> response_pool" where
  "warm_response n rp =
     rp\<lparr>rp_buffers := pool_warm n (rp_buffers rp), rp_header_buffers := pool_warm n (rp_header_buffers rp)\<rparr>"

definition get_request_pool :: "global_pools \<Rightarrow> string object_pool \<times> global_pools" where
  "get_request_pool g =
     (case gp_request g of
        Some p \<Rightarrow> (p, g)
      | None \<Rightarrow> (let p = pool_warm 256 (request_pool_new 2048) in (p, g\<lparr>gp_request := Some p\<rparr>)))"

definition get_response_pool :: "global_pools \<Rightarrow> response_pool \<times> global_pools" where
  "get_response_pool g =
     (case gp_response g of
        Some p \<Rightarrow> (p, g)
      | None \<Rightarrow> (let p = warm_response 256 (response_pool_new 2048) in (p, g\<lparr>gp_response := Some p\<rparr>)))"

definition init_memory_pools :: "nat \<Rightarrow> nat \<Rightarrow> global_pools \<Rightarrow> global_pools" where
  "init_memory_pools request_pool_size response_pool_size g =
     (let g = (if gp_request g = None
               then g\<lparr>gp_request := Some (pool_warm (request_pool_size div 4) (request_pool_new request_pool_size))\<rparr> else g)
      in if gp_response g = None
         then g\<lparr>gp_response := Some (warm_response (response_pool_size div 4) (response_pool_new response_pool_size))\<rparr> else g)"

text \<open>Sizes given after the first use have no effect.\<close>

lemma init_after_use: "init_memory_pools a b (snd (get_response_pool (snd (get_request_pool g)))) = snd (get_response_pool (snd (get_request_pool g)))"
  by (auto simp: init_memory_pools_def get_request_pool_def get_response_pool_def Let_def split: option.splits)

subsection \<open>The pool is a bounded stack\<close>

datatype 'x pool_call = Get | Put 'x | Warm nat

fun pool_step :: "'x pool_call \<Rightarrow> 'x object_pool \<Rightarrow> 'x object_pool" where
  "pool_step Get p = snd (pool_get p)"
| "pool_step (Put ob) p = pool_put ob p"
| "pool_step (Warm n) p = pool_warm n p"

definition pool_ok :: "nat \<Rightarrow> 'x object_pool \<Rightarrow> bool" where
  "pool_ok cap p = (op_max_size p = cap \<and> length (op_pool p) \<le> cap)"

lemma pool_warm_room:
  "length (op_pool p) \<le> op_max_size p \<Longrightarrow> op_max_size p < 2 ^ 64 \<Longrightarrow>
   pool_warm n p = p\<lparr>op_pool := op_pool p @ replicate (min n (op_max_size p - length (op_pool p))) (op_create p ())\<rparr>"
  by (simp add: pool_warm_def mod_if Let_def)

lemma pool_step_ok: "cap < 2 ^ 64 \<Longrightarrow> pool_ok cap p \<Longrightarrow> pool_ok cap (pool_step c p)"
proof (cases c)
  case (Warm n)
  assume "cap < 2 ^ 64" "pool_ok cap p"
  with Warm show ?thesis by (auto simp: pool_ok_def pool_warm_room min_def)
qed (auto simp: pool_ok_def pool_get_def pool_put_def)

interpretation object_pools: machine pool_step "\<lambda>p. cap < 2 ^ 64 \<and> pool_ok cap p" for cap
  by unfold_locales (blast intro: pool_step_ok)

text \<open>
  A pool never keeps more objects than its limit, whatever is taken, returned or warmed up, and
  what was returned last is taken first: below the limit, \<open>get\<close> after \<open>put\<close> gives the object back and
  restores the pool.
\<close>

theorem object_pool_bounded_stack:
  assumes "cap < 2 ^ 64"
  shows "pool_size (fold pool_step cs (object_pool_new cap create_fn)) \<le> cap \<and>
         (if pool_size p < op_max_size p then pool_get (pool_put ob p) = (ob, p) else pool_put ob p = p)"
proof
  have "pool_ok cap (fold pool_step cs (object_pool_new cap create_fn))"
    using object_pools.inv_run [of cap "object_pool_new cap create_fn" cs] assms by (simp add: pool_ok_def object_pool_new_def)
  then show "pool_size (fold pool_step cs (object_pool_new cap create_fn)) \<le> cap"
    by (simp add: pool_ok_def pool_size_def)
  show "if pool_size p < op_max_size p then pool_get (pool_put ob p) = (ob, p) else pool_put ob p = p"
    by (simp add: pool_get_def pool_put_def pool_size_def)
qed

theorem object_pool_bounded_stack_witness:
  "pool_size (fold pool_step [Put (7 :: nat), Warm 9, Get] (object_pool_new 4 (\<lambda>_. 0))) \<le> 4 \<and>
   pool_get (pool_put (7 :: nat) (object_pool_new 4 (\<lambda>_. 0))) = (7, object_pool_new 4 (\<lambda>_. 0))"
  using object_pool_bounded_stack [of 4 "[Put (7 :: nat), Warm 9, Get]" "\<lambda>_. 0" "object_pool_new 4 (\<lambda>_. 0)" 7]
  by (simp add: pool_size_def object_pool_new_def)

text \<open>A buffer taken from a pool is empty, whatever was returned in it.\<close>

lemma buffers_empty:
  "fst (get_buffer p) = []" "fst (get_body_buffer rp) = []" "fst (get_header_buffer rp) = []"
  by (simp_all add: get_buffer_def get_body_buffer_def get_header_buffer_def split: prod.split)

subsection \<open>The arena of a thread\<close>

text \<open>
  The bump arena (\<open>src/memory/arena.rs\<close>) behind the counters is the crate's; the counters are
  64-bit numbers.
\<close>

record arena =
  ar_allocation_count :: u64
  ar_bytes_allocated :: u64

definition arena_new :: arena where
  "arena_new = \<lparr>ar_allocation_count = 0, ar_bytes_allocated = 0\<rparr>"

text \<open>\<open>alloc_bytes\<close> returns a slice of default bytes, \<open>alloc_str\<close> a copy of the text.\<close>

definition alloc_bytes :: "nat \<Rightarrow> arena \<Rightarrow> string \<times> arena" where
  "alloc_bytes n a =
     (replicate n (CHR 0x00),
      a\<lparr>ar_allocation_count := ar_allocation_count a + 1, ar_bytes_allocated := ar_bytes_allocated a + of_nat n\<rparr>)"

definition alloc_str :: "string \<Rightarrow> arena \<Rightarrow> string \<times> arena" where
  "alloc_str s a =
     (s, a\<lparr>ar_allocation_count := ar_allocation_count a + 1, ar_bytes_allocated := ar_bytes_allocated a + of_nat (length s)\<rparr>)"

definition arena_reset :: "arena \<Rightarrow> arena" where
  "arena_reset a = a\<lparr>ar_allocation_count := 0, ar_bytes_allocated := 0\<rparr>"

text \<open>Between two resets the counters are the number and the total length of the allocations, modulo \<open>2^64\<close>.\<close>

lemma arena_counts:
  "let a = fold (\<lambda>s. snd \<circ> alloc_str s) ss (arena_reset a0)
   in ar_allocation_count a = of_nat (length ss) \<and> ar_bytes_allocated a = of_nat (sum_list (map length ss))"
proof -
  have "ar_allocation_count (fold (\<lambda>s. snd \<circ> alloc_str s) ss a) = ar_allocation_count a + of_nat (length ss) \<and>
    ar_bytes_allocated (fold (\<lambda>s. snd \<circ> alloc_str s) ss a) = ar_bytes_allocated a + of_nat (sum_list (map length ss))" for a
    by (induction ss arbitrary: a) (auto simp: alloc_str_def)
  then show ?thesis by (simp add: Let_def arena_reset_def)
qed

end
