(* ===== verification/Http_Client.thy ===== *)
theory Http_Client
  imports Utf8
begin

text \<open>
  The HTTP client (\<open>src/client/mod.rs\<close>): URLs relative to a base, requests with headers, query and
  body, and responses. The exchange itself is reqwest's, a parameter that turns a request into an
  error or a status, the received headers in order and the body (whose reading may fail).
\<close>

record client_response =
  cr_status :: nat
  cr_headers :: params
  cr_body :: string

definition cr_text :: "client_response \<Rightarrow> string + string" where
  "cr_text r = (if utf8_valid (cr_body r) then Ok (cr_body r) else Err ''invalid utf-8'')"

text \<open>\<open>loads\<close> is Python's \<open>json.loads\<close>.\<close>

definition cr_json :: "(string \<Rightarrow> string + 'p) \<Rightarrow> client_response \<Rightarrow> string + 'p" where
  "cr_json loads r = (case cr_text r of Err e \<Rightarrow> Err e | Ok t \<Rightarrow> loads t)"

definition cr_repr :: "client_response \<Rightarrow> string" where
  "cr_repr r = ''<ClientResponse status='' @ show_nat (cr_status r) @ ''>''"

record client_request =
  cq_method :: string
  cq_url :: string
  cq_headers :: "(string \<times> string) list"
  cq_query :: "params option"
  cq_body :: "string option"

definition build_url :: "string option \<Rightarrow> string \<Rightarrow> string" where
  "build_url base_url url =
     (case base_url of
        Some base \<Rightarrow>
          (let base = trim_end_by (\<lambda>c. c = CHR ''/'') base in
           if starts_with url ''/'' then base @ url else base @ ''/'' @ url)
      | None \<Rightarrow> url)"

definition add_headers :: "params option \<Rightarrow> client_request \<Rightarrow> client_request" where
  "add_headers headers req =
     (case headers of Some h \<Rightarrow> fold (\<lambda>(k, v) r. r\<lparr>cq_headers := cq_headers r @ [(k, v)]\<rparr>) h req | None \<Rightarrow> req)"

definition add_body :: "string option \<Rightarrow> string option \<Rightarrow> client_request \<Rightarrow> client_request" where
  "add_body json body req =
     (case json of
        Some j \<Rightarrow> req\<lparr>cq_headers := cq_headers req @ [(''content-type'', ''application/json'')], cq_body := Some j\<rparr>
      | None \<Rightarrow> (case body of Some b \<Rightarrow> req\<lparr>cq_body := Some b\<rparr> | None \<Rightarrow> req))"

definition new_request :: "string option \<Rightarrow> string \<Rightarrow> string \<Rightarrow> client_request" where
  "new_request base_url meth url =
     \<lparr>cq_method = meth, cq_url = build_url base_url url, cq_headers = [], cq_query = None, cq_body = None\<rparr>"

text \<open>A received header whose value is not text is skipped; of several with one name the last stays.\<close>

record received_response =
  rr_status :: nat
  rr_headers :: "(string \<times> string option) list"
  rr_body :: "string + string"

definition header_table :: "(string \<times> string option) list \<Rightarrow> params" where
  "header_table hs = fold (\<lambda>(k, v) m. case v of Some val \<Rightarrow> AList.update k val m | None \<Rightarrow> m) hs []"

definition send_request :: "(client_request \<Rightarrow> string + received_response) \<Rightarrow> client_request \<Rightarrow> string + client_response" where
  "send_request exchange req =
     (case exchange req of
        Err e \<Rightarrow> Err e
      | Ok resp \<Rightarrow>
          (case rr_body resp of
             Err e \<Rightarrow> Err e
           | Ok body \<Rightarrow> Ok \<lparr>cr_status = rr_status resp, cr_headers = header_table (rr_headers resp), cr_body = body\<rparr>))"

definition client_get ::
  "(client_request \<Rightarrow> string + received_response) \<Rightarrow> string option \<Rightarrow> string \<Rightarrow> params option \<Rightarrow> params option \<Rightarrow>
   string + client_response" where
  "client_get exchange base_url url headers params =
     (let req = add_headers headers (new_request base_url ''GET'' url);
          req = (case params of Some p \<Rightarrow> req\<lparr>cq_query := Some p\<rparr> | None \<Rightarrow> req)
      in send_request exchange req)"

definition client_post ::
  "(client_request \<Rightarrow> string + received_response) \<Rightarrow> string option \<Rightarrow> string \<Rightarrow> params option \<Rightarrow> string option \<Rightarrow> string option \<Rightarrow>
   string + client_response" where
  "client_post exchange base_url url headers json body =
     send_request exchange (add_body json body (add_headers headers (new_request base_url ''POST'' url)))"

definition client_put ::
  "(client_request \<Rightarrow> string + received_response) \<Rightarrow> string option \<Rightarrow> string \<Rightarrow> params option \<Rightarrow> string option \<Rightarrow> string option \<Rightarrow>
   string + client_response" where
  "client_put exchange base_url url headers json body =
     send_request exchange (add_body json body (add_headers headers (new_request base_url ''PUT'' url)))"

definition client_patch ::
  "(client_request \<Rightarrow> string + received_response) \<Rightarrow> string option \<Rightarrow> string \<Rightarrow> params option \<Rightarrow> string option \<Rightarrow> string option \<Rightarrow>
   string + client_response" where
  "client_patch exchange base_url url headers json body =
     send_request exchange (add_body json body (add_headers headers (new_request base_url ''PATCH'' url)))"

definition client_delete ::
  "(client_request \<Rightarrow> string + received_response) \<Rightarrow> string option \<Rightarrow> string \<Rightarrow> params option \<Rightarrow> string + client_response" where
  "client_delete exchange base_url url headers =
     send_request exchange (add_headers headers (new_request base_url ''DELETE'' url))"

subsection \<open>URLs relative to a base\<close>

text \<open>
  Slashes between the base URL and the path do not matter: with or without slashes at the end of
  the base and with or without one before the path, the request goes to the base, one slash and the
  path; without a base the URL is used as it is.
\<close>

theorem build_url_slashes:
  assumes "\<not> starts_with path ''/''" "base = [] \<or> last base \<noteq> CHR ''/''"
  shows "build_url (Some (base @ replicate n (CHR ''/''))) path = base @ ''/'' @ path \<and>
         build_url (Some (base @ replicate n (CHR ''/''))) (''/'' @ path) = base @ ''/'' @ path \<and>
         build_url None path = path"
proof -
  have "trim_end_by (\<lambda>c. c = CHR ''/'') (base @ replicate n (CHR ''/'')) = base"
    using assms(2) by (induction n) (auto simp: trim_end_by_def dropWhile_append simp flip: replicate_append_same
        intro: trim_end_by_id [unfolded trim_end_by_def])
  with assms(1) show ?thesis by (simp add: build_url_def starts_with_def)
qed

theorem build_url_slashes_witness:
  "build_url (Some (''http://x/api'' @ replicate 2 (CHR ''/''))) ''users'' = ''http://x/api/users''"
  using build_url_slashes [of "''users''" "''http://x/api''" 2] by (simp add: starts_with_def)

text \<open>Of several cookies the server sets, the response keeps one.\<close>

lemma cookies_lost:
  "header_table [(''set-cookie'', Some ''a=1''), (''set-cookie'', Some ''b=2'')] = [(''set-cookie'', ''b=2'')]"
  by (simp add: header_table_def)

lemma header_table_wf: "wf_map (header_table hs)"
proof -
  have "wf_map (fold (\<lambda>(k, v) m. case v of Some val \<Rightarrow> AList.update k val m | None \<Rightarrow> m) hs m)" if "wf_map m"
    for m :: params using that by (induction hs arbitrary: m) (auto simp: kept split: option.split)
  then show ?thesis by (simp add: header_table_def wf_map_def)
qed

text \<open>With a JSON body a content type given by the caller stays too, so the request has both.\<close>

lemma two_content_types:
  "cq_headers (add_body (Some j) None (add_headers (Some [(''content-type'', ''application/ld+json'')]) (new_request b ''POST'' u)))
   = [(''content-type'', ''application/ld+json''), (''content-type'', ''application/json'')]"
  by (simp add: add_body_def add_headers_def new_request_def)

end
