(* ===== verification/Redis_Client.thy ===== *)
theory Redis_Client
  imports Prelude
begin

text \<open>
  The Redis client (\<open>src/redis/mod.rs\<close>): every command takes a connection from the pool and runs on
  it. The pool and the commands of the \<open>redis\<close> crate are parameters over the state \<open>'w\<close> of pool and
  server; \<open>'c\<close> is a connection.
\<close>

record ('c, 'w) redis_lib =
  rd_pool_get :: "'w \<Rightarrow> (string + 'c) \<times> 'w"
  rd_get :: "string \<Rightarrow> 'c \<Rightarrow> 'w \<Rightarrow> (string + string option) \<times> 'w"
  rd_set :: "string \<Rightarrow> string \<Rightarrow> 'c \<Rightarrow> 'w \<Rightarrow> (string + unit) \<times> 'w"
  rd_set_ex :: "string \<Rightarrow> string \<Rightarrow> nat \<Rightarrow> 'c \<Rightarrow> 'w \<Rightarrow> (string + unit) \<times> 'w"
  rd_del :: "string \<Rightarrow> 'c \<Rightarrow> 'w \<Rightarrow> (string + nat) \<times> 'w"
  rd_expire :: "string \<Rightarrow> int \<Rightarrow> 'c \<Rightarrow> 'w \<Rightarrow> (string + bool) \<times> 'w"
  rd_incr :: "string \<Rightarrow> int \<Rightarrow> 'c \<Rightarrow> 'w \<Rightarrow> (string + int) \<times> 'w"
  rd_publish :: "string \<Rightarrow> string \<Rightarrow> 'c \<Rightarrow> 'w \<Rightarrow> (string + nat) \<times> 'w"
  rd_ping :: "'c \<Rightarrow> 'w \<Rightarrow> (string + string) \<times> 'w"

definition with_connection :: "('c, 'w) redis_lib \<Rightarrow> ('c \<Rightarrow> 'w \<Rightarrow> (string + 'a) \<times> 'w) \<Rightarrow> 'w \<Rightarrow> (string + 'a) \<times> 'w" where
  "with_connection lib cmd w =
     (case rd_pool_get lib w of (Err e, w') \<Rightarrow> (Err e, w') | (Ok c, w') \<Rightarrow> cmd c w')"

definition redis_get :: "('c, 'w) redis_lib \<Rightarrow> string \<Rightarrow> 'w \<Rightarrow> (string + string option) \<times> 'w" where
  "redis_get lib key w = with_connection lib (rd_get lib key) w"

definition redis_set :: "('c, 'w) redis_lib \<Rightarrow> string \<Rightarrow> string \<Rightarrow> nat option \<Rightarrow> 'w \<Rightarrow> (string + unit) \<times> 'w" where
  "redis_set lib key v ex w =
     with_connection lib (case ex of Some seconds \<Rightarrow> rd_set_ex lib key v seconds | None \<Rightarrow> rd_set lib key v) w"

definition redis_delete :: "('c, 'w) redis_lib \<Rightarrow> string \<Rightarrow> 'w \<Rightarrow> (string + nat) \<times> 'w" where
  "redis_delete lib key w = with_connection lib (rd_del lib key) w"

text \<open>The seconds are an unsigned number that is cast to a signed one.\<close>

definition redis_expire :: "('c, 'w) redis_lib \<Rightarrow> string \<Rightarrow> u64 \<Rightarrow> 'w \<Rightarrow> (string + bool) \<times> 'w" where
  "redis_expire lib key seconds w = with_connection lib (rd_expire lib key (sint seconds)) w"

definition redis_incr :: "('c, 'w) redis_lib \<Rightarrow> string \<Rightarrow> 'w \<Rightarrow> (string + int) \<times> 'w" where
  "redis_incr lib key w = with_connection lib (rd_incr lib key 1) w"

definition redis_publish :: "('c, 'w) redis_lib \<Rightarrow> string \<Rightarrow> string \<Rightarrow> 'w \<Rightarrow> (string + nat) \<times> 'w" where
  "redis_publish lib channel msg w = with_connection lib (rd_publish lib channel msg) w"

definition redis_ping :: "('c, 'w) redis_lib \<Rightarrow> 'w \<Rightarrow> (string + bool) \<times> 'w" where
  "redis_ping lib w =
     (case with_connection lib (rd_ping lib) w of (Err e, w') \<Rightarrow> (Err e, w') | (Ok reply, w') \<Rightarrow> (Ok True, w'))"

text \<open>
  \<open>ping\<close> is documented as a check whether the server is reachable, but it never answers \<open>False\<close>: an
  unreachable server is an exception.
\<close>

lemma ping_never_false: "fst (redis_ping lib w) \<noteq> Ok False"
  by (simp add: redis_ping_def split: sum.split prod.split)

text \<open>An expiry of \<open>2 ^ 63\<close> seconds or more is passed on as a negative number, which deletes the key at once.\<close>

lemma huge_expiry_is_negative:
  "redis_expire lib key (of_nat (2 ^ 63)) w = with_connection lib (rd_expire lib key (- (2 ^ 63))) w"
  by (simp add: redis_expire_def)

end
