(* ===== verification/Blocking_Runner.thy ===== *)
theory Blocking_Runner
  imports Machines "HOL-Library.Multiset"
begin

text \<open>
  The runner of blocking Python tasks (\<open>src/core/blocking.rs\<close>): an unbounded queue served by threads.
  All threads up to the limit are started by \<open>new\<close>; \<open>run\<close> may start more, which leave when idle.
  Threads interleave freely, so the runner is a step relation; times are microseconds since the
  runner's birth. Every handler of a worker runs as such a task, and a handler may never return, so
  the relation is relative to the tasks that return. The release profile aborts the process on a
  panic, so a task that panics has no next state.
\<close>

text \<open>
  \<open>br_threads\<close> is the counter the code reads. The rest is what the threads really are: permanent
  workers, additional workers with an idle timeout, and threads that were spawned and have not counted
  themselves yet; \<open>br_running\<close> are the tasks threads are executing. \<open>br_submitted\<close>, \<open>br_started\<close> and
  \<open>br_finished\<close> record the tasks in order.
\<close>

record 't runner =
  br_queue :: "'t list"
  br_threads :: nat
  br_tmax :: nat
  br_idle_timeout :: nat
  br_spawning :: bool
  br_spawn_tick :: nat
  br_workers :: nat
  br_idlers :: nat
  br_starting :: nat
  br_running :: "'t list"
  br_submitted :: "'t list"
  br_started :: "'t list"
  br_finished :: "'t list"

definition runner_new :: "nat \<Rightarrow> nat \<Rightarrow> 't runner" where
  "runner_new max_threads idle_timeout =
     \<lparr>br_queue = [], br_threads = max_threads, br_tmax = max_threads, br_idle_timeout = idle_timeout,
      br_spawning = False, br_spawn_tick = 0, br_workers = max_threads, br_idlers = 0, br_starting = 0,
      br_running = [], br_submitted = [], br_started = [], br_finished = []\<rparr>"

text \<open>\<open>tick\<close> and \<open>tick'\<close> are the two readings of the clock; the difference is of 64-bit numbers.\<close>

definition spawn_thread :: "nat \<Rightarrow> nat \<Rightarrow> 't runner \<Rightarrow> 't runner" where
  "spawn_thread tick tick' s =
     (if (tick + 2 ^ 64 - br_spawn_tick s) mod 2 ^ 64 < 100 then s
      else if br_spawning s then s
      else s\<lparr>br_starting := Suc (br_starting s), br_spawn_tick := tick', br_spawning := False\<rparr>)"

definition run_task :: "'t \<Rightarrow> nat \<Rightarrow> nat \<Rightarrow> 't runner \<Rightarrow> 't runner" where
  "run_task task tick tick' s =
     (let s = s\<lparr>br_queue := br_queue s @ [task], br_submitted := br_submitted s @ [task]\<rparr> in
      if length (br_queue s) > 2 \<and> br_threads s < br_tmax s then spawn_thread tick tick' s else s)"

text \<open>A free thread takes the first task; a thread whose task returns is free again.\<close>

definition free_thread :: "'t runner \<Rightarrow> bool" where
  "free_thread s = (length (br_running s) < br_workers s + br_idlers s)"

definition take_task :: "'t runner \<Rightarrow> 't runner" where
  "take_task s =
     s\<lparr>br_queue := tl (br_queue s), br_running := br_running s @ [hd (br_queue s)], br_started := br_started s @ [hd (br_queue s)]\<rparr>"

definition finish_task :: "'t \<Rightarrow> 't runner \<Rightarrow> 't runner" where
  "finish_task t s = s\<lparr>br_running := remove1 t (br_running s), br_finished := br_finished s @ [t]\<rparr>"

inductive runner_step :: "('t \<Rightarrow> bool) \<Rightarrow> 't runner \<Rightarrow> 't runner \<Rightarrow> bool" for returns where
  submit: "runner_step returns s (run_task task tick tick' s)"
| begin_thread: "0 < br_starting s \<Longrightarrow>
    runner_step returns s (s\<lparr>br_starting := br_starting s - 1, br_threads := Suc (br_threads s), br_idlers := Suc (br_idlers s)\<rparr>)"
| take: "free_thread s \<Longrightarrow> br_queue s \<noteq> [] \<Longrightarrow> runner_step returns s (take_task s)"
| finish: "t \<in> set (br_running s) \<Longrightarrow> returns t \<Longrightarrow> runner_step returns s (finish_task t s)"
| idler_leaves: "0 < br_idlers s \<Longrightarrow> free_thread s \<Longrightarrow> br_queue s = [] \<Longrightarrow>
    runner_step returns s (s\<lparr>br_idlers := br_idlers s - 1, br_threads := br_threads s - 1\<rparr>)"

inductive_cases runner_step_cases: "runner_step returns s s'"

lemma run_task_fields [simp]:
  "br_threads (run_task k a b s) = br_threads s" "br_tmax (run_task k a b s) = br_tmax s"
  "br_workers (run_task k a b s) = br_workers s" "br_idlers (run_task k a b s) = br_idlers s"
  "br_running (run_task k a b s) = br_running s" "br_started (run_task k a b s) = br_started s"
  "br_finished (run_task k a b s) = br_finished s"
  "br_queue (run_task k a b s) = br_queue s @ [k]" "br_submitted (run_task k a b s) = br_submitted s @ [k]"
  by (simp_all add: run_task_def spawn_thread_def Let_def)

subsection \<open>Every task once, in order, on the threads there are\<close>

definition runner_inv :: "nat \<Rightarrow> 't runner \<Rightarrow> bool" where
  "runner_inv n s =
     (br_started s @ br_queue s = br_submitted s \<and> mset (br_started s) = mset (br_running s) + mset (br_finished s) \<and>
      length (br_running s) \<le> n \<and>
      br_tmax s = n \<and> br_threads s = n \<and> br_starting s = 0 \<and> br_idlers s = 0 \<and> br_workers s = n)"

lemma run_task_starting: "br_threads s = br_tmax s \<Longrightarrow> br_starting (run_task k a b s) = br_starting s"
  by (simp add: run_task_def Let_def)

lemma runner_inv_new: "runner_inv n (runner_new n idle)"
  by (simp add: runner_inv_def runner_new_def)

interpretation runner: transitions "runner_step returns" "runner_inv n" for returns n
proof
  show "runner_step returns s s' \<Longrightarrow> runner_inv n s \<Longrightarrow> runner_inv n s'" for s s'
  proof (induction rule: runner_step.induct)
    case (finish t s)
    then have "mset (br_running s) = add_mset t (mset (remove1 t (br_running s)))" by simp
    moreover have "length (remove1 t (br_running s)) \<le> length (br_running s)" by (simp add: length_remove1)
    ultimately show ?case using finish.prems by (auto simp: runner_inv_def finish_task_def)
  qed (auto simp: runner_inv_def run_task_starting take_task_def free_thread_def)
qed

text \<open>
  No task is lost, repeated or overtaken, and no thread is ever added: however the threads
  interleave and whichever tasks return, the tasks started so far followed by the queue are exactly the
  tasks submitted, in their order; every started task is either running or finished; and the threads
  are the ones started by \<open>new\<close>, so that at most this many tasks run at once.
\<close>

theorem runner_accounts:
  assumes "(runner_step returns)\<^sup>*\<^sup>* (runner_new n idle) s"
  shows "br_started s @ br_queue s = br_submitted s \<and> mset (br_started s) = mset (br_running s) + mset (br_finished s) \<and>
         br_workers s + br_idlers s + br_starting s = n \<and> length (br_running s) \<le> n"
  using runner.inv_steps [OF assms runner_inv_new] by (simp add: runner_inv_def)

definition two_tasks :: "nat runner" where
  "two_tasks = take_task (run_task 8 0 0 (run_task 7 0 0 (runner_new 1 60)))"

lemma two_tasks_reached: "(runner_step returns)\<^sup>*\<^sup>* (runner_new 1 60) two_tasks"
proof -
  have "runner_step returns (run_task 8 0 0 (run_task 7 0 0 (runner_new 1 60))) two_tasks"
    unfolding two_tasks_def by (rule runner_step.take) (simp_all add: runner_new_def free_thread_def)
  then show ?thesis by (meson converse_rtranclp_into_rtranclp r_into_rtranclp runner_step.submit)
qed

theorem runner_accounts_witness:
  "br_started two_tasks = [7] \<and> br_started two_tasks @ br_queue two_tasks = br_submitted two_tasks \<and>
   length (br_running two_tasks) \<le> 1"
  using runner_accounts [OF two_tasks_reached] by (simp add: two_tasks_def take_task_def runner_new_def)

subsection \<open>Progress and starvation\<close>

text \<open>The steps that work off tasks: none is submitted.\<close>

definition work_step :: "('t \<Rightarrow> bool) \<Rightarrow> 't runner \<Rightarrow> 't runner \<Rightarrow> bool" where
  "work_step returns s s' = (runner_step returns s s' \<and> br_submitted s' = br_submitted s)"

lemma take_work: "free_thread s \<Longrightarrow> br_queue s \<noteq> [] \<Longrightarrow> work_step returns s (take_task s)"
  unfolding work_step_def by (intro conjI runner_step.take) (simp_all add: take_task_def)

lemma finish_work: "t \<in> set (br_running s) \<Longrightarrow> returns t \<Longrightarrow> work_step returns s (finish_task t s)"
  unfolding work_step_def by (intro conjI runner_step.finish) (simp_all add: finish_task_def)

lemma work_steps_inv: "(work_step returns)\<^sup>*\<^sup>* s s' \<Longrightarrow> runner_inv n s \<Longrightarrow> runner_inv n s' \<and> br_submitted s' = br_submitted s"
  by (induction rule: rtranclp_induct) (auto simp: work_step_def intro: runner.inv_step)

text \<open>Tasks that return can all be worked off, one after the other if need be.\<close>

lemma work_off:
  assumes "runner_inv n s" "0 < n" "\<forall>t \<in> set (br_running s @ br_queue s). returns t"
  shows "\<exists>s'. (work_step returns)\<^sup>*\<^sup>* s s' \<and> br_running s' = [] \<and> br_queue s' = []"
  using assms
proof (induction "length (br_running s) + 2 * length (br_queue s)" arbitrary: s rule: less_induct)
  case less
  show ?case
  proof (cases "br_running s")
    case (Cons t ts)
    have step: "work_step returns s (finish_task t s)" using Cons less.prems(3) by (intro finish_work) simp_all
    have "\<exists>s'. (work_step returns)\<^sup>*\<^sup>* (finish_task t s) s' \<and> br_running s' = [] \<and> br_queue s' = []"
      using less.prems Cons runner.inv_step [of returns s "finish_task t s" n] step
      by (intro less.hyps) (auto simp: finish_task_def work_step_def)
    with step show ?thesis by (blast intro: converse_rtranclp_into_rtranclp)
  next
    case Nil
    show ?thesis
    proof (cases "br_queue s")
      case (Cons t ts)
      have step: "work_step returns s (take_task s)"
        using Cons Nil less.prems(1,2) by (intro take_work) (simp_all add: free_thread_def runner_inv_def)
      have "\<exists>s'. (work_step returns)\<^sup>*\<^sup>* (take_task s) s' \<and> br_running s' = [] \<and> br_queue s' = []"
        using less.prems Cons Nil runner.inv_step [of returns s "take_task s" n] step
        by (intro less.hyps) (auto simp: take_task_def work_step_def)
      with step show ?thesis by (blast intro: converse_rtranclp_into_rtranclp)
    qed (use \<open>br_running s = []\<close> in auto)
  qed
qed

text \<open>Threads whose tasks do not return stay with them.\<close>

lemma stuck_step:
  assumes "runner_step returns s s'" "length (filter (\<lambda>t. \<not> returns t) (br_running s)) = n" "runner_inv n s"
  shows "length (filter (\<lambda>t. \<not> returns t) (br_running s')) = n \<and> br_started s' = br_started s"
  using assms
proof (induction rule: runner_step.induct)
  case (take s)
  have "length (filter (\<lambda>t. \<not> returns t) (br_running s)) \<le> length (br_running s)" by (rule length_filter_le)
  with take show ?case by (simp add: free_thread_def runner_inv_def)
next
  case (finish t s)
  then show ?case by (simp add: finish_task_def filter_remove1)
qed (simp_all add: runner_inv_def)

text \<open>
  \<^bold>\<open>C30\<close> Every submitted task can be finished from every reachable state, without another one being submitted,
  provided there is a thread and the unfinished tasks return. The proviso cannot be dropped: once as
  many tasks as there are threads run without returning, no further task is ever started, whatever is
  submitted later.
\<close>

theorem runner_progress:
  assumes "(runner_step returns)\<^sup>*\<^sup>* (runner_new n idle) s"
  shows "(0 < n \<and> (\<forall>t \<in> set (br_running s @ br_queue s). returns t) \<longrightarrow>
            (\<exists>s'. (work_step returns)\<^sup>*\<^sup>* s s' \<and> br_queue s' = [] \<and> mset (br_finished s') = mset (br_submitted s))) \<and>
         (length (filter (\<lambda>t. \<not> returns t) (br_running s)) = n \<longrightarrow>
            (\<forall>s'. (runner_step returns)\<^sup>*\<^sup>* s s' \<longrightarrow> br_started s' = br_started s))"
proof (intro conjI impI allI)
  have inv: "runner_inv n s" by (rule runner.inv_steps [OF assms runner_inv_new])
  {
    assume "0 < n \<and> (\<forall>t \<in> set (br_running s @ br_queue s). returns t)"
    then obtain s' where w: "(work_step returns)\<^sup>*\<^sup>* s s'" "br_running s' = []" "br_queue s' = []"
      using work_off [OF inv] by blast
    with work_steps_inv [OF w(1) inv] show "\<exists>s'. (work_step returns)\<^sup>*\<^sup>* s s' \<and> br_queue s' = [] \<and> mset (br_finished s') = mset (br_submitted s)"
      by (intro exI [of _ s']) (auto simp: runner_inv_def)
  next
    fix s'
    assume full: "length (filter (\<lambda>t. \<not> returns t) (br_running s)) = n" and steps: "(runner_step returns)\<^sup>*\<^sup>* s s'"
    from steps have "length (filter (\<lambda>t. \<not> returns t) (br_running s')) = n \<and> br_started s' = br_started s \<and> runner_inv n s'"
      by (induction rule: rtranclp_induct) (use full inv in \<open>auto dest: stuck_step intro: runner.inv_step\<close>)
    then show "br_started s' = br_started s" by blast
  }
qed

theorem runner_progress_witness:
  "(\<exists>s'. (work_step (\<lambda>_. True))\<^sup>*\<^sup>* two_tasks s' \<and> mset (br_finished s') = {#7, 8#}) \<and>
   br_started ` {s'. (runner_step (\<lambda>t. t \<noteq> 7))\<^sup>*\<^sup>* two_tasks s'} = {[7]}"
proof
  have f: "br_running two_tasks = [7]" "br_queue two_tasks = [8]" "br_submitted two_tasks = [7, 8]" "br_started two_tasks = [7]"
    by (simp_all add: two_tasks_def take_task_def runner_new_def)
  show "\<exists>s'. (work_step (\<lambda>_. True))\<^sup>*\<^sup>* two_tasks s' \<and> mset (br_finished s') = {#7, 8#}"
    using runner_progress [OF two_tasks_reached, of "\<lambda>_. True"] f by auto
  have "br_started s' = [7]" if "(runner_step (\<lambda>t. t \<noteq> 7))\<^sup>*\<^sup>* two_tasks s'" for s'
    using runner_progress [OF two_tasks_reached, of "\<lambda>t. t \<noteq> 7"] f that by simp
  with f show "br_started ` {s'. (runner_step (\<lambda>t. t \<noteq> 7))\<^sup>*\<^sup>* two_tasks s'} = {[7]}"
    by (auto simp: image_def intro: exI [of _ two_tasks])
qed

end
