(* ===== verification/Global_State.thy ===== *)
theory Global_State
  imports Serving Blocking_Runner
begin

text \<open>
  The process-wide singletons (\<open>src/core/global.rs\<close>), the runtime they hold (\<open>src/core/runtime.rs\<close>), and
  how a worker sets them up before it serves (\<open>run_worker\<close> in \<open>src/core/worker.rs\<close>, and the worker threads
  of \<open>src/core/multiprocess.rs\<close> on systems without \<open>fork\<close>). An \<open>OnceLock\<close> is an option that is
  filled once. What Python's \<open>asyncio\<close> does is a parameter over the interpreter state \<open>'w\<close>; whether tokio
  accepts the thread numbers of a runtime is one too. A failed \<open>unwrap\<close> or \<open>expect\<close> is a panic, \<open>None\<close>.
\<close>

record ('m, 'l, 'w) asyncio_lib =
  al_import :: "string \<Rightarrow> 'w \<Rightarrow> 'm option \<times> 'w"
  al_get_event_loop :: "'m \<Rightarrow> 'w \<Rightarrow> 'l option \<times> 'w"
  al_new_event_loop :: "'m \<Rightarrow> 'w \<Rightarrow> 'l option \<times> 'w"
  al_set_event_loop :: "'m \<Rightarrow> 'l \<Rightarrow> 'w \<Rightarrow> bool \<times> 'w"

record ('l, 't) runtime_wrapper =
  rw_threads :: nat
  rw_blocking_threads :: nat
  rw_br :: "'t runner"
  rw_pr :: 'l

record ('m, 'l, 't) globals =
  gl_asyncio :: "'m option"
  gl_ev_loop :: "'l option"
  gl_builtins :: "'m option"
  gl_shared_runtime :: "nat option"
  gl_conn_semaphore :: "nat option"
  gl_runtime :: "('l, 't) runtime_wrapper option"

definition no_globals :: "('m, 'l, 't) globals" where
  "no_globals =
     \<lparr>gl_asyncio = None, gl_ev_loop = None, gl_builtins = None, gl_shared_runtime = None, gl_conn_semaphore = None, gl_runtime = None\<rparr>"

subsection \<open>Python modules and the event loop\<close>

definition get_asyncio :: "('m, 'l, 'w) asyncio_lib \<Rightarrow> ('m, 'l, 't) globals \<times> 'w \<Rightarrow> ('m \<times> ('m, 'l, 't) globals \<times> 'w) option" where
  "get_asyncio lib = (\<lambda>(g, w).
     case gl_asyncio g of
       Some m \<Rightarrow> Some (m, g, w)
     | None \<Rightarrow>
         (case al_import lib ''asyncio'' w of
            (Some m, w) \<Rightarrow> Some (m, g\<lparr>gl_asyncio := Some m\<rparr>, w)
          | (None, w) \<Rightarrow> None))"

definition get_builtins :: "('m, 'l, 'w) asyncio_lib \<Rightarrow> ('m, 'l, 't) globals \<times> 'w \<Rightarrow> ('m \<times> ('m, 'l, 't) globals \<times> 'w) option" where
  "get_builtins lib = (\<lambda>(g, w).
     case gl_builtins g of
       Some m \<Rightarrow> Some (m, g, w)
     | None \<Rightarrow>
         (case al_import lib ''builtins'' w of
            (Some m, w) \<Rightarrow> Some (m, g\<lparr>gl_builtins := Some m\<rparr>, w)
          | (None, w) \<Rightarrow> None))"

definition get_event_loop :: "('m, 'l, 'w) asyncio_lib \<Rightarrow> ('m, 'l, 't) globals \<times> 'w \<Rightarrow> ('l \<times> ('m, 'l, 't) globals \<times> 'w) option" where
  "get_event_loop lib = (\<lambda>(g, w).
     case gl_ev_loop g of
       Some l \<Rightarrow> Some (l, g, w)
     | None \<Rightarrow>
         (case get_asyncio lib (g, w) of
            None \<Rightarrow> None
          | Some (m, g, w) \<Rightarrow>
              (case al_get_event_loop lib m w of
                 (Some l, w) \<Rightarrow> Some (l, g\<lparr>gl_ev_loop := Some l\<rparr>, w)
               | (None, w) \<Rightarrow>
                   (case al_new_event_loop lib m w of
                      (None, w) \<Rightarrow> None
                    | (Some l, w) \<Rightarrow>
                        (case al_set_event_loop lib m l w of
                           (False, w) \<Rightarrow> None
                         | (True, w) \<Rightarrow> Some (l, g\<lparr>gl_ev_loop := Some l\<rparr>, w))))))"

subsection \<open>Runtimes\<close>

definition num_cpus :: "nat option \<Rightarrow> nat \<Rightarrow> nat" where
  "num_cpus available default_count = (case available of Some n \<Rightarrow> n | None \<Rightarrow> default_count)"

text \<open>The runtime of the database layer: one worker thread per processor.\<close>

definition get_runtime :: "(nat \<Rightarrow> bool) \<Rightarrow> nat option \<Rightarrow> ('m, 'l, 't) globals \<Rightarrow> (nat \<times> ('m, 'l, 't) globals) option" where
  "get_runtime builds available g =
     (case gl_shared_runtime g of
        Some n \<Rightarrow> Some (n, g)
      | None \<Rightarrow>
          let n = num_cpus available 1
          in if builds n then Some (n, g\<lparr>gl_shared_runtime := Some n\<rparr>) else None)"

definition get_connection_semaphore :: "nat \<Rightarrow> ('m, 'l, 't) globals \<Rightarrow> nat \<times> ('m, 'l, 't) globals" where
  "get_connection_semaphore max_connections g =
     (case gl_conn_semaphore g of
        Some n \<Rightarrow> (n, g)
      | None \<Rightarrow> (max_connections, g\<lparr>gl_conn_semaphore := Some max_connections\<rparr>))"

definition with_runtime :: "nat \<times> nat \<Rightarrow> nat \<Rightarrow> nat \<Rightarrow> 'l \<Rightarrow> ('l, 't) runtime_wrapper" where
  "with_runtime rt py_threads py_threads_idle_timeout py_loop =
     \<lparr>rw_threads = fst rt, rw_blocking_threads = snd rt,
      rw_br = runner_new py_threads py_threads_idle_timeout, rw_pr = py_loop\<rparr>"

definition init_runtime_mt :: "(nat \<Rightarrow> nat \<Rightarrow> bool) \<Rightarrow> nat \<Rightarrow> nat \<Rightarrow> nat \<Rightarrow> nat \<Rightarrow> 'l \<Rightarrow> ('l, 't) runtime_wrapper option" where
  "init_runtime_mt builds threads blocking_threads py_threads py_threads_idle_timeout py_loop =
     (if builds threads blocking_threads
      then Some (with_runtime (threads, blocking_threads) py_threads py_threads_idle_timeout py_loop) else None)"

definition set_global_runtime ::
  "(nat \<Rightarrow> nat \<Rightarrow> bool) \<Rightarrow> nat \<Rightarrow> nat \<Rightarrow> nat \<Rightarrow> nat \<Rightarrow> 'l \<Rightarrow> ('m, 'l, 't) globals \<Rightarrow> ('m, 'l, 't) globals option" where
  "set_global_runtime builds threads blocking_threads py_threads idle py_loop g =
     (case init_runtime_mt builds threads blocking_threads py_threads idle py_loop of
        None \<Rightarrow> None
      | Some wrapper \<Rightarrow> (case gl_runtime g of None \<Rightarrow> Some (g\<lparr>gl_runtime := Some wrapper\<rparr>) | Some _ \<Rightarrow> None))"

definition get_global_runtime :: "('m, 'l, 't) globals \<Rightarrow> ('l, 't) runtime_wrapper option" where
  "get_global_runtime g = gl_runtime g"

text \<open>
  A \<open>RuntimeRef\<close> shares the runner and the loop of its wrapper, so \<open>spawn_blocking\<close> on the reference of
  \<open>get_global_runtime().handler()\<close> queues the task on the runner of the process.
\<close>

definition spawn_blocking :: "'t \<Rightarrow> nat \<Rightarrow> nat \<Rightarrow> ('l, 't) runtime_wrapper \<Rightarrow> ('l, 't) runtime_wrapper" where
  "spawn_blocking task tick tick' rw = rw\<lparr>rw_br := run_task task tick tick' (rw_br rw)\<rparr>"

definition py_event_loop :: "('l, 't) runtime_wrapper \<Rightarrow> 'l" where
  "py_event_loop rw = rw_pr rw"

text \<open>
  The way of a request into the runner (\<open>http_execute\<close>): without a handler it is answered at
  once, otherwise its call becomes a task.
\<close>

definition http_dispatch ::
  "'f handler_registry \<Rightarrow> u64 \<Rightarrow> 't \<Rightarrow> nat \<Rightarrow> nat \<Rightarrow> ('m, 'l, 't) globals \<Rightarrow> (bool \<times> ('m, 'l, 't) globals) option" where
  "http_dispatch reg route_hash task tick tick' g =
     (case get_handler_info reg route_hash of
        None \<Rightarrow> Some (False, g)
      | Some is_async \<Rightarrow>
          (case get_global_runtime g of
             None \<Rightarrow> None
           | Some rw \<Rightarrow> Some (True, g\<lparr>gl_runtime := Some (spawn_blocking task tick tick' rw)\<rparr>)))"

subsection \<open>Setting up a worker\<close>

text \<open>What \<open>run_worker\<close> does before it listens to signals and serves.\<close>

definition worker_setup ::
  "('m, 'l, 'w) asyncio_lib \<Rightarrow> (nat \<Rightarrow> nat \<Rightarrow> bool) \<Rightarrow> ('f, 'g, 'q, 'p) python \<Rightarrow> (u64 \<times> 'f) list \<Rightarrow> nat \<Rightarrow> nat \<Rightarrow>
   'f handler_registry \<times> ('m, 'l, 't) globals \<times> 'w \<Rightarrow> ('f handler_registry \<times> ('m, 'l, 't) globals \<times> 'w) option" where
  "worker_setup lib builds py handlers worker_threads max_blocking_threads = (\<lambda>(reg, g, w).
     let reg = register_all py handlers reg in
     case get_event_loop lib (g, w) of
       None \<Rightarrow> None
     | Some (ev_loop, g, w) \<Rightarrow>
         (case set_global_runtime builds worker_threads max_blocking_threads max_blocking_threads 60 ev_loop g of
            None \<Rightarrow> None
          | Some g \<Rightarrow> Some (reg, g, w)))"

text \<open>
  The workers of systems without \<open>fork\<close>: threads of one process. Each has a reload manager of its own and
  registers the handlers in the table they share; \<open>now\<close> are the times at which they are created.
\<close>

record ('m, 'f, 'w) thread_worker =
  tw_router :: "('m, 'f) router"
  tw_middleware :: "'w chain"
  tw_manager :: reload_manager

fun spawn_thread_workers ::
  "('f, 'g, 'q, 'p) python \<Rightarrow> (u64 \<times> 'f) list \<Rightarrow> ('m, 'f) router \<Rightarrow> 'w chain \<Rightarrow> reload_config \<Rightarrow> instant list \<Rightarrow>
   'f handler_registry \<Rightarrow> ('m, 'f, 'w) thread_worker list \<times> 'f handler_registry" where
  "spawn_thread_workers py handlers ro ch cfg [] reg = ([], reg)"
| "spawn_thread_workers py handlers ro ch cfg (now # ts) reg =
     (let (ws, reg) = spawn_thread_workers py handlers ro ch cfg ts (register_all py handlers reg)
      in (\<lparr>tw_router = ro, tw_middleware = ch, tw_manager = rm_new now cfg\<rparr> # ws, reg))"

definition thread_grace_over :: "('m, 'f, 'w) thread_worker \<Rightarrow> ('m, 'f, 'w) thread_worker" where
  "thread_grace_over tw = tw\<lparr>tw_manager := (tw_manager tw)\<lparr>rm_health := mark_healthy (rm_health (tw_manager tw))\<rparr>\<rparr>"

subsection \<open>What is set once\<close>

lemma event_loop_once:
  "get_event_loop lib (g, w) = Some (l, g', w') \<Longrightarrow>
   gl_ev_loop g' = Some l \<and> gl_runtime g' = gl_runtime g \<and> get_event_loop lib (g', w2) = Some (l, g', w2)"
  by (auto simp: get_event_loop_def get_asyncio_def split: option.splits prod.splits bool.splits)

text \<open>The number of connections given first is the one that counts.\<close>

lemma first_semaphore_wins:
  "fst (get_connection_semaphore n (snd (get_connection_semaphore m g))) = fst (get_connection_semaphore m g)"
  by (simp add: get_connection_semaphore_def split: option.split)

lemma handler_info_registered:
  "get_handler_info (register_all py hs reg) h = None \<longleftrightarrow> h \<notin> fst ` set hs \<and> get_handler_info reg h = None"
proof -
  have "map_of (rev hs) h = None \<longleftrightarrow> h \<notin> fst ` set hs" by (simp add: map_of_eq_None_iff)
  then show ?thesis by (auto simp: get_handler_info_def get_handler_register_all split: option.split)
qed

subsection \<open>Requests into the runner\<close>

type_synonym 't arrival = "u64 \<times> 't \<times> nat \<times> nat"

fun dispatch_all :: "'f handler_registry \<Rightarrow> 't arrival list \<Rightarrow> ('m, 'l, 't) globals \<Rightarrow> ('m, 'l, 't) globals option" where
  "dispatch_all reg [] g = Some g"
| "dispatch_all reg ((h, task, tick, tick') # rs) g =
     (case http_dispatch reg h task tick tick' g of None \<Rightarrow> None | Some (b, g) \<Rightarrow> dispatch_all reg rs g)"

lemma dispatch_all_runs:
  assumes "gl_runtime g = Some rw"
  shows "\<exists>g' rw'. dispatch_all reg rs g = Some g' \<and> gl_runtime g' = Some rw' \<and> gl_ev_loop g' = gl_ev_loop g \<and> rw_pr rw' = rw_pr rw \<and>
    (runner_step returns)\<^sup>*\<^sup>* (rw_br rw) (rw_br rw') \<and>
    br_submitted (rw_br rw') = br_submitted (rw_br rw) @
      map (\<lambda>(h, task, _). task) (filter (\<lambda>(h, _). get_handler_info reg h \<noteq> None) rs)"
  using assms
proof (induction rs arbitrary: g rw)
  case (Cons a rs)
  obtain h task tick tick' where a: "a = (h, task, tick, tick')" by (cases a)
  show ?case
  proof (cases "get_handler_info reg h")
    case None
    with Cons.IH [OF Cons.prems] show ?thesis by (simp add: a http_dispatch_def)
  next
    case (Some b)
    let ?g = "g\<lparr>gl_runtime := Some (spawn_blocking task tick tick' rw)\<rparr>"
    have step: "runner_step returns (rw_br rw) (rw_br (spawn_blocking task tick tick' rw))"
      by (simp add: spawn_blocking_def runner_step.submit)
    have "dispatch_all reg (a # rs) g = dispatch_all reg rs ?g"
      using Some Cons.prems by (simp add: a http_dispatch_def get_global_runtime_def)
    then show ?thesis
      using Cons.IH [of ?g "spawn_blocking task tick tick' rw"] step Some
      by (auto simp: a spawn_blocking_def intro: converse_rtranclp_into_rtranclp)
  qed
qed (use assms in auto)

text \<open>
  \<^bold>\<open>C25\<close> A worker process is set up for its requests: once \<open>run_worker\<close> has prepared it, no
  request panics, whatever arrives; each request to a registered handler puts exactly one task, in
  order, into the runner of the process, which was created with \<open>max_blocking_threads\<close> threads; the
  runtime keeps the event loop that Python code finds; and preparing the same process again
  panics.
\<close>

theorem worker_setup_serves:
  assumes "worker_setup lib builds py hs worker_threads max_blocking ([], no_globals, w) = Some (reg, g, w')"
  shows "(\<exists>g' rw. dispatch_all reg rs g = Some g' \<and> gl_runtime g' = Some rw \<and> gl_ev_loop g' = Some (py_event_loop rw) \<and>
            (runner_step returns)\<^sup>*\<^sup>* (runner_new max_blocking 60) (rw_br rw) \<and>
            br_submitted (rw_br rw) = map (\<lambda>(h, task, _). task) (filter (\<lambda>(h, _). h \<in> fst ` set hs) rs)) \<and>
         worker_setup lib builds py hs' n m (reg', g, w'') = None"
proof -
  obtain l g1 where ev: "get_event_loop lib (no_globals, w) = Some (l, g1, w')"
      and set: "set_global_runtime builds worker_threads max_blocking max_blocking 60 l g1 = Some g"
      and reg: "reg = register_all py hs []"
    using assms by (auto simp: worker_setup_def Let_def split: option.splits prod.splits)
  from event_loop_once [OF ev] have g1: "gl_ev_loop g1 = Some l" "gl_runtime g1 = None" by (simp_all add: no_globals_def)
  let ?rw = "with_runtime (worker_threads, max_blocking) max_blocking 60 l"
  have g: "g = g1\<lparr>gl_runtime := Some ?rw\<rparr>"
    using set g1(2) by (auto simp: set_global_runtime_def init_runtime_mt_def split: if_splits)
  have known: "get_handler_info reg h \<noteq> None \<longleftrightarrow> h \<in> fst ` set hs" for h
    unfolding reg using handler_info_registered [of py hs "[]" h] by (auto simp: get_handler_info_def)
  have "gl_runtime g = Some ?rw" by (simp add: g)
  from dispatch_all_runs [OF this, of reg rs returns] have
    "\<exists>g' rw. dispatch_all reg rs g = Some g' \<and> gl_runtime g' = Some rw \<and> gl_ev_loop g' = Some (py_event_loop rw) \<and>
       (runner_step returns)\<^sup>*\<^sup>* (runner_new max_blocking 60) (rw_br rw) \<and>
       br_submitted (rw_br rw) = map (\<lambda>(h, task, _). task) (filter (\<lambda>(h, _). h \<in> fst ` set hs) rs)"
    unfolding known by (auto simp: g g1 with_runtime_def py_event_loop_def runner_new_def)
  moreover have "worker_setup lib builds py hs' n m (reg', g, w'') = None"
    by (auto simp: worker_setup_def Let_def get_event_loop_def g g1 set_global_runtime_def split: option.split)
  ultimately show ?thesis ..
qed

text \<open>An interpreter without a current event loop: a new one is made and set.\<close>

definition loopless_asyncio :: "(unit, nat, nat option) asyncio_lib" where
  "loopless_asyncio =
     \<lparr>al_import = (\<lambda>_ w. (Some (), w)), al_get_event_loop = (\<lambda>_ w. (w, w)), al_new_event_loop = (\<lambda>_ w. (Some 1, w)),
      al_set_event_loop = (\<lambda>_ l _. (True, Some l))\<rparr>"

theorem worker_setup_serves_witness:
  "\<exists>reg g. worker_setup loopless_asyncio (\<lambda>a b. 0 < a \<and> 0 < b) (wl_py number_lib) [(5, 1)] 2 4 ([], no_globals, None) = Some (reg, g, Some 1) \<and>
     (\<exists>g' rw. dispatch_all reg [(5, ''a'', 0, 0), (6, ''b'', 0, 0)] g = Some g' \<and> gl_runtime g' = Some rw \<and>
        br_submitted (rw_br rw) = [''a''])"
proof -
  have "\<exists>reg g. worker_setup loopless_asyncio (\<lambda>a b. 0 < a \<and> 0 < b) (wl_py number_lib) [(5, 1)] 2 4 ([], no_globals, None) =
      Some (reg, g :: (unit, nat, string) globals, Some 1)"
    by (simp add: worker_setup_def get_event_loop_def get_asyncio_def loopless_asyncio_def no_globals_def set_global_runtime_def
        init_runtime_mt_def)
  then obtain reg g where w: "worker_setup loopless_asyncio (\<lambda>a b. 0 < a \<and> 0 < b) (wl_py number_lib) [(5, 1)] 2 4 ([], no_globals, None) =
      Some (reg, g :: (unit, nat, string) globals, Some 1)" by blast
  from worker_setup_serves [OF w, of "[(5, ''a'', 0, 0), (6, ''b'', 0, 0)]"] w show ?thesis by fastforce
qed

subsection \<open>Worker threads\<close>

lemma thread_workers_registered:
  "h \<in> fst ` set hs \<Longrightarrow> ts \<noteq> [] \<or> get_handler_info reg h \<noteq> None \<Longrightarrow>
   get_handler_info (snd (spawn_thread_workers py hs ro ch cfg ts reg)) h \<noteq> None"
proof (induction ts arbitrary: reg)
  case (Cons t ts)
  have "get_handler_info (register_all py hs reg) h \<noteq> None" using Cons.prems(1) by (simp add: handler_info_registered)
  from Cons.IH [OF Cons.prems(1), of "register_all py hs reg"] this show ?case
    by (simp add: Let_def split: prod.split) (metis snd_conv)
qed simp

lemma thread_workers_managers:
  "map tw_manager (fst (spawn_thread_workers py hs ro ch cfg ts reg)) = map (\<lambda>t. rm_new t cfg) ts"
  by (induction ts arbitrary: reg) (simp_all add: Let_def split: prod.split, metis fst_conv)

text \<open>
  The worker threads of systems without \<open>fork\<close> cannot answer: nothing sets the global runtime in their
  process, so the first request that reaches a registered handler panics, which aborts the process;
  and their reload managers are their own, so draining the server's manager does not reach them.
\<close>

theorem thread_workers_abort:
  assumes "spawn_thread_workers py hs ro ch cfg (t # ts) [] = (ws, reg)" and "h \<in> fst ` set hs"
  shows "http_dispatch reg h task tick tick' no_globals = None \<and> list_all (\<lambda>tw. \<not> is_draining (tw_manager tw)) ws"
proof
  have "get_handler_info reg h \<noteq> None"
    using thread_workers_registered [OF assms(2), of "t # ts" "[]" py ro ch cfg] unfolding assms(1) by simp
  then show "http_dispatch reg h task tick tick' no_globals = None"
    by (auto simp: http_dispatch_def get_global_runtime_def no_globals_def)
  have "map tw_manager ws = map (\<lambda>t. rm_new t cfg) (t # ts)"
    using thread_workers_managers [of py hs ro ch cfg "t # ts" "[]"] unfolding assms(1) by simp
  then have "\<forall>m \<in> set (map tw_manager ws). \<not> is_draining m" by (auto simp: rm_new_def is_draining_def)
  then show "list_all (\<lambda>tw. \<not> is_draining (tw_manager tw)) ws" by (simp add: list_all_iff)
qed

theorem thread_workers_abort_witness:
  "let (ws, reg) = spawn_thread_workers (wl_py number_lib) [(5, 1)] (router_new exact_matchit ''/'') (chain_new :: unit chain) reload_default [0, 0] []
   in length ws = 2 \<and> http_dispatch reg 5 () 0 0 (no_globals :: (unit, unit, unit) globals) = None"
proof -
  let ?s = "spawn_thread_workers (wl_py number_lib) [(5, 1)] (router_new exact_matchit ''/'') (chain_new :: unit chain) reload_default [0, 0] []"
  obtain ws reg where e: "?s = (ws, reg)" by (cases ?s)
  then have "length ws = 2" by auto
  moreover have "http_dispatch reg 5 () 0 0 (no_globals :: (unit, unit, unit) globals) = None"
    by (rule thread_workers_abort [OF e, THEN conjunct1]) simp
  ultimately show ?thesis unfolding e by simp
qed

end
