(* ===== verification/Db_Transaction.thy ===== *)
theory Db_Transaction
  imports Db_Operations
begin

text \<open>
  The transaction object of Python (\<open>DatabaseTransaction\<close> in \<open>src/database/transaction.rs\<close>): its methods
  run the operations of \<open>Db_Operations\<close> on the shared option that holds the transaction. A program is a
  sequence of calls; a panic aborts the process, so a run either answers every call or is over (\<open>None\<close>).
\<close>

datatype 'o tx_call =
  TxExecute string "'o list" | TxFetchAll string "'o list" | TxStream string "'o list" nat
  | TxBulk string "'o list list" nat | TxCommit | TxRollback

datatype tx_answer = Affected u64 | Rows "db_dict list" | Streamed "db_dict row_stream" | NoAnswer

fun txn_call ::
  "'o bind_py \<Rightarrow> (string \<Rightarrow> string + json_value) \<Rightarrow> ('b, 'c) sqlx \<Rightarrow> 'o tx_call \<Rightarrow> 'b tx_slot \<Rightarrow> tx_answer outcome \<times> 'b tx_slot" where
  "txn_call py fs sx (TxExecute query params) t = map_prod (map_outcome Affected) (\<lambda>t. t) (tx_execute py fs sx query params t)"
| "txn_call py fs sx (TxFetchAll query params) t = map_prod (map_outcome Rows) (\<lambda>t. t) (tx_fetch_all py fs sx query params t)"
| "txn_call py fs sx (TxStream query params chunk_size) t =
     map_prod (map_outcome Streamed) (\<lambda>t. t) (stream_data py fs sx query params chunk_size t)"
| "txn_call py fs sx (TxBulk query params batch_size) t =
     map_prod (map_outcome Affected) (\<lambda>t. t) (bulk_change py fs sx query params batch_size t)"
| "txn_call py fs sx TxCommit t = map_prod (map_outcome (\<lambda>_. NoAnswer)) (\<lambda>t. t) (tx_commit sx t)"
| "txn_call py fs sx TxRollback t = map_prod (map_outcome (\<lambda>_. NoAnswer)) (\<lambda>t. t) (tx_rollback sx t)"

definition panics :: "'x outcome \<Rightarrow> bool" where
  "panics r = (case r of Panic _ \<Rightarrow> True | _ \<Rightarrow> False)"

fun txn_run ::
  "'o bind_py \<Rightarrow> (string \<Rightarrow> string + json_value) \<Rightarrow> ('b, 'c) sqlx \<Rightarrow> 'o tx_call list \<Rightarrow> 'b tx_slot \<Rightarrow> 'b tx_slot option" where
  "txn_run py fs sx [] t = Some t"
| "txn_run py fs sx (c # cs) t =
     (case txn_call py fs sx c t of (r, t') \<Rightarrow> if panics r then None else txn_run py fs sx cs t')"

subsection \<open>The protocol\<close>

text \<open>Whether the parameters of a call bind, which calls end the transaction, and which calls are allowed before and after.\<close>

definition binds :: "'o bind_py \<Rightarrow> (string \<Rightarrow> string + json_value) \<Rightarrow> 'o list \<Rightarrow> bool" where
  "binds py fs params = (case bind_parameters py fs params of Ok _ \<Rightarrow> True | Err _ \<Rightarrow> False)"

fun ends_transaction :: "'o bind_py \<Rightarrow> (string \<Rightarrow> string + json_value) \<Rightarrow> 'o tx_call \<Rightarrow> bool" where
  "ends_transaction py fs TxCommit = True"
| "ends_transaction py fs TxRollback = True"
| "ends_transaction py fs (TxStream query params n) = binds py fs params"
| "ends_transaction py fs _ = False"

fun allowed_open :: "'o tx_call \<Rightarrow> bool" where
  "allowed_open (TxBulk query params n) = (n \<noteq> 0)"
| "allowed_open _ = True"

fun allowed_ended :: "'o bind_py \<Rightarrow> (string \<Rightarrow> string + json_value) \<Rightarrow> 'o tx_call \<Rightarrow> bool" where
  "allowed_ended py fs (TxExecute query params) = (\<not> binds py fs params)"
| "allowed_ended py fs (TxFetchAll query params) = (\<not> binds py fs params)"
| "allowed_ended py fs (TxStream query params n) = (\<not> binds py fs params)"
| "allowed_ended py fs (TxBulk query params n) = True"
| "allowed_ended py fs _ = False"

fun follows_protocol :: "'o bind_py \<Rightarrow> (string \<Rightarrow> string + json_value) \<Rightarrow> 'o tx_call list \<Rightarrow> bool" where
  "follows_protocol py fs [] = True"
| "follows_protocol py fs (c # cs) =
     (allowed_open c \<and> (if ends_transaction py fs c then list_all (allowed_ended py fs) cs else follows_protocol py fs cs))"

lemmas tx_defs = tx_execute_def tx_fetch_all_def stream_data_def bulk_change_def tx_commit_def tx_rollback_def

lemma ended_call:
  "\<not> tx_open t \<Longrightarrow> snd (txn_call py fs sx c t) = t \<and> panics (fst (txn_call py fs sx c t)) = (\<not> allowed_ended py fs c)"
  by (cases c) (auto simp: tx_defs panics_def binds_def split: sum.splits)

lemma open_call:
  "tx_open t \<Longrightarrow> panics (fst (txn_call py fs sx c t)) = (\<not> allowed_open c) \<and>
     (allowed_open c \<longrightarrow> tx_open (snd (txn_call py fs sx c t)) = (\<not> ends_transaction py fs c))"
  by (cases c) (auto simp: tx_defs panics_def binds_def split: sum.splits prod.splits option.splits)

lemma ended_run: "\<not> tx_open t \<Longrightarrow> txn_run py fs sx cs t = (if list_all (allowed_ended py fs) cs then Some t else None)"
proof (induction cs)
  case (Cons c cs)
  obtain r t' where c: "txn_call py fs sx c t = (r, t')" by (cases "txn_call py fs sx c t")
  with ended_call [OF Cons.prems, of py fs sx c] Cons show ?case by auto
qed simp

lemma txn_run_append:
  "txn_run py fs sx (cs @ ds) t = (case txn_run py fs sx cs t of None \<Rightarrow> None | Some t' \<Rightarrow> txn_run py fs sx ds t')"
  by (induction cs arbitrary: t) (auto split: prod.split)

text \<open>
  \<^bold>\<open>C24\<close> The protocol of a transaction object. A program on a fresh transaction runs through exactly
  when its calls follow the protocol: on the open transaction no \<open>bulk_change\<close> has a batch size of zero, whose
  \<open>chunks(0)\<close> panics; and once a call has ended the transaction (a commit, a rollback or a
  stream), every further call must be one that is refused, while \<open>commit\<close>, \<open>rollback\<close> and every statement
  whose parameters bind abort the process. What the calls after the end do to the database
  is nothing: its state is the one the ending call left.
\<close>

theorem transaction_protocol:
  assumes "tx_open t"
  shows "(txn_run py fs sx calls t \<noteq> None \<longleftrightarrow> follows_protocol py fs calls) \<and>
         (case txn_run py fs sx (pre @ c # post) t of
            None \<Rightarrow> \<not> follows_protocol py fs (pre @ c # post)
          | Some t' \<Rightarrow>
              (case txn_run py fs sx (pre @ [c]) t of None \<Rightarrow> False | Some t1 \<Rightarrow> tx_open t1 \<or> t' = t1))"
proof -
  have proto: "txn_run py fs sx calls t \<noteq> None \<longleftrightarrow> follows_protocol py fs calls" if "tx_open t" for calls t
    using that
  proof (induction calls arbitrary: t)
    case (Cons c cs)
    obtain r t' where c: "txn_call py fs sx c t = (r, t')" by (cases "txn_call py fs sx c t")
    show ?case
    proof (cases "allowed_open c \<and> \<not> ends_transaction py fs c")
      case True
      then have "tx_open t'" "\<not> panics r" using open_call [OF Cons.prems, of py fs sx c] c by simp_all
      with Cons.IH [of t'] c True show ?thesis by simp
    next
      case False
      then show ?thesis using open_call [OF Cons.prems, of py fs sx c] c by (auto simp: ended_run)
    qed
  qed simp
  have frozen: "t' = t1" if "txn_run py fs sx post t1 = Some t'" "\<not> tx_open t1" for t1 t'
    using that by (simp add: ended_run split: if_splits)
  have "pre @ c # post = (pre @ [c]) @ post" by simp
  then have split: "txn_run py fs sx (pre @ c # post) t =
      (case txn_run py fs sx (pre @ [c]) t of None \<Rightarrow> None | Some t' \<Rightarrow> txn_run py fs sx post t')"
    by (simp only: txn_run_append)
  show ?thesis
    using proto [OF assms] proto [OF assms, of "pre @ c # post"] frozen
    by (auto simp: split simp del: txn_run.simps follows_protocol.simps split: option.splits)
qed

theorem transaction_protocol_witness:
  "txn_run demo_py (\<lambda>_. Err []) demo_sqlx [TxExecute ''x'' [], TxCommit, TxRollback] \<lparr>tx_open = True, tx_base = 0\<rparr> = None \<and>
   txn_run demo_py (\<lambda>_. Err []) demo_sqlx [TxExecute ''x'' [], TxCommit] \<lparr>tx_open = True, tx_base = 0\<rparr> \<noteq> None"
  using transaction_protocol [of "\<lparr>tx_open = True, tx_base = 0\<rparr>" demo_py "\<lambda>_. Err []" demo_sqlx "[TxExecute ''x'' [], TxCommit, TxRollback]"]
    transaction_protocol [of "\<lparr>tx_open = True, tx_base = 0\<rparr>" demo_py "\<lambda>_. Err []" demo_sqlx "[TxExecute ''x'' [], TxCommit]"]
  by simp

end
