(* ===== verification/Db_Atomicity.thy ===== *)
theory Db_Atomicity
  imports Db_Context
begin

text \<open>
  What the transactions of \<open>src/database/request_context.rs\<close> mean for the data: a request that opens a
  transaction, sends statements and is finalized, over a database that keeps transactions the way
  PostgreSQL documents it. The database stays a parameter; \<open>postgres_law\<close> says what is used of it.
\<close>

subsection \<open>What the database promises\<close>

text \<open>
  \<open>committed\<close> is what other sessions see. \<open>view d c\<close> is the transaction of connection \<open>c\<close>: \<open>None\<close> outside one,
  \<open>Some (Some w)\<close> inside with working state \<open>w\<close>, \<open>Some None\<close> when a statement has failed on the server: until its end
  such a transaction accepts nothing, and \<open>COMMIT\<close> ends it like \<open>ROLLBACK\<close>. A statement that the client
  library refuses to send (a parameter of the wrong type or number) fails as well and leaves the transaction as it
  was; a caller cannot tell the two apart. \<open>eff\<close> is the effect of
  a statement and \<open>ordinary\<close> the statements that are not transaction control themselves. A connection
  from the pool is in no transaction.
\<close>

definition get_law where
  "get_law committed view (f :: 'd \<Rightarrow> (string + 'c) \<times> 'd) =
     (\<forall>d r d'. f d = (r, d') \<longrightarrow> committed d' = committed d \<and> (\<forall>c. r = Ok c \<longrightarrow> view d' c = None))"

definition begin_law where
  "begin_law committed view c (f :: 'd \<Rightarrow> (string + u64) \<times> 'd) =
     (\<forall>d r d'. view d c = None \<longrightarrow> f d = (r, d') \<longrightarrow>
        committed d' = committed d \<and> view d' c = (case r of Ok n \<Rightarrow> Some (Some (committed d)) | Err e \<Rightarrow> None))"

definition statement_law where
  "statement_law committed view c g (f :: 'd \<Rightarrow> (string + 'a) \<times> 'd) =
     (\<forall>d t r d'. view d c = Some t \<longrightarrow> f d = (r, d') \<longrightarrow>
        committed d' = committed d \<and>
        (case r of Ok a \<Rightarrow> view d' c = Some (map_option g t) | Err e \<Rightarrow> view d' c \<in> {Some None, Some t}))"

definition commit_law where
  "commit_law committed view c (f :: 'd \<Rightarrow> (string + u64) \<times> 'd) =
     (\<forall>d t n d'. view d c = Some t \<longrightarrow> f d = (Ok n, d') \<longrightarrow>
        committed d' = (case t of Some w \<Rightarrow> w | None \<Rightarrow> committed d))"

definition rollback_law where
  "rollback_law committed view c (f :: 'd \<Rightarrow> (string + u64) \<times> 'd) =
     (\<forall>d t r d'. view d c = Some t \<longrightarrow> f d = (r, d') \<longrightarrow> committed d' = committed d)"

definition postgres_law ::
  "('c, 'v, 'row, 'd) postgres \<Rightarrow> ('d \<Rightarrow> 's) \<Rightarrow> ('d \<Rightarrow> 'c \<Rightarrow> 's option option) \<Rightarrow>
   (string \<Rightarrow> 'v list \<Rightarrow> 's \<Rightarrow> 's) \<Rightarrow> (string \<Rightarrow> bool) \<Rightarrow> bool" where
  "postgres_law pg committed view eff ordinary =
     ((\<forall>al. get_law committed view (pg_get pg al)) \<and>
      (\<forall>c. begin_law committed view c (pg_execute pg c ''BEGIN'' [])) \<and>
      (\<forall>c sql ps. ordinary sql \<longrightarrow> statement_law committed view c (eff sql ps) (pg_execute pg c sql ps)) \<and>
      (\<forall>c sql ps. ordinary sql \<longrightarrow> statement_law committed view c (eff sql ps) (pg_query pg c sql ps)) \<and>
      (\<forall>c. commit_law committed view c (pg_execute pg c ''COMMIT'' [])) \<and>
      (\<forall>c. rollback_law committed view c (pg_execute pg c ''ROLLBACK'' [])))"

subsection \<open>A request in a transaction\<close>

text \<open>What a handler does between \<open>begin\<close> and the end of the request, and which of its statements succeeded.\<close>

datatype 'v stmt = StQuery string "'v list" | StExecute string "'v list" | StMany string "'v list list"
  | StAutoCommit bool | StError

fun stmt_apply :: "('c, 'v, 'row, 'd) postgres \<Rightarrow> 'v stmt \<Rightarrow> 'c db_context \<times> 'd \<Rightarrow> bool \<times> 'c db_context \<times> 'd" where
  "stmt_apply pg (StQuery sql ps) s = (case db_query pg sql ps s of (r, s) \<Rightarrow> (\<not> isl r, s))"
| "stmt_apply pg (StExecute sql ps) s = (case db_execute pg sql ps s of (r, s) \<Rightarrow> (\<not> isl r, s))"
| "stmt_apply pg (StMany sql pss) s = (case execute_many pg sql pss 0 s of (r, s) \<Rightarrow> (\<not> isl r, s))"
| "stmt_apply pg (StAutoCommit b) s = (True, set_auto_commit b (fst s), snd s)"
| "stmt_apply pg StError s = (True, set_error (fst s), snd s)"

fun run_stmts :: "('c, 'v, 'row, 'd) postgres \<Rightarrow> 'v stmt list \<Rightarrow> 'c db_context \<times> 'd \<Rightarrow> bool list \<times> 'c db_context \<times> 'd" where
  "run_stmts pg [] s = ([], s)"
| "run_stmts pg (st # sts) s =
     (case stmt_apply pg st s of (ok, s) \<Rightarrow> case run_stmts pg sts s of (oks, s) \<Rightarrow> (ok # oks, s))"

definition request_body ::
  "('c, 'v, 'row, 'd) postgres \<Rightarrow> 'v stmt list \<Rightarrow> 'c db_context \<times> 'd \<Rightarrow> (string + bool list) \<times> 'c db_context \<times> 'd" where
  "request_body pg stmts s =
     (case begin_tx pg s of
        (Err e, s) \<Rightarrow> (Err e, s)
      | (Ok _, s) \<Rightarrow> (case run_stmts pg stmts s of (oks, s) \<Rightarrow> (Ok oks, s)))"

text \<open>The session of a request, from \<open>get_db\<close> to \<open>finalize_db\<close>.\<close>

definition run_request ::
  "('c, 'v, 'row, 'd) postgres \<Rightarrow> string \<Rightarrow> string \<Rightarrow> 'v stmt list \<Rightarrow> ('c, 'd) db_system \<Rightarrow>
   (string + bool list) \<times> (string + unit) \<times> ('c, 'd) db_system" where
  "run_request pg request_id alias stmts ds =
     (case get_db request_id alias ds of
        (a, ds) \<Rightarrow> (case on_context a (request_body pg stmts) ds of
          (b, ds) \<Rightarrow> (case finalize_db pg request_id alias ds of (r, ds) \<Rightarrow> (b, r, ds))))"

fun ordinary_stmt :: "(string \<Rightarrow> bool) \<Rightarrow> 'v stmt \<Rightarrow> bool" where
  "ordinary_stmt ordinary (StQuery sql ps) = ordinary sql"
| "ordinary_stmt ordinary (StExecute sql ps) = ordinary sql"
| "ordinary_stmt ordinary (StMany sql pss) = ordinary sql"
| "ordinary_stmt ordinary _ = True"

fun stmt_eff :: "(string \<Rightarrow> 'v list \<Rightarrow> 's \<Rightarrow> 's) \<Rightarrow> 'v stmt \<Rightarrow> 's \<Rightarrow> 's" where
  "stmt_eff eff (StQuery sql ps) = eff sql ps"
| "stmt_eff eff (StExecute sql ps) = eff sql ps"
| "stmt_eff eff (StMany sql pss) = fold (eff sql) pss"
| "stmt_eff eff _ = (\<lambda>w. w)"

text \<open>
  The working states that a statement can lead to when it succeeded, and when it failed without
  aborting the transaction. A failed \<open>execute_many\<close> leaves the items before the one that failed.
\<close>

fun applied :: "(string \<Rightarrow> 'v list \<Rightarrow> 's \<Rightarrow> 's) \<Rightarrow> 'v stmt \<Rightarrow> bool \<Rightarrow> 's set \<Rightarrow> 's set" where
  "applied eff (StMany sql pss) False W = (\<Union>k < length pss. fold (eff sql) (take k pss) ` W)"
| "applied eff st False W = W"
| "applied eff st True W = stmt_eff eff st ` W"

fun published :: "(string \<Rightarrow> 'v list \<Rightarrow> 's \<Rightarrow> 's) \<Rightarrow> 'v stmt list \<Rightarrow> bool list \<Rightarrow> 's set \<Rightarrow> 's set" where
  "published eff (st # sts) (ok # oks) W = published eff sts oks (applied eff st ok W)"
| "published eff sts oks W = W"

lemma applied_True: "applied eff st True W = stmt_eff eff st ` W"
  by (cases st) simp_all

lemma published_all: "False \<notin> set oks \<Longrightarrow> length oks = length sts \<Longrightarrow> published eff sts oks W = fold (stmt_eff eff) sts ` W"
  by (induction eff sts oks W rule: published.induct) (auto simp: applied_True image_comp)

text \<open>The flags of the context, auto-commit and error: a request asks for a commit when the first is on and the second off.\<close>

fun stmt_flags :: "'v stmt \<Rightarrow> bool \<times> bool \<Rightarrow> bool \<times> bool" where
  "stmt_flags (StAutoCommit b) (auto_commit, err) = (b, err)"
| "stmt_flags StError (auto_commit, err) = (auto_commit, True)"
| "stmt_flags _ fl = fl"

definition wants_commit :: "'v stmt list \<Rightarrow> bool" where
  "wants_commit stmts = (case fold stmt_flags stmts (True, False) of (auto_commit, err) \<Rightarrow> auto_commit \<and> \<not> err)"

text \<open>
  A context inside a transaction of connection \<open>c\<close>, with nothing published since \<open>v\<close>. The transaction
  is in one of the states \<open>W\<close>, or aborted, which takes a failure.
\<close>

definition inside ::
  "('d \<Rightarrow> 's) \<Rightarrow> ('d \<Rightarrow> 'c \<Rightarrow> 's option option) \<Rightarrow> 'c \<Rightarrow> 's \<Rightarrow> 's set \<Rightarrow> bool \<Rightarrow> bool \<times> bool \<Rightarrow> 'c db_context \<times> 'd \<Rightarrow> bool" where
  "inside committed view c v W failed fl =
     (\<lambda>(ctx, d). dc_in_transaction ctx \<and> dc_connection ctx = Some c \<and> (dc_auto_commit ctx, dc_has_error ctx) = fl \<and>
        (\<exists>t. view d c = Some t \<and> (case t of None \<Rightarrow> failed | Some w \<Rightarrow> w \<in> W)) \<and> committed d = v)"

lemma inside_mono: "inside committed view c v W failed fl s \<Longrightarrow> W \<subseteq> W' \<Longrightarrow> (failed \<Longrightarrow> failed') \<Longrightarrow> inside committed view c v W' failed' fl s"
proof -
  assume a: "inside committed view c v W failed fl s" "W \<subseteq> W'" "failed \<Longrightarrow> failed'"
  have "case t of None \<Rightarrow> failed' | Some w \<Rightarrow> w \<in> W'" if "case t of None \<Rightarrow> failed | Some w \<Rightarrow> w \<in> W" for t
    using that a(2,3) by (cases t) auto
  with a(1) show ?thesis by (cases s) (auto simp: inside_def)
qed

lemma inside_with_connection:
  assumes "inside committed view c v W failed fl s" "with_connection g what s = (r, s')" "statement_law committed view c f (g c)"
  shows "inside committed view c v (if isl r then W else f ` W) (isl r \<or> failed) fl s'"
proof -
  obtain ctx d where s: "s = (ctx, d)" by (cases s)
  obtain t where t: "view d c = Some t" "case t of None \<Rightarrow> failed | Some w \<Rightarrow> w \<in> W" using assms(1) by (auto simp: inside_def s)
  obtain x d' where x: "g c d = (x, d')" by (cases "g c d")
  have law: "committed d' = committed d" "case x of Ok a \<Rightarrow> view d' c = Some (map_option f t) | Err e \<Rightarrow> view d' c \<in> {Some None, Some t}"
    using assms(3) t(1) x unfolding statement_law_def by blast+
  have "isl r = isl x" "s' = (ctx, d')"
    using assms(1,2) x by (auto simp: inside_def s with_connection_def split: sum.splits)
  then show ?thesis using assms(1) law t(2) by (cases x; cases t) (auto simp: inside_def s)
qed

lemma inside_ensure_connection: "inside committed view c v W failed fl s \<Longrightarrow> ensure_connection pg s = (Ok (), s)"
  by (cases s) (simp add: inside_def ensure_connection_def)

lemma inside_query:
  assumes "postgres_law pg committed view eff ordinary" "ordinary sql"
    and "inside committed view c v W failed fl s" "db_query pg sql ps s = (r, s')"
  shows "inside committed view c v (if isl r then W else eff sql ps ` W) (isl r \<or> failed) fl s'"
proof (rule inside_with_connection [OF assms(3)])
  show "with_connection (\<lambda>c. pg_query pg c sql ps) ''Query failed: '' s = (r, s')"
    using assms(4) by (simp add: db_query_def inside_ensure_connection [OF assms(3)])
qed (use assms(1,2) in \<open>simp add: postgres_law_def\<close>)

lemma inside_execute:
  assumes "postgres_law pg committed view eff ordinary" "ordinary sql"
    and "inside committed view c v W failed fl s" "db_execute pg sql ps s = (r, s')"
  shows "inside committed view c v (if isl r then W else eff sql ps ` W) (isl r \<or> failed) fl s'"
proof (rule inside_with_connection [OF assms(3)])
  show "with_connection (\<lambda>c. pg_execute pg c sql ps) ''Execute failed: '' s = (r, s')"
    using assms(4) by (simp add: db_execute_def inside_ensure_connection [OF assms(3)])
qed (use assms(1,2) in \<open>simp add: postgres_law_def\<close>)

lemma inside_execute_many:
  assumes "postgres_law pg committed view eff ordinary" "ordinary sql"
  shows "inside committed view c v W failed fl s \<Longrightarrow> execute_many pg sql pss n s = (r, s') \<Longrightarrow>
    inside committed view c v (if isl r then \<Union>k < length pss. fold (eff sql) (take k pss) ` W else fold (eff sql) pss ` W)
      (isl r \<or> failed) fl s'"
proof (induction pss arbitrary: n W failed s)
  case (Cons ps pss)
  obtain x s1 where x: "db_execute pg sql ps s = (x, s1)" by (cases "db_execute pg sql ps s")
  note step = inside_execute [OF assms Cons.prems(1) x]
  show ?case
  proof (cases x)
    case (Inr k)
    then have "execute_many pg sql pss (n + k) s1 = (r, s')" using Cons.prems(2) by (simp add: x)
    from Cons.IH [OF _ this, of "eff sql ps ` W" failed] step Inr
    have "inside committed view c v (if isl r then \<Union>k < length pss. fold (eff sql) (take k pss) ` eff sql ps ` W
        else fold (eff sql) pss ` eff sql ps ` W) (isl r \<or> failed) fl s'" by simp
    then show ?thesis by (rule inside_mono) (auto simp: image_comp comp_def intro!: bexI [of _ "Suc _"])
  next
    case (Inl e)
    with Cons.prems(2) x have "r = Inl e" "s' = s1" by auto
    with step Inl show ?thesis by (auto elim!: inside_mono intro!: bexI [of _ 0])
  qed
qed (auto elim: inside_mono)

lemma inside_stmt:
  assumes law: "postgres_law pg committed view eff ordinary" and st: "ordinary_stmt ordinary st"
    and s: "inside committed view c v W failed fl s" and run: "stmt_apply pg st s = (ok, s')"
  shows "inside committed view c v (applied eff st ok W) (\<not> ok \<or> failed) (stmt_flags st fl) s'"
proof (cases st)
  case (StQuery sql ps)
  with run obtain r where r: "db_query pg sql ps s = (r, s')" "ok = (\<not> isl r)" by (auto split: prod.splits)
  from inside_query [OF law _ s r(1)] st StQuery r(2) show ?thesis by (cases ok) simp_all
next
  case (StExecute sql ps)
  with run obtain r where r: "db_execute pg sql ps s = (r, s')" "ok = (\<not> isl r)" by (auto split: prod.splits)
  from inside_execute [OF law _ s r(1)] st StExecute r(2) show ?thesis by (cases ok) simp_all
next
  case (StMany sql pss)
  with run obtain r where r: "execute_many pg sql pss 0 s = (r, s')" "ok = (\<not> isl r)" by (auto split: prod.splits)
  from inside_execute_many [OF law _ s r(1)] st StMany r(2) show ?thesis by (cases ok) simp_all
qed (use s run in \<open>cases s; cases fl; auto simp: inside_def set_auto_commit_def set_error_def\<close>)+

lemma inside_run:
  assumes law: "postgres_law pg committed view eff ordinary"
  shows "list_all (ordinary_stmt ordinary) sts \<Longrightarrow> inside committed view c v W failed fl s \<Longrightarrow> run_stmts pg sts s = (oks, s') \<Longrightarrow>
    length oks = length sts \<and>
    inside committed view c v (published eff sts oks W) (False \<in> set oks \<or> failed) (fold stmt_flags sts fl) s'"
proof (induction sts arbitrary: W failed fl s oks)
  case (Cons st sts)
  obtain ok s1 where st: "stmt_apply pg st s = (ok, s1)" by (cases "stmt_apply pg st s")
  obtain rest where rest: "run_stmts pg sts s1 = (rest, s')" "oks = ok # rest"
    using Cons.prems(3) st by (auto split: prod.splits)
  from inside_stmt [OF law _ Cons.prems(2) st] Cons.prems(1)
  have "inside committed view c v (applied eff st ok W) (\<not> ok \<or> failed) (stmt_flags st fl) s1" by simp
  from Cons.IH [OF _ this rest(1)] Cons.prems(1) rest(2) show ?case by (auto elim: inside_mono)
qed auto

text \<open>\<open>begin\<close> on the context of a new request: it fails without a trace, or the request is inside a transaction.\<close>

lemma begin_new:
  assumes law: "postgres_law pg committed view eff ordinary"
    and run: "begin_tx pg (db_context_new rid al, d) = (r, s)"
  shows "case r of
      Err e \<Rightarrow> committed (snd s) = committed d \<and> \<not> dc_in_transaction (fst s)
    | Ok u \<Rightarrow> \<exists>c. inside committed view c (committed d) {committed d} False (True, False) s"
proof (cases "pg_pool pg al d")
  case True
  obtain g d1 where g: "pg_get pg al d = (g, d1)" by (cases "pg_get pg al d")
  have l: "committed d1 = committed d" "g = Ok c \<Longrightarrow> view d1 c = None" for c
    using law g unfolding postgres_law_def get_law_def by blast+
  show ?thesis
  proof (cases g)
    case (Inr c)
    obtain x d2 where x: "pg_execute pg c ''BEGIN'' [] d1 = (x, d2)" by (cases "pg_execute pg c ''BEGIN'' [] d1")
    have "committed d2 = committed d1 \<and> view d2 c = (case x of Ok n \<Rightarrow> Some (Some (committed d1)) | Err e \<Rightarrow> None)"
      using law x l(2) [OF Inr] unfolding postgres_law_def begin_law_def by blast
    with run True g Inr x l(1) show ?thesis
      by (cases x) (auto simp: begin_tx_def ensure_connection_def with_connection_def db_context_new_def inside_def)
  qed (use run True g l(1) in \<open>auto simp: begin_tx_def ensure_connection_def db_context_new_def\<close>)
qed (use run in \<open>auto simp: begin_tx_def ensure_connection_def db_context_new_def\<close>)

text \<open>Finalizing a context inside a transaction.\<close>

lemma close_inside:
  assumes law: "postgres_law pg committed view eff ordinary"
    and s: "inside committed view c v W failed (auto_commit, err) s" and run: "close_context pg s = (r, s')"
  shows "if auto_commit \<and> \<not> err then (r = Ok () \<longrightarrow> committed (snd s') \<in> W \<or> failed \<and> committed (snd s') = v)
         else committed (snd s') = v"
proof -
  obtain ctx d where sd: "s = (ctx, d)" by (cases s)
  obtain t where in_tx: "dc_in_transaction ctx" "dc_connection ctx = Some c" "dc_auto_commit ctx = auto_commit" "dc_has_error ctx = err"
    "view d c = Some t" "committed d = v" and t: "case t of None \<Rightarrow> failed | Some w \<Rightarrow> w \<in> W"
    using s by (auto simp: inside_def sd)
  obtain x d' where x: "pg_execute pg c (if auto_commit \<and> \<not> err then ''COMMIT'' else ''ROLLBACK'') [] d = (x, d')"
    by (cases "pg_execute pg c (if auto_commit \<and> \<not> err then ''COMMIT'' else ''ROLLBACK'') [] d")
  have "if auto_commit \<and> \<not> err then (\<not> isl x \<longrightarrow> committed d' = (case t of Some w \<Rightarrow> w | None \<Rightarrow> v)) else committed d' = v"
  proof (cases "auto_commit \<and> \<not> err")
    case True
    have "commit_law committed view c (pg_execute pg c ''COMMIT'' [])" using law by (simp add: postgres_law_def)
    with True x in_tx(5,6) show ?thesis by (cases x) (auto simp: commit_law_def)
  next
    case False
    have "rollback_law committed view c (pg_execute pg c ''ROLLBACK'' [])" using law by (simp add: postgres_law_def)
    moreover have "pg_execute pg c ''ROLLBACK'' [] d = (x, d')" using x by (simp only: if_not_P [OF False])
    ultimately have "committed d' = committed d" using in_tx(5) unfolding rollback_law_def by blast
    with False in_tx(6) show ?thesis by auto
  qed
  with run x in_tx(1-4) sd t show ?thesis
    by (cases x; cases t) (auto simp: close_context_def end_transaction_def commit_def rollback_def with_connection_def split: if_splits)
qed

lemma close_outside: "\<not> dc_in_transaction ctx \<Longrightarrow> snd (snd (close_context pg (ctx, d))) = d"
  by (simp add: close_context_def end_transaction_def)

text \<open>A new request is its body on a new context, then \<open>finalize\<close> on it.\<close>

lemma run_request_new:
  assumes new: "get_request_context ds request_id alias = None"
    and body: "request_body pg stmts (db_context_new request_id alias, ds_db ds) = (b, ctx, d)"
    and close: "close_context pg (ctx, d) = (r, ctx3, d3)"
  shows "\<exists>ds'. run_request pg request_id alias stmts ds = (b, r, ds') \<and> ds_db ds' = d3"
proof -
  let ?a = "length (ds_store ds)"
  obtain ds1 where ds1: "get_db request_id alias ds = (?a, ds1)" "ds_store ds1 = ds_store ds @ [db_context_new request_id alias]"
    "ds_db ds1 = ds_db ds" "get_request_context ds1 request_id alias = Some ?a"
    using new by (auto simp: get_db_def create_request_context_def get_request_context_def Let_def split: option.splits)
  let ?ds2 = "ds1\<lparr>ds_store := (ds_store ds1)[?a := ctx], ds_db := d\<rparr>"
  have "finalize pg ?a ?ds2 = (r, snd (finalize pg ?a ?ds2))" "ds_db (snd (finalize pg ?a ?ds2)) = d3"
    using close by (auto simp: finalize_def on_context_def ds1(2) split: sum.splits)
  then show ?thesis
    using ds1 body by (auto simp: run_request_def on_context_def finalize_db_def get_request_context_def split: prod.splits)
qed

text \<open>
  \<^bold>\<open>C23\<close> What a request with a transaction publishes. Over a database that keeps transactions as
  PostgreSQL documents them, take a request that begins a transaction on its own session, sends ordinary
  statements, sets flags and is finalized. If \<open>begin\<close> fails, an error was set or auto-commit is off at the end, the
  data are as before, even when the final statement itself fails. If it asked for a commit and every
  statement succeeded, a commit that succeeds publishes the effects of all statements in order. If
  a statement failed and the handler still asks for the commit, either nothing is published or exactly what
  succeeded, in order: it is all or nothing only when failures are reported with \<open>set_error\<close>.
\<close>

theorem request_all_or_nothing:
  assumes law: "postgres_law pg committed view eff ordinary"
    and new: "get_request_context ds request_id alias = None"
    and stmts: "list_all (ordinary_stmt ordinary) stmts"
  shows "case run_request pg request_id alias stmts ds of
      (Ok oks, r, ds') \<Rightarrow>
        if wants_commit stmts
        then (r = Ok () \<longrightarrow>
                (if False \<notin> set oks then committed (ds_db ds') = fold (stmt_eff eff) stmts (committed (ds_db ds))
                 else committed (ds_db ds') = committed (ds_db ds) \<or>
                      committed (ds_db ds') \<in> published eff stmts oks {committed (ds_db ds)}))
        else committed (ds_db ds') = committed (ds_db ds)
    | (Err e, r, ds') \<Rightarrow> committed (ds_db ds') = committed (ds_db ds)"
proof -
  let ?v = "committed (ds_db ds)"
  obtain b ctx d where body: "request_body pg stmts (db_context_new request_id alias, ds_db ds) = (b, ctx, d)"
    by (cases "request_body pg stmts (db_context_new request_id alias, ds_db ds)")
  obtain r ctx3 d3 where close: "close_context pg (ctx, d) = (r, ctx3, d3)" by (cases "close_context pg (ctx, d)")
  note run = run_request_new [OF new body close]
  have "committed d3 = ?v" if "b = Err e" for e
  proof -
    have "begin_tx pg (db_context_new request_id alias, ds_db ds) = (Err e, ctx, d)"
      using body that by (auto simp: request_body_def split: prod.splits sum.splits)
    from begin_new [OF law this] close_outside [of ctx pg d] close show ?thesis by simp
  qed
  moreover have "if wants_commit stmts
      then (r = Ok () \<longrightarrow> (if False \<notin> set oks then committed d3 = fold (stmt_eff eff) stmts ?v
                            else committed d3 = ?v \<or> committed d3 \<in> published eff stmts oks {?v}))
      else committed d3 = ?v" if b: "b = Ok oks" for oks
  proof -
    obtain s1 where s1: "begin_tx pg (db_context_new request_id alias, ds_db ds) = (Ok (), s1)" "run_stmts pg stmts s1 = (oks, ctx, d)"
      using body b by (auto simp: request_body_def split: prod.splits sum.splits)
    from begin_new [OF law s1(1)] obtain c where "inside committed view c ?v {?v} False (True, False) s1" by auto
    from inside_run [OF law stmts this s1(2)] have len: "length oks = length stmts"
      and i: "inside committed view c ?v (published eff stmts oks {?v}) (False \<in> set oks) (fold stmt_flags stmts (True, False)) (ctx, d)"
      by auto
    obtain auto_commit err where fl: "fold stmt_flags stmts (True, False) = (auto_commit, err)" by fastforce
    have w: "wants_commit stmts = (auto_commit \<and> \<not> err)" by (simp add: wants_commit_def fl)
    have "committed d3 = fold (stmt_eff eff) stmts ?v" if "False \<notin> set oks" "committed d3 \<in> published eff stmts oks {?v}"
      using published_all [OF that(1) len, of eff "{?v}"] that(2) by simp
    with close_inside [OF law i [unfolded fl] close] show ?thesis
      unfolding w by (cases "auto_commit \<and> \<not> err"; cases "False \<in> set oks") auto
  qed
  ultimately show ?thesis using run by (cases b) auto
qed

text \<open>
  A database of statement names on which \<open>BAD\<close> fails and aborts the transaction, while \<open>WRONG\<close> is not even sent:
  what is published, and the transaction of its one connection.
\<close>

definition run_in :: "string \<Rightarrow> string list \<times> string list option option \<Rightarrow> (string + u64) \<times> string list \<times> string list option option" where
  "run_in sql = (\<lambda>(v, t).
     if sql = ''WRONG'' then (Err ''wrong type'', v, t)
     else case t of
       None \<Rightarrow> if sql = ''BAD'' then (Err ''bad'', v, None) else (Ok 1, v @ [sql], None)
     | Some None \<Rightarrow> (Err ''aborted'', v, Some None)
     | Some (Some w) \<Rightarrow> if sql = ''BAD'' then (Err ''bad'', v, Some None) else (Ok 1, v, Some (Some (w @ [sql]))))"

definition named_pg :: "(unit, unit, unit, string list \<times> string list option option) postgres" where
  "named_pg =
     \<lparr>pg_pool = (\<lambda>al d. True), pg_get = (\<lambda>al (v, t). (Ok (), v, None)),
      pg_execute = (\<lambda>c sql ps (v, t).
        if sql = ''BEGIN'' then (Ok 0, v, Some (Some v))
        else if sql = ''COMMIT'' then (Ok 0, case t of Some (Some w) \<Rightarrow> w | _ \<Rightarrow> v, None)
        else if sql = ''ROLLBACK'' then (Ok 0, v, None)
        else run_in sql (v, t)),
      pg_query = (\<lambda>c sql ps s. case run_in sql s of (Ok n, s) \<Rightarrow> (Ok [], s) | (Err e, s) \<Rightarrow> (Err e, s))\<rparr>"

lemma named_pg_law:
  "postgres_law named_pg fst (\<lambda>d c. snd d) (\<lambda>sql ps w. w @ [sql]) (\<lambda>sql. sql \<notin> {''BEGIN'', ''COMMIT'', ''ROLLBACK''})"
  unfolding postgres_law_def
proof (intro conjI allI impI)
  show "get_law fst (\<lambda>d c. snd d) (pg_get named_pg al)" for al
    by (auto simp: get_law_def named_pg_def split: prod.splits)
  show "begin_law fst (\<lambda>d c. snd d) c (pg_execute named_pg c ''BEGIN'' [])" for c
    by (auto simp: begin_law_def named_pg_def)
  show "commit_law fst (\<lambda>d c. snd d) c (pg_execute named_pg c ''COMMIT'' [])" for c
    by (auto simp: commit_law_def named_pg_def split: option.splits)
  show "rollback_law fst (\<lambda>d c. snd d) c (pg_execute named_pg c ''ROLLBACK'' [])" for c
    by (auto simp: rollback_law_def named_pg_def)
next
  fix c :: unit and sql :: string and ps :: "unit list"
  assume sql: "sql \<notin> {''BEGIN'', ''COMMIT'', ''ROLLBACK''}"
  have run: "statement_law fst (\<lambda>d c. snd d) c (\<lambda>w. w @ [sql]) (run_in sql)"
    by (auto simp: statement_law_def run_in_def split: if_splits option.splits)
  moreover have "pg_execute named_pg c sql ps = run_in sql" using sql by (auto simp: named_pg_def fun_eq_iff)
  ultimately show "statement_law fst (\<lambda>d c. snd d) c (\<lambda>w. w @ [sql]) (pg_execute named_pg c sql ps)" by simp
  show "statement_law fst (\<lambda>d c. snd d) c (\<lambda>w. w @ [sql]) (pg_query named_pg c sql ps)"
    by (auto simp: statement_law_def named_pg_def run_in_def split: if_splits option.splits)
qed

theorem request_all_or_nothing_witness:
  "fst (ds_db (snd (snd (run_request named_pg ''r'' ''default'' [StExecute ''A'' [], StMany ''B'' [[], []]]
     \<lparr>ds_contexts = [], ds_store = [], ds_db = ([''Z''], None)\<rparr>)))) = [''Z'', ''A'', ''B'', ''B''] \<and>
   fst (ds_db (snd (snd (run_request named_pg ''r'' ''default'' [StExecute ''A'' [], StExecute ''BAD'' []]
     \<lparr>ds_contexts = [], ds_store = [], ds_db = ([''Z''], None)\<rparr>)))) = [''Z''] \<and>
   fst (ds_db (snd (snd (run_request named_pg ''r'' ''default'' [StExecute ''A'' [], StExecute ''WRONG'' [], StExecute ''B'' []]
     \<lparr>ds_contexts = [], ds_store = [], ds_db = ([''Z''], None)\<rparr>)))) = [''Z'', ''A'', ''B''] \<and>
   fst (ds_db (snd (snd (run_request named_pg ''r'' ''default'' [StExecute ''A'' [], StError]
     \<lparr>ds_contexts = [], ds_store = [], ds_db = ([''Z''], None)\<rparr>)))) = [''Z'']"
proof -
  let ?ds = "\<lparr>ds_contexts = [], ds_store = [], ds_db = ([''Z''], None)\<rparr> :: (unit, string list \<times> string list option option) db_system"
  have new: "get_request_context ?ds ''r'' ''default'' = None" by (simp add: get_request_context_def)
  note app = request_all_or_nothing [OF named_pg_law new]
  note ev = run_request_def get_db_def new create_request_context_def on_context_def request_body_def begin_tx_def ensure_connection_def
    with_connection_def db_context_new_def named_pg_def run_in_def db_execute_def finalize_db_def finalize_def close_context_def
    end_transaction_def commit_def rollback_def get_request_context_def set_error_def
  show ?thesis
    using app [of "[StExecute ''A'' [], StMany ''B'' [[], []]]"] app [of "[StExecute ''A'' [], StExecute ''BAD'' []]"]
      app [of "[StExecute ''A'' [], StExecute ''WRONG'' [], StExecute ''B'' []]"] app [of "[StExecute ''A'' [], StError]"]
    by (simp add: ev wants_commit_def)
qed

text \<open>
  Outside a transaction the end of the request sends nothing, whether or not an error was set: a
  statement sent without \<open>begin\<close> is published at once and stays.
\<close>

lemma error_outside_transaction_not_undone:
  assumes "dc_connection ctx = None" "\<not> dc_in_transaction ctx" "db_execute pg sql ps (ctx, d) = (r, ctx', d')"
  shows "snd (snd (close_context pg (set_error ctx', d'))) = d'"
proof -
  have "\<not> dc_in_transaction ctx'"
    using assms by (auto simp: db_execute_def ensure_connection_def with_connection_def split: if_splits prod.splits sum.splits)
  then show ?thesis by (simp add: close_outside set_error_def)
qed

end
