(* ===== verification/Rate_Serving.thy ===== *)
theory Rate_Serving
  imports Rate_Limit Header_Middleware Serving
begin

text \<open>
  The rate limiter (\<open>src/middleware/builtin.rs\<close>) in front of the handlers of a worker
  (\<open>src/core/worker.rs\<close>): how often Python runs for a client.
\<close>

subsection \<open>Middleware that leaves the limiter alone\<close>

definition keeps_world :: "'w middleware \<Rightarrow> bool" where
  "keeps_world m = (\<forall>c w. snd (snd (mw_execute m c w)) = w)"

lemma run_chain_keeps_world: "list_all keeps_world ms \<Longrightarrow> snd (snd (run_chain path meth ms c w)) = w"
proof (induction ms arbitrary: c)
  case (Cons m ms)
  obtain r c' w' where m: "mw_execute m c w = (r, c', w')" by (cases "mw_execute m c w")
  moreover have "w' = w" using Cons.prems m by (simp add: keeps_world_def) (metis snd_conv)
  ultimately show ?case using Cons by (auto split: mw_result.split)
qed simp

lemma run_handlers_keeps_world: "list_all keeps_world hs \<Longrightarrow> snd (snd (run_handlers path hs c w)) = w"
proof (induction hs arbitrary: c)
  case (Cons m ms)
  obtain r c' w' where m: "mw_execute m c w = (r, c', w')" by (cases "mw_execute m c w")
  moreover have "w' = w" using Cons.prems m by (simp add: keeps_world_def) (metis snd_conv)
  ultimately show ?case using Cons by (auto split: mw_result.split)
qed simp

lemma execute_error_keeps_world:
  assumes "list_all keeps_world (ch_error_handlers ch)"
  shows "snd (snd (execute_error ch c e w)) = w"
proof -
  obtain r c' w' where "run_handlers (mc_path (store_error e c)) (ch_error_handlers ch) (store_error e c) w = (r, c', w')"
    by (cases "run_handlers (mc_path (store_error e c)) (ch_error_handlers ch) (store_error e c) w")
  with run_handlers_keeps_world [OF assms, of "mc_path (store_error e c)" "store_error e c" w] show ?thesis
    by (cases r) (simp_all add: execute_error_def Let_def)
qed

text \<open>A chain with the limiter in front, and nothing else that touches its table.\<close>

definition limited_chain :: "rate_config \<Rightarrow> (instant \<times> rate_clients) chain \<Rightarrow> bool" where
  "limited_chain cfg ch =
     (case ch_before ch of
        [] \<Rightarrow> False
      | m # post \<Rightarrow> m = rate_limit_middleware cfg \<and> list_all keeps_world post \<and> list_all keeps_world (ch_after ch) \<and>
          list_all keeps_world (ch_error_handlers ch))"

subsection \<open>Requests of a worker\<close>

abbreviation wire_context ::
  "('m, 'f, 'g, 'q, 'b, 'p) worker_libs \<Rightarrow> instant \<Rightarrow> 'b axum_request \<Rightarrow> mw_context" where
  "wire_context lib now req \<equiv> request_context lib now (request_from_axum (wl_web lib) req)"

text \<open>
  Requests served one after the other: the client of each and whether Python ran for it, that is
  whether its state changed or the handler never returned.
\<close>

fun python_runs ::
  "('m, 'f, 'g, 'q, 'b, 'p) worker_libs \<Rightarrow> ('m, 'f, instant \<times> rate_clients) app_state \<Rightarrow> rate_config \<Rightarrow>
   (instant \<times> 'b axum_request) list \<Rightarrow> rate_clients \<Rightarrow> 'p \<Rightarrow> (string \<times> bool) list" where
  "python_runs lib st cfg [] cl p = []"
| "python_runs lib st cfg ((now, req) # reqs) cl p =
     (let k = get_client_key cfg (wire_context lib now req) in
      case handle_request_inner lib st now req (now, cl) p of
        None \<Rightarrow> [(k, True)]
      | Some (out, (_, cl'), p') \<Rightarrow> (k, p' \<noteq> p) # python_runs lib st cfg reqs cl' p')"

text \<open>With other middleware that keep the world, a request leaves the world of the before-chain.\<close>

lemma inner_world:
  assumes ne: "ch_before (as_middleware st) \<noteq> []"
    and before: "execute_before (as_middleware st) (wire_context lib now req) w = (r, c1, w1)"
    and aft: "list_all keeps_world (ch_after (as_middleware st))" and err: "list_all keeps_world (ch_error_handlers (as_middleware st))"
  shows "case handle_request_inner lib st now req w p of
      None \<Rightarrow> r = Continue | Some (out, w', p') \<Rightarrow> w' = w1 \<and> (r \<noteq> Continue \<longrightarrow> p' = p)"
proof (cases r)
  case Continue
  have "snd (snd (execute_after (as_middleware st) c w1)) = w1" for c
    using run_chain_keeps_world [OF aft] by (simp add: execute_after_def)
  moreover define f where "f c = fst (snd (execute_after (as_middleware st) c w1))" for c
  ultimately have "snd (execute_after (as_middleware st) c w1) = (f c, w1)" for c by (simp add: prod_eq_iff)
  with Continue before ne show ?thesis
    by (auto simp: handle_request_inner_def Let_def is_empty_before_def split: option.splits if_splits)
next
  case (Response m)
  with before ne show ?thesis by (simp add: handle_request_inner_def Let_def is_empty_before_def)
next
  case (Error e)
  obtain x c2 w2 where x: "execute_error (as_middleware st) c1 e w1 = (x, c2, w2)" by (cases "execute_error (as_middleware st) c1 e w1")
  with execute_error_keeps_world [OF err, of c1 e w1] have "w2 = w1" by simp
  with x Error before ne show ?thesis
    by (cases x) (simp_all add: handle_request_inner_def Let_def is_empty_before_def)
qed

lemma rate_limit_first:
  assumes "limited_chain cfg (as_middleware st)"
    and "rate_execute cfg now now (wire_context lib now req) cl = (res, c', cl')"
  shows "case handle_request_inner lib st now req (now, cl) p of
      None \<Rightarrow> res = Continue
    | Some (out, w', p') \<Rightarrow> w' = (now, cl') \<and> (res \<noteq> Continue \<longrightarrow> p' = p)"
proof -
  let ?c = "wire_context lib now req" and ?ch = "as_middleware st"
  obtain post where ch: "ch_before ?ch = rate_limit_middleware cfg # post" "list_all keeps_world post"
    "list_all keeps_world (ch_after ?ch)" "list_all keeps_world (ch_error_handlers ?ch)"
    using assms(1) by (auto simp: limited_chain_def split: list.splits)
  have run: "execute_before ?ch ?c (now, cl) =
      (case res of Continue \<Rightarrow> run_chain (mc_path ?c) (mc_method ?c) post c' (now, cl') | _ \<Rightarrow> (res, c', (now, cl')))"
    using assms(2) by (simp add: execute_before_def ch(1) rate_limit_middleware_def mw_default_def split: mw_result.split)
  obtain r c1 w1 where before: "execute_before ?ch ?c (now, cl) = (r, c1, w1)" by (cases "execute_before ?ch ?c (now, cl)")
  have "w1 = (now, cl')"
    using before run_chain_keeps_world [OF ch(2), of "mc_path ?c" "mc_method ?c" c' "(now, cl')"]
    by (cases res) (simp_all add: run)
  moreover have "res = Continue" if "r = Continue" using before that by (cases res) (simp_all add: run)
  ultimately show ?thesis
    using inner_world [OF _ before ch(3,4), of p] ch(1) by (auto split: option.splits)
qed

text \<open>Python runs for at most the requests the limiter lets through.\<close>

lemma python_runs_limited:
  assumes "limited_chain cfg (as_middleware st)"
  shows "passed_of k (python_runs lib st cfg reqs cl p) \<le>
    passed_of k (rate_run cfg (map (\<lambda>(now, req). (now, wire_context lib now req)) reqs) cl)"
proof (induction reqs arbitrary: cl p)
  case (Cons q reqs)
  obtain now req where q: "q = (now, req)" by (cases q)
  obtain res c' cl' where r: "rate_execute cfg now now (wire_context lib now req) cl = (res, c', cl')"
    by (cases "rate_execute cfg now now (wire_context lib now req) cl")
  note first = rate_limit_first [OF assms r, of p]
  show ?case
  proof (cases "handle_request_inner lib st now req (now, cl) p")
    case None
    with first r show ?thesis by (simp add: q passed_of_def)
  next
    case (Some a)
    obtain out t cl1 p' where a: "a = (out, (t, cl1), p')" by (cases a) auto
    with first Some r Cons.IH [of cl' p'] show ?thesis by (auto simp: q passed_of_Cons)
  qed
qed (simp add: passed_of_def)

text \<open>
  \<^bold>\<open>C6\<close> The rate limit bounds the work of Python. With a fixed-window limiter first in the chain of a
  worker, and whatever routes, handlers and other middleware there are that leave its table alone, serving any
  interleaving of requests of any clients on limited paths runs Python for one client at most
  \<open>max_requests\<close> times within a window of its first request.
\<close>

theorem python_work_limited:
  assumes "limited_chain cfg (as_middleware st)" "rl_algorithm cfg = FixedWindow"
    and "list_all (\<lambda>(now, req). limited cfg (wire_context lib now req)) reqs"
    and "times_of cfg k (map (\<lambda>(now, req). (now, wire_context lib now req)) reqs) = t0 # ts"
    and "list_all (\<lambda>t. t - t0 < rl_window cfg) (t0 # ts)" "length (t0 # ts) < 2 ^ 64"
  shows "passed_of k (python_runs lib st cfg reqs [] p) \<le> unat (rl_max_requests cfg)"
proof -
  let ?cs = "map (\<lambda>(now, req). (now, wire_context lib now req)) reqs"
  have "list_all (\<lambda>(t, c). limited cfg c) ?cs" using assms(3) by (auto simp: list_all_iff)
  from rate_run_quota [OF assms(2) this assms(4-6)]
  have "passed_of k (rate_run cfg ?cs []) \<le> unat (rl_max_requests cfg)" by simp
  with python_runs_limited [OF assms(1), of k lib reqs "[]" p] show ?thesis by linarith
qed

theorem python_work_limited_witness:
  "let cfg = with_algorithm FixedWindow (rate_new 2 60);
       req = (\<lambda>ip. \<lparr>ar_method = ''GET'', ar_path_query = Some (''/a'', None), ar_headers = [(''x-real-ip'', Some ip)], ar_body = ()\<rparr>);
       ch = chain_new\<lparr>ch_before := [rate_limit_middleware cfg, request_id_middleware request_id_new]\<rparr>
   in passed_of ''a'' (python_runs number_lib (worker_state number_lib ((router_new exact_matchit ''/'')\<lparr>get_router := [(''/a'', route_new ''/a'' 7 ''get'' None)], ro_routes := [route_new ''/a'' 7 ''get'' None]\<rparr>) ch) cfg
        [(0, req ''a''), (1, req ''b''), (2, req ''a''), (3, req ''a'')] [] []) \<le> 2"
proof -
  let ?cfg = "with_algorithm FixedWindow (rate_new 2 60)"
  let ?req = "\<lambda>ip. \<lparr>ar_method = ''GET'', ar_path_query = Some (''/a'', None), ar_headers = [(''x-real-ip'', Some ip)], ar_body = ()\<rparr>"
  let ?ch = "chain_new\<lparr>ch_before := [rate_limit_middleware ?cfg, request_id_middleware request_id_new]\<rparr>"
  let ?st = "worker_state number_lib ((router_new exact_matchit ''/'')\<lparr>get_router := [(''/a'', route_new ''/a'' 7 ''get'' None)], ro_routes := [route_new ''/a'' 7 ''get'' None]\<rparr>) ?ch"
  note cfg_defs = with_algorithm_def rate_new_def rate_default_def
  have ch: "limited_chain ?cfg (as_middleware ?st)"
    by (simp add: limited_chain_def worker_state_def chain_new_def keeps_world_def request_id_middleware_def stateless_def mw_default_def
        split: prod.split)
  have rq: "rq_headers (request_from_axum (wl_web number_lib) (?req ip)) = [(''x-real-ip'', ip)]"
    "rq_path (request_from_axum (wl_web number_lib) (?req ip)) = ''/a''" for ip
    by (simp_all add: request_from_axum_def request_new_def decode_path_def header_from_axum_def number_lib_def str_simps Let_def)
  have key: "get_client_key ?cfg (wire_context number_lib t (?req ip)) = ip" for t ip
    by (simp add: get_client_key_def cfg_defs get_header_def request_context_def context_new_def headers_map_def rq str_simps)
  have skip: "limited ?cfg (wire_context number_lib t (?req ip))" for t ip
    by (simp add: limited_def cfg_defs request_context_def context_new_def rq str_simps)
  have alg: "rl_algorithm ?cfg = FixedWindow" "rl_window ?cfg = 60000000000" "unat (rl_max_requests ?cfg) = 2"
    by (simp_all add: cfg_defs secs_def)
  have "passed_of ''a'' (python_runs number_lib ?st ?cfg [(0, ?req ''a''), (1, ?req ''b''), (2, ?req ''a''), (3, ?req ''a'')] [] [])
      \<le> unat (rl_max_requests ?cfg)"
    by (rule python_work_limited [OF ch alg(1), where ?t0.0 = 0 and ts = "[2, 3]"]) (simp_all add: key skip times_of_def alg(2))
  then show ?thesis by (simp only: Let_def alg(3))
qed

end
