(* ===== verification/Python_Module.thy ===== *)
theory Python_Module
  imports Server_Config Reload_Api
begin

text \<open>
  What Python sees of the crate: the table of the extension module (\<open>src/lib.rs\<close> and the \<open>register\<close>
  functions under \<open>src/utils\<close>) and the constructors called with some of their arguments left out
  (the signatures in \<open>src/middleware/mod.rs\<close>, \<open>src/logging/mod.rs\<close>).
\<close>

subsection \<open>The table of the module\<close>

text \<open>Adding a name that is there replaces its object, as setting an attribute does.\<close>

datatype py_object = PyClass | PyFunction

type_synonym py_module = "(string \<times> py_object) list"

definition add_class :: "string \<Rightarrow> py_module \<Rightarrow> py_module" where
  "add_class name m = AList.update name PyClass m"

definition add_function :: "string \<Rightarrow> py_module \<Rightarrow> py_module" where
  "add_function name m = AList.update name PyFunction m"

text \<open>The names that are registered, in order, and those the Python package imports.\<close>

definition class_names :: "string list" where
  "class_names =
     [''Server'', ''Route'', ''Router'', ''Response'', ''Request'', ''HeaderMap'', ''FormData'',
      ''UploadedFile'', ''Context'', ''DIContainer'', ''TaskExecutor'', ''TaskResult'', ''TaskStatus'',
      ''BlockingExecutor'', ''HttpClient'', ''ClientResponse'', ''MetricsRegistry'', ''RedisPool'',
      ''GrpcConfig'', ''GrpcServer'', ''SSEEvent'', ''SSEStream'', ''SSEGenerator'', ''StreamingResponse'',
      ''RustWebSocket'', ''WsMessage'', ''WsMessageType'', ''ChannelManager'', ''ChannelStats'',
      ''Subscriber'', ''TopicMatcher'', ''PresenceTracker'', ''PresenceInfo'', ''PresenceDiff'',
      ''RealtimeBroadcast'', ''BroadcastConfig'', ''BroadcastStats'', ''BroadcastSubscriber'',
      ''BackpressurePolicy'', ''HeartbeatMonitor'', ''HeartbeatConfig'', ''HeartbeatStats'', ''HealthCheck'',
      ''ReloadConfig'', ''ReloadManager'', ''CorsMiddleware'', ''RateLimitMiddleware'',
      ''SecurityHeadersMiddleware'', ''TimeoutMiddleware'', ''CompressionMiddleware'', ''RequestIdMiddleware'',
      ''LogMiddleware'', ''BasicAuthMiddleware'', ''CircuitBreakerMiddleware'', ''CacheMiddleware'',
      ''LogConfig'', ''StaticFileHandler'', ''ConnectionPool'', ''PoolConfig'', ''PoolStatus'', ''DbSession'',
      ''RowStream'', ''AnyPool'']"

definition str_names :: "string list" where
  "str_names =
     [''slugify'', ''truncate'', ''mask_email'', ''mask_phone'', ''mask_string'', ''snake_to_camel'',
      ''camel_to_snake'', ''keys_to_camel'', ''keys_to_snake'', ''pad_left'', ''pad_right'', ''word_count'',
      ''is_url_safe'']"

definition cursor_names :: "string list" where
  "cursor_names =
     [''paginate'', ''encode_cursor'', ''decode_cursor'']"

definition crypto_names :: "string list" where
  "crypto_names =
     [''random_token'', ''random_bytes'', ''hmac_sha256_hex'', ''hmac_sha256_bytes'', ''sha256_hex'',
      ''secure_compare'', ''b64_encode'', ''b64_decode'', ''b64url_encode'', ''b64url_decode'', ''uuid_v4'',
      ''uuid_v7'', ''fast_hash'', ''fast_hash_bytes'', ''jwt_sign_rs256'', ''jwt_verify_rs256'',
      ''jwt_sign_es256'', ''jwt_verify_es256'']"

definition time_names :: "string list" where
  "time_names =
     [''now_ms'', ''now_sec'', ''now_iso'', ''format_timestamp'', ''parse_iso'', ''relative_time'',
      ''elapsed_ms'', ''ms_to_sec'', ''sec_to_ms'']"

definition package_imports :: "string list" where
  "package_imports =
     [''AnyPool'', ''BackpressurePolicy'', ''BasicAuthMiddleware'', ''BlockingExecutor'', ''BroadcastConfig'',
      ''BroadcastStats'', ''BroadcastSubscriber'', ''CacheMiddleware'', ''ChannelManager'', ''ChannelStats'',
      ''CircuitBreakerMiddleware'', ''ClientResponse'', ''CompressionMiddleware'', ''ConnectionPool'',
      ''Context'', ''CorsMiddleware'', ''DIContainer'', ''DbSession'', ''FormData'', ''GrpcConfig'',
      ''GrpcServer'', ''HealthCheck'', ''HeartbeatConfig'', ''HeartbeatMonitor'', ''HeartbeatStats'',
      ''HttpClient'', ''LogConfig'', ''LogMiddleware'', ''PageInfo'', ''PoolConfig'', ''PoolStatus'',
      ''PresenceDiff'', ''PresenceInfo'', ''PresenceTracker'', ''RateLimitMiddleware'', ''RealtimeBroadcast'',
      ''RedisPool'', ''ReloadConfig'', ''ReloadManager'', ''Request'', ''RequestIdMiddleware'', ''Response'',
      ''Route'', ''Router'', ''SSEEvent'', ''SSEStream'', ''SecurityHeadersMiddleware'', ''Server'',
      ''StreamingResponse'', ''Subscriber'', ''TaskExecutor'', ''TaskResult'', ''TaskStatus'',
      ''TimeoutMiddleware'', ''TopicMatcher'', ''UploadedFile'', ''b64_decode'', ''b64_encode'',
      ''b64url_decode'', ''b64url_encode'', ''camel_to_snake'', ''decode_cursor'', ''elapsed_ms'',
      ''encode_cursor'', ''fast_hash'', ''fast_hash_bytes'', ''finalize_db'', ''finalize_db_all'',
      ''format_timestamp'', ''get_db'', ''hmac_sha256_bytes'', ''hmac_sha256_hex'', ''is_url_safe'',
      ''jwt_sign_es256'', ''jwt_sign_rs256'', ''jwt_verify_es256'', ''jwt_verify_rs256'', ''keys_to_camel'',
      ''keys_to_snake'', ''mask_email'', ''mask_phone'', ''mask_string'', ''ms_to_sec'', ''now_iso'',
      ''now_ms'', ''now_sec'', ''pad_left'', ''pad_right'', ''paginate'', ''parse_iso'', ''random_bytes'',
      ''random_token'', ''relative_time'', ''sec_to_ms'', ''secure_compare'', ''sha256_hex'', ''slugify'',
      ''snake_to_camel'', ''truncate'', ''uuid_v4'', ''uuid_v7'', ''word_count'']"

definition str_register :: "py_module \<Rightarrow> py_module" where
  "str_register = fold add_function str_names"

definition pagination_register :: "py_module \<Rightarrow> py_module" where
  "pagination_register m = fold add_function cursor_names (add_class ''PageInfo'' m)"

definition crypto_register :: "py_module \<Rightarrow> py_module" where
  "crypto_register = fold add_function crypto_names"

definition time_register :: "py_module \<Rightarrow> py_module" where
  "time_register = fold add_function time_names"

definition register_utils :: "py_module \<Rightarrow> py_module" where
  "register_utils m = time_register (crypto_register (pagination_register (str_register m)))"

definition hypern_module :: py_module where
  "hypern_module =
     register_utils (fold add_function [''get_db'', ''finalize_db'', ''finalize_db_all''] (fold add_class class_names []))"

lemma functions_keys:
  "map fst m = ks \<Longrightarrow> distinct (ks @ ns) \<Longrightarrow> map fst (fold add_function ns m) = ks @ ns"
  by (induction ns arbitrary: m ks) (auto simp: add_function_def update_new)

lemma class_key: "map fst m = ks \<Longrightarrow> distinct (ks @ [n]) \<Longrightarrow> map fst (add_class n m) = ks @ [n]"
  by (auto simp: add_class_def update_new)

lemma classes_keys:
  "map fst m = ks \<Longrightarrow> distinct (ks @ ns) \<Longrightarrow> map fst (fold add_class ns m) = ks @ ns"
  by (induction ns arbitrary: m ks) (auto simp: add_class_def update_new)

lemma distinct_front: "distinct (xs @ ys) \<Longrightarrow> distinct xs"
  by simp

definition module_names :: "string list" where
  "module_names =
     class_names @ [''get_db'', ''finalize_db'', ''finalize_db_all''] @ str_names @ [''PageInfo''] @ cursor_names @
     crypto_names @ time_names"

lemmas name_lists = class_names_def str_names_def cursor_names_def crypto_names_def time_names_def

lemma module_names_distinct: "distinct module_names"
  by (simp add: module_names_def name_lists)

text \<open>No registration replaces another one: the module has every name that was registered, each once.\<close>

lemma module_complete: "map fst hypern_module = module_names"
proof -
  let ?db = "[''get_db'', ''finalize_db'', ''finalize_db_all'']"
  let ?m1 = "fold add_class class_names []"
  let ?m2 = "fold add_function ?db ?m1"
  let ?m3 = "str_register ?m2"
  let ?m4 = "add_class ''PageInfo'' ?m3"
  let ?m5 = "pagination_register ?m3"
  let ?m6 = "crypto_register ?m5"
  have d6: "distinct ((((((class_names @ ?db) @ str_names) @ [''PageInfo'']) @ cursor_names) @ crypto_names) @ time_names)"
    using module_names_distinct by (simp only: module_names_def append_assoc)
  note d5 = distinct_front [OF d6]
  note d4 = distinct_front [OF d5]
  note d3 = distinct_front [OF d4]
  note d2 = distinct_front [OF d3]
  note d1 = distinct_front [OF d2]
  have "map fst ?m1 = class_names" using classes_keys [of "[]" "[]" class_names] distinct_front [OF d1] by simp
  from functions_keys [OF this d1] have "map fst ?m2 = class_names @ ?db" .
  from functions_keys [OF this d2] have "map fst ?m3 = (class_names @ ?db) @ str_names"
    by (simp only: str_register_def)
  from class_key [OF this d3] have "map fst ?m4 = ((class_names @ ?db) @ str_names) @ [''PageInfo'']" .
  from functions_keys [OF this d4] have "map fst ?m5 = (((class_names @ ?db) @ str_names) @ [''PageInfo'']) @ cursor_names"
    by (simp only: pagination_register_def)
  from functions_keys [OF this d5]
  have "map fst ?m6 = ((((class_names @ ?db) @ str_names) @ [''PageInfo'']) @ cursor_names) @ crypto_names"
    by (simp only: crypto_register_def)
  from functions_keys [OF this d6] show ?thesis
    by (simp only: hypern_module_def register_utils_def time_register_def module_names_def append_assoc)
qed

text \<open>Every import of the package finds its name.\<close>

lemma imports_resolve: "list_all (\<lambda>n. contains_key n hypern_module) package_imports"
proof -
  have "set package_imports \<subseteq> set module_names" by (simp add: package_imports_def module_names_def name_lists)
  then show ?thesis
    using module_complete by (auto simp: list_all_iff contains_key_iff keys_def image_set)
qed

subsection \<open>Constructors with arguments left out\<close>

text \<open>
  A parameter of a signature takes the value the caller gives and the default of the signature when the
  caller leaves it out (\<^const>\<open>None\<close>). A parameter whose default is \<open>None\<close> is itself an option.
\<close>

definition arg :: "'a \<Rightarrow> 'a option \<Rightarrow> 'a" where
  "arg d given = (case given of None \<Rightarrow> d | Some v \<Rightarrow> v)"

definition call_cors ::
  "string list option option \<Rightarrow> string list option option \<Rightarrow> string list option option \<Rightarrow>
   string list option option \<Rightarrow> bool option \<Rightarrow> nat option \<Rightarrow> cors_config" where
  "call_cors allowed_origins allowed_methods allowed_headers expose_headers credentials age =
     py_cors_new (arg None allowed_origins) (arg None allowed_methods) (arg None allowed_headers)
       (arg None expose_headers) (arg False credentials) (arg 86400 age)"

definition call_rate_limit ::
  "u32 option \<Rightarrow> nat option \<Rightarrow> string option \<Rightarrow> string option option \<Rightarrow> string list option option \<Rightarrow>
   string + rate_config option" where
  "call_rate_limit max_requests window_secs algorithm key_header skip_paths =
     py_rate_limit_new (arg 100 max_requests) (arg 60 window_secs) (arg ''sliding'' algorithm)
       (arg None key_header) (arg None skip_paths)"

definition call_security ::
  "bool option \<Rightarrow> nat option \<Rightarrow> string option \<Rightarrow> bool option \<Rightarrow> bool option \<Rightarrow> string option option \<Rightarrow>
   security_config" where
  "call_security hsts hsts_max_age frame_options content_type_options xss_protection csp =
     py_security_new (arg True hsts) (arg 31536000 hsts_max_age) (arg ''DENY'' frame_options)
       (arg True content_type_options) (arg True xss_protection) (arg None csp)"

definition call_timeout :: "nat option \<Rightarrow> duration" where
  "call_timeout timeout_secs = py_timeout_new (arg 30 timeout_secs)"

definition call_compression :: "nat option \<Rightarrow> compression_mw" where
  "call_compression min_size = py_compression_new (arg 1024 min_size)"

definition call_request_id :: "string option \<Rightarrow> request_id_mw" where
  "call_request_id header_name = py_request_id_new (arg ''X-Request-ID'' header_name)"

definition call_log :: "string option \<Rightarrow> bool option \<Rightarrow> string list option option \<Rightarrow> mw_log_config" where
  "call_log level log_hdrs skip_paths =
     py_log_new (arg ''info'' level) (arg False log_hdrs) (arg None skip_paths)"

definition call_basic_auth :: "string option \<Rightarrow> params option option \<Rightarrow> basic_auth" where
  "call_basic_auth realm users = py_basic_auth_new (arg ''Restricted'' realm) (arg None users)"

definition call_breaker :: "u32 option \<Rightarrow> u32 option \<Rightarrow> nat option \<Rightarrow> string list option option \<Rightarrow> breaker_config" where
  "call_breaker failure_threshold success_threshold timeout_secs paths =
     py_breaker_new (arg 5 failure_threshold) (arg 2 success_threshold) (arg 30 timeout_secs) (arg None paths)"

definition call_cache :: "nat option \<Rightarrow> bool option \<Rightarrow> nat option \<Rightarrow> string list option option \<Rightarrow> cache_config" where
  "call_cache ttl_seconds cache_control_respect max_cache_size paths =
     py_cache_new (arg 60 ttl_seconds) (arg True cache_control_respect) (arg 10000 max_cache_size) (arg None paths)"

definition call_log_config ::
  "string option \<Rightarrow> bool option \<Rightarrow> bool option \<Rightarrow> nat option \<Rightarrow> string list option option \<Rightarrow> log_config" where
  "call_log_config level log_req log_resp queue_size skip_paths =
     py_log_config (arg ''info'' level) (arg True log_req) (arg True log_resp) (arg 10000 queue_size)
       (arg None skip_paths)"

text \<open>The static constructors and the printed form of a log configuration.\<close>

definition cors_permissive :: cors_config where
  "cors_permissive = cors_default"

definition default_logger :: mw_log_config where
  "default_logger = mw_log_default"

definition py_log_config_repr :: "log_config \<Rightarrow> string" where
  "py_log_config_repr config =
     ''LogConfig(level='' @ [CHR 0x27] @ to_lower (level_str (lg_level config)) @ [CHR 0x27] @
     '', log_request='' @ show_bool (lg_log_request config) @ '', log_response='' @ show_bool (lg_log_response config) @ '')''"

lemma arg_simps [simp]: "arg d None = d" "arg d (Some v) = v"
  by (simp_all add: arg_def)

text \<open>
  The defaults are written twice, in the signatures and in the Rust constructors. They agree: a constructor
  called with nothing builds the configuration that the Rust side starts from.
\<close>

lemma year_in_seconds: "show_nat 31536000 = ''31536000''"
  by (simp add: show_nat.simps digit_char_def char_of_def bit_0)

lemma no_arguments_headers:
  "call_cors None None None None None None = cors_default"
  "call_security None None None None None None = security_default"
  "call_compression None = compression_new"
  "call_request_id None = request_id_new"
  by (simp_all add: call_cors_def py_cors_new_def cors_default_def call_security_def py_security_new_def
      security_default_def call_compression_def py_compression_new_def compression_new_def with_min_size_def
      call_request_id_def py_request_id_new_def request_id_new_def ri_with_header_def year_in_seconds)

lemma no_arguments_limits:
  "call_rate_limit None None None None None = Inr (Some rate_default)"
  "call_breaker None None None None = breaker_default"
  "call_cache None None None None = cache_config_new 60"
  by (simp_all add: call_rate_limit_def py_rate_limit_new_def parse_algorithm_def rate_new_def rate_default_def
      with_algorithm_def call_breaker_def py_breaker_new_def breaker_config_new_def breaker_default_def
      call_cache_def py_cache_new_def cache_config_new_def to_lower_def lower_char_def)

lemma no_arguments_logs:
  "call_log None None None = mw_log_default"
  "call_log_config None None None None None = log_config_default"
  by (simp_all add: call_log_def py_log_new_def mw_log_default_def with_level_def call_log_config_def
      py_log_config_def log_config_default_def level_from_str_def to_lower_def lower_char_def)

text \<open>
  An empty list of paths is not the same as none: it clears the paths that the rate limiter and the
  logger skip by default, while the access log of the middleware keeps them and adds to them.
\<close>

lemma given_skip_paths:
  "call_rate_limit None None None None (Some (Some ps)) = Inr (Some (rate_default\<lparr>rl_skip_paths := ps\<rparr>))"
  "call_log_config None None None None (Some (Some ps)) = log_config_default\<lparr>lg_skip_paths := ps\<rparr>"
  using no_arguments_limits(1) no_arguments_logs(2)
  by (simp_all add: call_rate_limit_def py_rate_limit_new_def parse_algorithm_def rate_new_def rate_default_def
      with_algorithm_def call_log_config_def py_log_config_def log_config_default_def level_from_str_def
      to_lower_def lower_char_def)

lemma given_log_skip_paths:
  "mlc_skip_paths (call_log None None (Some (Some ps))) = mlc_skip_paths mw_log_default @ ps"
proof -
  have "mlc_skip_paths (fold skip_path ps cfg) = mlc_skip_paths cfg @ ps" for cfg
    by (induction ps arbitrary: cfg) (simp_all add: skip_path_def)
  then show ?thesis
    by (simp add: call_log_def py_log_new_def with_level_def mw_log_default_def Let_def)
qed

end
