(* ===== verification/Hash_Utils.thy ===== *)
theory Hash_Utils
  imports Prelude
begin

text \<open>
  Hash helpers (\<open>src/utils/hash.rs\<close>) over a streaming hasher given as a parameter: what is shown is which
  bytes the helpers feed to it. Hashing a \<open>str\<close> writes its bytes and then the byte 255, which no UTF-8
  text contains, so the two strings of a route cannot run into each other.
\<close>

record 'h hasher =
  hs_default :: 'h
  hs_write :: "'h \<Rightarrow> string \<Rightarrow> 'h"
  hs_finish :: "'h \<Rightarrow> u64"

definition hash_into :: "'h hasher \<Rightarrow> string \<Rightarrow> 'h \<Rightarrow> 'h" where
  "hash_into a s h = hs_write a (hs_write a h s) [CHR 0xFF]"

definition hash_path :: "(string \<Rightarrow> u64) \<Rightarrow> string \<Rightarrow> u64" where
  "hash_path xxh3_64 path = xxh3_64 path"

definition hash_str :: "'h hasher \<Rightarrow> string \<Rightarrow> u64" where
  "hash_str a s = hs_finish a (hash_into a s (hs_default a))"

definition hash_route :: "'h hasher \<Rightarrow> string \<Rightarrow> string \<Rightarrow> u64" where
  "hash_route a http_method path = hs_finish a (hash_into a path (hash_into a http_method (hs_default a)))"

subsection \<open>The bytes that are hashed\<close>

text \<open>A hasher that keeps what it is fed, finished by a function of those bytes.\<close>

definition recording :: "(string \<Rightarrow> u64) \<Rightarrow> string hasher" where
  "recording f = \<lparr>hs_default = [], hs_write = (\<lambda>h s. h @ s), hs_finish = f\<rparr>"

lemma hash_route_bytes: "hash_route (recording f) m p = f (m @ [CHR 0xFF] @ p @ [CHR 0xFF])"
  by (simp add: hash_route_def hash_into_def recording_def)

lemma hash_str_bytes: "hash_str (recording f) s = f (s @ [CHR 0xFF])"
  by (simp add: hash_str_def hash_into_def recording_def)

lemma utf8_cont_no_FF: "\<not> utf8_cont (CHR 0xFF)"
  by (simp add: utf8_cont_def)

lemma utf8_lead_no_FF: "utf8_valid (a # s) \<Longrightarrow> a \<noteq> CHR 0xFF"
  by (auto simp: utf8_valid.simps(2) [of a s] Let_def simp del: utf8_valid.simps split: list.splits)

lemma utf8_valid_tail:
  "utf8_valid (a # s) \<Longrightarrow> \<exists>cs t. s = cs @ t \<and> list_all utf8_cont cs \<and> utf8_valid t"
proof -
  assume "utf8_valid (a # s)"
  then consider "utf8_valid s"
    | b t where "s = [b] @ t" "utf8_cont b" "utf8_valid t"
    | b c t where "s = [b, c] @ t" "utf8_cont b" "utf8_cont c" "utf8_valid t"
    | b c d t where "s = [b, c, d] @ t" "utf8_cont b" "utf8_cont c" "utf8_cont d" "utf8_valid t"
    unfolding utf8_valid.simps(2) [of a s] Let_def by (auto simp del: utf8_valid.simps split: list.splits if_splits)
  then show ?thesis
  proof cases
    case 1
    then show ?thesis by (intro exI [of _ "[]"] exI [of _ s]) simp
  next
    case (2 b t)
    then show ?thesis by (intro exI [of _ "[b]"] exI [of _ t]) simp
  next
    case (3 b c t)
    then show ?thesis by (intro exI [of _ "[b, c]"] exI [of _ t]) simp
  next
    case (4 b c d t)
    then show ?thesis by (intro exI [of _ "[b, c, d]"] exI [of _ t]) simp
  qed
qed

lemma utf8_no_FF: "utf8_valid s \<Longrightarrow> CHR 0xFF \<notin> set s"
proof (induction s rule: length_induct)
  case (1 s)
  show ?case
  proof (cases s)
    case (Cons a s')
    with 1 utf8_valid_tail obtain cs t where "s' = cs @ t" "list_all utf8_cont cs" "utf8_valid t" by blast
    moreover from this Cons 1 have "CHR 0xFF \<notin> set t" by simp
    ultimately show ?thesis using Cons 1 utf8_lead_no_FF utf8_cont_no_FF by (auto simp: list_all_iff)
  qed simp
qed

lemma separated_inject: "c \<notin> set m \<Longrightarrow> c \<notin> set m' \<Longrightarrow> m @ c # p = m' @ c # p' \<Longrightarrow> m = m' \<and> p = p'"
  by (induction m arbitrary: m') (auto simp: Cons_eq_append_conv)

text \<open>
  Two routes feed the hasher the same bytes only when they are the same route: a collision of
  \<open>hash_route\<close> is a collision of the hash function. Without the separator \<open>("GET", "/a")\<close> and
  \<open>("GET/", "a")\<close> would always collide.
\<close>

lemma hash_route_separates:
  assumes "utf8_valid m" "utf8_valid m'"
  shows "hash_into (recording f) p (hash_into (recording f) m []) =
         hash_into (recording f) p' (hash_into (recording f) m' []) \<longleftrightarrow> m = m' \<and> p = p'"
proof
  assume "hash_into (recording f) p (hash_into (recording f) m []) = hash_into (recording f) p' (hash_into (recording f) m' [])"
  then have "m @ CHR 0xFF # p @ [CHR 0xFF] = m' @ CHR 0xFF # p' @ [CHR 0xFF]"
    by (simp add: hash_into_def recording_def)
  from separated_inject [OF utf8_no_FF utf8_no_FF this] show "m = m' \<and> p = p'"
    using assms(1,2) by simp
qed simp

end
