(* ===== verification/Spec2Isabelle.thy ===== *)
theory Spec2Isabelle
  imports Cache_Races Json_Cache Cors Rate_Limit Header_Middleware Basic_Auth Circuit_Breaker Cache_Middleware
    Context_Api Reload_Api Path_Params Channel Broadcast Heartbeat Presence Sse Worker Tasks Db_Context Executor Crypto_Utils Static_Files Log_Middleware Di_Context Telemetry Db_Config Db_Session Socket Grpc Worker_Process Server_Config Response_Api Json_Api Websocket Str_Utils Time_Utils Db_Pool Memory_Pool Http_Client Redis_Client Global_State Db_Transaction
    Db_Atomicity Rate_Serving Python_Module Hash_Utils
begin

text \<open>
  Verification library for Hypern, a web framework whose server, router, middleware, realtime and
  database layers are a Rust crate (\<open>src/src/\<close>) used from Python. File names below are relative to
  \<open>src/src/\<close>.

  \<^bold>\<open>The program.\<close> A Python program builds a \<open>Server\<close> object (\<open>core/server.rs\<close>) with a router
  (\<open>routing/\<close>) and a chain of middleware (\<open>middleware/\<close>). \<open>start\<close> opens the listening socket
  (\<open>core/socket.rs\<close>) and becomes the parent process, which forks workers and answers signals and
  worker exits (\<open>core/multiprocess.rs\<close>). A worker (\<open>core/worker.rs\<close>) registers the handlers, serves the
  socket and, for each request, checks that it is not draining (\<open>core/reload.rs\<close>), converts the axum
  request (\<open>http/request.rs\<close>), runs the chain, finds the route and runs its Python handler
  (\<open>core/interpreter.rs\<close>), whose answer it takes from a response slot (\<open>http/response.rs\<close>). Around this
  path stand libraries a handler uses: streaming and WebSocket bodies, forms, static files, caches,
  pub/sub channels, presence and heartbeats, background and blocking executors, dependency injection,
  database sessions, an HTTP and a Redis client, metrics, logging and small helpers.

  \<^bold>\<open>Foundations.\<close> \<open>Prelude\<close>: strings as UTF-8 bytes, words, clocks, results (\<open>Ok\<close>, \<open>Err\<close>), hash maps as
  association lists, and the lemmas on them. \<open>Hex\<close>, \<open>Utf8\<close>: printing in base 16 and lossy decoding. \<open>Float64\<close>:
  rounding to double precision, with error bounds.
  Interfaces are locales. \<open>codec\<close> (\<open>Prelude\<close>; printing and reading, interpreted on decimals, hex, base64,
  big-endian bytes, method, level and status names). \<open>machine\<close>, \<open>transitions\<close> and \<open>simulation\<close> (\<open>Machines\<close>;
  components with an invariant, as calls or as steps of threads, and refinements; interpreted on presence,
  topics, database contexts and pools, WebSocket connections, object pools, the response cache, heartbeats,
  the executor and its calls, the blocking runner, the circuit breaker and the threads of the static cache). \<open>size_limited\<close> (\<open>Cache_Core\<close>;
  on the route cache, the JSON cache and the cache of static files), \<open>well_behaved\<close> (\<open>Middleware_Chain\<close>; on
  every built-in middleware), \<open>limiter\<close> (\<open>Rate_Limit\<close>; on its three algorithms), \<open>registry\<close> and \<open>store\<close>
  (\<open>Registry\<close>; on channels and broadcast channels, on contexts, singletons, handlers and the state of a
  middleware context), \<open>context_op\<close> (\<open>Db_Context\<close>; on every operation of a database context).

  \<^bold>\<open>The request path.\<close>
  \<^item> \<open>Http_Method\<close> (\<open>http/method.rs\<close>, \<open>http/headers.rs\<close>), \<open>Routing\<close> (\<open>routing/route.rs\<close>, \<open>routing/router.rs\<close>),
    \<open>Route_Cache\<close> (\<open>routing/cache.rs\<close>): which routes are accepted, that an added route is the one found,
    that path conversion keeps the segments, that the cache stays within its size and evicts an entry
    with the oldest access stamp. \<open>Cache_Races\<close>: what becomes of the bounds when threads interleave within
    an operation.
  \<^item> \<open>Middleware_Chain\<close> and \<open>Context_Api\<close> (\<open>middleware/chain.rs\<close>): contexts, the chain with its
    short circuit and its error path, and the methods Python sees. \<open>Cors\<close>, \<open>Rate_Limit\<close>, \<open>Header_Middleware\<close>,
    \<open>Basic_Auth\<close>, \<open>Circuit_Breaker\<close>, \<open>Cache_Middleware\<close>, \<open>Log_Middleware\<close> (\<open>middleware/builtin.rs\<close>): the
    decision each makes, with quotas, state machines and the base64 codec; \<open>Server_Config\<close>
    (\<open>middleware/mod.rs\<close>, \<open>core/server.rs\<close>): the objects of Python that configure them.
  \<^item> \<open>Http_Request\<close>, \<open>Multipart\<close>, \<open>Http_Response\<close>, \<open>Response_Api\<close>, \<open>Sse\<close>, \<open>Websocket\<close>, \<open>Json_Values\<close>, \<open>Json_Api\<close>
    (\<open>http/\<close>, \<open>utils/json.rs\<close>): parsing and printing, with round trips for multipart bodies, server-sent
    events and JSON, and the framing of every response.
  \<^item> \<open>Interpreter\<close> (\<open>core/interpreter.rs\<close>), \<open>Worker\<close>, \<open>Serving\<close> and \<open>Path_Params\<close> (\<open>core/worker.rs\<close>):
    the whole request handler, and the way from \<open>add_route\<close>, for plain paths and for paths with parameters,
    to the answer of that route's handler. \<open>Rate_Serving\<close>: the rate limiter in front of the handlers bounds how
    often Python runs for a client.

  \<^bold>\<open>Processes.\<close> \<open>Reload\<close>, \<open>Reload_Api\<close> (\<open>core/reload.rs\<close>): health, the in-flight counter and a step relation
  that interleaves requests with a drain. \<open>Supervisor\<close> (\<open>core/multiprocess.rs\<close>, \<open>core/server.rs\<close>): the parent
  with both reloads, shutdown and the wait with a deadline; no worker is forgotten, and the parent stops.
  \<open>Worker_Process\<close>: when a worker ends after a signal, and what this means for shutdown and reload.
  \<open>Global_State\<close> (\<open>core/global.rs\<close>, \<open>core/runtime.rs\<close>): the singletons of a process, what a worker sets up before
  it serves, and what the threads that replace processes outside Unix lack. \<open>Socket\<close>: the system calls that
  open the socket.

  \<^bold>\<open>Services.\<close> \<open>Channel\<close>, \<open>Broadcast\<close>, \<open>Heartbeat\<close>, \<open>Presence\<close> (\<open>realtime/\<close>): topic patterns against a
  relational specification, the matcher as a refinement of a set of subscriptions, deduplication, the
  consistency of presence and what a flushed presence diff says. \<open>Tasks\<close>, \<open>Executor\<close>, \<open>Blocking_Runner\<close> (\<open>core/tasks.rs\<close>,
  \<open>core/blocking_executor.rs\<close>, \<open>core/blocking.rs\<close>): thread pools as step relations, with the life of a task,
  the order of a queue, what the parallel map returns and the deadlock of a bounded queue. \<open>Db_Context\<close>, \<open>Db_Session\<close>, \<open>Db_Operations\<close>, \<open>Db_Transaction\<close>, \<open>Db_Pool\<close>, \<open>Db_Config\<close>,
  \<open>Row_Converter\<close> (\<open>database/\<close>): transactions per request and the protocol of a transaction object, what is left when a step fails, conversion at its width.
  \<open>Db_Atomicity\<close>: over the laws of a transactional database whose client may also refuse a statement by itself, what a
  request publishes when it is finalized.
  \<open>Json_Cache\<close>, \<open>Static_Files\<close> (\<open>fast_path/\<close>): bounds, expiry, confinement to the directory, conditional
  requests; the file system answers by path, so a symbolic link below the directory is followed. \<open>Di_Context\<close>, \<open>Memory_Pool\<close>, \<open>Telemetry\<close>, \<open>Logging\<close>, \<open>Http_Client\<close>, \<open>Redis_Client\<close>, \<open>Grpc\<close>,
  \<open>Crypto_Utils\<close>, \<open>Hash_Utils\<close>, \<open>Pagination\<close>, \<open>Str_Utils\<close>, \<open>Time_Utils\<close>: the remaining modules. \<open>Python_Module\<close>
  (\<open>lib.rs\<close> and the signatures of the constructors): the names Python finds, and that the defaults of the signatures
  are those of the Rust constructors. This theory holds the
  property that spans authentication, the chain, the worker and the response on the wire.

  \<^bold>\<open>How the code is modelled.\<close>
  \<^item> A struct is a record, an enum a datatype, \<open>Result\<close> a sum with \<open>Err\<close> and \<open>Ok\<close>, \<open>Option\<close> an option. A method
    with \<open>&mut self\<close> or interior mutability returns the updated record. An operation under one lock or on
    one atomic is one step; where threads interleave between operations there is a step relation.
  \<^item> Integers whose overflow can be observed are words of their width with the wrap-around of the release
    build; other counts are natural numbers. The release profile sets \<open>panic = "abort"\<close>, so a panic ends
    the process: it is \<open>None\<close>, or the step has no successor.
  \<^item> The arithmetic of the rate limiter on \<open>f64\<close> rounds every operation to the nearest double (\<open>Float64\<close>, normal
    range). Elsewhere \<open>f64\<close> is an exact real number; NaN is outside the model, except where \<open>None\<close> is said to stand for
    a non-finite number. \<open>to_lowercase\<close> and \<open>to_uppercase\<close> act on ASCII letters; \<open>Str_Utils\<close> instead takes
    the Unicode tables as a parameter. A hash map is an association list with distinct keys, whose order is
    the order of first insertion; properties do not depend on it unless they say so.
  \<^item> Code that is not in the repository is a parameter: matchit, xxhash, tokio's channels, axum's body reader,
    the http crate's syntax checks, percent and form decoding, base64, the JSON codec, signature schemes,
    database drivers and pools, the file system, the operating system and Python itself. Laws a property
    needs of a parameter are premises of it, and the witness of the property satisfies them with a concrete
    instance.
  \<^item> A parallel call of the executor is one call on an executor with no other work; the queue it sends to is
    shared in the program, and items of other callers would also fill it.
  \<^item> Loops are recursion. Four may run for ever and are partial functions into an option, where \<open>None\<close> is not
    returning: stepping a coroutine (a lemma says exactly when it returns), reading a channel or a
    broadcast until it is empty, and the parent's loop (it is shown to return once a shutdown is requested). No definition uses fuel.

  \<^bold>\<open>Not modelled.\<close> The module declarations and re-exports of \<open>lib.rs\<close> and the \<open>mod.rs\<close> files; how the threads outside
  Unix serve and are joined, and \<open>AsyncTaskRunner\<close>, which are calls of axum and tokio; most \<open>__repr__\<close> methods, the wrapper
  structs around a configuration and getters that return a field; the text chrono prints for the time of a log
  entry; the Python package. They hold no logic beyond the calls they forward.

  \<^bold>\<open>What could come next.\<close> The after-request middleware together with the response caches; rounding for
  the presence timestamps; several callers on one executor; the priority matchit gives to static
  segments when several patterns match a path.
\<close>

subsection \<open>Authentication in front of the handlers\<close>

text \<open>
  \<^bold>\<open>C1\<close> Basic authentication protects the whole application: with \<open>BasicAuthMiddleware\<close> first in the
  chain, a wire request without a registered user and password in its \<open>Authorization\<close> header is
  answered on the wire with status 401, whatever the path and the rest of the chain are; no
  other middleware and no Python code runs, and no state changes. If the realm makes the challenge an
  invalid header value, the requests that get the challenge are answered with 500 instead, and still nothing runs.
\<close>

theorem auth_protects_handlers:
  fixes lib :: "('m, 'f, 'g, 'q, 'b, 'p) worker_libs"
  assumes "\<not> (\<exists>h u pw. header_get (rq_headers (request_from_axum (wl_web lib) req)) ''authorization'' = Some h \<and>
               decode_basic_auth h = Some (u, pw) \<and> map_of (ba_credentials b) u = Some pw)"
    and "ch_before (as_middleware st) = basic_auth_middleware b # post"
    and "name_ok (wl_http lib) ''content-type''" "value_ok (wl_http lib) ''text/plain''"
    and "name_ok (wl_http lib) ''WWW-Authenticate''"
  shows "\<exists>res. handle_request_inner lib st now req w p = Some (res, w, p) \<and>
           hr_status res = (if malformed (header_get (rq_headers (request_from_axum (wl_web lib) req)) ''authorization'') \<or>
                               value_ok (wl_http lib) (www_authenticate b) then 401 else 500)"
proof -
  let ?c = "request_context lib now (request_from_axum (wl_web lib) req)"
  have h: "get_header ?c n = header_get (rq_headers (request_from_axum (wl_web lib) req)) n" for n
    by (simp add: request_context_def context_new_def get_header_def header_get_def headers_map_def Let_def)
  have "\<exists>m. run_chain (mc_path ?c) (mc_method ?c) (basic_auth_middleware b # post) ?c w =
      (Response (if malformed (get_header ?c ''authorization'') then unauthorized m
                 else with_header ''WWW-Authenticate'' (www_authenticate b) (unauthorized m)), ?c, w)"
    by (rule run_chain_basic_rejection) (use assms(1) in \<open>simp add: h\<close>)
  then show ?thesis
    using assms(3-5)
    by (auto simp: assms(2) Let_def handle_request_inner_def is_empty_before_def execute_before_def h
        middleware_response_to_hyper_def mresp_defs valid_status_def simp del: run_chain.simps)
qed

text \<open>A wrong password (\<open>ann:no\<close> where \<open>ann:pw\<close> is registered) in front of an application with one registered handler.\<close>

theorem auth_protects_handlers_witness:
  "let b = add_user ''ann'' ''pw'' (basic_auth_new ''Area'');
       st = \<lparr>as_router = router_new exact_matchit ''/'', as_middleware = chain_new\<lparr>ch_before := [basic_auth_middleware b]\<rparr>,
             as_registry = [(0, 1, False)]\<rparr>;
       req = \<lparr>ar_method = ''GET'', ar_path_query = Some (''/a'', None), ar_headers = [(''authorization'', Some ''Basic YW5uOm5v'')], ar_body = ()\<rparr>
   in decode_basic_auth ''Basic YW5uOm5v'' = Some (''ann'', ''no'') \<and>
      (\<exists>res. handle_request_inner number_lib st 0 req () [] = Some (res, (), []) \<and> hr_status res = 401)"
proof -
  have d: "decode_basic_auth ''Basic YW5uOm5v'' = Some (''ann'', ''no'')" by code_simp
  let ?b = "add_user ''ann'' ''pw'' (basic_auth_new ''Area'')"
  let ?st = "\<lparr>as_router = router_new exact_matchit ''/'', as_middleware = chain_new\<lparr>ch_before := [basic_auth_middleware ?b]\<rparr>,
             as_registry = [(0, 1, False)]\<rparr>"
  let ?req = "\<lparr>ar_method = ''GET'', ar_path_query = Some (''/a'', None), ar_headers = [(''authorization'', Some ''Basic YW5uOm5v'')], ar_body = ()\<rparr>"
  have "\<exists>res. handle_request_inner number_lib ?st 0 ?req () [] = Some (res, (), []) \<and>
      hr_status res = (if malformed (header_get (rq_headers (request_from_axum (wl_web number_lib) ?req)) ''authorization'') \<or>
                          value_ok (wl_http number_lib) (www_authenticate ?b) then 401 else 500)"
    by (rule auth_protects_handlers [where post = "[]"])
      (simp_all add: d add_user_def basic_auth_new_def request_from_axum_def request_new_def from_axum_def header_from_axum_def header_get_def number_lib_def str_simps Let_def)
  moreover have "value_ok (wl_http number_lib) x" for x by (simp add: number_lib_def)
  ultimately show ?thesis using d unfolding Let_def by auto
qed

end
